(* ===== verification/Prelude.thy ===== *)
theory Prelude
  imports Main "HOL-Library.Char_ord" "HOL-Library.List_Lexorder" "HOL-Library.Product_Lexorder"
    "HOL-Library.Multiset"
begin

text \<open>
  Shared vocabulary of the development: Python exceptions as values, results that are
  either an exception or a value, the ASCII part of Python's string methods, decimal
  printing of integers, and the four SQL statement shapes the storage layer uses on a
  table (a list of rows in rowid order): \<open>SELECT .. WHERE\<close>, \<open>UPDATE .. WHERE\<close>,
  \<open>INSERT OR IGNORE\<close> and \<open>DELETE .. WHERE\<close>, with the generic lemmas on them.
\<close>

named_theorems result_simps \<open>equations that run the result monad\<close>
named_theorems table_simps \<open>equations for statements on tables\<close>

section \<open>Exceptions and results\<close>

datatype exc =
    ValueError string
  | TypeError string
  | KeyError string
  | OverflowError string
  | ZeroDivisionError string
  | AssertionError string
  | IntegrityError string
  | OrderSafetyGateError string
  | ExitPolicyError string
  | DuplicateSignalError string
  | BrokerError string string
  | RuntimeError string
  | KisHttpError int "(string \<times> string) list"

text \<open>The class name, as \<open>type(exc).__name__\<close> prints it.\<close>

fun exc_name :: "exc \<Rightarrow> string" where
  "exc_name (ValueError _) = ''ValueError''"
| "exc_name (TypeError _) = ''TypeError''"
| "exc_name (KeyError _) = ''KeyError''"
| "exc_name (OverflowError _) = ''OverflowError''"
| "exc_name (ZeroDivisionError _) = ''ZeroDivisionError''"
| "exc_name (AssertionError _) = ''AssertionError''"
| "exc_name (IntegrityError _) = ''IntegrityError''"
| "exc_name (OrderSafetyGateError _) = ''OrderSafetyGateError''"
| "exc_name (ExitPolicyError _) = ''ExitPolicyError''"
| "exc_name (DuplicateSignalError _) = ''DuplicateSignalError''"
| "exc_name (BrokerError n _) = n"
| "exc_name (RuntimeError _) = ''RuntimeError''"
| "exc_name (KisHttpError _ _) = ''KisHttpError''"

type_synonym 'a result = "exc + 'a"

definition rbind :: "'a result \<Rightarrow> ('a \<Rightarrow> 'b result) \<Rightarrow> 'b result" where
  "rbind r f = (case r of Inl e \<Rightarrow> Inl e | Inr x \<Rightarrow> f x)"

text \<open>\<open>if bad: raise e\<close>, in front of the rest of a function.\<close>

definition guard_else :: "bool \<Rightarrow> exc \<Rightarrow> 'b result \<Rightarrow> 'b result" where
  "guard_else bad e k = (if bad then Inl e else k)"

lemma rbind_Inl [simp, result_simps]: "rbind (Inl e) f = Inl e"
  by (simp add: rbind_def)

lemma rbind_Inr [simp, result_simps]: "rbind (Inr x) f = f x"
  by (simp add: rbind_def)

lemma rbind_eq_Inr: "rbind r f = Inr y \<longleftrightarrow> (\<exists>x. r = Inr x \<and> f x = Inr y)"
  by (cases r) simp_all

lemma rbind_eq_Inl: "rbind r f = Inl e \<longleftrightarrow> r = Inl e \<or> (\<exists>x. r = Inr x \<and> f x = Inl e)"
  by (cases r) simp_all

lemma guard_else_True [simp, result_simps]: "guard_else True e k = Inl e"
  by (simp add: guard_else_def)

lemma guard_else_False [simp, result_simps]: "guard_else False e k = k"
  by (simp add: guard_else_def)

lemma guard_else_eq_Inr: "guard_else bad e k = Inr y \<longleftrightarrow> \<not> bad \<and> k = Inr y"
  by (simp add: guard_else_def)

lemma guard_else_eq_Inl: "guard_else bad e k = Inl e' \<longleftrightarrow> bad \<and> e' = e \<or> \<not> bad \<and> k = Inl e'"
  by (auto simp: guard_else_def)

lemmas result_iffs = rbind_eq_Inr rbind_eq_Inl guard_else_eq_Inr guard_else_eq_Inl

section \<open>Strings\<close>

definition ch_code :: "char \<Rightarrow> nat" where
  "ch_code c = of_char c"

definition is_space_char :: "char \<Rightarrow> bool" where
  "is_space_char c = (let n = ch_code c in 9 \<le> n \<and> n \<le> 13 \<or> 28 \<le> n \<and> n \<le> 32 \<or> n = 133 \<or> n = 160)"

definition is_digit_char :: "char \<Rightarrow> bool" where
  "is_digit_char c = (let n = ch_code c in 48 \<le> n \<and> n \<le> 57)"

definition is_upper_char :: "char \<Rightarrow> bool" where
  "is_upper_char c = (let n = ch_code c in 65 \<le> n \<and> n \<le> 90)"

definition is_lower_char :: "char \<Rightarrow> bool" where
  "is_lower_char c = (let n = ch_code c in 97 \<le> n \<and> n \<le> 122)"

definition is_alnum_char :: "char \<Rightarrow> bool" where
  "is_alnum_char c = (is_digit_char c \<or> is_upper_char c \<or> is_lower_char c)"

definition lstrip :: "string \<Rightarrow> string" where
  "lstrip s = dropWhile is_space_char s"

definition strip :: "string \<Rightarrow> string" where
  "strip s = rev (dropWhile is_space_char (rev (lstrip s)))"

definition lower :: "string \<Rightarrow> string" where
  "lower s = map (\<lambda>c. if is_upper_char c then char_of (ch_code c + 32) else c) s"

definition upper :: "string \<Rightarrow> string" where
  "upper s = map (\<lambda>c. if is_lower_char c then char_of (ch_code c - 32) else c) s"

text \<open>\<open>str.isdigit()\<close> is false on the empty string.\<close>

definition isdigit :: "string \<Rightarrow> bool" where
  "isdigit s = (s \<noteq> [] \<and> list_all is_digit_char s)"

definition digit_char :: "nat \<Rightarrow> char" where
  "digit_char n = char_of (48 + n)"

definition digit_val :: "char \<Rightarrow> nat" where
  "digit_val c = ch_code c - 48"

fun show_nat :: "nat \<Rightarrow> string" where
  "show_nat n = (if n < 10 then [digit_char n] else show_nat (n div 10) @ [digit_char (n mod 10)])"

declare show_nat.simps [simp del]

definition show_int :: "int \<Rightarrow> string" where
  "show_int i = (if i < 0 then CHR ''-'' # show_nat (nat (- i)) else show_nat (nat i))"

fun join_space :: "string list \<Rightarrow> string" where
  "join_space [] = []"
| "join_space [x] = x"
| "join_space (x # xs) = x @ '' '' @ join_space xs"

text \<open>The text of the exception, as \<open>str(exc)\<close> prints it.\<close>

fun exc_text :: "exc \<Rightarrow> string" where
  "exc_text (ValueError m) = m"
| "exc_text (TypeError m) = m"
| "exc_text (KeyError m) = m"
| "exc_text (OverflowError m) = m"
| "exc_text (ZeroDivisionError m) = m"
| "exc_text (AssertionError m) = m"
| "exc_text (IntegrityError m) = m"
| "exc_text (OrderSafetyGateError m) = m"
| "exc_text (ExitPolicyError m) = m"
| "exc_text (DuplicateSignalError m) = m"
| "exc_text (BrokerError _ m) = m"
| "exc_text (RuntimeError m) = m"
| "exc_text (KisHttpError code details) =
     (let summary = join_space (map (\<lambda>(k, v). k @ ''='' @ v) (filter (\<lambda>(k, v). v \<noteq> []) details))
      in ''KIS HTTP '' @ show_int code @ (if summary = [] then [] else '' ('' @ summary @ '')''))"

definition read_nat :: "string \<Rightarrow> nat" where
  "read_nat s = foldl (\<lambda>a c. 10 * a + digit_val c) 0 s"

lemma digit_val_digit_char [simp]: "n < 10 \<Longrightarrow> digit_val (digit_char n) = n"
  by (simp add: digit_val_def digit_char_def ch_code_def)

lemma is_digit_digit_char [simp]: "n < 10 \<Longrightarrow> is_digit_char (digit_char n)"
  by (simp add: is_digit_char_def digit_char_def ch_code_def Let_def)

lemma read_nat_snoc: "read_nat (s @ [c]) = 10 * read_nat s + digit_val c"
  by (simp add: read_nat_def)

lemma read_show_nat [simp]: "read_nat (show_nat n) = n"
proof (induction n rule: show_nat.induct)
  case (1 n)
  then show ?case
    by (cases "n < 10") (simp_all add: show_nat.simps [of n] read_nat_snoc, simp add: read_nat_def)
qed

lemma isdigit_show_nat [simp]: "isdigit (show_nat n)"
proof (induction n rule: show_nat.induct)
  case (1 n)
  then show ?case
    by (cases "n < 10") (simp_all add: show_nat.simps [of n] isdigit_def)
qed

lemma show_nat_inject [simp]: "show_nat m = show_nat n \<longleftrightarrow> m = n"
  by (metis read_show_nat)

text \<open>
  \<open>int(s)\<close> of a string: surrounding white space, one optional sign, decimal digits with single
  underscores between them.
\<close>

fun digit_groups :: "bool \<Rightarrow> string \<Rightarrow> bool" where
  "digit_groups after_digit [] = after_digit"
| "digit_groups after_digit (c # cs) =
     (if is_digit_char c then digit_groups True cs
      else c = CHR ''_'' \<and> after_digit \<and> digit_groups False cs)"

definition unsigned_of_str :: "string \<Rightarrow> int option" where
  "unsigned_of_str s = (if digit_groups False s then Some (int (read_nat (filter is_digit_char s))) else None)"

definition int_of_str :: "string \<Rightarrow> int option" where
  "int_of_str s = (case strip s of [] \<Rightarrow> None
     | c # cs \<Rightarrow> if c = CHR ''-'' then map_option uminus (unsigned_of_str cs)
                else if c = CHR ''+'' then unsigned_of_str cs else unsigned_of_str (c # cs))"

lemma digit_groups_digits: "list_all is_digit_char s \<Longrightarrow> digit_groups b s = (b \<or> s \<noteq> [])"
  by (induction s arbitrary: b) auto

lemma is_digit_not_space: "is_digit_char c \<Longrightarrow> \<not> is_space_char c"
  by (auto simp: is_digit_char_def is_space_char_def Let_def)

lemma strip_digits: "list_all is_digit_char s \<Longrightarrow> strip s = s"
proof -
  assume d: "list_all is_digit_char s"
  then have "\<forall>c\<in>set s. \<not> is_space_char c" by (auto simp: list_all_iff is_digit_not_space)
  then have "dropWhile is_space_char s = s" "dropWhile is_space_char (rev s) = rev s"
    by (auto simp: dropWhile_eq_self_iff hd_rev)
  then show "strip s = s" by (simp add: strip_def lstrip_def)
qed

lemma int_of_show_nat: "int_of_str (show_nat n) = Some (int n)"
proof -
  have d: "list_all is_digit_char (show_nat n)" "show_nat n \<noteq> []"
    using isdigit_show_nat [of n] by (auto simp: isdigit_def)
  obtain c cs where c: "show_nat n = c # cs" using d(2) by (cases "show_nat n") auto
  have "c \<noteq> CHR ''-''" "c \<noteq> CHR ''+''"
    using d(1) c by (auto simp: is_digit_char_def ch_code_def Let_def)
  moreover have "filter is_digit_char (show_nat n) = show_nat n"
    using d(1) by (auto simp: list_all_iff intro: filter_True)
  then have "unsigned_of_str (show_nat n) = Some (int n)"
    using d by (simp add: unsigned_of_str_def digit_groups_digits)
  ultimately show ?thesis
    using c strip_digits [OF d(1)] by (simp add: int_of_str_def)
qed

lemma strip_eq_Nil: "strip s = [] \<longleftrightarrow> list_all is_space_char s"
proof (cases "dropWhile is_space_char s")
  case Nil
  then show ?thesis by (auto simp: strip_def lstrip_def list_all_iff dest: set_dropWhileD)
next
  case (Cons c cs)
  then have "\<not> is_space_char c" by (simp add: dropWhile_eq_Cons_conv)
  moreover have "c \<in> set s" using Cons set_dropWhileD [of c is_space_char s] by simp
  ultimately show ?thesis by (auto simp: strip_def lstrip_def Cons list_all_iff)
qed

text \<open>Rewriting a string method on a literal.\<close>

lemmas string_eval = strip_eq_Nil is_space_char_def is_digit_char_def is_upper_char_def
  is_lower_char_def ch_code_def isdigit_def Let_def

lemma strip_empty [simp]: "strip [] = []"
  by (simp add: strip_def lstrip_def)

section \<open>SQL statements on tables\<close>

type_synonym 'r table = "'r list"

definition select_where :: "('r \<Rightarrow> bool) \<Rightarrow> 'r table \<Rightarrow> 'r list" where
  "select_where p t = filter p t"

definition fetchone :: "('r \<Rightarrow> bool) \<Rightarrow> 'r table \<Rightarrow> 'r option" where
  "fetchone p t = List.find p t"

definition update_where :: "('r \<Rightarrow> bool) \<Rightarrow> ('r \<Rightarrow> 'r) \<Rightarrow> 'r table \<Rightarrow> 'r table" where
  "update_where p f t = map (\<lambda>r. if p r then f r else r) t"

definition delete_where :: "('r \<Rightarrow> bool) \<Rightarrow> 'r table \<Rightarrow> 'r table" where
  "delete_where p t = filter (\<lambda>r. \<not> p r) t"

definition exists_where :: "('r \<Rightarrow> bool) \<Rightarrow> 'r table \<Rightarrow> bool" where
  "exists_where p t = list_ex p t"

text \<open>\<open>cursor.rowcount\<close> of an UPDATE or DELETE.\<close>

definition rowcount :: "('r \<Rightarrow> bool) \<Rightarrow> 'r table \<Rightarrow> nat" where
  "rowcount p t = length (filter p t)"

text \<open>
  \<open>INSERT OR IGNORE\<close>: the row is dropped when it clashes with a stored row on a
  PRIMARY KEY or UNIQUE column (\<open>clash r r'\<close>), and the flag says whether it was inserted.
\<close>

definition insert_or_ignore :: "('r \<Rightarrow> 'r \<Rightarrow> bool) \<Rightarrow> 'r \<Rightarrow> 'r table \<Rightarrow> bool \<times> 'r table" where
  "insert_or_ignore clash r t = (if list_ex (clash r) t then (False, t) else (True, t @ [r]))"

lemma fetchone_SomeD: "fetchone p t = Some r \<Longrightarrow> r \<in> set t \<and> p r"
  by (auto simp: fetchone_def find_Some_iff)

lemma fetchone_None [table_simps]: "fetchone p t = None \<longleftrightarrow> (\<forall>r\<in>set t. \<not> p r)"
  by (auto simp: fetchone_def find_None_iff)

lemma exists_where_iff [table_simps]: "exists_where p t \<longleftrightarrow> (\<exists>r\<in>set t. p r)"
  by (simp add: exists_where_def list_ex_iff)

lemma rowcount_pos [table_simps]: "0 < rowcount p t \<longleftrightarrow> (\<exists>r\<in>set t. p r)"
  by (auto simp: rowcount_def filter_empty_conv)

lemma rowcount_zero [table_simps]: "rowcount p t = 0 \<longleftrightarrow> (\<forall>r\<in>set t. \<not> p r)"
  by (auto simp: rowcount_def filter_empty_conv)

lemma set_update_where [table_simps]:
  "set (update_where p f t) = {f r |r. r \<in> set t \<and> p r} \<union> {r \<in> set t. \<not> p r}"
  by (auto simp: update_where_def)

lemma set_delete_where [table_simps]: "set (delete_where p t) = {r \<in> set t. \<not> p r}"
  by (auto simp: delete_where_def)

lemma set_select_where [table_simps]: "set (select_where p t) = {r \<in> set t. p r}"
  by (auto simp: select_where_def)

lemma length_update_where [simp]: "length (update_where p f t) = length t"
  by (simp add: update_where_def)

lemma update_where_id [simp]: "\<forall>r\<in>set t. \<not> p r \<Longrightarrow> update_where p f t = t"
  by (simp add: update_where_def map_idI)

lemma map_update_where:
  "(\<And>r. k (f r) = k r) \<Longrightarrow> map k (update_where p f t) = map k t"
  by (auto simp: update_where_def)

lemma bex_update_where: "(\<exists>r\<in>set (update_where p f t). q r) \<longleftrightarrow> (\<exists>r\<in>set t. q (if p r then f r else r))"
  by (induction t) (auto simp: update_where_def)

lemma list_ex_update_where:
  "(\<And>r. q (f r) = q r) \<Longrightarrow> list_ex q (update_where p f t) = list_ex q t"
  by (induction t) (auto simp: update_where_def)

lemma filter_update_where_other:
  "(\<And>r. p r \<Longrightarrow> \<not> q r \<and> \<not> q (f r)) \<Longrightarrow> filter q (update_where p f t) = filter q t"
  by (induction t) (auto simp: update_where_def)

lemma insert_or_ignore_cases:
  assumes "insert_or_ignore clash r t = (b, t')"
  obtains (ignored) "\<not> b" "t' = t" "\<exists>r'\<in>set t. clash r r'"
    | (inserted) b "t' = t @ [r]" "\<forall>r'\<in>set t. \<not> clash r r'"
  using assms by (auto simp: insert_or_ignore_def list_ex_iff split: if_splits)

lemma fetchone_update_where:
  "(\<And>r. q (f r) = q r) \<Longrightarrow> fetchone q (update_where p f t)
     = map_option (\<lambda>r. if p r then f r else r) (fetchone q t)"
  by (induction t) (auto simp: fetchone_def update_where_def)

lemma fetchone_append:
  "fetchone p (t @ u) = (case fetchone p t of Some r \<Rightarrow> Some r | None \<Rightarrow> fetchone p u)"
  by (induction t) (auto simp: fetchone_def)

lemma fetchone_Cons: "fetchone p (r # t) = (if p r then Some r else fetchone p t)"
  by (simp add: fetchone_def)

lemma fetchone_Nil [simp]: "fetchone p [] = None"
  by (simp add: fetchone_def)

lemma sum_list_sort_key [simp]:
  fixes g :: "'r \<Rightarrow> 'n :: comm_monoid_add"
  shows "sum_list (map g (sort_key k t)) = sum_list (map g t)"
  by (metis mset_map mset_sort sum_mset_sum_list)

text \<open>A key column that is PRIMARY KEY has no two rows with the same value.\<close>

definition keyed :: "('r \<Rightarrow> 'k) \<Rightarrow> 'r table \<Rightarrow> bool" where
  "keyed k t = distinct (map k t)"

lemma keyed_Nil [simp]: "keyed k []"
  by (simp add: keyed_def)

lemma keyed_snoc: "keyed k (t @ [r]) \<longleftrightarrow> keyed k t \<and> (\<forall>r'\<in>set t. k r' \<noteq> k r)"
  by (auto simp: keyed_def image_iff)

lemma keyed_update_where:
  "keyed k t \<Longrightarrow> (\<And>r. k (f r) = k r) \<Longrightarrow> keyed k (update_where p f t)"
  by (simp add: keyed_def map_update_where)

lemma keyed_delete_where: "keyed k t \<Longrightarrow> keyed k (delete_where p t)"
  unfolding keyed_def delete_where_def by (rule distinct_map_filter)

lemma keyed_unique: "keyed k t \<Longrightarrow> r \<in> set t \<Longrightarrow> r' \<in> set t \<Longrightarrow> k r = k r' \<Longrightarrow> r = r'"
  by (auto simp: keyed_def distinct_map dest: inj_onD)

lemma keyed_fetchone:
  assumes "keyed k t" and "r \<in> set t"
  shows "fetchone (\<lambda>r'. k r' = k r) t = Some r"
proof (cases "fetchone (\<lambda>r'. k r' = k r) t")
  case None
  with assms(2) show ?thesis by (auto simp: fetchone_None)
next
  case (Some r')
  with assms show ?thesis by (auto dest!: fetchone_SomeD dest: keyed_unique)
qed

end
