(* ===== verification/PyFloat.thy ===== *)
theory PyFloat
  imports Prelude "HOL-Library.Log_Nat"
begin

text \<open>
  Python's \<open>float\<close>: IEEE 754 binary64 with round-to-nearest, ties to even. A finite value is
  the rational it denotes; every arithmetic operation rounds the exact result (\<open>rnd64\<close>)
  and overflows to an infinity. The sign of zero is not kept: no operation used by the
  program observes it. The rounding laws the components rely on (monotone, odd,
  idempotent, and exact on zero) are the locale \<open>rounding\<close>, interpreted on \<open>rnd64\<close>.
\<close>

section \<open>Rounding to binary64\<close>

definition round_even :: "rat \<Rightarrow> int" where
  "round_even x = (let f = \<lfloor>x\<rfloor>; r = x - of_int f in
     if r < 1 / 2 then f else if r > 1 / 2 then f + 1 else if even f then f else f + 1)"

definition p2 :: "int \<Rightarrow> rat" where
  "p2 k = (if 0 \<le> k then 2 ^ nat k else 1 / 2 ^ nat (- k))"

text \<open>The binary exponent of a positive rational: \<open>p2 (ilog2 x) \<le> x < p2 (ilog2 x + 1)\<close>.\<close>

definition ilog2 :: "rat \<Rightarrow> int" where
  "ilog2 x = (if 1 \<le> x then bitlen \<lfloor>x\<rfloor> - 1 else - bitlen (\<lceil>1 / x\<rceil> - 1))"

definition grid_exp :: "rat \<Rightarrow> int" where
  "grid_exp x = max (ilog2 \<bar>x\<bar> - 52) (- 1074)"

definition rnd64 :: "rat \<Rightarrow> rat" where
  "rnd64 x = (if x = 0 then 0 else of_int (round_even (x / p2 (grid_exp x))) * p2 (grid_exp x))"

lemma p2_pos [simp]: "0 < p2 k"
  by (simp add: p2_def)

lemma p2_nonzero [simp]: "p2 k \<noteq> 0"
  by (metis less_irrefl p2_pos)

lemma p2_not_nonpos [simp]: "\<not> p2 k \<le> 0"
  by (simp add: not_le)

lemma p2_0 [simp]: "p2 0 = 1"
  by (simp add: p2_def)

lemma p2_Suc: "p2 (k + 1) = 2 * p2 k"
proof -
  consider "0 \<le> k" | "k = - 1" | "k < - 1" by linarith
  then show ?thesis
  proof cases
    case 1
    then show ?thesis by (simp add: p2_def nat_add_distrib)
  next
    case 2
    then show ?thesis by (simp add: p2_def)
  next
    case 3
    then have "nat (- k) = Suc (nat (- (k + 1)))" by linarith
    with 3 show ?thesis by (simp add: p2_def)
  qed
qed

lemma p2_add_nat: "p2 (k + int n) = 2 ^ n * p2 k"
proof (induction n)
  case 0
  then show ?case by simp
next
  case (Suc n)
  have "p2 (k + int (Suc n)) = p2 ((k + int n) + 1)" by (simp add: ac_simps)
  then show ?case by (simp only: p2_Suc Suc) simp
qed

lemma p2_mono: "j \<le> k \<Longrightarrow> p2 j \<le> p2 k"
proof -
  assume "j \<le> k"
  then have "p2 k = 2 ^ nat (k - j) * p2 j"
    using p2_add_nat [of j "nat (k - j)"] by simp
  moreover have "1 * p2 j \<le> 2 ^ nat (k - j) * p2 j"
    by (rule mult_right_mono) (simp_all add: less_imp_le)
  ultimately show ?thesis by simp
qed

lemma ilog2_bounds:
  assumes "0 < x"
  shows "p2 (ilog2 x) \<le> x \<and> x < p2 (ilog2 x + 1)"
proof (cases "1 \<le> x")
  case True
  let ?n = "\<lfloor>x\<rfloor>"
  have n: "0 < ?n" using True by (simp add: one_le_floor less_le_trans [OF zero_less_one])
  note b = bitlen_bounds [OF n]
  have pos: "0 < bitlen ?n" by (rule ccontr) (use b n in simp)
  have "2 ^ nat (bitlen ?n - 1) \<le> (of_int ?n :: rat)"
    using b by (metis of_int_le_iff of_int_numeral of_int_power)
  then have lo: "2 ^ nat (bitlen ?n - 1) \<le> x" by (meson of_int_floor_le order_trans)
  have "?n + 1 \<le> 2 ^ nat (bitlen ?n)" using b by simp
  then have "(of_int (?n + 1) :: rat) \<le> 2 ^ nat (bitlen ?n)"
    by (metis of_int_le_iff of_int_numeral of_int_power)
  moreover have "x < of_int (?n + 1)" by linarith
  ultimately have hi: "x < 2 ^ nat (bitlen ?n)" by (rule less_le_trans [rotated])
  from True lo hi pos show ?thesis by (simp add: ilog2_def p2_def)
next
  case False
  let ?m = "\<lceil>1 / x\<rceil> - 1"
  let ?k = "nat (bitlen ?m)"
  have "1 < 1 / x" using False assms by (simp add: divide_simps)
  then have m: "0 < ?m" by (simp add: less_ceiling_iff)
  note b = bitlen_bounds [OF m]
  have pos: "0 < bitlen ?m" by (rule ccontr) (use b m in simp)
  have "\<lceil>1 / x\<rceil> \<le> 2 ^ ?k" using b by simp
  then have "1 / x \<le> 2 ^ ?k"
    by (metis ceiling_le_iff of_int_numeral of_int_power)
  then have lo: "1 / 2 ^ ?k \<le> x" using assms by (simp add: divide_simps mult.commute)
  have "2 ^ nat (bitlen ?m - 1) < \<lceil>1 / x\<rceil>" using b by simp
  then have "2 ^ nat (bitlen ?m - 1) < 1 / x"
    by (metis less_ceiling_iff of_int_numeral of_int_power)
  then have hi: "x < 1 / 2 ^ nat (bitlen ?m - 1)" using assms by (simp add: divide_simps mult.commute)
  have e: "ilog2 x = - bitlen ?m" using False by (simp add: ilog2_def)
  have p_lo: "p2 (- bitlen ?m) = 1 / 2 ^ ?k" using pos by (simp add: p2_def)
  have p_hi: "p2 (- bitlen ?m + 1) = 1 / 2 ^ nat (bitlen ?m - 1)"
    using pos by (cases "bitlen ?m = 1") (simp_all add: p2_def)
  show ?thesis unfolding e p_lo p_hi using lo hi by blast
qed

lemma ilog2_mono:
  assumes "0 < x" "x \<le> y"
  shows "ilog2 x \<le> ilog2 y"
proof (rule ccontr)
  assume "\<not> ilog2 x \<le> ilog2 y"
  then have "p2 (ilog2 y + 1) \<le> p2 (ilog2 x)" by (intro p2_mono) simp
  with ilog2_bounds [OF assms(1)] ilog2_bounds [of y] assms show False by linarith
qed

lemma round_even_of_int [simp]: "round_even (of_int n) = n"
  by (simp add: round_even_def)

lemma round_even_near: "of_int (round_even x) - 1 / 2 \<le> x \<and> x \<le> of_int (round_even x) + 1 / 2"
  unfolding round_even_def Let_def by (auto; linarith)

lemma round_even_mono:
  assumes "x \<le> y"
  shows "round_even x \<le> round_even y"
proof (rule ccontr)
  assume "\<not> round_even x \<le> round_even y"
  then have lt: "of_int (round_even y) + 1 \<le> (of_int (round_even x) :: rat)"
    by (metis int_one_le_iff_zero_less linorder_not_le of_int_1 of_int_add of_int_le_iff zless_imp_add1_zle)
  with round_even_near [of x] round_even_near [of y] assms have "x = y" by linarith
  with lt show False by simp
qed

lemma round_even_uminus: "round_even (- x) = - round_even x"
proof (cases "x \<in> \<int>")
  case True
  then obtain n where "x = of_int n" by (auto elim: Ints_cases)
  then show ?thesis using round_even_of_int [of "- n"] by simp
next
  case False
  then have "x \<noteq> of_int \<lfloor>x\<rfloor>" by (metis Ints_of_int)
  then have f: "\<lfloor>- x\<rfloor> = - \<lfloor>x\<rfloor> - 1" by (simp add: floor_minus ceiling_altdef)
  show ?thesis unfolding round_even_def Let_def f by auto
qed

subsection \<open>The laws of the rounding\<close>

lemma grid_exp_uminus [simp]: "grid_exp (- x) = grid_exp x"
  by (simp add: grid_exp_def)

lemma rnd64_uminus: "rnd64 (- x) = - rnd64 x"
  by (simp add: rnd64_def round_even_uminus)

lemma rnd64_0 [simp]: "rnd64 0 = 0"
  by (simp add: rnd64_def)

text \<open>A multiple of the grid step rounds to itself, and rounding never jumps over one.\<close>

lemma rnd64_le_grid:
  assumes "x \<le> of_int n * p2 (grid_exp x)" "x \<noteq> 0"
  shows "rnd64 x \<le> of_int n * p2 (grid_exp x)"
proof -
  have "x / p2 (grid_exp x) \<le> of_int n" using assms(1) by (simp add: pos_divide_le_eq)
  then have "round_even (x / p2 (grid_exp x)) \<le> n" using round_even_mono by fastforce
  then show ?thesis using assms(2) by (simp add: rnd64_def)
qed

lemma rnd64_ge_grid:
  assumes "of_int n * p2 (grid_exp x) \<le> x" "x \<noteq> 0"
  shows "of_int n * p2 (grid_exp x) \<le> rnd64 x"
proof -
  have "of_int n \<le> x / p2 (grid_exp x)" using assms(1) by (simp add: pos_le_divide_eq)
  then have "n \<le> round_even (x / p2 (grid_exp x))" using round_even_mono by fastforce
  then show ?thesis using assms(2) by (simp add: rnd64_def)
qed

lemma rnd64_nonneg: "0 \<le> x \<Longrightarrow> 0 \<le> rnd64 x"
  using rnd64_ge_grid [of 0 x] by (cases "x = 0") simp_all

lemma p2_multiple: "j \<le> k \<Longrightarrow> p2 k = of_int (2 ^ nat (k - j)) * p2 j"
  using p2_add_nat [of j "nat (k - j)"] by simp

lemma rnd64_binade:
  assumes "0 < x" "grid_exp x = ilog2 x - 52"
  shows "p2 (ilog2 x) \<le> rnd64 x \<and> rnd64 x \<le> p2 (ilog2 x + 1)"
proof -
  let ?e = "grid_exp x"
  have m: "p2 (ilog2 x) = of_int (2 ^ nat (ilog2 x - ?e)) * p2 ?e"
    "p2 (ilog2 x + 1) = of_int (2 ^ nat (ilog2 x + 1 - ?e)) * p2 ?e"
    by (rule p2_multiple, simp add: assms(2))+
  show ?thesis using ilog2_bounds [OF assms(1)] assms(1)
      rnd64_ge_grid [of "2 ^ nat (ilog2 x - ?e)" x] rnd64_le_grid [of x "2 ^ nat (ilog2 x + 1 - ?e)"]
    unfolding m by simp
qed

lemma rnd64_small:
  assumes "0 < x" "ilog2 x - 52 \<le> - 1074"
  shows "rnd64 x \<le> p2 (ilog2 x + 1) \<or> rnd64 x \<le> p2 (- 1074)"
proof -
  let ?e = "grid_exp x"
  have e: "?e = - 1074" using assms by (simp add: grid_exp_def)
  show ?thesis
  proof (cases "?e \<le> ilog2 x + 1")
    case True
    then have m: "p2 (ilog2 x + 1) = of_int (2 ^ nat (ilog2 x + 1 - ?e)) * p2 ?e"
      by (rule p2_multiple)
    show ?thesis using ilog2_bounds [OF assms(1)] assms(1)
        rnd64_le_grid [of x "2 ^ nat (ilog2 x + 1 - ?e)"] unfolding m by simp
  next
    case False
    then have "p2 (ilog2 x + 1) \<le> p2 ?e" by (intro p2_mono) simp
    with ilog2_bounds [OF assms(1)] have "x \<le> of_int 1 * p2 ?e" by simp
    then have "rnd64 x \<le> p2 (- 1074)" using rnd64_le_grid [of x 1] assms(1) e by simp
    then show ?thesis ..
  qed
qed

lemma rnd64_mono_pos:
  assumes "0 < x" "x \<le> y"
  shows "rnd64 x \<le> rnd64 y"
proof (cases "grid_exp x = grid_exp y")
  case True
  have "x / p2 (grid_exp y) \<le> y / p2 (grid_exp y)"
    using assms by (simp add: divide_right_mono less_imp_le)
  then show ?thesis using assms True by (auto simp: rnd64_def intro: round_even_mono)
next
  case False
  have le: "ilog2 x \<le> ilog2 y" using assms by (rule ilog2_mono)
  with False assms have y: "grid_exp y = ilog2 y - 52" "- 1074 < ilog2 y - 52" and lt: "ilog2 x < ilog2 y"
    by (auto simp: grid_exp_def max_def split: if_splits)
  have "p2 (ilog2 x + 1) \<le> p2 (ilog2 y)" "p2 (- 1074) \<le> p2 (ilog2 y)"
    using lt y by (auto intro!: p2_mono)
  moreover have "rnd64 x \<le> p2 (ilog2 x + 1) \<or> rnd64 x \<le> p2 (- 1074)"
  proof (cases "ilog2 x - 52 \<le> - 1074")
    case True
    with assms(1) show ?thesis by (rule rnd64_small)
  next
    case False
    then have "grid_exp x = ilog2 x - 52" using assms by (simp add: grid_exp_def)
    with rnd64_binade [OF assms(1)] show ?thesis by blast
  qed
  moreover have "p2 (ilog2 y) \<le> rnd64 y" using rnd64_binade [of y] y(1) assms by simp
  ultimately show ?thesis by linarith
qed

lemma rnd64_mono:
  assumes "x \<le> y"
  shows "rnd64 x \<le> rnd64 y"
proof -
  consider "0 < x" | "x \<le> 0" "0 \<le> y" | "y < 0" using assms by linarith
  then show ?thesis
  proof cases
    case 1
    then show ?thesis using assms by (rule rnd64_mono_pos)
  next
    case 2
    then have "0 \<le> rnd64 (- x)" "0 \<le> rnd64 y" by (simp_all add: rnd64_nonneg)
    then show ?thesis by (simp add: rnd64_uminus)
  next
    case 3
    then have "rnd64 (- y) \<le> rnd64 (- x)" using assms by (intro rnd64_mono_pos) auto
    then show ?thesis by (simp add: rnd64_uminus)
  qed
qed

lemma rnd64_on_grid:
  assumes "x = of_int k * p2 (grid_exp x)"
  shows "rnd64 x = x"
proof (cases "x = 0")
  case False
  have "rnd64 x \<le> of_int k * p2 (grid_exp x)" "of_int k * p2 (grid_exp x) \<le> rnd64 x"
    using rnd64_le_grid [of x k] rnd64_ge_grid [of k x] assms False by simp_all
  then show ?thesis using assms by simp
qed simp

lemma rnd64_exact_less:
  assumes "\<bar>n\<bar> < 2 ^ 53" "- 1074 \<le> e"
  shows "rnd64 (of_int n * p2 e) = of_int n * p2 e"
proof (cases "n = 0")
  case False
  let ?x = "of_int n * p2 e"
  have "\<bar>?x\<bar> = of_int \<bar>n\<bar> * p2 e" by (simp add: abs_mult abs_of_pos)
  also have "\<dots> < of_int (2 ^ 53) * p2 e" by (rule mult_strict_right_mono) (use assms(1) in simp_all)
  also have "\<dots> = p2 (e + int 53)" unfolding p2_add_nat by simp
  finally have lt: "\<bar>?x\<bar> < p2 (e + 53)" by simp
  have "ilog2 \<bar>?x\<bar> < e + 53"
  proof (rule ccontr)
    assume "\<not> ilog2 \<bar>?x\<bar> < e + 53"
    then have "p2 (e + 53) \<le> p2 (ilog2 \<bar>?x\<bar>)" by (intro p2_mono) simp
    with lt ilog2_bounds [of "\<bar>?x\<bar>"] False show False by simp
  qed
  then have "grid_exp ?x \<le> e" using assms(2) by (simp add: grid_exp_def)
  then have "?x = of_int (n * 2 ^ nat (e - grid_exp ?x)) * p2 (grid_exp ?x)"
    using p2_multiple [of "grid_exp ?x" e] by simp
  then show ?thesis by (rule rnd64_on_grid)
qed simp

lemma rnd64_exact:
  assumes "\<bar>n\<bar> \<le> 2 ^ 53" "- 1074 \<le> e"
  shows "rnd64 (of_int n * p2 e) = of_int n * p2 e"
proof (cases "\<bar>n\<bar> < 2 ^ 53")
  case True
  then show ?thesis using assms(2) by (rule rnd64_exact_less)
next
  case False
  with assms(1) have "n = 2 ^ 53 \<or> n = - (2 ^ 53)" by linarith
  then have n: "n = 2 * (n div 2)" and n2: "\<bar>n div 2\<bar> < 2 ^ 53" by auto
  have "of_int n * p2 e = of_int (n div 2) * p2 (e + 1)" by (subst n) (simp add: p2_Suc)
  then show ?thesis using rnd64_exact_less [OF n2, of "e + 1"] assms(2) by simp
qed

lemma rnd64_of_int [simp]: "\<bar>n\<bar> \<le> 2 ^ 53 \<Longrightarrow> rnd64 (of_int n) = of_int n"
  using rnd64_exact [of n 0] by simp

lemma rnd64_grid_bound:
  assumes "0 < x"
  shows "round_even (x / p2 (grid_exp x)) \<le> 2 ^ 53"
proof -
  have "ilog2 x + 1 \<le> grid_exp x + int 53" using assms by (simp add: grid_exp_def)
  then have "p2 (ilog2 x + 1) \<le> p2 (grid_exp x + int 53)" by (rule p2_mono)
  with ilog2_bounds [OF assms] have "x \<le> 2 ^ 53 * p2 (grid_exp x)" unfolding p2_add_nat by simp
  then have "x / p2 (grid_exp x) \<le> of_int (2 ^ 53)" by (simp add: pos_divide_le_eq)
  then show ?thesis using round_even_mono round_even_of_int by metis
qed

lemma rnd64_idem: "rnd64 (rnd64 x) = rnd64 x"
proof -
  have pos: "rnd64 (rnd64 y) = rnd64 y" if "0 < y" for y
  proof -
    let ?n = "round_even (y / p2 (grid_exp y))"
    have "round_even 0 \<le> ?n" using that by (intro round_even_mono) (simp add: less_imp_le)
    then have "\<bar>?n\<bar> \<le> 2 ^ 53" using rnd64_grid_bound [OF that] round_even_of_int [of 0] by simp
    moreover have "- 1074 \<le> grid_exp y" by (simp add: grid_exp_def)
    moreover have "rnd64 y = of_int ?n * p2 (grid_exp y)" using that by (simp add: rnd64_def)
    ultimately show ?thesis using rnd64_exact by metis
  qed
  consider "0 < x" | "x = 0" | "0 < - x" by linarith
  then show ?thesis
  proof cases
    case 3
    from pos [OF this] show ?thesis by (simp add: rnd64_uminus)
  qed (simp_all add: pos)
qed

subsection \<open>What clients use of a rounding\<close>

locale rounding =
  fixes rnd :: "rat \<Rightarrow> rat"
  assumes rnd_mono: "x \<le> y \<Longrightarrow> rnd x \<le> rnd y"
    and rnd_uminus: "rnd (- x) = - rnd x"
    and rnd_idem: "rnd (rnd x) = rnd x"
begin

lemma rnd_zero: "rnd 0 = 0"
  using rnd_uminus [of 0] by simp

lemma rnd_nonneg: "0 \<le> x \<Longrightarrow> 0 \<le> rnd x"
  using rnd_mono [of 0 x] by (simp add: rnd_zero)

lemma rnd_nonpos: "x \<le> 0 \<Longrightarrow> rnd x \<le> 0"
  using rnd_mono [of x 0] by (simp add: rnd_zero)

lemma rnd_below: "rnd y = y \<Longrightarrow> x \<le> y \<Longrightarrow> rnd x \<le> y"
  using rnd_mono [of x y] by simp

lemma rnd_above: "rnd y = y \<Longrightarrow> y \<le> x \<Longrightarrow> y \<le> rnd x"
  using rnd_mono [of y x] by simp

text \<open>Scaling a representable non-negative value by a factor on one side of 1.\<close>

lemma scale_down: "rnd y = y \<Longrightarrow> 0 \<le> y \<Longrightarrow> c \<le> 1 \<Longrightarrow> rnd (y * c) \<le> y"
  by (rule rnd_below) (simp_all add: mult_left_le)

lemma scale_up: "rnd y = y \<Longrightarrow> 0 \<le> y \<Longrightarrow> 1 \<le> c \<Longrightarrow> y \<le> rnd (y * c)"
  using mult_left_mono [of 1 c y] by (intro rnd_above) simp_all

end

interpretation f64: rounding rnd64
  by unfold_locales (simp_all add: rnd64_mono rnd64_uminus rnd64_idem)

section \<open>Values and arithmetic\<close>

datatype pyfloat = Fin rat | PInf | NInf | NaN

definition fl :: "rat \<Rightarrow> pyfloat" where
  "fl x = (let y = rnd64 x in if p2 1024 \<le> y then PInf else if y \<le> - p2 1024 then NInf else Fin y)"

text \<open>A well-formed value: a finite one is a binary64 number.\<close>

fun is_f64 :: "pyfloat \<Rightarrow> bool" where
  "is_f64 (Fin x) = (rnd64 x = x \<and> \<bar>x\<bar> < p2 1024)"
| "is_f64 _ = True"

fun isfinite :: "pyfloat \<Rightarrow> bool" where
  "isfinite (Fin _) = True"
| "isfinite _ = False"

fun fneg :: "pyfloat \<Rightarrow> pyfloat" where
  "fneg (Fin x) = Fin (- x)"
| "fneg PInf = NInf"
| "fneg NInf = PInf"
| "fneg NaN = NaN"

fun fabs :: "pyfloat \<Rightarrow> pyfloat" where
  "fabs (Fin x) = Fin \<bar>x\<bar>"
| "fabs PInf = PInf"
| "fabs NInf = PInf"
| "fabs NaN = NaN"

fun fadd :: "pyfloat \<Rightarrow> pyfloat \<Rightarrow> pyfloat" where
  "fadd (Fin x) (Fin y) = fl (x + y)"
| "fadd NaN _ = NaN"
| "fadd _ NaN = NaN"
| "fadd PInf NInf = NaN"
| "fadd NInf PInf = NaN"
| "fadd PInf _ = PInf"
| "fadd NInf _ = NInf"
| "fadd (Fin _) PInf = PInf"
| "fadd (Fin _) NInf = NInf"

definition fsub :: "pyfloat \<Rightarrow> pyfloat \<Rightarrow> pyfloat" where
  "fsub a b = fadd a (fneg b)"

definition inf_of_sign :: "rat \<Rightarrow> pyfloat" where
  "inf_of_sign s = (if s > 0 then PInf else if s < 0 then NInf else NaN)"

fun fsign :: "pyfloat \<Rightarrow> rat" where
  "fsign (Fin x) = sgn x"
| "fsign PInf = 1"
| "fsign NInf = - 1"
| "fsign NaN = 0"

fun fmul :: "pyfloat \<Rightarrow> pyfloat \<Rightarrow> pyfloat" where
  "fmul (Fin x) (Fin y) = fl (x * y)"
| "fmul NaN _ = NaN"
| "fmul _ NaN = NaN"
| "fmul a b = inf_of_sign (fsign a * fsign b)"

text \<open>The IEEE quotient for a divisor that is not zero; Python raises first on a zero divisor.\<close>

fun fquot :: "pyfloat \<Rightarrow> pyfloat \<Rightarrow> pyfloat" where
  "fquot (Fin x) (Fin y) = fl (x / y)"
| "fquot NaN _ = NaN"
| "fquot _ NaN = NaN"
| "fquot (Fin x) _ = Fin 0"
| "fquot a (Fin y) = inf_of_sign (fsign a * (if y < 0 then - 1 else 1))"
| "fquot _ _ = NaN"

definition fdiv :: "pyfloat \<Rightarrow> pyfloat \<Rightarrow> pyfloat result" where
  "fdiv a b = (if b = Fin 0 then Inl (ZeroDivisionError ''float division by zero'') else Inr (fquot a b))"

fun feq :: "pyfloat \<Rightarrow> pyfloat \<Rightarrow> bool" where
  "feq (Fin x) (Fin y) = (x = y)"
| "feq PInf PInf = True"
| "feq NInf NInf = True"
| "feq _ _ = False"

fun flt :: "pyfloat \<Rightarrow> pyfloat \<Rightarrow> bool" where
  "flt (Fin x) (Fin y) = (x < y)"
| "flt (Fin _) PInf = True"
| "flt NInf (Fin _) = True"
| "flt NInf PInf = True"
| "flt _ _ = False"

definition fle :: "pyfloat \<Rightarrow> pyfloat \<Rightarrow> bool" where
  "fle a b = (flt a b \<or> feq a b)"

text \<open>An \<open>int\<close> operand of a mixed operation is converted first.\<close>

definition f_int :: "int \<Rightarrow> pyfloat" where
  "f_int n = fl (of_int n)"

text \<open>Converting an \<open>int\<close> operand of a float operation raises when it is too large.\<close>

definition float_operand :: "int \<Rightarrow> pyfloat result" where
  "float_operand n = (if isfinite (f_int n) then Inr (f_int n)
     else Inl (OverflowError ''int too large to convert to float''))"

text \<open>Python's \<open>max(a, b)\<close> and \<open>min(a, b)\<close> keep the first argument unless the second is beyond it.\<close>

definition fmax :: "pyfloat \<Rightarrow> pyfloat \<Rightarrow> pyfloat" where
  "fmax a b = (if flt a b then b else a)"

definition fmin :: "pyfloat \<Rightarrow> pyfloat \<Rightarrow> pyfloat" where
  "fmin a b = (if flt b a then b else a)"

text \<open>\<open>int(x)\<close> truncates; \<open>math.floor(x)\<close> rounds down; both raise on infinities and NaN.\<close>

fun py_int :: "pyfloat \<Rightarrow> int result" where
  "py_int (Fin x) = Inr (if 0 \<le> x then \<lfloor>x\<rfloor> else \<lceil>x\<rceil>)"
| "py_int NaN = Inl (ValueError ''cannot convert float NaN to integer'')"
| "py_int _ = Inl (OverflowError ''cannot convert float infinity to integer'')"

fun py_floor :: "pyfloat \<Rightarrow> int result" where
  "py_floor (Fin x) = Inr \<lfloor>x\<rfloor>"
| "py_floor NaN = Inl (ValueError ''cannot convert float NaN to integer'')"
| "py_floor _ = Inl (OverflowError ''cannot convert float infinity to integer'')"

text \<open>
  Floor division of floats as the interpreter computes it: the exact remainder with the sign
  of the dividend, the rounded quotient of the rest, the sign correction, and the step that
  snaps the quotient to the nearest integer.
\<close>

definition fmod_exact :: "rat \<Rightarrow> rat \<Rightarrow> rat" where
  "fmod_exact x y = (let q = x / y; t = (if 0 \<le> q then \<lfloor>q\<rfloor> else \<lceil>q\<rceil>) in x - of_int t * y)"

definition snap_floor :: "pyfloat \<Rightarrow> pyfloat" where
  "snap_floor d = (case d of
      Fin v \<Rightarrow> (if v = 0 then Fin 0
        else let f = of_int \<lfloor>v\<rfloor> in if rnd64 (v - f) > 1 / 2 then fl (f + 1) else Fin f)
    | _ \<Rightarrow> d)"

fun ffloordiv_raw :: "pyfloat \<Rightarrow> pyfloat \<Rightarrow> pyfloat" where
  "ffloordiv_raw (Fin x) (Fin y) =
     (let m = fmod_exact x y;
          d = fquot (fsub (Fin x) (Fin m)) (Fin y);
          d' = (if m \<noteq> 0 \<and> (y < 0) \<noteq> (m < 0) then fsub d (Fin 1) else d)
      in snap_floor d')"
| "ffloordiv_raw (Fin x) PInf = (if x < 0 then Fin (- 1) else Fin 0)"
| "ffloordiv_raw (Fin x) NInf = (if x > 0 then Fin (- 1) else Fin 0)"
| "ffloordiv_raw _ _ = NaN"

definition ffloordiv :: "pyfloat \<Rightarrow> pyfloat \<Rightarrow> pyfloat result" where
  "ffloordiv a b = (if b = Fin 0 then Inl (ZeroDivisionError ''float floor division by zero'')
     else Inr (ffloordiv_raw a b))"

subsection \<open>Order and exactness\<close>

lemma fle_Fin [simp]: "fle (Fin x) (Fin y) \<longleftrightarrow> x \<le> y"
  by (auto simp: fle_def)

lemma is_f64_fl [simp]: "is_f64 (fl x)"
  by (auto simp: fl_def Let_def rnd64_idem)

lemma fl_eq_Fin: "fl x = Fin y \<Longrightarrow> y = rnd64 x"
  by (auto simp: fl_def Let_def split: if_splits)

lemma fl_nonneg: "0 \<le> x \<Longrightarrow> fl x = Fin (rnd64 x) \<or> fl x = PInf"
  using rnd64_nonneg [of x] p2_pos [of 1024] by (auto simp: fl_def Let_def)

lemma p2_53_1024: "of_int (2 ^ 53) < p2 1024"
proof -
  have "p2 1024 = 2 ^ 971 * of_int (2 ^ 53)"
    using p2_add_nat [of 53 971] p2_add_nat [of 0 53] by simp
  also have "1 * of_int (2 ^ 53) < (2 ^ 971 * of_int (2 ^ 53) :: rat)"
    by (rule mult_strict_right_mono) (simp_all add: one_less_power)
  finally show ?thesis by simp
qed

lemma f_int_exact [simp]: "\<bar>n\<bar> \<le> 2 ^ 53 \<Longrightarrow> f_int n = Fin (of_int n)"
proof -
  assume n: "\<bar>n\<bar> \<le> 2 ^ 53"
  have "\<bar>of_int n\<bar> \<le> (of_int (2 ^ 53) :: rat)" using n by (metis of_int_abs of_int_le_iff)
  then have "\<bar>of_int n\<bar> < p2 1024" using p2_53_1024 by (rule le_less_trans)
  with n show ?thesis by (auto simp: f_int_def fl_def Let_def abs_less_iff)
qed

lemma fl_of_int [simp]: "\<bar>n\<bar> \<le> 2 ^ 53 \<Longrightarrow> fl (of_int n) = Fin (of_int n)"
  using f_int_exact [of n] by (simp add: f_int_def)

lemma fl_numeral [simp]: "numeral k \<le> (2 ^ 53 :: int) \<Longrightarrow> fl (numeral k) = Fin (numeral k)"
  using fl_of_int [of "numeral k"] by simp

lemma fl_neg_numeral [simp]: "numeral k \<le> (2 ^ 53 :: int) \<Longrightarrow> fl (- numeral k) = Fin (- numeral k)"
  using fl_of_int [of "- numeral k"] by simp

lemma fl_0 [simp]: "fl 0 = Fin 0" and fl_1 [simp]: "fl 1 = Fin 1"
  using fl_of_int [of 0] fl_of_int [of 1] by simp_all

text \<open>Relative error in the normal range.\<close>

lemma rnd64_rel_error:
  assumes "0 < x" "- 1022 \<le> ilog2 x"
  shows "\<bar>rnd64 x - x\<bar> * 2 ^ 53 \<le> x"
proof -
  let ?e = "grid_exp x"
  have e: "?e = ilog2 x - 52" using assms by (simp add: grid_exp_def)
  have "p2 (ilog2 x) = p2 (?e + int 52)" using e by simp
  then have top: "2 ^ 52 * p2 ?e \<le> x"
    using ilog2_bounds [OF assms(1)] unfolding p2_add_nat by simp
  have "\<bar>of_int (round_even (x / p2 ?e)) - x / p2 ?e\<bar> \<le> 1 / 2"
    using round_even_near [of "x / p2 ?e"] by linarith
  then have "\<bar>of_int (round_even (x / p2 ?e)) - x / p2 ?e\<bar> * p2 ?e \<le> 1 / 2 * p2 ?e"
    by (rule mult_right_mono) (simp add: less_imp_le)
  moreover have "\<bar>of_int (round_even (x / p2 ?e)) - x / p2 ?e\<bar> * p2 ?e = \<bar>rnd64 x - x\<bar>"
    using assms(1) by (simp add: rnd64_def abs_mult_pos left_diff_distrib less_imp_le)
  ultimately have "\<bar>rnd64 x - x\<bar> \<le> 1 / 2 * p2 ?e" by simp
  then have "\<bar>rnd64 x - x\<bar> * 2 ^ 53 \<le> 1 / 2 * p2 ?e * 2 ^ 53"
    by (rule mult_right_mono) simp
  also have "\<dots> = 2 ^ 52 * p2 ?e" by simp
  finally show ?thesis using top by linarith
qed

lemma rnd64_frac:
  assumes "rnd64 v = v" "0 \<le> v"
  shows "rnd64 (v - of_int \<lfloor>v\<rfloor>) = v - of_int \<lfloor>v\<rfloor>"
proof (cases "v = 0")
  case False
  let ?e = "grid_exp v" and ?n = "round_even (v / p2 (grid_exp v))"
  have v: "v = of_int ?n * p2 ?e" using assms False by (simp add: rnd64_def)
  have n: "0 \<le> ?n" "?n \<le> 2 ^ 53"
  proof -
    show "?n \<le> 2 ^ 53" using rnd64_grid_bound assms False by simp
    have "0 \<le> of_int ?n * p2 ?e" using v assms by simp
    then show "0 \<le> ?n" by (simp add: zero_le_mult_iff)
  qed
  show ?thesis
  proof (cases "0 \<le> ?e")
    case True
    then have "v = of_int (?n * 2 ^ nat ?e)" using v by (simp add: p2_def)
    then show ?thesis by (metis diff_self floor_of_int rnd64_0)
  next
    case False
    then have one: "1 = of_int (2 ^ nat (- ?e)) * p2 ?e" using p2_multiple [of ?e 0] by simp
    let ?k = "?n - \<lfloor>v\<rfloor> * 2 ^ nat (- ?e)"
    have "of_int \<lfloor>v\<rfloor> = of_int \<lfloor>v\<rfloor> * (of_int (2 ^ nat (- ?e)) * p2 ?e)" using one by simp
    then have k: "v - of_int \<lfloor>v\<rfloor> = of_int ?k * p2 ?e" using v by (simp add: algebra_simps)
    have "0 \<le> of_int ?k * p2 ?e" using k by (metis diff_ge_0_iff_ge of_int_floor_le)
    then have "0 \<le> (of_int ?k :: rat)" by (simp only: zero_le_mult_iff p2_not_nonpos) blast
    then have "0 \<le> ?k" by (simp only: of_int_0_le_iff)
    moreover have "0 \<le> \<lfloor>v\<rfloor> * 2 ^ nat (- ?e)" using assms(2) by simp
    then have "?k \<le> 2 ^ 53" using n by linarith
    ultimately have "\<bar>?k\<bar> \<le> 2 ^ 53" by simp
    then show ?thesis unfolding k by (rule rnd64_exact) (simp add: grid_exp_def)
  qed
qed simp

lemma snap_floor_near:
  assumes v: "rnd64 v = v" and near: "\<bar>v - of_int n\<bar> < 1 / 2" and n: "1 \<le> n" "n \<le> 2 ^ 53"
  shows "snap_floor (Fin v) = Fin (of_int n)"
proof -
  have n1: "(1 :: rat) \<le> of_int n" using n by simp
  with near have pos: "0 < v" by linarith
  have frac: "rnd64 (v - of_int \<lfloor>v\<rfloor>) = v - of_int \<lfloor>v\<rfloor>" using v pos by (intro rnd64_frac) simp_all
  have fn: "fl (of_int n) = Fin (of_int n)" using f_int_exact [of n] n by (simp add: f_int_def)
  show ?thesis
  proof (cases "of_int n \<le> v")
    case True
    with near have "\<lfloor>v\<rfloor> = n" by (intro floor_unique) linarith+
    with near pos frac True show ?thesis by (simp add: snap_floor_def Let_def)
  next
    case False
    with near have f: "\<lfloor>v\<rfloor> = n - 1" by (intro floor_unique; unfold of_int_diff of_int_1; linarith)
    with near False have "1 / 2 < v - of_int \<lfloor>v\<rfloor>" by simp
    with f pos frac fn show ?thesis by (simp add: snap_floor_def Let_def)
  qed
qed

text \<open>Two relative errors of one half unit in the last place keep an integer in sight.\<close>

lemma rel_error_near:
  fixes z n d :: rat
  assumes "\<bar>z - n\<bar> * 2 ^ 53 \<le> n" "1 \<le> n" "n < 2 ^ 50"
  shows "1 / 2 < z" and "\<bar>d - z\<bar> * 2 ^ 53 \<le> z \<Longrightarrow> \<bar>d - n\<bar> < 1 / 2 \<and> 0 < d \<and> d < 2 ^ 53"
proof -
  have z: "z * 2 ^ 53 \<le> n * (2 ^ 53 + 1)" "n * (2 ^ 53 - 1) \<le> z * 2 ^ 53"
    using assms(1) by (auto simp: abs_if algebra_simps split: if_splits)
  then show "1 / 2 < z" using assms by simp
  assume "\<bar>d - z\<bar> * 2 ^ 53 \<le> z"
  then have "d * 2 ^ 53 \<le> z * (2 ^ 53 + 1)" "z * (2 ^ 53 - 1) \<le> d * 2 ^ 53"
    by (auto simp: abs_if algebra_simps split: if_splits)
  with z assms(2,3) have "d - n < 1 / 2" "n - d < 1 / 2" "0 < d" "d < 2 ^ 53" by simp_all
  then show "\<bar>d - n\<bar> < 1 / 2 \<and> 0 < d \<and> d < 2 ^ 53" by linarith
qed

lemma ffloordiv_raw_pos:
  assumes y: "0 < y" "- 1022 \<le> ilog2 y" and x: "0 < x" "is_f64 (Fin x)"
    and n: "n = \<lfloor>x / y\<rfloor>" "n < 2 ^ 50"
  shows "ffloordiv_raw (Fin x) (Fin y) = Fin (of_int n)"
proof -
  have n0: "0 \<le> n" using x y n by simp
  let ?m = "x - of_int n * y"
  have nle: "of_int n \<le> x / y" "x / y < of_int n + 1" using n(1) by linarith+
  then have m: "0 \<le> ?m" "?m < y" using y by (simp_all add: field_simps)
  have fm: "fmod_exact x y = ?m" using x y n by (simp add: fmod_exact_def Let_def)
  let ?a = "rnd64 (of_int n * y)"
  have "?a \<le> x" using x m by (intro f64.rnd_below) simp_all
  moreover have a0: "0 \<le> ?a" using n0 y by (intro rnd64_nonneg) simp
  ultimately have a: "fsub (Fin x) (Fin ?m) = Fin ?a"
    using x(2) by (auto simp: fsub_def fl_def Let_def abs_less_iff less_imp_neq)
  show ?thesis
  proof (cases "n = 0")
    case True
    with a fm m y show ?thesis by (simp add: Let_def snap_floor_def fl_def)
  next
    case False
    with n0 have n1: "1 \<le> n" by simp
    let ?z = "?a / y" and ?d = "rnd64 (?a / y)"
    have "y \<le> of_int n * y" using mult_right_mono [of 1 "of_int n" y] n1 y by simp
    then have ny: "0 < of_int n * y" "- 1022 \<le> ilog2 (of_int n * y)"
      using y ilog2_mono [of y "of_int n * y"] by linarith+
    have "\<bar>?a - of_int n * y\<bar> * 2 ^ 53 \<le> of_int n * y" using ny by (rule rnd64_rel_error)
    then have "\<bar>?a - of_int n * y\<bar> * 2 ^ 53 / y \<le> of_int n" using y by (simp add: field_simps)
    moreover have "\<bar>?z - of_int n\<bar> = \<bar>?a - of_int n * y\<bar> / y"
      using y by (metis abs_div_pos diff_divide_distrib nonzero_mult_div_cancel_right less_irrefl)
    ultimately have z: "\<bar>?z - of_int n\<bar> * 2 ^ 53 \<le> of_int n" by (simp only: times_divide_eq_left)
    have nr: "(1 :: rat) \<le> of_int n" "of_int n < (2 ^ 50 :: rat)"
      using n1 n(2) by (simp, metis of_int_less_iff of_int_numeral of_int_power)
    note near_z = rel_error_near [OF z nr]
    have zb: "1 / 2 < ?z" by (rule near_z)
    have "- 1022 \<le> ilog2 ?z"
    proof (rule ccontr)
      assume "\<not> - 1022 \<le> ilog2 ?z"
      then have "p2 (ilog2 ?z + 1) \<le> p2 (- 1)" by (intro p2_mono) simp
      moreover have "p2 (- 1) = 1 / 2" by (simp add: p2_def)
      ultimately show False using ilog2_bounds [of ?z] zb by linarith
    qed
    then have "\<bar>?d - ?z\<bar> * 2 ^ 53 \<le> ?z" using zb by (intro rnd64_rel_error) linarith+
    then have near: "\<bar>?d - of_int n\<bar> < 1 / 2" and "?d < of_int (2 ^ 53)" "0 < ?d"
      using near_z(2) [of ?d] by simp_all
    then have "fl ?z = Fin ?d"
      using p2_53_1024 p2_not_nonpos [of 1024] by (auto simp: fl_def Let_def)
    moreover have "\<not> ?m < 0" "\<not> y < 0" using m y by auto
    ultimately have "ffloordiv_raw (Fin x) (Fin y) = snap_floor (Fin ?d)"
      using a fm by (simp add: Let_def)
    also have "\<dots> = Fin (of_int n)"
      using near n1 n(2) by (intro snap_floor_near) (simp_all add: rnd64_idem)
    finally show ?thesis .
  qed
qed

end
