(* ===== verification/PyTime.thy ===== *)
theory PyTime
  imports PyFloat
begin

text \<open>
  Python's \<open>datetime\<close>: the proleptic Gregorian fields, the microsecond, and a UTC offset in
  whole minutes for an aware value. Timestamps reach the database as the text
  \<open>isoformat()\<close> prints and SQLite compares them as text, so the printed form is modelled
  character by character. The theory proves that printing and reading round-trip, that the
  text order is the order of time between two values with the same offset, and that the
  calendar arithmetic behind \<open>timedelta\<close> addition and \<open>astimezone\<close> is exact.
\<close>

section \<open>Fields and calendar\<close>

record datetime =
  dt_year :: nat
  dt_month :: nat
  dt_day :: nat
  dt_hour :: nat
  dt_minute :: nat
  dt_second :: nat
  dt_micro :: nat
  dt_tz :: "int option"

definition is_leap :: "nat \<Rightarrow> bool" where
  "is_leap y = (y mod 4 = 0 \<and> (y mod 100 \<noteq> 0 \<or> y mod 400 = 0))"

definition days_in_month :: "nat \<Rightarrow> nat \<Rightarrow> nat" where
  "days_in_month y m = (if m = 2 then if is_leap y then 29 else 28
     else if m = 4 \<or> m = 6 \<or> m = 9 \<or> m = 11 then 30 else 31)"

definition days_before_year :: "nat \<Rightarrow> nat" where
  "days_before_year y = (let z = y - 1 in z * 365 + z div 4 - z div 100 + z div 400)"

fun days_before_month :: "nat \<Rightarrow> nat \<Rightarrow> nat" where
  "days_before_month y 0 = 0"
| "days_before_month y (Suc m) = days_before_month y m + (if m = 0 then 0 else days_in_month y m)"

definition toordinal :: "datetime \<Rightarrow> nat" where
  "toordinal d = days_before_year (dt_year d) + days_before_month (dt_year d) (dt_month d) + dt_day d"

definition valid_date :: "nat \<Rightarrow> nat \<Rightarrow> nat \<Rightarrow> bool" where
  "valid_date y m d = (1 \<le> y \<and> y \<le> 9999 \<and> 1 \<le> m \<and> m \<le> 12 \<and> 1 \<le> d \<and> d \<le> days_in_month y m)"

definition valid_dt :: "datetime \<Rightarrow> bool" where
  "valid_dt d = (valid_date (dt_year d) (dt_month d) (dt_day d) \<and> dt_hour d < 24 \<and> dt_minute d < 60
     \<and> dt_second d < 60 \<and> dt_micro d < 1000000
     \<and> (case dt_tz d of None \<Rightarrow> True | Some z \<Rightarrow> \<bar>z\<bar> < 1440))"

section \<open>Printing and reading\<close>

fun pad :: "nat \<Rightarrow> nat \<Rightarrow> string" where
  "pad 0 n = []"
| "pad (Suc w) n = pad w (n div 10) @ [digit_char (n mod 10)]"

definition iso_tz :: "int option \<Rightarrow> string" where
  "iso_tz z = (case z of None \<Rightarrow> [] | Some m \<Rightarrow>
     (if m < 0 then ''-'' else ''+'') @ pad 2 (nat \<bar>m\<bar> div 60) @ '':'' @ pad 2 (nat \<bar>m\<bar> mod 60))"

definition iso_micro :: "nat \<Rightarrow> string" where
  "iso_micro u = (if u = 0 then [] else ''.'' @ pad 6 u)"

definition iso_head :: "datetime \<Rightarrow> string" where
  "iso_head d = pad 4 (dt_year d) @ ''-'' @ pad 2 (dt_month d) @ ''-'' @ pad 2 (dt_day d) @ ''T''
     @ pad 2 (dt_hour d) @ '':'' @ pad 2 (dt_minute d) @ '':'' @ pad 2 (dt_second d)"

definition isoformat :: "datetime \<Rightarrow> string" where
  "isoformat d = iso_head d @ iso_micro (dt_micro d) @ iso_tz (dt_tz d)"

definition read_tz :: "string \<Rightarrow> int option option" where
  "read_tz s = (case s of [] \<Rightarrow> Some None
     | [g, a, b, c, e, f] \<Rightarrow>
         (if (g = CHR ''+'' \<or> g = CHR ''-'') \<and> c = CHR '':'' \<and> isdigit [a, b, e, f]
             \<and> read_nat [a, b] < 24 \<and> read_nat [e, f] < 60
          then let m = int (read_nat [a, b] * 60 + read_nat [e, f])
               in Some (Some (if g = CHR ''-'' then - m else m))
          else None)
     | _ \<Rightarrow> None)"

definition read_micro :: "string \<Rightarrow> (nat \<times> string) option" where
  "read_micro s = (if s \<noteq> [] \<and> hd s = CHR ''.'' then
       (if 7 \<le> length s \<and> isdigit (take 6 (tl s)) then Some (read_nat (take 6 (tl s)), drop 7 s) else None)
     else Some (0, s))"

text \<open>
  \<open>datetime.fromisoformat\<close> on the extended form that \<open>isoformat\<close> prints, the only one the
  program stores; \<open>None\<close> is the \<open>ValueError\<close>.
\<close>

definition fromisoformat :: "string \<Rightarrow> datetime option" where
  "fromisoformat s =
    (if length s < 19 then None
     else let h = take 19 s; num = (\<lambda>i n. read_nat (take n (drop i h)));
              digs = take 4 h @ take 2 (drop 5 h) @ take 2 (drop 8 h) @ take 2 (drop 11 h)
                     @ take 2 (drop 14 h) @ take 2 (drop 17 h)
          in if isdigit digs \<and> h ! 4 = CHR ''-'' \<and> h ! 7 = CHR ''-'' \<and> h ! 10 = CHR ''T''
                \<and> h ! 13 = CHR '':'' \<and> h ! 16 = CHR '':''
             then (case read_micro (drop 19 s) of None \<Rightarrow> None
               | Some (u, r) \<Rightarrow> (case read_tz r of None \<Rightarrow> None
                 | Some z \<Rightarrow>
                   (let d = \<lparr>dt_year = num 0 4, dt_month = num 5 2, dt_day = num 8 2, dt_hour = num 11 2,
                             dt_minute = num 14 2, dt_second = num 17 2, dt_micro = u, dt_tz = z\<rparr>
                    in if valid_dt d then Some d else None)))
             else None)"

lemma length_pad [simp]: "length (pad w n) = w"
  by (induction w arbitrary: n) auto

lemma list_all_digit_pad [simp]: "list_all is_digit_char (pad w n)"
  by (induction w arbitrary: n) auto

lemma read_pad: "n < 10 ^ w \<Longrightarrow> read_nat (pad w n) = n"
proof (induction w arbitrary: n)
  case 0
  then show ?case by (simp add: read_nat_def)
next
  case (Suc w)
  then have "read_nat (pad w (n div 10)) = n div 10" by (intro Suc.IH) (simp add: less_mult_imp_div_less)
  then show ?case by (simp add: read_nat_snoc)
qed

lemma read_pad_2 [simp]: "n < 100 \<Longrightarrow> read_nat (pad 2 n) = n"
  using read_pad [of n 2] by simp

lemma read_pad_4 [simp]: "n < 10000 \<Longrightarrow> read_nat (pad 4 n) = n"
  using read_pad [of n 4] by simp

lemma read_pad_6 [simp]: "n < 1000000 \<Longrightarrow> read_nat (pad 6 n) = n"
  using read_pad [of n 6] by simp

lemma isdigit_pad [simp]: "0 < w \<Longrightarrow> isdigit (pad w n)"
  by (cases w) (auto simp: isdigit_def)

lemma pad_2_cases:
  assumes "n < 100"
  obtains a b where "pad 2 n = [a, b]" "read_nat [a, b] = n" "is_digit_char a" "is_digit_char b"
proof -
  have "pad 2 n = [digit_char (n div 10 mod 10), digit_char (n mod 10)]" by (simp add: numeral_2_eq_2)
  moreover from this have "read_nat [digit_char (n div 10 mod 10), digit_char (n mod 10)] = n"
    using read_pad_2 [OF assms] by simp
  ultimately show ?thesis by (rule that) simp_all
qed

lemma read_tz_iso_tz [simp]:
  assumes "case z of None \<Rightarrow> True | Some m \<Rightarrow> \<bar>m\<bar> < 1440"
  shows "read_tz (iso_tz z) = Some z"
proof (cases z)
  case (Some m)
  let ?h = "nat \<bar>m\<bar> div 60" and ?k = "nat \<bar>m\<bar> mod 60"
  have m: "?h < 24" "?k < 60" using assms Some by auto
  have sum: "int (?h * 60 + ?k) = \<bar>m\<bar>" by simp
  obtain a b where ab: "pad 2 ?h = [a, b]" "read_nat [a, b] = ?h" "is_digit_char a" "is_digit_char b"
    using m by (auto intro: pad_2_cases [of ?h])
  have "?k < 100" by simp
  then obtain c e where ce: "pad 2 ?k = [c, e]" "read_nat [c, e] = ?k" "is_digit_char c" "is_digit_char e"
    by (rule pad_2_cases)
  have "iso_tz z = (if m < 0 then ''-'' else ''+'') @ [a, b] @ '':'' @ [c, e]"
    using Some ab(1) ce(1) by (simp only: iso_tz_def option.case)
  moreover have "read_nat [a, b] < 24" "read_nat [c, e] < 60"
    "int (read_nat [a, b] * 60 + read_nat [c, e]) = \<bar>m\<bar>"
    using m sum by (simp_all only: ab ce)
  ultimately show ?thesis using Some ab ce
    by (cases "m < 0") (simp_all add: read_tz_def isdigit_def Let_def)
qed (simp add: iso_tz_def read_tz_def)

lemma iso_tz_not_dot [simp]: "iso_tz z \<noteq> [] \<Longrightarrow> hd (iso_tz z) \<noteq> CHR ''.''"
  by (auto simp: iso_tz_def split: option.splits if_splits)

lemma read_micro_iso [simp]: "u < 1000000 \<Longrightarrow> read_micro (iso_micro u @ iso_tz z) = Some (u, iso_tz z)"
  by (auto simp: read_micro_def iso_micro_def)

lemma length_iso_head [simp]: "length (iso_head d) = 19"
  by (simp add: iso_head_def)

theorem fromisoformat_isoformat_wf:
  assumes "valid_dt d"
  shows "fromisoformat (isoformat d) = Some d"
proof -
  have v: "dt_year d < 10000" "dt_month d < 100" "dt_day d < 100" "dt_hour d < 100" "dt_minute d < 100"
    "dt_second d < 100" "dt_micro d < 1000000" "case dt_tz d of None \<Rightarrow> True | Some m \<Rightarrow> \<bar>m\<bar> < 1440"
    using assms by (auto simp: valid_dt_def valid_date_def days_in_month_def split: if_splits)
  show ?thesis using v assms
    by (cases d) (simp add: fromisoformat_def isoformat_def iso_head_def Let_def nth_append isdigit_def)
qed

section \<open>Text order is time order at one offset\<close>

lemma append_less_append:
  fixes u :: "'a :: linorder list"
  shows "length u = length v \<Longrightarrow> u @ x < v @ y \<longleftrightarrow> u < v \<or> u = v \<and> x < y"
  by (induction u v rule: list_induct2) auto

lemma append_le_append:
  fixes u :: "'a :: linorder list"
  shows "length u = length v \<Longrightarrow> u @ x \<le> v @ y \<longleftrightarrow> u < v \<or> u = v \<and> x \<le> y"
  by (induction u v rule: list_induct2) auto

lemma digit_char_less: "a < 10 \<Longrightarrow> b < 10 \<Longrightarrow> digit_char a < digit_char b \<longleftrightarrow> a < b"
  by (simp add: digit_char_def less_char_def)

lemma digit_char_eq: "a < 10 \<Longrightarrow> b < 10 \<Longrightarrow> digit_char a = digit_char b \<longleftrightarrow> a = b"
  by (metis digit_val_digit_char)

lemma pad_eq: "m < 10 ^ w \<Longrightarrow> n < 10 ^ w \<Longrightarrow> pad w m = pad w n \<longleftrightarrow> m = n"
  by (metis read_pad)

lemma digit_split_less:
  fixes q r q' r' :: nat
  shows "r < 10 \<Longrightarrow> r' < 10 \<Longrightarrow> 10 * q + r < 10 * q' + r' \<longleftrightarrow> q < q' \<or> q = q' \<and> r < r'"
  by arith

lemma pad_less: "m < 10 ^ w \<Longrightarrow> n < 10 ^ w \<Longrightarrow> pad w m < pad w n \<longleftrightarrow> m < n"
proof (induction w arbitrary: m n)
  case 0
  then show ?case by simp
next
  case (Suc w)
  then have b: "m div 10 < 10 ^ w" "n div 10 < 10 ^ w" by (simp_all add: less_mult_imp_div_less)
  have "m < n \<longleftrightarrow> m div 10 < n div 10 \<or> m div 10 = n div 10 \<and> m mod 10 < n mod 10"
    using digit_split_less [of "m mod 10" "n mod 10" "m div 10" "n div 10"] by simp
  then show ?case
    using Suc.IH [OF b] pad_eq [OF b] by (simp add: append_less_append digit_char_less)
qed

lemma pad_2_less: "m < 100 \<Longrightarrow> n < 100 \<Longrightarrow> pad 2 m < pad 2 n \<longleftrightarrow> m < n"
  and pad_2_eq: "m < 100 \<Longrightarrow> n < 100 \<Longrightarrow> pad 2 m = pad 2 n \<longleftrightarrow> m = n"
  using pad_less [of m 2 n] pad_eq [of m 2 n] by simp_all

lemma pad_4_less: "m < 10000 \<Longrightarrow> n < 10000 \<Longrightarrow> pad 4 m < pad 4 n \<longleftrightarrow> m < n"
  and pad_4_eq: "m < 10000 \<Longrightarrow> n < 10000 \<Longrightarrow> pad 4 m = pad 4 n \<longleftrightarrow> m = n"
  using pad_less [of m 4 n] pad_eq [of m 4 n] by simp_all

lemma pad_6_less: "m < 1000000 \<Longrightarrow> n < 1000000 \<Longrightarrow> pad 6 m < pad 6 n \<longleftrightarrow> m < n"
  and pad_6_eq: "m < 1000000 \<Longrightarrow> n < 1000000 \<Longrightarrow> pad 6 m = pad 6 n \<longleftrightarrow> m = n"
  using pad_less [of m 6 n] pad_eq [of m 6 n] by simp_all

text \<open>Seconds since the start of year 1 on the local clock, and microseconds.\<close>

definition local_seconds :: "datetime \<Rightarrow> nat" where
  "local_seconds d = ((toordinal d * 24 + dt_hour d) * 60 + dt_minute d) * 60 + dt_second d"

definition local_us :: "datetime \<Rightarrow> int" where
  "local_us d = int (local_seconds d * 1000000 + dt_micro d)"

lemma year_count_step:
  fixes a b c a' b' c' z :: nat
  assumes "a' = a + (if p then 1 else 0)" "b' = b + (if q then 1 else 0)" "c' = c + (if r then 1 else 0)"
    and "b \<le> a" "r \<Longrightarrow> q" "q \<Longrightarrow> p"
  shows "Suc z * 365 + a' - b' + c' = z * 365 + a - b + c + (if p \<and> (\<not> q \<or> r) then 366 else 365)"
  using assms by (cases p; cases q; cases r) simp_all

lemma days_before_year_Suc:
  assumes "1 \<le> y"
  shows "days_before_year (Suc y) = days_before_year y + (if is_leap y then 366 else 365)"
proof -
  obtain z where y: "y = Suc z" using assms by (cases y) auto
  have dv: "Suc z div k = z div k + (if Suc z mod k = 0 then 1 else 0)" for k
    by (simp add: div_Suc)
  have "z div 100 \<le> z div 4" by (rule div_le_mono2) simp_all
  moreover have "Suc z mod 400 = 0 \<Longrightarrow> Suc z mod 100 = 0" "Suc z mod 100 = 0 \<Longrightarrow> Suc z mod 4 = 0"
    using dvd_trans [of 100 400 "Suc z"] dvd_trans [of 4 100 "Suc z"]
    by (simp_all only: mod_eq_0_iff_dvd) simp_all
  ultimately show ?thesis
    unfolding y days_before_year_def is_leap_def Let_def diff_Suc_1
    by (rule year_count_step [OF dv dv dv])
qed

lemma days_before_year_mono: "y \<le> y' \<Longrightarrow> 1 \<le> y \<Longrightarrow> days_before_year y \<le> days_before_year y'"
proof (induction y' rule: dec_induct)
  case (step n)
  then show ?case using days_before_year_Suc [of n] by simp
qed simp

lemma days_before_month_mono: "m \<le> m' \<Longrightarrow> days_before_month y m \<le> days_before_month y m'"
  by (induction m' rule: dec_induct) simp_all

lemma days_before_month_13: "days_before_month y 13 = (if is_leap y then 366 else 365)"
  by (simp add: numeral_eq_Suc days_in_month_def)

lemma toordinal_strict_mono:
  assumes "valid_date y m d" "valid_date y' m' d'"
    and "y < y' \<or> y = y' \<and> (m < m' \<or> m = m' \<and> d < d')"
  shows "days_before_year y + days_before_month y m + d
    < days_before_year y' + days_before_month y' m' + d'"
proof -
  have v: "1 \<le> y" "1 \<le> m" "m \<le> 12" "d \<le> days_in_month y m" "1 \<le> d'"
    using assms by (auto simp: valid_date_def)
  have next_month: "days_before_month y m + d \<le> days_before_month y (Suc m)" using v by simp
  from assms(3) consider "y < y'" | "y = y'" "m < m'" | "y = y'" "m = m'" "d < d'" by blast
  then show ?thesis
  proof cases
    case 1
    have "days_before_month y (Suc m) \<le> days_before_month y 13" using v by (intro days_before_month_mono) simp
    moreover have "days_before_year (Suc y) \<le> days_before_year y'" using 1 by (intro days_before_year_mono) simp_all
    ultimately show ?thesis
      using next_month v days_before_year_Suc [of y] days_before_month_13 [of y] by linarith
  next
    case 2
    have "days_before_month y (Suc m) \<le> days_before_month y m'" using 2 by (intro days_before_month_mono) simp
    then show ?thesis using next_month v unfolding 2(1) [symmetric] by linarith
  qed simp
qed

lemma valid_dt_bounds:
  assumes "valid_dt d"
  shows "dt_year d < 10000" "dt_month d < 100" "dt_day d < 100" "dt_hour d < 24" "dt_minute d < 60"
    "dt_second d < 60" "dt_micro d < 1000000"
  using assms by (auto simp: valid_dt_def valid_date_def days_in_month_def split: if_splits)

definition clock_key :: "datetime \<Rightarrow> nat \<times> nat \<times> nat \<times> nat \<times> nat \<times> nat" where
  "clock_key d = (dt_year d, dt_month d, dt_day d, dt_hour d, dt_minute d, dt_second d)"

lemma prod_lex_less: "(a, b) < (c, d) \<longleftrightarrow> a < c \<or> a = c \<and> b < d" for a c :: "'a :: linorder"
  by (auto simp: le_less)

lemma iso_head_less:
  assumes "valid_dt a" "valid_dt b"
  shows "iso_head a < iso_head b \<longleftrightarrow> clock_key a < clock_key b"
  using valid_dt_bounds [OF assms(1)] valid_dt_bounds [OF assms(2)]
  by (simp add: iso_head_def clock_key_def append_less_append pad_2_less pad_2_eq pad_4_less pad_4_eq
      prod_lex_less del: less_prod_simp)

lemma iso_head_eq:
  assumes "valid_dt a" "valid_dt b"
  shows "iso_head a = iso_head b \<longleftrightarrow> clock_key a = clock_key b"
  using valid_dt_bounds [OF assms(1)] valid_dt_bounds [OF assms(2)]
  by (simp add: iso_head_def clock_key_def pad_2_eq pad_4_eq)

lemma iso_tz_before_dot: "iso_tz z \<le> CHR ''.'' # s"
  by (auto simp: iso_tz_def less_char_def split: option.splits)

lemma iso_tail_le:
  assumes "u < 1000000" "v < 1000000"
  shows "iso_micro u @ iso_tz z \<le> iso_micro v @ iso_tz z \<longleftrightarrow> u \<le> v"
proof -
  have no: "\<not> CHR ''.'' # s \<le> iso_tz z" for s
    using iso_tz_before_dot [of z s] by (auto simp: iso_tz_def less_char_def split: option.splits)
  show ?thesis
    using assms no by (auto simp: iso_micro_def iso_tz_before_dot append_le_append pad_6_less pad_6_eq)
qed

lemma mixed_radix_less:
  fixes q q' r r' k :: nat
  shows "r < k \<Longrightarrow> r' < k \<Longrightarrow> q * k + r < q' * k + r' \<longleftrightarrow> q < q' \<or> q = q' \<and> r < r'"
proof -
  assume r: "r < k" "r' < k"
  have step: "a * k + s < b * k + t" if "a < b" "s < k" for a b s t :: nat
  proof -
    have "Suc a * k \<le> b * k" using that(1) by (intro mult_le_mono1) simp
    then show ?thesis using that(2) by simp
  qed
  show ?thesis using step [of q q' r r'] step [of q' q r' r] r
    by (cases q q' rule: linorder_cases) auto
qed

lemma toordinal_less:
  assumes "valid_dt a" "valid_dt b"
  shows "toordinal a < toordinal b \<longleftrightarrow>
    (dt_year a, dt_month a, dt_day a) < (dt_year b, dt_month b, dt_day b)"
proof -
  have mono: "toordinal x < toordinal y" if "valid_dt x" "valid_dt y"
    "(dt_year x, dt_month x, dt_day x) < (dt_year y, dt_month y, dt_day y)" for x y
    unfolding toordinal_def using that
    by (intro toordinal_strict_mono) (auto simp: valid_dt_def)
  have eq: "toordinal x = toordinal y"
    if "(dt_year x, dt_month x, dt_day x) = (dt_year y, dt_month y, dt_day y)" for x y
    using that by (simp add: toordinal_def)
  show ?thesis using mono [OF assms] mono [OF assms(2,1)] eq [of a b]
    by (metis less_asym less_irrefl linorder_less_linear)
qed

lemma clock_key_less:
  assumes "valid_dt a" "valid_dt b"
  shows "local_seconds a < local_seconds b \<longleftrightarrow> clock_key a < clock_key b"
proof -
  note va = valid_dt_bounds [OF assms(1)] and vb = valid_dt_bounds [OF assms(2)]
  have eq: "toordinal a = toordinal b \<longleftrightarrow>
      (dt_year a, dt_month a, dt_day a) = (dt_year b, dt_month b, dt_day b)"
    using toordinal_less [OF assms] toordinal_less [OF assms(2,1)]
    by (metis less_irrefl linorder_less_linear)
  have same: "q * k + r = q' * k + r' \<longleftrightarrow> q = q' \<and> r = r'" if "r < k" "r' < k" for q q' r r' k :: nat
    using mixed_radix_less [OF that, of q q'] mixed_radix_less [OF that(2,1), of q' q]
    by (metis less_irrefl linorder_less_linear)
  show ?thesis
    unfolding local_seconds_def clock_key_def mixed_radix_less [OF va(6) vb(6)] mixed_radix_less [OF va(5) vb(5)]
      mixed_radix_less [OF va(4) vb(4)] same [OF va(5) vb(5)] same [OF va(4) vb(4)]
      toordinal_less [OF assms] eq prod_lex_less prod.inject
    by blast
qed

lemma clock_key_eq:
  assumes "valid_dt a" "valid_dt b"
  shows "local_seconds a = local_seconds b \<longleftrightarrow> clock_key a = clock_key b"
  using clock_key_less [OF assms] clock_key_less [OF assms(2,1)]
  by (metis less_irrefl linorder_less_linear)

theorem isoformat_le_iff:
  assumes "valid_dt a" "valid_dt b" "dt_tz a = dt_tz b"
  shows "isoformat a \<le> isoformat b \<longleftrightarrow> local_us a \<le> local_us b"
proof -
  have u: "dt_micro a < 1000000" "dt_micro b < 1000000" using assms valid_dt_bounds by blast+
  have "local_us b < local_us a \<longleftrightarrow>
      local_seconds b < local_seconds a \<or> local_seconds b = local_seconds a \<and> dt_micro b < dt_micro a"
    unfolding local_us_def of_nat_less_iff by (rule mixed_radix_less [OF u(2,1)])
  then have "local_us a \<le> local_us b \<longleftrightarrow>
      local_seconds a < local_seconds b \<or> local_seconds a = local_seconds b \<and> dt_micro a \<le> dt_micro b"
    by (metis le_less not_le linorder_less_linear less_asym)
  then show ?thesis
    using assms u by (simp add: isoformat_def append_le_append iso_head_less iso_head_eq
        iso_tail_le clock_key_less clock_key_eq)
qed

section \<open>Arithmetic on instants\<close>

definition tz_us :: "int \<Rightarrow> int" where
  "tz_us m = m * 60000000"

definition utc_us :: "datetime \<Rightarrow> int" where
  "utc_us d = local_us d - (case dt_tz d of None \<Rightarrow> 0 | Some m \<Rightarrow> tz_us m)"

text \<open>Subtraction and comparison raise when one operand is naive and the other aware.\<close>

definition tz_compatible :: "datetime \<Rightarrow> datetime \<Rightarrow> bool" where
  "tz_compatible a b = ((dt_tz a = None) = (dt_tz b = None))"

definition dt_sub :: "datetime \<Rightarrow> datetime \<Rightarrow> int result" where
  "dt_sub a b = (if tz_compatible a b then Inr (utc_us a - utc_us b)
     else Inl (TypeError ''can't subtract offset-naive and offset-aware datetimes''))"

definition dt_lt :: "datetime \<Rightarrow> datetime \<Rightarrow> bool result" where
  "dt_lt a b = (if tz_compatible a b then Inr (utc_us a < utc_us b)
     else Inl (TypeError ''can't compare offset-naive and offset-aware datetimes''))"

definition dt_le :: "datetime \<Rightarrow> datetime \<Rightarrow> bool result" where
  "dt_le a b = (if tz_compatible a b then Inr (utc_us a \<le> utc_us b)
     else Inl (TypeError ''can't compare offset-naive and offset-aware datetimes''))"

definition total_seconds :: "int \<Rightarrow> pyfloat" where
  "total_seconds us = fl (of_int us / 1000000)"

lemma days_before_year_ge: "1 \<le> y \<Longrightarrow> y - 1 \<le> days_before_year y"
proof (induction y)
  case (Suc y)
  then show ?case using days_before_year_Suc [of y] by (cases "y = 0") auto
qed simp

text \<open>From an ordinal back to a date: the year by a short search from a lower bound, then the month.\<close>

function year_from :: "nat \<Rightarrow> nat \<Rightarrow> nat" where
  "year_from y n = (if 1 \<le> y \<and> days_before_year (Suc y) < n then year_from (Suc y) n else y)"
  by pat_completeness auto

termination
proof (relation "measure (\<lambda>(y, n). n - y)")
  fix y n :: nat
  assume "1 \<le> y \<and> days_before_year (Suc y) < n"
  then show "((Suc y, n), y, n) \<in> measure (\<lambda>(y, n). n - y)"
    using days_before_year_ge [of "Suc y"] by (simp; linarith)
qed simp

declare year_from.simps [simp del]

function month_from :: "nat \<Rightarrow> nat \<Rightarrow> nat \<Rightarrow> nat" where
  "month_from y m r = (if m < 12 \<and> days_before_month y (Suc m) < r then month_from y (Suc m) r else m)"
  by pat_completeness auto
termination
  by (relation "measure (\<lambda>(y, m, r). 12 - m)") auto

declare month_from.simps [simp del]

definition date_of_ordinal :: "nat \<Rightarrow> nat \<times> nat \<times> nat" where
  "date_of_ordinal n = (let y = year_from (max 1 (n div 366)) n; r = n - days_before_year y;
     m = month_from y 1 r in (y, m, r - days_before_month y m))"

definition of_local_us :: "int \<Rightarrow> int option \<Rightarrow> datetime" where
  "of_local_us t z = (let u = nat t; s = u div 1000000; mi = s div 60; h = mi div 60;
       (y, mo, da) = date_of_ordinal (h div 24)
     in \<lparr>dt_year = y, dt_month = mo, dt_day = da, dt_hour = h mod 24, dt_minute = mi mod 60,
         dt_second = s mod 60, dt_micro = u mod 1000000, dt_tz = z\<rparr>)"

definition dt_add_us :: "datetime \<Rightarrow> int \<Rightarrow> datetime" where
  "dt_add_us d t = of_local_us (local_us d + t) (dt_tz d)"

lemma year_from_bounds:
  "1 \<le> y \<Longrightarrow> days_before_year y < n \<Longrightarrow>
   1 \<le> year_from y n \<and> days_before_year (year_from y n) < n \<and> n \<le> days_before_year (Suc (year_from y n))"
proof (induction y n rule: year_from.induct)
  case (1 y n)
  then show ?case
    by (cases "days_before_year (Suc y) < n") (simp_all add: year_from.simps [of y n])
qed

lemma month_from_bounds:
  "1 \<le> m \<Longrightarrow> m \<le> 12 \<Longrightarrow> days_before_month y m < r \<Longrightarrow> r \<le> days_before_month y 13 \<Longrightarrow>
   1 \<le> month_from y m r \<and> month_from y m r \<le> 12
   \<and> days_before_month y (month_from y m r) < r \<and> r \<le> days_before_month y (Suc (month_from y m r))"
proof (induction y m r rule: month_from.induct)
  case (1 y m r)
  show ?case
  proof (cases "m < 12 \<and> days_before_month y (Suc m) < r")
    case True
    with 1 show ?thesis by (simp add: month_from.simps [of y m r] del: days_before_month.simps)
  next
    case False
    then have "m = 12 \<or> r \<le> days_before_month y (Suc m)" using 1 by linarith
    moreover have "Suc 12 = (13 :: nat)" by simp
    ultimately have "r \<le> days_before_month y (Suc m)" using "1.prems"(4) by metis
    with False 1 show ?thesis by (simp add: month_from.simps [of y m r] del: days_before_month.simps)
  qed
qed

lemma days_before_year_1: "days_before_year (Suc 0) = 0"
  by (simp add: days_before_year_def)

lemma days_before_year_366: "1 \<le> y \<Longrightarrow> days_before_year y \<le> 366 * (y - 1)"
proof (induction y)
  case (Suc y)
  then show ?case using days_before_year_Suc [of y]
    by (cases y) (auto simp: days_before_year_1 split: if_splits)
qed simp

lemma date_of_ordinal:
  assumes "1 \<le> n" "date_of_ordinal n = (y, m, d)"
  shows "days_before_year y + days_before_month y m + d = n"
    and "1 \<le> y" "1 \<le> m" "m \<le> 12" "1 \<le> d" "d \<le> days_in_month y m"
proof -
  let ?s = "max 1 (n div 366)"
  have "days_before_year ?s < n"
  proof (cases "n div 366 \<le> 1")
    case True
    then show ?thesis using assms(1) by (simp add: days_before_year_def max_def)
  next
    case False
    then have "days_before_year (n div 366) \<le> 366 * (n div 366 - 1)" by (intro days_before_year_366) simp
    also have "\<dots> < 366 * (n div 366)" using False by simp
    also have "\<dots> \<le> n" by simp
    finally show ?thesis using False by (simp add: max_def)
  qed
  then have yb: "1 \<le> year_from ?s n" "days_before_year (year_from ?s n) < n"
    "n \<le> days_before_year (Suc (year_from ?s n))"
    using year_from_bounds [of ?s n] by simp_all
  have y: "y = year_from ?s n" and m: "m = month_from y 1 (n - days_before_year y)"
    and d: "d = n - days_before_year y - days_before_month y m"
    using assms(2) by (auto simp: date_of_ordinal_def Let_def)
  have "n - days_before_year y \<le> days_before_month y 13"
    using yb days_before_year_Suc [of y] unfolding days_before_month_13 y by linarith
  then have mb: "1 \<le> m \<and> m \<le> 12 \<and> days_before_month y m < n - days_before_year y
      \<and> n - days_before_year y \<le> days_before_month y (Suc m)"
    unfolding m using yb unfolding y by (intro month_from_bounds) simp_all
  then show "1 \<le> m" "m \<le> 12" by simp_all
  show "1 \<le> y" using yb y by simp
  show "days_before_year y + days_before_month y m + d = n" "1 \<le> d" using mb d by linarith+
  have "n - days_before_year y \<le> days_before_month y m + days_in_month y m" using mb by auto
  then show "d \<le> days_in_month y m" using mb d by linarith
qed

lemma nat_digits:
  fixes u :: nat
  shows "((u div 1000000 div 60 div 60 * 60 + u div 1000000 div 60 mod 60) * 60 + u div 1000000 mod 60) * 1000000
    + u mod 1000000 = u"
  by (simp only: div_mult_mod_eq)

theorem local_us_of_local_us:
  assumes "86400000000 \<le> t"
  shows "local_us (of_local_us t z) = t"
proof -
  let ?h = "nat t div 1000000 div 60 div 60"
  obtain y m d where e: "date_of_ordinal (?h div 24) = (y, m, d)" by (metis prod_cases3)
  have "1 \<le> ?h div 24" using assms by linarith
  note ord = date_of_ordinal(1) [OF this e]
  have f: "dt_year (of_local_us t z) = y" "dt_month (of_local_us t z) = m" "dt_day (of_local_us t z) = d"
    "dt_hour (of_local_us t z) = ?h mod 24" "dt_minute (of_local_us t z) = nat t div 1000000 div 60 mod 60"
    "dt_second (of_local_us t z) = nat t div 1000000 mod 60" "dt_micro (of_local_us t z) = nat t mod 1000000"
    by (simp_all only: of_local_us_def Let_def e prod.case datetime.select_convs)
  have "toordinal (of_local_us t z) = ?h div 24" by (simp only: toordinal_def f ord)
  then have "local_us (of_local_us t z) = int (((((?h div 24) * 24 + ?h mod 24) * 60
      + nat t div 1000000 div 60 mod 60) * 60 + nat t div 1000000 mod 60) * 1000000 + nat t mod 1000000)"
    by (simp only: local_us_def local_seconds_def f)
  also have "\<dots> = t" using assms by (simp only: div_mult_mod_eq)
  finally show ?thesis .
qed

section \<open>Adding a timedelta\<close>

text \<open>
  The ordinal range of \<open>datetime\<close> is 1 to 3652059 (31 December 9999); addition that leaves it
  raises \<open>OverflowError\<close>. Local time is kept in microseconds, one day being 86400000000.
\<close>

definition in_range_us :: "int \<Rightarrow> bool" where
  "in_range_us t = (86400000000 \<le> t \<and> t < 3652060 * 86400000000)"

definition dt_plus :: "datetime \<Rightarrow> int \<Rightarrow> datetime result" where
  "dt_plus d t = (if in_range_us (local_us d + t) then Inr (of_local_us (local_us d + t) (dt_tz d))
     else Inl (OverflowError ''date value out of range''))"

text \<open>\<open>timedelta(seconds=x)\<close> for a float: whole seconds exactly, the fraction rounded to microseconds.\<close>

fun timedelta_seconds :: "pyfloat \<Rightarrow> int result" where
  "timedelta_seconds (Fin x) =
     (let i = (if 0 \<le> x then \<lfloor>x\<rfloor> else \<lceil>x\<rceil>);
          us = i * 1000000 + round_even (rnd64 ((x - of_int i) * 1000000))
      in if \<bar>us\<bar> < 86400000000000000000 then Inr us
         else Inl (OverflowError ''days out of range for timedelta''))"
| "timedelta_seconds NaN = Inl (ValueError ''cannot convert float NaN to integer'')"
| "timedelta_seconds _ = Inl (OverflowError ''cannot convert float infinity to integer'')"

lemma valid_of_local_us:
  assumes "in_range_us t" "case z of None \<Rightarrow> True | Some m \<Rightarrow> \<bar>m\<bar> < 1440"
  shows "valid_dt (of_local_us t z)"
proof -
  let ?n = "nat t div 1000000 div 60 div 60 div 24"
  obtain y m d where e: "date_of_ordinal ?n = (y, m, d)" by (metis prod_cases3)
  have n: "1 \<le> ?n" "?n \<le> 3652059" using assms(1) by (auto simp: in_range_us_def)
  note ord = date_of_ordinal [OF n(1) e]
  have "y \<le> 9999"
  proof (rule ccontr)
    assume "\<not> y \<le> 9999"
    then have "days_before_year 10000 \<le> days_before_year y" by (intro days_before_year_mono) simp_all
    then show False using ord(1,5) n(2) by (simp add: days_before_year_def [of 10000])
  qed
  with ord(2-6) assms(2) show ?thesis
    by (simp add: valid_dt_def valid_date_def of_local_us_def Let_def e)
qed

lemma dt_tz_of_local_us [simp]: "dt_tz (of_local_us t z) = z"
  by (simp add: of_local_us_def Let_def split: prod.splits)

lemma valid_dt_plus: "valid_dt d \<Longrightarrow> dt_plus d t = Inr e \<Longrightarrow> valid_dt e"
  by (auto simp: dt_plus_def valid_dt_def split: if_splits
      intro!: valid_of_local_us [unfolded valid_dt_def])

lemma local_us_dt_plus:
  "dt_plus d t = Inr e \<Longrightarrow> local_us e = local_us d + t \<and> dt_tz e = dt_tz d"
  by (auto simp: dt_plus_def in_range_us_def local_us_of_local_us split: if_splits)

lemma utc_us_dt_plus: "dt_plus d t = Inr e \<Longrightarrow> utc_us e = utc_us d + t"
  by (drule local_us_dt_plus) (simp add: utc_us_def)

lemma in_range_local_us:
  assumes "valid_dt d"
  shows "in_range_us (local_us d)"
proof -
  have v: "1 \<le> dt_year d" "dt_year d \<le> 9999" "1 \<le> dt_month d" "dt_month d \<le> 12" "1 \<le> dt_day d"
    "dt_day d \<le> days_in_month (dt_year d) (dt_month d)"
    using assms by (auto simp: valid_dt_def valid_date_def)
  have "days_before_month (dt_year d) (dt_month d) + dt_day d \<le> days_before_month (dt_year d) (Suc (dt_month d))"
    using v by simp
  also have "\<dots> \<le> days_before_month (dt_year d) 13" using v by (intro days_before_month_mono) simp
  finally have "toordinal d \<le> days_before_year (Suc (dt_year d))"
    using v days_before_year_Suc [of "dt_year d"] days_before_month_13 [of "dt_year d"]
    by (simp add: toordinal_def)
  also have "\<dots> \<le> days_before_year 10000" using v by (intro days_before_year_mono) simp_all
  finally have "toordinal d \<le> 3652059" by (simp add: days_before_year_def)
  moreover have "1 \<le> toordinal d" using v by (simp add: toordinal_def)
  ultimately show ?thesis
    using valid_dt_bounds [OF assms]
    by (simp add: in_range_us_def local_us_def local_seconds_def)
qed

lemma of_local_us_local_us:
  assumes "valid_dt d"
  shows "of_local_us (local_us d) (dt_tz d) = d"
proof -
  let ?e = "of_local_us (local_us d) (dt_tz d)"
  note range = in_range_local_us [OF assms]
  have ve: "valid_dt ?e" using assms by (intro valid_of_local_us [OF range]) (simp add: valid_dt_def)
  have le: "local_us ?e = local_us d" using range by (simp add: in_range_us_def local_us_of_local_us)
  have u: "dt_micro ?e < 1000000" "dt_micro d < 1000000" using ve assms valid_dt_bounds by blast+
  from le have "local_seconds ?e * 1000000 + dt_micro ?e = local_seconds d * 1000000 + dt_micro d"
    unfolding local_us_def by (simp only: of_nat_eq_iff)
  note both = arg_cong [OF this, of "\<lambda>n. n div 1000000"] arg_cong [OF this, of "\<lambda>n. n mod 1000000"]
  from both u have "local_seconds ?e = local_seconds d" "dt_micro ?e = dt_micro d" by simp_all
  with clock_key_eq [OF ve assms] show ?thesis by (auto simp: clock_key_def intro: datetime.equality)
qed

section \<open>A sample instant\<close>

text \<open>Monday 5 January 2026, 09:30 in Seoul, used where a property is exercised on concrete data.\<close>

definition sample_time :: datetime where
  "sample_time = \<lparr>dt_year = 2026, dt_month = 1, dt_day = 5, dt_hour = 9, dt_minute = 30,
     dt_second = 0, dt_micro = 0, dt_tz = Some 540\<rparr>"

lemma valid_sample_time: "valid_dt sample_time"
  by (simp add: sample_time_def valid_dt_def valid_date_def days_in_month_def)

lemma local_us_sample_time: "local_us sample_time = 63903288600000000"
proof -
  have "days_before_month 2026 1 = 0" by (simp add: One_nat_def)
  then have "toordinal sample_time = 739621"
    by (simp add: sample_time_def toordinal_def days_before_year_def)
  then show ?thesis by (simp add: local_us_def local_seconds_def) (simp add: sample_time_def)
qed

lemma utc_us_sample_time: "utc_us sample_time = 63903256200000000"
  by (simp add: utc_us_def local_us_sample_time tz_us_def) (simp add: sample_time_def tz_us_def)

end
