(* ===== verification/Storage.thy ===== *)
theory Storage
  imports PyTime
begin

text \<open>
  The SQLite state of \<open>storage/database.py\<close>: one record per row type (the columns of the
  \<open>SCHEMA\<close>, enumerated TEXT columns as datatypes), the database as a record of tables, and
  the validation helpers. An operation is a function from the database to a result and a
  database; a \<open>with self.connection\<close> block that raises leaves the database as it was.
  The system clock is the argument \<open>clk\<close> wherever the code reads it.
\<close>

section \<open>Operations with state and exceptions\<close>

definition op_fail :: "exc \<Rightarrow> 's \<Rightarrow> 'a result \<times> 's" where
  "op_fail e s = (Inl e, s)"

definition op_ret :: "'a \<Rightarrow> 's \<Rightarrow> 'a result \<times> 's" where
  "op_ret x s = (Inr x, s)"

definition op_bind :: "('s \<Rightarrow> 'a result \<times> 's) \<Rightarrow> ('a \<Rightarrow> 's \<Rightarrow> 'b result \<times> 's) \<Rightarrow> 's \<Rightarrow> 'b result \<times> 's" where
  "op_bind m f s = (case m s of (Inl e, s') \<Rightarrow> (Inl e, s') | (Inr x, s') \<Rightarrow> f x s')"

definition op_guard :: "bool \<Rightarrow> exc \<Rightarrow> ('s \<Rightarrow> 'a result \<times> 's) \<Rightarrow> 's \<Rightarrow> 'a result \<times> 's" where
  "op_guard bad e k s = (if bad then (Inl e, s) else k s)"

text \<open>A body that runs inside \<open>with self.connection\<close>: an exception rolls every change back.\<close>

definition transaction :: "('s \<Rightarrow> 'a result \<times> 's) \<Rightarrow> 's \<Rightarrow> 'a result \<times> 's" where
  "transaction m s = (case m s of (Inl e, _) \<Rightarrow> (Inl e, s) | (Inr x, s') \<Rightarrow> (Inr x, s'))"

lemma op_guard_False [simp, result_simps]: "op_guard False e k = k"
  by (simp add: op_guard_def fun_eq_iff)

lemma op_guard_True [simp, result_simps]: "op_guard True e k s = (Inl e, s)"
  by (simp add: op_guard_def)

lemma op_guard_Inr: "op_guard bad e k s = (Inr x, s') \<longleftrightarrow> \<not> bad \<and> k s = (Inr x, s')"
  by (simp add: op_guard_def)

lemma op_bind_ret [simp, result_simps]: "op_bind (op_ret x) f s = f x s"
  by (simp add: op_bind_def op_ret_def)

lemma op_bind_Inr:
  "op_bind m f s = (Inr y, s'') \<longleftrightarrow> (\<exists>x s'. m s = (Inr x, s') \<and> f x s' = (Inr y, s''))"
  by (auto simp: op_bind_def split: prod.splits sum.splits)

lemma transaction_Inl: "transaction m s = (Inl e, s') \<Longrightarrow> s' = s"
  by (auto simp: transaction_def split: prod.splits sum.splits)

section \<open>Rows\<close>

datatype side = BUY | SELL

fun side_str :: "side \<Rightarrow> string" where
  "side_str BUY = ''BUY''"
| "side_str SELL = ''SELL''"

definition side_of :: "string \<Rightarrow> side option" where
  "side_of s = (if s = ''BUY'' then Some BUY else if s = ''SELL'' then Some SELL else None)"

datatype order_status = INTENT | SUBMITTING | ACKNOWLEDGED | PARTIALLY_FILLED | FILLED
  | CANCEL_PENDING | CANCELLED | REJECTED | UNKNOWN

fun status_str :: "order_status \<Rightarrow> string" where
  "status_str INTENT = ''INTENT''"
| "status_str SUBMITTING = ''SUBMITTING''"
| "status_str ACKNOWLEDGED = ''ACKNOWLEDGED''"
| "status_str PARTIALLY_FILLED = ''PARTIALLY_FILLED''"
| "status_str FILLED = ''FILLED''"
| "status_str CANCEL_PENDING = ''CANCEL_PENDING''"
| "status_str CANCELLED = ''CANCELLED''"
| "status_str REJECTED = ''REJECTED''"
| "status_str UNKNOWN = ''UNKNOWN''"

definition TERMINAL_BROKER_ORDER_STATUSES :: "order_status list" where
  "TERMINAL_BROKER_ORDER_STATUSES = [FILLED, CANCELLED, REJECTED]"

record broker_order =
  bo_client_order_id :: string
  bo_signal_id :: "string option"
  bo_symbol :: string
  bo_side :: side
  bo_requested_qty :: int
  bo_requested_price :: pyfloat
  bo_status :: order_status
  bo_broker_order_id :: "string option"
  bo_filled_qty :: int
  bo_avg_fill_price :: "pyfloat option"
  bo_created_at :: string
  bo_updated_at :: string
  bo_submitted_at :: "string option"
  bo_completed_at :: "string option"
  bo_error :: "string option"

record broker_fill =
  bf_fill_id :: string
  bf_client_order_id :: string
  bf_broker_order_id :: "string option"
  bf_symbol :: string
  bf_side :: side
  bf_quantity :: int
  bf_price :: pyfloat
  bf_filled_at :: string
  bf_created_at :: string

record fill_application =
  fa_fill_id :: string
  fa_client_order_id :: string
  fa_applied_at :: string

datatype position_status = POS_OPEN | POS_CLOSED

record live_position =
  lp_position_id :: string
  lp_signal_id :: string
  lp_symbol :: string
  lp_quantity :: int
  lp_entry_price :: pyfloat
  lp_stop_loss_price :: pyfloat
  lp_take_profit_price :: pyfloat
  lp_opened_at :: string
  lp_status :: position_status
  lp_entry_broker_order_id :: "string option"
  lp_exit_broker_order_id :: "string option"
  lp_closed_at :: "string option"
  lp_close_reason :: "string option"
  lp_max_holding_seconds :: "int option"

record metadata_row =
  md_key :: string
  md_value :: string
  md_updated_at :: string

record service_lease =
  sl_lease_name :: string
  sl_owner_id :: string
  sl_acquired_at :: string
  sl_renewed_at :: string
  sl_expires_at :: string

record runtime_control =
  rc_paused :: bool
  rc_updated_at :: string
  rc_reason :: string
  rc_source :: string
  rc_environment :: string

record order_audit =
  oa_audit_id :: string
  oa_signal_id :: "string option"
  oa_symbol :: string
  oa_side :: string
  oa_quantity :: int
  oa_price :: pyfloat
  oa_status :: string
  oa_reason :: string
  oa_broker_order_id :: "string option"
  oa_created_at :: string

record ai_decision =
  ad_decision_id :: string
  ad_symbol :: string
  ad_action :: string
  ad_confidence :: pyfloat
  ad_entry_price :: "pyfloat option"
  ad_take_profit_price :: "pyfloat option"
  ad_stop_loss_price :: "pyfloat option"
  ad_risk_level :: string
  ad_requires_operator_approval :: bool
  ad_rationale :: string
  ad_created_at :: string
  ad_strategy :: string
  ad_model :: string
  ad_prompt_version :: string
  ad_max_holding_seconds :: "int option"

record approval_request =
  ap_request_id :: string
  ap_symbol :: string
  ap_decision_id :: "string option"
  ap_reason :: string
  ap_status :: string
  ap_created_at :: string
  ap_resolved_at :: "string option"
  ap_expires_at :: "string option"
  ap_resolved_by :: "string option"
  ap_consumed_at :: "string option"
  ap_signal_id :: "string option"
  ap_quantity :: "int option"
  ap_entry_price :: "pyfloat option"
  ap_take_profit_price :: "pyfloat option"
  ap_stop_loss_price :: "pyfloat option"
  ap_max_holding_seconds :: "int option"

record watch_row =
  wl_symbol :: string
  wl_enabled :: bool
  wl_added_at :: string

record db =
  broker_orders :: "broker_order table"
  broker_fills :: "broker_fill table"
  fill_applications :: "fill_application table"
  live_positions :: "live_position table"
  runtime_metadata :: "metadata_row table"
  service_leases :: "service_lease table"
  control_row :: "runtime_control option"
  broker_order_audits :: "order_audit table"
  ai_decision_audits :: "ai_decision table"
  approval_requests :: "approval_request table"
  watchlist :: "watch_row table"

definition empty_db :: db where
  "empty_db = \<lparr>broker_orders = [], broker_fills = [], fill_applications = [], live_positions = [],
     runtime_metadata = [], service_leases = [], control_row = None, broker_order_audits = [],
     ai_decision_audits = [], approval_requests = [], watchlist = []\<rparr>"

type_synonym 'a dbop = "db \<Rightarrow> 'a result \<times> db"

section \<open>Validation helpers\<close>

definition iso :: "datetime \<Rightarrow> string" where
  "iso value = isoformat value"

definition require_nonempty :: "string \<Rightarrow> string \<Rightarrow> 'a dbop \<Rightarrow> 'a dbop" where
  "require_nonempty value name k =
     op_guard (strip value = []) (ValueError (name @ '' must not be empty'')) k"

definition require_nonempty_opt :: "string option \<Rightarrow> string \<Rightarrow> 'a dbop \<Rightarrow> 'a dbop" where
  "require_nonempty_opt value name k =
     (case value of None \<Rightarrow> k | Some v \<Rightarrow> require_nonempty v name k)"

definition validate_symbol :: "string \<Rightarrow> 'a dbop \<Rightarrow> 'a dbop" where
  "validate_symbol symbol k =
     op_guard (strip symbol = []) (ValueError ''symbol must not be empty'')
       (op_guard (\<not> isdigit symbol \<or> length symbol \<noteq> 6)
          (ValueError ''symbol must be a six-digit domestic stock code'') k)"

definition positive_number :: "pyfloat \<Rightarrow> bool" where
  "positive_number v = (isfinite v \<and> \<not> fle v (Fin 0))"

definition validate_positive_float :: "pyfloat \<Rightarrow> string \<Rightarrow> 'a dbop \<Rightarrow> 'a dbop" where
  "validate_positive_float v name k = op_guard (\<not> positive_number v) (ValueError (name @ '' must be positive'')) k"

definition validate_positive_int :: "int \<Rightarrow> string \<Rightarrow> 'a dbop \<Rightarrow> 'a dbop" where
  "validate_positive_int v name k = op_guard (v \<le> 0) (ValueError (name @ '' must be positive'')) k"

definition validate_paper_record :: "string \<Rightarrow> int \<Rightarrow> pyfloat \<Rightarrow> 'a dbop \<Rightarrow> 'a dbop" where
  "validate_paper_record symbol quantity price k =
     validate_symbol symbol
       (op_guard (quantity \<le> 0) (ValueError ''quantity must be positive'')
         (op_guard (fle price (Fin 0)) (ValueError ''price must be positive'') k))"

text \<open>Python's \<open>a or b\<close> on optional strings: the empty string counts as missing.\<close>

definition str_or :: "string option \<Rightarrow> string option \<Rightarrow> string option" where
  "str_or a b = (case a of None \<Rightarrow> b | Some s \<Rightarrow> if s = [] then b else Some s)"

definition coalesce :: "'a option \<Rightarrow> 'a option \<Rightarrow> 'a option" where
  "coalesce a b = (case a of None \<Rightarrow> b | Some x \<Rightarrow> Some x)"

lemma coalesce_simps [simp]: "coalesce None b = b" "coalesce (Some x) b = Some x"
  by (simp_all add: coalesce_def)

text \<open>\<open>ORDER BY .. LIMIT 1\<close>.\<close>

definition first_by :: "('r \<Rightarrow> 'k :: linorder) \<Rightarrow> 'r list \<Rightarrow> 'r option" where
  "first_by k rows = (case sort_key k rows of [] \<Rightarrow> None | r # _ \<Rightarrow> Some r)"

lemma first_by_SomeD: "first_by k rows = Some r \<Longrightarrow> r \<in> set rows"
  unfolding first_by_def by (metis list.case_eq_if list.set_sel(1) option.inject option.distinct(1) set_sort)

lemma first_by_None: "first_by k rows = None \<longleftrightarrow> rows = []"
  by (auto simp: first_by_def split: list.splits) (metis set_empty set_sort list.set(1))

lemma first_by_singleton [simp]: "first_by k [r] = Some r"
  by (simp add: first_by_def)

lemmas validation_defs = require_nonempty_def require_nonempty_opt_def validate_symbol_def
  validate_positive_float_def validate_positive_int_def validate_paper_record_def

section \<open>Operations that keep a predicate\<close>

text \<open>
  \<open>preserves I m\<close>: running \<open>m\<close> on a state that satisfies \<open>I\<close> leaves a state that satisfies
  \<open>I\<close>, whether \<open>m\<close> returns or raises. The rules follow the structure of an operation, so the
  proof for a composed operation is a walk over its definition.
\<close>

definition preserves :: "('s \<Rightarrow> bool) \<Rightarrow> ('s \<Rightarrow> 'a result \<times> 's) \<Rightarrow> bool" where
  "preserves I m = (\<forall>s. I s \<longrightarrow> I (snd (m s)))"

named_theorems preserves_rules \<open>introduction rules for preserves\<close>

lemma preservesI: "(\<And>s. I s \<Longrightarrow> I (snd (m s))) \<Longrightarrow> preserves I m"
  by (simp add: preserves_def)

lemma preservesD: "preserves I m \<Longrightarrow> I s \<Longrightarrow> I (snd (m s))"
  by (simp add: preserves_def)

lemma preserves_run: "preserves I m \<Longrightarrow> I s \<Longrightarrow> m s = (r, s') \<Longrightarrow> I s'"
  using preservesD [of I m s] by simp

lemma preserves_ret [preserves_rules]: "preserves I (op_ret x)"
  by (simp add: preserves_def op_ret_def)

lemma preserves_fail [preserves_rules]: "preserves I (op_fail e)"
  by (simp add: preserves_def op_fail_def)

lemma preserves_guard [preserves_rules]:
  "(\<not> bad \<Longrightarrow> preserves I k) \<Longrightarrow> preserves I (op_guard bad e k)"
  by (auto simp: preserves_def op_guard_def)

lemma preserves_bind [preserves_rules]:
  assumes "preserves I m" and "\<And>x. preserves I (f x)"
  shows "preserves I (op_bind m f)"
proof (rule preservesI)
  fix s assume "I s"
  then show "I (snd (op_bind m f s))"
    using assms preservesD [OF assms(1) \<open>I s\<close>]
    by (auto simp: op_bind_def preserves_def split: prod.splits sum.splits)
qed

lemma transaction_Inr: "transaction m s = (Inr x, s') \<longleftrightarrow> m s = (Inr x, s')"
  by (auto simp: transaction_def split: prod.splits sum.splits)

lemma preserves_transaction [preserves_rules]:
  assumes "\<And>s x s'. I s \<Longrightarrow> m s = (Inr x, s') \<Longrightarrow> I s'"
  shows "preserves I (transaction m)"
  using assms by (force simp: preserves_def transaction_def split: prod.splits sum.splits)

lemma preserves_if [preserves_rules]:
  "preserves I m \<Longrightarrow> preserves I n \<Longrightarrow> preserves I (if b then m else n)"
  by simp

lemma preserves_option [preserves_rules]:
  "preserves I m \<Longrightarrow> (\<And>x. preserves I (f x)) \<Longrightarrow> preserves I (case v of None \<Rightarrow> m | Some x \<Rightarrow> f x)"
  by (cases v) simp_all

lemma preserves_read: "(\<And>s. snd (m s) = s) \<Longrightarrow> preserves I m"
  by (simp add: preserves_def)

lemma preserves_require_nonempty [preserves_rules]:
  "(strip v \<noteq> [] \<Longrightarrow> preserves I k) \<Longrightarrow> preserves I (require_nonempty v n k)"
  unfolding require_nonempty_def by (rule preserves_guard)

lemma preserves_require_nonempty_opt [preserves_rules]:
  "preserves I k \<Longrightarrow> preserves I (require_nonempty_opt v n k)"
  unfolding require_nonempty_opt_def by (intro preserves_option preserves_require_nonempty)

lemma preserves_validate_symbol [preserves_rules]:
  "preserves I k \<Longrightarrow> preserves I (validate_symbol v k)"
  unfolding validate_symbol_def by (intro preserves_guard)

lemma preserves_validate_positive_float [preserves_rules]:
  "(positive_number v \<Longrightarrow> preserves I k) \<Longrightarrow> preserves I (validate_positive_float v n k)"
  unfolding validate_positive_float_def by (rule preserves_guard) simp

lemma preserves_validate_positive_int [preserves_rules]:
  "(0 < v \<Longrightarrow> preserves I k) \<Longrightarrow> preserves I (validate_positive_int v n k)"
  unfolding validate_positive_int_def by (rule preserves_guard) simp

lemma preserves_validate_paper_record [preserves_rules]:
  "(0 < q \<Longrightarrow> preserves I k) \<Longrightarrow> preserves I (validate_paper_record a q c k)"
  unfolding validate_paper_record_def by (intro preserves_guard preserves_validate_symbol) simp

lemma preserves_opt_float [preserves_rules]:
  "preserves I k \<Longrightarrow> preserves I ((case v of None \<Rightarrow> (\<lambda>k. k) | Some x \<Rightarrow> validate_positive_float x n) k)"
  by (cases v) (simp_all add: preserves_validate_positive_float)

lemma preserves_opt_symbol [preserves_rules]:
  "preserves I k \<Longrightarrow> preserves I ((case v of None \<Rightarrow> (\<lambda>k. k) | Some x \<Rightarrow> validate_symbol x) k)"
  by (cases v) (simp_all add: preserves_validate_symbol)

end
