(* ===== verification/RuntimeStore.thy ===== *)
theory RuntimeStore
  imports Storage
begin

text \<open>
  The runtime tables of \<open>storage/database.py\<close>: metadata and heartbeats, the operator's
  runtime control, the service lease that lets one process trade, order and decision audits,
  and the watchlist. The lemmas show what a read returns after a write, that the
  environment switches only on a paused and flat book, and that an unexpired lease excludes
  every other owner.
\<close>

section \<open>Metadata and heartbeats\<close>

text \<open>\<open>INSERT .. ON CONFLICT(key) DO UPDATE\<close>: one row per key.\<close>

definition upsert_metadata :: "string \<Rightarrow> string \<Rightarrow> string \<Rightarrow> metadata_row table \<Rightarrow> metadata_row table" where
  "upsert_metadata key value timestamp t =
     (if exists_where (\<lambda>r. md_key r = key) t
      then update_where (\<lambda>r. md_key r = key) (\<lambda>r. r\<lparr>md_value := value, md_updated_at := timestamp\<rparr>) t
      else t @ [\<lparr>md_key = key, md_value = value, md_updated_at = timestamp\<rparr>])"

definition metadata_value :: "db \<Rightarrow> string \<Rightarrow> string option" where
  "metadata_value d key = map_option md_value (fetchone (\<lambda>r. md_key r = key) (runtime_metadata d))"

definition get_runtime_metadata :: "string \<Rightarrow> string option dbop" where
  "get_runtime_metadata key = require_nonempty key ''key'' (\<lambda>d. (Inr (metadata_value d key), d))"

definition set_runtime_metadata :: "string \<Rightarrow> string \<Rightarrow> datetime \<Rightarrow> string dbop" where
  "set_runtime_metadata key value updated_at = require_nonempty key ''key''
     (\<lambda>d. (Inr (iso updated_at),
           d\<lparr>runtime_metadata := upsert_metadata key value (iso updated_at) (runtime_metadata d)\<rparr>))"

definition TELEGRAM_UPDATE_OFFSET_KEY :: string where
  "TELEGRAM_UPDATE_OFFSET_KEY = ''telegram.update_offset''"

definition get_telegram_update_offset :: "int option dbop" where
  "get_telegram_update_offset = op_bind (get_runtime_metadata TELEGRAM_UPDATE_OFFSET_KEY)
     (\<lambda>value. case value of None \<Rightarrow> op_ret None
        | Some v \<Rightarrow> (case int_of_str v of
            None \<Rightarrow> op_fail (ValueError ''invalid literal for int() with base 10'')
          | Some n \<Rightarrow> op_ret (Some n)))"

definition set_telegram_update_offset :: "int \<Rightarrow> datetime \<Rightarrow> string dbop" where
  "set_telegram_update_offset offset updated_at =
     op_guard (offset < 0) (ValueError ''Telegram update offset must be a non-negative integer'')
       (set_runtime_metadata TELEGRAM_UPDATE_OFFSET_KEY (show_int offset) updated_at)"

definition set_heartbeat :: "string \<Rightarrow> datetime \<Rightarrow> string dbop" where
  "set_heartbeat key heartbeat_time =
     op_bind (set_runtime_metadata key (iso heartbeat_time) heartbeat_time)
       (\<lambda>_. op_ret (iso heartbeat_time))"

definition record_heartbeat :: "string \<Rightarrow> datetime \<Rightarrow> string dbop" where
  "record_heartbeat component heartbeat_at = require_nonempty component ''component''
     (set_heartbeat (''heartbeat:'' @ component) heartbeat_at)"

definition get_heartbeat :: "string \<Rightarrow> string option dbop" where
  "get_heartbeat component = require_nonempty component ''component''
     (get_runtime_metadata (''heartbeat:'' @ component))"

section \<open>Service leases\<close>

text \<open>
  SQLite's \<open>julianday\<close> on a stored timestamp, in its internal milliseconds: seconds are rounded
  to the millisecond, a missing offset means UTC, an offset beyond 14:59 is not a time value.
  NULL compares as false. SQLite computes the milliseconds in doubles, so an exact half millisecond may fall the other way there.
\<close>

definition julianday_ms :: "string \<Rightarrow> int option" where
  "julianday_ms s = (case fromisoformat s of None \<Rightarrow> None
     | Some d \<Rightarrow> (case dt_tz d of
          Some z \<Rightarrow> if \<bar>z\<bar> \<le> 899 then Some ((utc_us d + 500) div 1000) else None
        | None \<Rightarrow> Some ((utc_us d + 500) div 1000)))"

definition julianday_le :: "string \<Rightarrow> string \<Rightarrow> bool" where
  "julianday_le a b = (case (julianday_ms a, julianday_ms b) of (Some x, Some y) \<Rightarrow> x \<le> y | _ \<Rightarrow> False)"

definition julianday_gt :: "string \<Rightarrow> string \<Rightarrow> bool" where
  "julianday_gt a b = (case (julianday_ms a, julianday_ms b) of (Some x, Some y) \<Rightarrow> x > y | _ \<Rightarrow> False)"

definition lift_result :: "'a result \<Rightarrow> ('a \<Rightarrow> 'b dbop) \<Rightarrow> 'b dbop" where
  "lift_result r k = (case r of Inl e \<Rightarrow> op_fail e | Inr x \<Rightarrow> k x)"

definition lease_takeable :: "string \<Rightarrow> string \<Rightarrow> service_lease \<Rightarrow> bool" where
  "lease_takeable owner_id acquired_at r =
     (sl_owner_id r = owner_id \<or> julianday_le (sl_expires_at r) acquired_at)"

definition acquire_service_lease :: "string \<Rightarrow> string \<Rightarrow> pyfloat \<Rightarrow> datetime \<Rightarrow> bool dbop" where
  "acquire_service_lease lease_name owner_id ttl_seconds now =
     require_nonempty lease_name ''lease_name'' (require_nonempty owner_id ''owner_id''
     (validate_positive_float ttl_seconds ''ttl_seconds''
     (lift_result (timedelta_seconds ttl_seconds) (\<lambda>ttl. lift_result (dt_plus now ttl) (\<lambda>expiry.
      (\<lambda>d. let acquired_at = iso now; expires_at = iso expiry;
              named = (\<lambda>r. sl_lease_name r = lease_name)
          in if exists_where named (service_leases d)
             then (let p = (\<lambda>r. named r \<and> lease_takeable owner_id acquired_at r)
                   in (Inr (0 < rowcount p (service_leases d)),
                       d\<lparr>service_leases := update_where p (\<lambda>r. r\<lparr>sl_owner_id := owner_id,
                          sl_acquired_at := acquired_at, sl_renewed_at := acquired_at,
                          sl_expires_at := expires_at\<rparr>) (service_leases d)\<rparr>))
             else (Inr True, d\<lparr>service_leases := service_leases d @
                      [\<lparr>sl_lease_name = lease_name, sl_owner_id = owner_id, sl_acquired_at = acquired_at,
                        sl_renewed_at = acquired_at, sl_expires_at = expires_at\<rparr>]\<rparr>)))))))"

definition renew_service_lease :: "string \<Rightarrow> string \<Rightarrow> pyfloat \<Rightarrow> datetime \<Rightarrow> bool dbop" where
  "renew_service_lease lease_name owner_id ttl_seconds now =
     require_nonempty lease_name ''lease_name'' (require_nonempty owner_id ''owner_id''
     (validate_positive_float ttl_seconds ''ttl_seconds''
     (lift_result (timedelta_seconds ttl_seconds) (\<lambda>ttl. lift_result (dt_plus now ttl) (\<lambda>expiry.
      (\<lambda>d. let renewed_at = iso now;
              p = (\<lambda>r. sl_lease_name r = lease_name \<and> sl_owner_id r = owner_id
                       \<and> julianday_gt (sl_expires_at r) renewed_at)
          in (Inr (0 < rowcount p (service_leases d)),
              d\<lparr>service_leases := update_where p (\<lambda>r. r\<lparr>sl_renewed_at := renewed_at,
                  sl_expires_at := iso expiry\<rparr>) (service_leases d)\<rparr>)))))))"

definition release_service_lease :: "string \<Rightarrow> string \<Rightarrow> bool dbop" where
  "release_service_lease lease_name owner_id =
     require_nonempty lease_name ''lease_name'' (require_nonempty owner_id ''owner_id''
     (\<lambda>d. let p = (\<lambda>r. sl_lease_name r = lease_name \<and> sl_owner_id r = owner_id)
          in (Inr (0 < rowcount p (service_leases d)),
              d\<lparr>service_leases := delete_where p (service_leases d)\<rparr>)))"

definition get_service_lease :: "string \<Rightarrow> service_lease option dbop" where
  "get_service_lease lease_name = require_nonempty lease_name ''lease_name''
     (\<lambda>d. (Inr (fetchone (\<lambda>r. sl_lease_name r = lease_name) (service_leases d)), d))"

section \<open>Runtime control\<close>

definition default_control :: runtime_control where
  "default_control = \<lparr>rc_paused = True, rc_updated_at = ''1970-01-01T00:00:00+00:00'',
     rc_reason = ''default_paused'', rc_source = ''database_init'', rc_environment = ''demo''\<rparr>"

definition get_runtime_control :: "db \<Rightarrow> runtime_control" where
  "get_runtime_control d = (case control_row d of None \<Rightarrow> default_control
     | Some r \<Rightarrow> r\<lparr>rc_environment := (if rc_environment r = [] then ''demo'' else rc_environment r)\<rparr>)"

text \<open>\<open>init_schema\<close> inserts the paused demo row when the table is empty.\<close>

definition init_control :: "unit dbop" where
  "init_control d = (Inr (), d\<lparr>control_row := Some (case control_row d of None \<Rightarrow> default_control | Some r \<Rightarrow> r)\<rparr>)"

definition set_runtime_paused :: "bool \<Rightarrow> string \<Rightarrow> string \<Rightarrow> datetime \<Rightarrow> runtime_control dbop" where
  "set_runtime_paused paused reason source clk =
     op_guard (reason = [] \<or> source = []) (ValueError ''reason and source are required'')
     (\<lambda>d. let updated_at = isoformat clk;
              row = (case control_row d of
                None \<Rightarrow> \<lparr>rc_paused = paused, rc_updated_at = updated_at, rc_reason = reason,
                         rc_source = source, rc_environment = ''demo''\<rparr>
              | Some r \<Rightarrow> r\<lparr>rc_paused := paused, rc_updated_at := updated_at, rc_reason := reason,
                           rc_source := source\<rparr>);
              d' = d\<lparr>control_row := Some row\<rparr>
          in (Inr \<lparr>rc_paused = paused, rc_updated_at = updated_at, rc_reason = reason, rc_source = source,
                   rc_environment = rc_environment (get_runtime_control d')\<rparr>, d'))"

definition has_open_position :: "db \<Rightarrow> bool" where
  "has_open_position d = exists_where (\<lambda>p. lp_status p = POS_OPEN) (live_positions d)"

definition has_active_order :: "db \<Rightarrow> bool" where
  "has_active_order d = exists_where (\<lambda>r. bo_status r \<in> {INTENT, SUBMITTING, ACKNOWLEDGED,
     PARTIALLY_FILLED, CANCEL_PENDING, UNKNOWN}) (broker_orders d)"

text \<open>One atomic step; in the code the checks are reads before the transaction that writes.\<close>

definition set_runtime_environment :: "string \<Rightarrow> string \<Rightarrow> string \<Rightarrow> datetime \<Rightarrow> runtime_control dbop" where
  "set_runtime_environment environment reason source clk =
     op_guard (environment \<noteq> ''demo'' \<and> environment \<noteq> ''real'')
       (ValueError ''runtime environment must be demo or real'')
     (op_guard (reason = [] \<or> source = []) (ValueError ''reason and source are required'')
     (\<lambda>d. let control = get_runtime_control d in
       op_guard (\<not> rc_paused control)
         (ValueError ''runtime environment can only be changed while paused'')
       (op_guard (environment \<noteq> rc_environment control \<and> (has_open_position d \<or> has_active_order d))
         (ValueError ''runtime environment cannot change with local open positions or active/unknown broker orders'')
       (\<lambda>d. let updated_at = isoformat clk;
                row = (case control_row d of
                  None \<Rightarrow> \<lparr>rc_paused = True, rc_updated_at = updated_at, rc_reason = reason,
                           rc_source = source, rc_environment = environment\<rparr>
                | Some r \<Rightarrow> r\<lparr>rc_environment := environment, rc_updated_at := updated_at,
                             rc_reason := reason, rc_source := source\<rparr>)
            in (Inr \<lparr>rc_paused = True, rc_updated_at = updated_at, rc_reason = reason,
                     rc_source = source, rc_environment = environment\<rparr>,
                d\<lparr>control_row := Some row\<rparr>))) d))"

section \<open>Audits and watchlist\<close>

definition audit_clash :: "order_audit \<Rightarrow> order_audit \<Rightarrow> bool" where
  "audit_clash r r' = (oa_audit_id r' = oa_audit_id r)"

text \<open>A NaN price is stored as NULL, violates NOT NULL and is ignored by \<open>INSERT OR IGNORE\<close>.\<close>

definition record_broker_order_audit ::
  "string \<Rightarrow> string option \<Rightarrow> string \<Rightarrow> string \<Rightarrow> int \<Rightarrow> pyfloat \<Rightarrow> string \<Rightarrow> string \<Rightarrow> string option \<Rightarrow>
   datetime \<Rightarrow> bool dbop" where
  "record_broker_order_audit audit_id signal_id symbol sid quantity price status reason broker_order_id created_at =
     validate_paper_record symbol quantity price
     (op_guard (audit_id = [] \<or> sid = [] \<or> status = [] \<or> reason = [])
        (ValueError ''audit_id, side, status, and reason are required'')
     (\<lambda>d. let row = \<lparr>oa_audit_id = audit_id, oa_signal_id = signal_id, oa_symbol = symbol, oa_side = sid,
             oa_quantity = quantity, oa_price = price, oa_status = status, oa_reason = reason,
             oa_broker_order_id = broker_order_id, oa_created_at = iso created_at\<rparr>;
             (inserted, t) = (if price = NaN then (False, broker_order_audits d)
               else insert_or_ignore audit_clash row (broker_order_audits d))
          in (Inr inserted, d\<lparr>broker_order_audits := t\<rparr>)))"

definition broker_signal_submitted :: "string \<Rightarrow> db \<Rightarrow> bool" where
  "broker_signal_submitted signal_id d =
     exists_where (\<lambda>r. oa_signal_id r = Some signal_id \<and> oa_status r = ''SUBMITTED'') (broker_order_audits d)"

definition list_broker_order_audits :: "string option \<Rightarrow> db \<Rightarrow> order_audit list" where
  "list_broker_order_audits symbol d = sort_key (\<lambda>r. (oa_created_at r, oa_audit_id r))
     (select_where (\<lambda>r. case symbol of None \<Rightarrow> True | Some s \<Rightarrow> oa_symbol r = s) (broker_order_audits d))"

definition watch_clash :: "watch_row \<Rightarrow> watch_row \<Rightarrow> bool" where
  "watch_clash r r' = (wl_symbol r' = wl_symbol r)"

definition add_watchlist_symbol :: "string \<Rightarrow> bool \<Rightarrow> datetime \<Rightarrow> bool dbop" where
  "add_watchlist_symbol symbol enabled added_at = validate_symbol symbol
     (\<lambda>d. let row = \<lparr>wl_symbol = symbol, wl_enabled = enabled, wl_added_at = iso added_at\<rparr>;
             (inserted, t) = insert_or_ignore watch_clash row (watchlist d)
          in if inserted then (Inr True, d\<lparr>watchlist := t\<rparr>)
             else (Inr False, d\<lparr>watchlist :=
                update_where (\<lambda>r. wl_symbol r = symbol) (\<lambda>r. r\<lparr>wl_enabled := enabled\<rparr>) t\<rparr>))"

definition set_watchlist_enabled :: "string \<Rightarrow> bool \<Rightarrow> bool dbop" where
  "set_watchlist_enabled symbol enabled = validate_symbol symbol
     (\<lambda>d. (Inr (0 < rowcount (\<lambda>r. wl_symbol r = symbol) (watchlist d)),
           d\<lparr>watchlist := update_where (\<lambda>r. wl_symbol r = symbol) (\<lambda>r. r\<lparr>wl_enabled := enabled\<rparr>)
               (watchlist d)\<rparr>))"

definition list_watchlist_symbols :: "bool \<Rightarrow> db \<Rightarrow> string list" where
  "list_watchlist_symbols enabled_only d =
     map wl_symbol (sort_key wl_symbol (select_where (\<lambda>r. enabled_only \<longrightarrow> wl_enabled r) (watchlist d)))"

definition decision_clash :: "ai_decision \<Rightarrow> ai_decision \<Rightarrow> bool" where
  "decision_clash r r' = (ad_decision_id r' = ad_decision_id r)"

text \<open>\<open>(value or "UNKNOWN").strip() or "UNKNOWN"\<close>.\<close>

definition or_unknown :: "string option \<Rightarrow> string" where
  "or_unknown v = (let s = strip (case v of None \<Rightarrow> ''UNKNOWN'' | Some w \<Rightarrow> if w = [] then ''UNKNOWN'' else w)
     in if s = [] then ''UNKNOWN'' else s)"

definition record_ai_decision ::
  "string \<Rightarrow> string \<Rightarrow> string \<Rightarrow> pyfloat \<Rightarrow> pyfloat option \<Rightarrow> pyfloat option \<Rightarrow> pyfloat option \<Rightarrow> string \<Rightarrow>
   bool \<Rightarrow> string \<Rightarrow> int option \<Rightarrow> string option \<Rightarrow> string option \<Rightarrow> string option \<Rightarrow> datetime \<Rightarrow> bool dbop" where
  "record_ai_decision decision_id symbol action confidence entry_price take_profit_price stop_loss_price risk_level requires_approval
     rationale max_holding_seconds strategy model prompt_version created_at =
     validate_symbol symbol
     (op_guard (decision_id = [] \<or> action = [] \<or> risk_level = [] \<or> rationale = [])
        (ValueError ''decision_id, action, risk_level, and rationale are required'')
     (\<lambda>d. let real = (\<lambda>v. case v of None \<Rightarrow> None | Some x \<Rightarrow> if x = NaN then None else Some x);
             row = \<lparr>ad_decision_id = decision_id, ad_symbol = symbol, ad_action = action,
               ad_confidence = confidence, ad_entry_price = real entry_price, ad_take_profit_price = real take_profit_price,
               ad_stop_loss_price = real stop_loss_price, ad_risk_level = risk_level,
               ad_requires_operator_approval = requires_approval, ad_rationale = rationale,
               ad_created_at = iso created_at, ad_strategy = or_unknown strategy,
               ad_model = or_unknown model, ad_prompt_version = or_unknown prompt_version,
               ad_max_holding_seconds = max_holding_seconds\<rparr>;
             (inserted, t) = (if confidence = NaN then (False, ai_decision_audits d)
               else insert_or_ignore decision_clash row (ai_decision_audits d))
          in (Inr inserted, d\<lparr>ai_decision_audits := t\<rparr>)))"

definition get_ai_decision_audit :: "string \<Rightarrow> ai_decision option dbop" where
  "get_ai_decision_audit decision_id = require_nonempty decision_id ''decision_id''
     (\<lambda>d. (Inr (fetchone (\<lambda>r. ad_decision_id r = decision_id) (ai_decision_audits d)), d))"

section \<open>One row per key\<close>

definition runtime_ok :: "db \<Rightarrow> bool" where
  "runtime_ok d = (keyed md_key (runtime_metadata d) \<and> keyed sl_lease_name (service_leases d)
     \<and> keyed oa_audit_id (broker_order_audits d) \<and> keyed wl_symbol (watchlist d)
     \<and> keyed ad_decision_id (ai_decision_audits d))"

lemma runtime_ok_empty: "runtime_ok empty_db"
  by (simp add: runtime_ok_def empty_db_def)

lemma preserves_lift_result [preserves_rules]:
  "(\<And>x. r = Inr x \<Longrightarrow> preserves I (k x)) \<Longrightarrow> preserves I (lift_result r k)"
  by (cases r) (simp_all add: lift_result_def preserves_fail)

lemma keyed_upsert: "keyed md_key t \<Longrightarrow> keyed md_key (upsert_metadata k v ts t)"
  by (auto simp: upsert_metadata_def keyed_update_where keyed_snoc table_simps)

lemma set_runtime_metadata_keeps:
  assumes "\<And>d t. I d \<Longrightarrow> keyed md_key (runtime_metadata d) \<Longrightarrow> keyed md_key t \<Longrightarrow> I (d\<lparr>runtime_metadata := t\<rparr>)"
    and "\<And>d. I d \<Longrightarrow> keyed md_key (runtime_metadata d)"
  shows "preserves I (set_runtime_metadata k v clk)"
  unfolding set_runtime_metadata_def
  by (intro preserves_rules preservesI) (simp add: assms keyed_upsert)

lemma runtime_ops_ok [preserves_rules]:
  "preserves runtime_ok (set_runtime_metadata k v clk)"
  "preserves runtime_ok (acquire_service_lease l w ttl clk)"
  "preserves runtime_ok (renew_service_lease l w ttl clk)"
  "preserves runtime_ok (release_service_lease l w)"
  "preserves runtime_ok (set_runtime_paused p why src clk)"
  "preserves runtime_ok (set_runtime_environment env why src clk)"
  "preserves runtime_ok (record_broker_order_audit a g s sd q pr st re b clk)"
  "preserves runtime_ok (add_watchlist_symbol s en clk)"
  "preserves runtime_ok (set_watchlist_enabled s en)"
  "preserves runtime_ok (record_ai_decision i s ac cf e tk sl rl ra why h strat mdl pv clk)"
proof -
  show "preserves runtime_ok (set_runtime_metadata k v clk)"
    by (rule set_runtime_metadata_keeps) (simp_all add: runtime_ok_def)
  show "preserves runtime_ok (acquire_service_lease l w ttl clk)"
    unfolding acquire_service_lease_def
    by (intro preserves_rules preservesI)
      (auto simp: runtime_ok_def Let_def keyed_update_where keyed_snoc table_simps)
  show "preserves runtime_ok (renew_service_lease l w ttl clk)"
    unfolding renew_service_lease_def
    by (intro preserves_rules preservesI) (auto simp: runtime_ok_def Let_def keyed_update_where)
  show "preserves runtime_ok (release_service_lease l w)"
    unfolding release_service_lease_def
    by (intro preserves_rules preservesI) (auto simp: runtime_ok_def Let_def keyed_delete_where)
  show "preserves runtime_ok (set_runtime_paused p why src clk)"
    unfolding set_runtime_paused_def
    by (intro preserves_rules preservesI) (simp add: runtime_ok_def Let_def)
  show "preserves runtime_ok (set_runtime_environment env why src clk)"
    unfolding set_runtime_environment_def
    by (intro preserves_rules preservesI) (simp add: runtime_ok_def Let_def op_guard_def)
  show "preserves runtime_ok (record_broker_order_audit a g s sd q pr st re b clk)"
    unfolding record_broker_order_audit_def
    by (intro preserves_rules preservesI)
      (auto simp: runtime_ok_def Let_def insert_or_ignore_def keyed_snoc audit_clash_def list_ex_iff)
  show "preserves runtime_ok (add_watchlist_symbol s en clk)"
    unfolding add_watchlist_symbol_def
    by (intro preserves_rules preservesI)
      (auto simp: runtime_ok_def Let_def insert_or_ignore_def keyed_snoc watch_clash_def list_ex_iff
        keyed_update_where)
  show "preserves runtime_ok (set_watchlist_enabled s en)"
    unfolding set_watchlist_enabled_def
    by (intro preserves_rules preservesI) (simp add: runtime_ok_def keyed_update_where)
  show "preserves runtime_ok (record_ai_decision i s ac cf e tk sl rl ra why h strat mdl pv clk)"
    unfolding record_ai_decision_def
    by (intro preserves_rules preservesI)
      (auto simp: runtime_ok_def Let_def insert_or_ignore_def keyed_snoc decision_clash_def list_ex_iff)
qed

section \<open>Reads after writes\<close>

lemma fetchone_upsert:
  "map_option md_value (fetchone (\<lambda>r. md_key r = k') (upsert_metadata k v ts t))
     = (if k' = k then Some v else map_option md_value (fetchone (\<lambda>r. md_key r = k') t))"
proof (cases "exists_where (\<lambda>r. md_key r = k) t")
  case True
  then have ex: "fetchone (\<lambda>r. md_key r = k) t \<noteq> None" by (simp add: table_simps)
  have upd: "fetchone (\<lambda>r. md_key r = k') (update_where (\<lambda>r. md_key r = k)
      (\<lambda>r. r\<lparr>md_value := v, md_updated_at := ts\<rparr>) t)
      = map_option (\<lambda>r. if md_key r = k then r\<lparr>md_value := v, md_updated_at := ts\<rparr> else r)
          (fetchone (\<lambda>r. md_key r = k') t)"
    by (rule fetchone_update_where) simp
  show ?thesis
  proof (cases "fetchone (\<lambda>r. md_key r = k') t")
    case None
    with ex have "k' \<noteq> k" by auto
    with True None upd show ?thesis by (simp add: upsert_metadata_def)
  next
    case (Some r)
    then have "md_key r = k'" by (auto dest: fetchone_SomeD)
    with True Some upd show ?thesis by (simp add: upsert_metadata_def)
  qed
next
  case False
  then have "fetchone (\<lambda>r. md_key r = k) t = None" by (simp add: table_simps)
  with False show ?thesis
    by (auto simp: upsert_metadata_def fetchone_append fetchone_Cons split: option.splits)
qed

lemma metadata_value_set:
  "strip k \<noteq> [] \<Longrightarrow> metadata_value (snd (set_runtime_metadata k v clk d)) k'
     = (if k' = k then Some v else metadata_value d k')"
  by (simp add: set_runtime_metadata_def require_nonempty_def metadata_value_def fetchone_upsert)

section \<open>The lease as a mutual-exclusion interface\<close>

text \<open>
  What the trading loop relies on: while an owner holds the lease, requests of other owners
  change nothing, holding is exclusive, and it can only end by the passing of time.
\<close>

locale exclusive_lease =
  fixes inv :: "'s \<Rightarrow> bool" and run :: "'req \<Rightarrow> 's \<Rightarrow> 's" and actor :: "'req \<Rightarrow> 'o"
    and at_time :: "'req \<Rightarrow> int" and holds :: "'o \<Rightarrow> int \<Rightarrow> 's \<Rightarrow> bool"
  assumes inv_run: "inv s \<Longrightarrow> inv (run r s)"
    and others_blocked: "inv s \<Longrightarrow> holds a (at_time r) s \<Longrightarrow> actor r \<noteq> a \<Longrightarrow> run r s = s"
    and exclusive: "holds a t s \<Longrightarrow> holds b t s \<Longrightarrow> a = b"
    and earlier: "holds a t s \<Longrightarrow> t' \<le> t \<Longrightarrow> holds a t' s"
begin

lemma undisturbed:
  assumes "inv s" "holds a t s" "\<forall>r\<in>set rs. actor r \<noteq> a \<and> at_time r \<le> t"
  shows "fold run rs s = s"
  using assms(3)
proof (induction rs)
  case (Cons r rs)
  then have "holds a (at_time r) s" using earlier [OF assms(2)] by simp
  with Cons assms(1) others_blocked [of s a r] show ?case by simp
qed simp

lemma still_sole_holder:
  assumes "inv s" "holds a t s" "\<forall>r\<in>set rs. actor r \<noteq> a \<and> at_time r \<le> t"
  shows "holds b t (fold run rs s) \<longleftrightarrow> b = a"
  using undisturbed [OF assms] assms(2) exclusive by metis

end

datatype lease_request =
    Acquire string pyfloat datetime
  | Renew string pyfloat datetime
  | Release string datetime

fun lease_actor :: "lease_request \<Rightarrow> string" where
  "lease_actor (Acquire w _ _) = w"
| "lease_actor (Renew w _ _) = w"
| "lease_actor (Release w _) = w"

fun lease_clock :: "lease_request \<Rightarrow> datetime" where
  "lease_clock (Acquire _ _ t) = t"
| "lease_clock (Renew _ _ t) = t"
| "lease_clock (Release _ t) = t"

definition lease_ms :: "lease_request \<Rightarrow> int" where
  "lease_ms r = (case julianday_ms (iso (lease_clock r)) of None \<Rightarrow> 0 | Some x \<Rightarrow> x)"

fun lease_run :: "string \<Rightarrow> lease_request \<Rightarrow> db \<Rightarrow> db" where
  "lease_run l (Acquire w ttl t) d = snd (acquire_service_lease l w ttl t d)"
| "lease_run l (Renew w ttl t) d = snd (renew_service_lease l w ttl t d)"
| "lease_run l (Release w t) d = snd (release_service_lease l w d)"

definition holds_lease :: "string \<Rightarrow> string \<Rightarrow> int \<Rightarrow> db \<Rightarrow> bool" where
  "holds_lease l w t d = (case fetchone (\<lambda>r. sl_lease_name r = l) (service_leases d) of None \<Rightarrow> False
     | Some r \<Rightarrow> sl_owner_id r = w \<and> (case julianday_ms (sl_expires_at r) of None \<Rightarrow> False | Some x \<Rightarrow> t < x))"

lemma holder_row:
  assumes "keyed sl_lease_name (service_leases d)" "holds_lease l a t d"
    and "r \<in> set (service_leases d)" "sl_lease_name r = l"
  shows "sl_owner_id r = a \<and> (\<exists>x. julianday_ms (sl_expires_at r) = Some x \<and> t < x)"
proof -
  have "fetchone (\<lambda>r. sl_lease_name r = l) (service_leases d) = Some r"
    using keyed_fetchone [OF assms(1,3)] assms(4) by simp
  with assms(2) show ?thesis by (auto simp: holds_lease_def split: option.splits)
qed

lemma lease_others_blocked:
  assumes ok: "runtime_ok d" and h: "holds_lease l a (lease_ms r) d" and other: "lease_actor r \<noteq> a"
  shows "lease_run l r d = d"
proof -
  have k: "keyed sl_lease_name (service_leases d)" using ok by (simp add: runtime_ok_def)
  note row = holder_row [OF k h]
  have ex: "exists_where (\<lambda>r. sl_lease_name r = l) (service_leases d)"
    using h by (auto simp: holds_lease_def table_simps dest: fetchone_SomeD split: option.splits)
  have none: "\<not> (sl_lease_name x = l \<and> sl_owner_id x = lease_actor r)"
    "\<not> (sl_lease_name x = l \<and> lease_takeable (lease_actor r) (iso (lease_clock r)) x)"
    if "x \<in> set (service_leases d)" for x
    using row [OF that] other
    by (auto simp: lease_takeable_def julianday_le_def lease_ms_def split: option.splits)
  have upd:
    "update_where (\<lambda>x. sl_lease_name x = l \<and> lease_takeable (lease_actor r) (iso (lease_clock r)) x) f
       (service_leases d) = service_leases d"
    "update_where (\<lambda>x. sl_lease_name x = l \<and> sl_owner_id x = lease_actor r \<and> Q x) f
       (service_leases d) = service_leases d"
    "delete_where (\<lambda>x. sl_lease_name x = l \<and> sl_owner_id x = lease_actor r) (service_leases d)
       = service_leases d" for f Q
    using none by (auto simp: delete_where_def filter_id_conv intro!: update_where_id)
  show ?thesis
    using upd ex
    by (cases r) (auto simp: acquire_service_lease_def renew_service_lease_def release_service_lease_def
        validation_defs op_guard_def lift_result_def op_fail_def Let_def split: sum.splits)
qed

lemma runtime_ok_lease_run: "runtime_ok d \<Longrightarrow> runtime_ok (lease_run l r d)"
  by (cases r) (auto intro: preservesD runtime_ops_ok)

interpretation service_lease: exclusive_lease runtime_ok "lease_run l" lease_actor lease_ms "holds_lease l"
proof
  fix d r assume "runtime_ok d"
  then show "runtime_ok (lease_run l r d)" by (rule runtime_ok_lease_run)
next
  fix a b t d assume "holds_lease l a t d" "holds_lease l b t d"
  then show "a = b" by (auto simp: holds_lease_def split: option.splits)
next
  fix a t t' d assume "holds_lease l a t d" "t' \<le> t"
  then show "holds_lease l a t' d" by (auto simp: holds_lease_def split: option.splits)
qed (rule lease_others_blocked)

lemma julianday_ms_iso:
  assumes "valid_dt d" "\<forall>z. dt_tz d = Some z \<longrightarrow> \<bar>z\<bar> \<le> 899"
  shows "julianday_ms (iso d) = Some ((utc_us d + 500) div 1000)"
  using assms by (simp add: julianday_ms_def iso_def fromisoformat_isoformat_wf split: option.splits)

lemma acquire_grants:
  assumes k: "keyed sl_lease_name (service_leases d)"
    and run: "acquire_service_lease l w ttl now d = (Inr True, d')"
  obtains t e r where "timedelta_seconds ttl = Inr t" "dt_plus now t = Inr e"
    "fetchone (\<lambda>r. sl_lease_name r = l) (service_leases d') = Some r"
    "sl_owner_id r = w" "sl_expires_at r = iso e"
proof -
  let ?named = "\<lambda>r. sl_lease_name r = l" and ?take = "lease_takeable w (iso now)"
  from run obtain t e where te: "timedelta_seconds ttl = Inr t" "dt_plus now t = Inr e"
    by (auto simp: acquire_service_lease_def validation_defs op_guard_def lift_result_def op_fail_def
        split: if_splits sum.splits)
  show ?thesis
  proof (cases "exists_where ?named (service_leases d)")
    case True
    let ?f = "\<lambda>r. r\<lparr>sl_owner_id := w, sl_acquired_at := iso now, sl_renewed_at := iso now,
        sl_expires_at := iso e\<rparr>"
    from run te True have d': "service_leases d' = update_where (\<lambda>r. ?named r \<and> ?take r) ?f (service_leases d)"
      and pos: "0 < rowcount (\<lambda>r. ?named r \<and> ?take r) (service_leases d)"
      by (auto simp: acquire_service_lease_def validation_defs op_guard_def lift_result_def Let_def
          split: if_splits)
    from pos obtain r where r: "r \<in> set (service_leases d)" "?named r" "?take r" by (auto simp: table_simps)
    from keyed_fetchone [OF k r(1)] r(2) have "fetchone ?named (service_leases d) = Some r" by simp
    then have "fetchone ?named (service_leases d') = Some (?f r)"
      unfolding d' using r by (subst fetchone_update_where) simp_all
    then show ?thesis by (rule that [OF te]) simp_all
  next
    case False
    with run te have "service_leases d' = service_leases d @ [\<lparr>sl_lease_name = l, sl_owner_id = w,
        sl_acquired_at = iso now, sl_renewed_at = iso now, sl_expires_at = iso e\<rparr>]"
      by (auto simp: acquire_service_lease_def validation_defs op_guard_def lift_result_def Let_def
          split: if_splits)
    moreover from False have "fetchone ?named (service_leases d) = None" by (simp add: table_simps)
    ultimately have "fetchone ?named (service_leases d') = Some \<lparr>sl_lease_name = l, sl_owner_id = w,
        sl_acquired_at = iso now, sl_renewed_at = iso now, sl_expires_at = iso e\<rparr>"
      by (simp add: fetchone_append fetchone_Cons)
    then show ?thesis by (rule that [OF te]) simp_all
  qed
qed

lemma acquire_then_holds:
  assumes "runtime_ok d" "acquire_service_lease l w ttl now d = (Inr True, d')"
    and "valid_dt now" "\<forall>z. dt_tz now = Some z \<longrightarrow> \<bar>z\<bar> \<le> 899" "timedelta_seconds ttl = Inr us"
  shows "holds_lease l w t d' \<longleftrightarrow> t < (utc_us now + us + 500) div 1000"
proof -
  from assms(1) have "keyed sl_lease_name (service_leases d)" by (simp add: runtime_ok_def)
  from this assms(2) obtain e r where e: "dt_plus now us = Inr e"
    and r: "fetchone (\<lambda>r. sl_lease_name r = l) (service_leases d') = Some r" "sl_owner_id r = w"
      "sl_expires_at r = iso e"
    by (rule acquire_grants) (use assms(5) in auto)
  have "julianday_ms (iso e) = Some ((utc_us e + 500) div 1000)"
    using valid_dt_plus [OF assms(3) e] local_us_dt_plus [OF e] assms(4) by (intro julianday_ms_iso) simp_all
  with r utc_us_dt_plus [OF e] show ?thesis by (simp add: holds_lease_def)
qed

section \<open>Properties\<close>

text \<open>
  The metadata table is a map: after a write the key reads back the written value and every
  other key reads as before. On it, the Telegram offset and a component's heartbeat round-trip:
  what was stored is what is read.
\<close>

theorem metadata_roundtrip:
  assumes "strip k \<noteq> []" "0 \<le> n" "strip who \<noteq> []"
  shows "fst (get_runtime_metadata k (snd (set_runtime_metadata k v clk d))) = Inr (Some v)
    \<and> (k' \<noteq> k \<longrightarrow> metadata_value (snd (set_runtime_metadata k v clk d)) k' = metadata_value d k')
    \<and> fst (get_telegram_update_offset (snd (set_telegram_update_offset n clk d))) = Inr (Some n)
    \<and> fst (get_heartbeat who (snd (record_heartbeat who clk d))) = Inr (Some (isoformat clk))"
proof -
  have tk: "strip TELEGRAM_UPDATE_OFFSET_KEY \<noteq> []"
    by (simp add: TELEGRAM_UPDATE_OFFSET_KEY_def string_eval)
  have hk: "strip (''heartbeat:'' @ who) \<noteq> []" by (simp add: string_eval)
  have "int_of_str (show_int n) = Some n"
    using assms(2) int_of_show_nat [of "nat n"] by (simp add: show_int_def)
  with tk assms(2) metadata_value_set [OF tk]
  have "fst (get_telegram_update_offset (snd (set_telegram_update_offset n clk d))) = Inr (Some n)"
    by (simp add: get_telegram_update_offset_def set_telegram_update_offset_def op_bind_def
        get_runtime_metadata_def require_nonempty_def op_ret_def)
  moreover have "fst (get_heartbeat who (snd (record_heartbeat who clk d))) = Inr (Some (isoformat clk))"
  proof -
    have "snd (record_heartbeat who clk d) = snd (set_runtime_metadata (''heartbeat:'' @ who) (iso clk) clk d)"
      using assms(3) hk by (simp add: record_heartbeat_def set_heartbeat_def op_bind_def op_ret_def
          set_runtime_metadata_def require_nonempty_def)
    with assms(3) hk metadata_value_set [OF hk, of "iso clk" clk d] show ?thesis
      by (simp add: get_heartbeat_def get_runtime_metadata_def require_nonempty_def iso_def)
  qed
  ultimately show ?thesis
    using assms(1) metadata_value_set [OF assms(1)]
    by (simp add: get_runtime_metadata_def require_nonempty_def)
qed

theorem metadata_roundtrip_witness:
  "fst (get_telegram_update_offset (snd (set_telegram_update_offset 4711 (of_local_us 0 None) empty_db)))
     = Inr (Some 4711)
   \<and> fst (get_runtime_metadata ''flag'' (snd (set_runtime_metadata ''flag'' ''true'' (of_local_us 0 None) empty_db)))
     = Inr (Some ''true'')"
  using metadata_roundtrip [of "''flag''" 4711 "''loop''" "''true''" "of_local_us 0 None" empty_db "''x''"]
  by (simp add: string_eval)

text \<open>
  (C28) The broker environment changes only while trading is paused, and to the other environment
  only on a flat book: no open position and no order that is not terminal. When any of these fails the call raises
  and the database is unchanged; the switch itself never unpauses trading.
\<close>

theorem set_runtime_environment_safe:
  "case set_runtime_environment env why src clk d of
     (Inl e, d') \<Rightarrow> d' = d
   | (Inr c, d') \<Rightarrow> rc_paused (get_runtime_control d) \<and> rc_paused (get_runtime_control d')
       \<and> rc_environment (get_runtime_control d') = env \<and> env \<in> {''demo'', ''real''}
       \<and> (env = rc_environment (get_runtime_control d)
          \<or> list_all (\<lambda>p. lp_status p = POS_CLOSED) (live_positions d)
            \<and> list_all (\<lambda>r. bo_status r \<in> set TERMINAL_BROKER_ORDER_STATUSES) (broker_orders d))"
proof -
  have pos: "\<not> has_open_position d \<longleftrightarrow> list_all (\<lambda>p. lp_status p = POS_CLOSED) (live_positions d)"
    by (auto simp: has_open_position_def table_simps list_all_iff) (metis position_status.exhaust)
  have ord: "\<not> has_active_order d \<longleftrightarrow>
      list_all (\<lambda>r. bo_status r \<in> set TERMINAL_BROKER_ORDER_STATUSES) (broker_orders d)"
    unfolding has_active_order_def table_simps list_all_iff TERMINAL_BROKER_ORDER_STATUSES_def
    by (auto, metis order_status.exhaust)
  have ctl: "rc_paused (get_runtime_control d) \<Longrightarrow> control_row d = Some r \<Longrightarrow> rc_paused r" for r
    by (simp add: get_runtime_control_def)
  show ?thesis
    unfolding pos [symmetric] ord [symmetric]
    using ctl
    by (cases "control_row d")
      (auto simp: set_runtime_environment_def op_guard_def Let_def get_runtime_control_def default_control_def)
qed

text \<open>
  (C15) A service lease is exclusive. Once an owner has acquired it for ttl seconds, every sequence
  of acquire, renew and release requests of other owners that arrive before the expiry instant
  leaves the database unchanged, and the owner is the only holder for all that time.
\<close>

theorem lease_exclusive_until_expiry:
  assumes "runtime_ok d" "acquire_service_lease l w ttl now d = (Inr True, d')"
    and "valid_dt now" "\<forall>z. dt_tz now = Some z \<longrightarrow> \<bar>z\<bar> \<le> 899" "timedelta_seconds ttl = Inr us"
    and "t < (utc_us now + us + 500) div 1000"
    and "\<forall>r\<in>set rs. lease_actor r \<noteq> w \<and> lease_ms r \<le> t"
  shows "fold (lease_run l) rs d' = d' \<and> (holds_lease l v t (fold (lease_run l) rs d') \<longleftrightarrow> v = w)"
proof -
  have ok: "runtime_ok d'" using preserves_run [OF runtime_ops_ok(2) assms(1,2)] .
  have holds: "holds_lease l w t d'" using acquire_then_holds [OF assms(1-5)] assms(6) by simp
  show ?thesis
    using service_lease.undisturbed [OF ok holds assms(7)]
      service_lease.still_sole_holder [OF ok holds assms(7)] by simp
qed

theorem lease_exclusive_until_expiry_witness:
  "\<exists>d'. acquire_service_lease ''trading-service'' ''a'' (Fin 30) sample_time empty_db = (Inr True, d')
     \<and> fold (lease_run ''trading-service'')
         [Acquire ''b'' (Fin 5) sample_time, Renew ''c'' (Fin 5) sample_time, Release ''b'' sample_time] d' = d'"
proof -
  let ?run = "acquire_service_lease ''trading-service'' ''a'' (Fin 30) sample_time empty_db"
  have td: "timedelta_seconds (Fin 30) = Inr 30000000" by (simp add: Let_def round_even_def)
  then have "fst ?run = Inr True"
    by (simp add: acquire_service_lease_def validation_defs string_eval positive_number_def lift_result_def
        dt_plus_def in_range_us_def local_us_sample_time empty_db_def exists_where_def)
  then obtain d' where run: "?run = (Inr True, d')" by (cases ?run) simp
  have tz: "\<forall>z. dt_tz sample_time = Some z \<longrightarrow> \<bar>z\<bar> \<le> 899" by (simp add: sample_time_def)
  have ms: "julianday_ms (iso sample_time) = Some 63903256200000"
    using julianday_ms_iso [OF valid_sample_time tz] by (simp add: utc_us_sample_time)
  from lease_exclusive_until_expiry [OF runtime_ok_empty run valid_sample_time tz td,
      where t = 63903256200000 and rs = "[Acquire ''b'' (Fin 5) sample_time,
        Renew ''c'' (Fin 5) sample_time, Release ''b'' sample_time]" and v = "''a''"] run
  show ?thesis by (simp add: utc_us_sample_time lease_ms_def ms)
qed

end
