(* ===== verification/Approvals.thy ===== *)
theory Approvals
  imports RuntimeStore
begin

text \<open>
  Operator approvals (\<open>approval_requests\<close> of \<open>storage/database.py\<close>): a request is PENDING, is
  approved or rejected or expires, an approved one is consumed once and then finished. Deadlines are compared
  as text. The theory proves the transition system, that a request is consumed at most once,
  and that the text comparison is the comparison of instants exactly when both timestamps
  carry the same offset.
\<close>

section \<open>Progress of a state machine\<close>

text \<open>A measure that no step lowers: what has been passed stays passed.\<close>

locale progress =
  fixes step :: "'s \<Rightarrow> 's \<Rightarrow> bool" and rank :: "'s \<Rightarrow> nat"
  assumes step_rank: "step s s' \<Longrightarrow> rank s \<le> rank s'"
begin

lemma run_rank: "step\<^sup>*\<^sup>* s s' \<Longrightarrow> rank s \<le> rank s'"
  by (induction rule: rtranclp_induct) (auto dest: step_rank)

lemma passed_for_good: "step\<^sup>*\<^sup>* s s' \<Longrightarrow> n \<le> rank s \<Longrightarrow> n \<le> rank s'"
  using run_rank le_trans by blast

end

section \<open>Operations\<close>

definition approval_clash :: "approval_request \<Rightarrow> approval_request \<Rightarrow> bool" where
  "approval_clash r r' = (ap_request_id r' = ap_request_id r)"

definition validate_optional_price :: "pyfloat option \<Rightarrow> string \<Rightarrow> 'a dbop \<Rightarrow> 'a dbop" where
  "validate_optional_price v name k = (case v of None \<Rightarrow> k | Some x \<Rightarrow> validate_positive_float x name k)"

definition record_approval_request ::
  "string \<Rightarrow> string \<Rightarrow> string option \<Rightarrow> string \<Rightarrow> string \<Rightarrow> string option \<Rightarrow> int option \<Rightarrow> pyfloat option \<Rightarrow>
   pyfloat option \<Rightarrow> pyfloat option \<Rightarrow> int option \<Rightarrow> datetime option \<Rightarrow> datetime \<Rightarrow> bool dbop" where
  "record_approval_request request_id symbol decision_id reason status signal_id quantity entry_price
     take_profit_price stop_loss_price max_holding_seconds expires_at base_time =
     validate_symbol symbol
     (op_guard (request_id = [] \<or> reason = [] \<or> status = [])
        (ValueError ''request_id, reason, and status are required'')
     (lift_result (case expires_at of Some e \<Rightarrow> Inr e | None \<Rightarrow> dt_plus base_time 120000000) (\<lambda>expiry.
      require_nonempty_opt signal_id ''signal_id''
     (op_guard (case quantity of None \<Rightarrow> False | Some q \<Rightarrow> q \<le> 0)
        (ValueError ''quantity must be positive integer'')
     (validate_optional_price entry_price ''entry_price''
     (validate_optional_price take_profit_price ''take_profit_price''
     (validate_optional_price stop_loss_price ''stop_loss_price''
     (\<lambda>d. let row = \<lparr>ap_request_id = request_id, ap_symbol = symbol, ap_decision_id = decision_id,
             ap_reason = reason, ap_status = status, ap_created_at = iso base_time, ap_resolved_at = None,
             ap_expires_at = Some (iso expiry), ap_resolved_by = None, ap_consumed_at = None,
             ap_signal_id = signal_id, ap_quantity = quantity, ap_entry_price = entry_price,
             ap_take_profit_price = take_profit_price, ap_stop_loss_price = stop_loss_price,
             ap_max_holding_seconds = max_holding_seconds\<rparr>;
             (inserted, t) = insert_or_ignore approval_clash row (approval_requests d)
          in (Inr inserted, d\<lparr>approval_requests := t\<rparr>)))))))))"

definition get_approval_request :: "string \<Rightarrow> approval_request option dbop" where
  "get_approval_request request_id = require_nonempty request_id ''request_id''
     (\<lambda>d. (Inr (fetchone (\<lambda>r. ap_request_id r = request_id) (approval_requests d)), d))"

text \<open>\<open>ORDER BY created_at DESC LIMIT n\<close>; rows with equal keys stay in rowid order.\<close>

definition list_approval_requests :: "string option \<Rightarrow> int \<Rightarrow> approval_request list dbop" where
  "list_approval_requests status limit =
     op_guard (limit \<le> 0) (ValueError ''limit must be positive'')
     (\<lambda>d. (Inr (take (nat limit) (rev (sort_key ap_created_at (rev
          (select_where (\<lambda>r. case status of None \<Rightarrow> True | Some s \<Rightarrow> ap_status r = s) (approval_requests d)))))), d))"

text \<open>\<open>expires_at IS NOT NULL AND expires_at <= ?\<close>, compared as text.\<close>

definition text_expired :: "string \<Rightarrow> approval_request \<Rightarrow> bool" where
  "text_expired timestamp r = (case ap_expires_at r of None \<Rightarrow> False | Some e \<Rightarrow> e \<le> timestamp)"

definition mark_expired :: "string \<Rightarrow> approval_request \<Rightarrow> approval_request" where
  "mark_expired timestamp r = r\<lparr>ap_status := ''EXPIRED'', ap_resolved_at := Some timestamp\<rparr>"

definition expire_approval_requests :: "datetime \<Rightarrow> nat dbop" where
  "expire_approval_requests now d =
     (let timestamp = iso now;
          p = (\<lambda>r. (ap_status r = ''PENDING'' \<or> ap_status r = ''APPROVED'') \<and> text_expired timestamp r)
      in (Inr (rowcount p (approval_requests d)),
          d\<lparr>approval_requests := update_where p (mark_expired timestamp) (approval_requests d)\<rparr>))"

definition expire_pending_approvals :: "datetime \<Rightarrow> nat dbop" where
  "expire_pending_approvals now = expire_approval_requests now"

text \<open>The two statements of a guarded transition: expire the request if it is due, otherwise move it on.\<close>

definition expire_or_move :: "string \<Rightarrow> string \<Rightarrow> string \<Rightarrow> (approval_request \<Rightarrow> approval_request) \<Rightarrow> bool dbop" where
  "expire_or_move request_id status timestamp f d =
     (let t = update_where (\<lambda>r. ap_request_id r = request_id \<and> ap_status r = status \<and> text_expired timestamp r)
                (mark_expired timestamp) (approval_requests d);
          p = (\<lambda>r. ap_request_id r = request_id \<and> ap_status r = status \<and> \<not> text_expired timestamp r)
      in (Inr (0 < rowcount p t), d\<lparr>approval_requests := update_where p f t\<rparr>))"

definition resolve_approval_request :: "string \<Rightarrow> string \<Rightarrow> string option \<Rightarrow> datetime \<Rightarrow> bool dbop" where
  "resolve_approval_request request_id decision resolved_by now =
     require_nonempty request_id ''request_id''
     (let normalized = upper decision; timestamp = iso now in
      op_guard (normalized \<noteq> ''APPROVED'' \<and> normalized \<noteq> ''REJECTED'')
        (ValueError ''decision must be APPROVED or REJECTED'')
      (expire_or_move request_id ''PENDING'' timestamp
         (\<lambda>r. r\<lparr>ap_status := normalized, ap_resolved_at := Some timestamp, ap_resolved_by := resolved_by\<rparr>)))"

definition consume_approval_request :: "string \<Rightarrow> datetime \<Rightarrow> bool dbop" where
  "consume_approval_request request_id now =
     require_nonempty request_id ''request_id''
       (expire_or_move request_id ''APPROVED'' (iso now)
          (\<lambda>r. r\<lparr>ap_status := ''CONSUMING'', ap_consumed_at := Some (iso now)\<rparr>))"

definition finish_approval_request :: "string \<Rightarrow> bool \<Rightarrow> datetime \<Rightarrow> bool dbop" where
  "finish_approval_request request_id success now =
     require_nonempty request_id ''request_id''
     (\<lambda>d. let p = (\<lambda>r. ap_request_id r = request_id \<and> ap_status r = ''CONSUMING'')
          in (Inr (0 < rowcount p (approval_requests d)),
              d\<lparr>approval_requests := update_where p (\<lambda>r. r\<lparr>ap_status := (if success then ''EXECUTED'' else ''FAILED''),
                  ap_resolved_at := Some (iso now)\<rparr>) (approval_requests d)\<rparr>))"

section \<open>Opening a database\<close>

text \<open>
  \<open>init_schema\<close> runs on every connection the workers open: requests stored before the deadline
  column existed get creation time plus two minutes, and the paused demo control row is inserted
  if it is missing. (The columns themselves are part of the row types here.)
\<close>

definition legacy_expiry :: "approval_request \<Rightarrow> approval_request result" where
  "legacy_expiry r = (case ap_expires_at r of Some _ \<Rightarrow> Inr r
     | None \<Rightarrow> (case fromisoformat (ap_created_at r) of None \<Rightarrow> Inr r
         | Some created \<Rightarrow> rbind (dt_plus created 120000000)
             (\<lambda>e. Inr (r\<lparr>ap_expires_at := Some (iso e)\<rparr>))))"

fun map_result :: "('a \<Rightarrow> 'b result) \<Rightarrow> 'a list \<Rightarrow> 'b list result" where
  "map_result f [] = Inr []"
| "map_result f (x # xs) = rbind (f x) (\<lambda>y. rbind (map_result f xs) (\<lambda>ys. Inr (y # ys)))"

definition init_schema :: "unit dbop" where
  "init_schema d = (case map_result legacy_expiry (approval_requests d) of
       Inl e \<Rightarrow> (Inl e, d)
     | Inr t \<Rightarrow> init_control (d\<lparr>approval_requests := t\<rparr>))"

section \<open>Transitions\<close>

definition approval_status :: "string \<Rightarrow> db \<Rightarrow> string option" where
  "approval_status i d = map_option ap_status (fetchone (\<lambda>r. ap_request_id r = i) (approval_requests d))"

text \<open>The edges of the life of one request; an unknown request may appear with any status.\<close>

definition approval_edge :: "string option \<Rightarrow> string option \<Rightarrow> bool" where
  "approval_edge s s' = (s' = s \<or> s = None
     \<or> s = Some ''PENDING'' \<and> s' \<in> {Some ''APPROVED'', Some ''REJECTED'', Some ''EXPIRED''}
     \<or> s = Some ''APPROVED'' \<and> s' \<in> {Some ''CONSUMING'', Some ''EXPIRED''}
     \<or> s = Some ''CONSUMING'' \<and> s' \<in> {Some ''EXECUTED'', Some ''FAILED''})"

inductive approval_step :: "db \<Rightarrow> db \<Rightarrow> bool" where
  as_record: "approval_step d (snd (record_approval_request i s dc why st g q e tp sl h ex clk d))"
| as_expire: "approval_step d (snd (expire_approval_requests clk d))"
| as_resolve: "approval_step d (snd (resolve_approval_request i dec who clk d))"
| as_consume: "approval_step d (snd (consume_approval_request i clk d))"
| as_finish: "approval_step d (snd (finish_approval_request i ok clk d))"

lemma approval_status_update:
  assumes "\<And>r. ap_request_id (f r) = ap_request_id r"
    and "\<And>r. p r \<Longrightarrow> approval_edge (Some (ap_status r)) (Some (ap_status (f r)))"
  shows "approval_edge (approval_status i d)
    (approval_status i (d\<lparr>approval_requests := update_where p f (approval_requests d)\<rparr>))"
proof (cases "fetchone (\<lambda>r. ap_request_id r = i) (approval_requests d)")
  case None
  then show ?thesis by (simp add: approval_status_def approval_edge_def)
next
  case (Some r)
  then show ?thesis
    using assms by (simp add: approval_status_def fetchone_update_where approval_edge_def [of x x for x])
qed

lemma approval_edge_refl [simp]: "approval_edge s s"
  by (simp add: approval_edge_def)

lemma expire_or_move_row:
  assumes "\<And>r. ap_request_id (f r) = ap_request_id r"
  shows "fetchone (\<lambda>r. ap_request_id r = i) (approval_requests (snd (expire_or_move j st ts f d)))
    = map_option (\<lambda>r. if ap_request_id r = j \<and> ap_status r = st
        then if text_expired ts r then mark_expired ts r else f r else r)
      (fetchone (\<lambda>r. ap_request_id r = i) (approval_requests d))"
proof -
  have "fetchone (\<lambda>r. ap_request_id r = i) (approval_requests (snd (expire_or_move j st ts f d)))
    = map_option (\<lambda>r. if ap_request_id r = j \<and> ap_status r = st \<and> \<not> text_expired ts r then f r else r)
        (map_option (\<lambda>r. if ap_request_id r = j \<and> ap_status r = st \<and> text_expired ts r
           then mark_expired ts r else r) (fetchone (\<lambda>r. ap_request_id r = i) (approval_requests d)))"
    using assms by (simp add: expire_or_move_def Let_def fetchone_update_where mark_expired_def)
  also have "\<dots> = map_option (\<lambda>r. if ap_request_id r = j \<and> ap_status r = st
        then if text_expired ts r then mark_expired ts r else f r else r)
      (fetchone (\<lambda>r. ap_request_id r = i) (approval_requests d))"
    by (auto simp: option.map_comp text_expired_def mark_expired_def intro!: option.map_cong0)
  finally show ?thesis .
qed

lemma expire_or_move_edge:
  assumes "\<And>r. ap_request_id (f r) = ap_request_id r"
    and "\<And>r. approval_edge (Some st) (Some (ap_status (f r)))" "st = ''PENDING'' \<or> st = ''APPROVED''"
  shows "approval_edge (approval_status i d) (approval_status i (snd (expire_or_move j st ts f d)))"
proof (cases "fetchone (\<lambda>r. ap_request_id r = i) (approval_requests d)")
  case None
  then show ?thesis by (simp add: approval_status_def approval_edge_def)
next
  case (Some r)
  have "approval_edge (Some st) (Some ''EXPIRED'')" using assms(3) by (auto simp: approval_edge_def)
  then show ?thesis
    using Some assms(2)
    by (auto simp: approval_status_def expire_or_move_row [OF assms(1)] mark_expired_def)
qed

lemma record_keeps_status:
  "preserves (\<lambda>d. approval_status i d = Some x) (record_approval_request j s dc why st g q e tp sl h ex clk)"
  unfolding record_approval_request_def validate_optional_price_def
  by (intro preserves_rules preservesI)
    (auto simp: Let_def insert_or_ignore_def approval_status_def fetchone_append)

lemma approval_step_edge:
  assumes "approval_step d d'"
  shows "approval_edge (approval_status i d) (approval_status i d')"
  using assms
proof cases
  case (as_record j s dc why st g q e tp sl h ex clk)
  show ?thesis
  proof (cases "approval_status i d")
    case (Some x)
    then show ?thesis
      unfolding as_record by (simp add: preservesD [OF record_keeps_status Some])
  qed (simp add: approval_edge_def)
next
  case as_expire
  show ?thesis unfolding as_expire expire_approval_requests_def Let_def snd_conv
    by (rule approval_status_update) (auto simp: mark_expired_def approval_edge_def)
next
  case (as_resolve j dec who clk)
  show ?thesis unfolding as_resolve resolve_approval_request_def
    by (auto simp: validation_defs op_guard_def Let_def intro!: expire_or_move_edge)
      (auto simp: approval_edge_def)
next
  case (as_consume j clk)
  show ?thesis unfolding as_consume consume_approval_request_def
    by (auto simp: validation_defs op_guard_def intro!: expire_or_move_edge) (simp add: approval_edge_def)
next
  case (as_finish j ok clk)
  show ?thesis unfolding as_finish finish_approval_request_def
    by (auto simp: validation_defs op_guard_def Let_def intro!: approval_status_update)
      (auto simp: approval_edge_def)
qed

section \<open>Consumption\<close>

definition approvals_ok :: "db \<Rightarrow> bool" where
  "approvals_ok d = keyed ap_request_id (approval_requests d)"

lemma expire_or_move_keeps:
  "(\<And>r. ap_request_id (f r) = ap_request_id r) \<Longrightarrow> preserves approvals_ok (expire_or_move i st ts f)"
  by (rule preservesI)
    (simp add: approvals_ok_def expire_or_move_def Let_def keyed_update_where mark_expired_def)

lemma approval_ops_ok [preserves_rules]:
  "preserves approvals_ok (record_approval_request i s dc why st g q e tp sl h ex clk)"
  "preserves approvals_ok (expire_approval_requests clk)"
  "preserves approvals_ok (resolve_approval_request i dec who clk)"
  "preserves approvals_ok (consume_approval_request i clk)"
  "preserves approvals_ok (finish_approval_request i ok clk)"
proof -
  show "preserves approvals_ok (record_approval_request i s dc why st g q e tp sl h ex clk)"
    unfolding record_approval_request_def validate_optional_price_def
    by (intro preserves_rules preservesI)
      (auto simp: Let_def insert_or_ignore_def approvals_ok_def keyed_snoc approval_clash_def list_ex_iff)
  show "preserves approvals_ok (expire_approval_requests clk)"
    by (rule preservesI) (simp add: expire_approval_requests_def Let_def approvals_ok_def
        keyed_update_where mark_expired_def)
  show "preserves approvals_ok (resolve_approval_request i dec who clk)"
    "preserves approvals_ok (consume_approval_request i clk)"
    unfolding resolve_approval_request_def consume_approval_request_def Let_def
    by (intro preserves_rules expire_or_move_keeps; simp)+
  show "preserves approvals_ok (finish_approval_request i ok clk)"
    unfolding finish_approval_request_def
    by (intro preserves_rules preservesI) (simp add: Let_def approvals_ok_def keyed_update_where)
qed

lemma approval_step_ok: "approval_step d d' \<Longrightarrow> approvals_ok d \<Longrightarrow> approvals_ok d'"
  by (erule approval_step.cases) (simp_all add: approval_ops_ok [THEN preservesD])

lemma expire_or_move_True:
  assumes "approvals_ok d"
  shows "fst (expire_or_move i st ts f d) = Inr True \<longleftrightarrow>
    (\<exists>r. fetchone (\<lambda>r. ap_request_id r = i) (approval_requests d) = Some r \<and> ap_status r = st
       \<and> \<not> text_expired ts r)"
proof -
  have "fst (expire_or_move i st ts f d) = Inr True \<longleftrightarrow>
    (\<exists>r\<in>set (approval_requests d). ap_request_id r = i \<and> ap_status r = st \<and> \<not> text_expired ts r)"
  proof -
    have "(ap_request_id s = i \<and> ap_status s = st \<and> \<not> text_expired ts s) \<longleftrightarrow>
        (ap_request_id r = i \<and> ap_status r = st \<and> \<not> text_expired ts r)"
      if "s = (if ap_request_id r = i \<and> ap_status r = st \<and> text_expired ts r then mark_expired ts r else r)" for r s
      using that by (simp add: mark_expired_def text_expired_def)
    then show ?thesis by (simp add: expire_or_move_def Let_def rowcount_pos bex_update_where)
  qed
  moreover have "fetchone (\<lambda>r. ap_request_id r = i) (approval_requests d) = Some r \<longleftrightarrow>
      r \<in> set (approval_requests d) \<and> ap_request_id r = i" for r
    using assms keyed_fetchone [of ap_request_id "approval_requests d" r]
      fetchone_SomeD [of "\<lambda>r. ap_request_id r = i" "approval_requests d" r]
    by (auto simp: approvals_ok_def)
  ultimately show ?thesis by auto
qed

fun status_rank :: "string option \<Rightarrow> nat" where
  "status_rank None = 0"
| "status_rank (Some s) = (if s = ''PENDING'' then 1 else if s = ''APPROVED'' then 2
     else if s = ''CONSUMING'' then 4 else if s = ''EXECUTED'' \<or> s = ''FAILED'' then 5 else 3)"

lemma approval_edge_rank: "approval_edge s s' \<Longrightarrow> status_rank s \<le> status_rank s'"
  unfolding approval_edge_def by (elim disjE conjE insertE emptyE) simp_all

interpretation approval: progress approval_step "\<lambda>d. status_rank (approval_status i d)"
  by unfold_locales (rule approval_edge_rank [OF approval_step_edge])

lemma consumed_rank:
  "4 \<le> status_rank s \<longleftrightarrow> s \<in> {Some ''CONSUMING'', Some ''EXECUTED'', Some ''FAILED''}"
  by (cases s) auto

lemma consume_moves:
  assumes "approvals_ok d" "consume_approval_request i now d = (Inr True, d')"
  shows "approval_status i d = Some ''APPROVED''" "approval_status i d' = Some ''CONSUMING''"
proof -
  let ?f = "\<lambda>r. r\<lparr>ap_status := ''CONSUMING'', ap_consumed_at := Some (iso now)\<rparr>"
  have run: "expire_or_move i ''APPROVED'' (iso now) ?f d = (Inr True, d')"
    using assms(2) by (auto simp: consume_approval_request_def validation_defs op_guard_def split: if_splits)
  then obtain r where r: "fetchone (\<lambda>r. ap_request_id r = i) (approval_requests d) = Some r"
      "ap_status r = ''APPROVED''" "\<not> text_expired (iso now) r"
    using expire_or_move_True [OF assms(1), of i "''APPROVED''" "iso now" ?f] by auto
  then show "approval_status i d = Some ''APPROVED''" by (simp add: approval_status_def)
  have "d' = snd (expire_or_move i ''APPROVED'' (iso now) ?f d)" using run by simp
  moreover have "ap_request_id r = i" using r(1) by (auto dest: fetchone_SomeD)
  ultimately show "approval_status i d' = Some ''CONSUMING''"
    using r expire_or_move_row [of ?f i i "''APPROVED''" "iso now" d] by (simp add: approval_status_def)
qed

lemma approvals_ok_run: "approval_step\<^sup>*\<^sup>* d d' \<Longrightarrow> approvals_ok d \<Longrightarrow> approvals_ok d'"
  by (induction rule: rtranclp_induct) (auto intro: approval_step_ok)

section \<open>Properties\<close>

definition sample_deadline :: datetime where
  "sample_deadline = of_local_us (63903288600000000 + 120000000) (Some 540)"

definition sample_request :: approval_request where
  "sample_request = \<lparr>ap_request_id = ''r1'', ap_symbol = ''005930'', ap_decision_id = Some ''d1'',
     ap_reason = ''risk'', ap_status = ''APPROVED'', ap_created_at = iso sample_time, ap_resolved_at = None,
     ap_expires_at = Some (iso sample_deadline),
     ap_resolved_by = None, ap_consumed_at = None, ap_signal_id = Some ''s1'', ap_quantity = Some 3,
     ap_entry_price = Some (Fin 70000), ap_take_profit_price = Some (Fin 72000),
     ap_stop_loss_price = Some (Fin 69000), ap_max_holding_seconds = None\<rparr>"

definition sample_approvals :: db where
  "sample_approvals = empty_db\<lparr>approval_requests := [sample_request]\<rparr>"

lemma sample_approvals_ok: "approvals_ok sample_approvals"
  by (simp add: approvals_ok_def sample_approvals_def keyed_def)

lemma sample_deadline:
  "valid_dt sample_deadline" "dt_tz sample_deadline = Some 540" "local_us sample_deadline = 63903288720000000"
  by (simp_all add: sample_deadline_def valid_of_local_us in_range_us_def local_us_of_local_us)

lemma sample_request_live: "\<not> text_expired (iso sample_time) sample_request"
proof -
  have "dt_tz sample_deadline = dt_tz sample_time" by (simp add: sample_deadline(2)) (simp add: sample_time_def)
  from isoformat_le_iff [OF sample_deadline(1) valid_sample_time this]
  show ?thesis
    by (simp add: text_expired_def sample_request_def iso_def sample_deadline local_us_sample_time)
qed

lemma sample_approvals_fetch:
  "fetchone (\<lambda>r. ap_request_id r = ''r1'') (approval_requests sample_approvals) = Some sample_request"
  by (simp add: sample_approvals_def fetchone_Cons sample_request_def)

lemma sample_consume: "fst (consume_approval_request ''r1'' sample_time sample_approvals) = Inr True"
  using expire_or_move_True [OF sample_approvals_ok] sample_approvals_fetch sample_request_live
  by (simp add: consume_approval_request_def require_nonempty_def string_eval) (simp add: sample_request_def)

text \<open>
  (C10) An approval is used at most once. After \<open>consume_approval_request\<close> has answered True for a
  request, no sequence of database operations on approvals, repeats and races included, lets
  it be consumed a second time; the request can only be CONSUMING, EXECUTED or FAILED from then on.
\<close>

theorem approval_consumed_once:
  assumes "approvals_ok d" "consume_approval_request i now d = (Inr True, d')" "approval_step\<^sup>*\<^sup>* d' d''"
  shows "fst (consume_approval_request i later d'') \<noteq> Inr True
    \<and> approval_status i d'' \<in> {Some ''CONSUMING'', Some ''EXECUTED'', Some ''FAILED''}"
proof -
  have "4 \<le> status_rank (approval_status i d')" using consume_moves(2) [OF assms(1,2)] by simp
  from approval.passed_for_good [OF assms(3) this] consumed_rank
  have st: "approval_status i d'' \<in> {Some ''CONSUMING'', Some ''EXECUTED'', Some ''FAILED''}" by metis
  have "approvals_ok d'" using preserves_run [OF approval_ops_ok(4) assms(1,2)] .
  then have "approvals_ok d''" by (rule approvals_ok_run [OF assms(3)])
  then have "fst (consume_approval_request i later d'') \<noteq> Inr True"
    using consume_moves(1) [of d'' i later] st
    by (cases "consume_approval_request i later d''") auto
  with st show ?thesis by blast
qed

theorem approval_consumed_once_witness:
  "\<exists>d'. consume_approval_request ''r1'' sample_time sample_approvals = (Inr True, d')
     \<and> fst (consume_approval_request ''r1'' sample_time (snd (finish_approval_request ''r1'' False sample_time d')))
         \<noteq> Inr True"
proof -
  obtain d' where run: "consume_approval_request ''r1'' sample_time sample_approvals = (Inr True, d')"
    using sample_consume by (cases "consume_approval_request ''r1'' sample_time sample_approvals") simp
  have "approval_step\<^sup>*\<^sup>* d' (snd (finish_approval_request ''r1'' False sample_time d'))"
    by (rule r_into_rtranclp) (rule as_finish)
  from approval_consumed_once [OF sample_approvals_ok run this, of sample_time] run
  show ?thesis by blast
qed

text \<open>
  The text comparison of deadlines is a comparison of instants when the stored deadline and
  the clock carry the same UTC offset: a request is approved, rejected or consumed only strictly
  before its deadline, and the expiry sweep leaves no pending or approved request past its deadline.
\<close>

theorem approval_deadline_respected:
  assumes "approvals_ok d" "fetchone (\<lambda>r. ap_request_id r = i) (approval_requests d) = Some r"
    and "ap_expires_at r = Some (iso e)" "valid_dt e" "valid_dt now" "dt_tz e = dt_tz now"
  shows "(fst (resolve_approval_request i dec who now d) = Inr True \<longrightarrow> utc_us now < utc_us e)
    \<and> (fst (consume_approval_request i now d) = Inr True \<longrightarrow> utc_us now < utc_us e)
    \<and> (utc_us e \<le> utc_us now \<longrightarrow>
        approval_status i (snd (expire_approval_requests now d)) \<notin> {Some ''PENDING'', Some ''APPROVED''})"
proof -
  have "text_expired (iso now) r \<longleftrightarrow> utc_us e \<le> utc_us now"
    using assms(3) isoformat_le_iff [OF assms(4-6)] assms(6)
    by (simp add: text_expired_def iso_def utc_us_def)
  moreover have "approval_status i (snd (expire_approval_requests now d)) \<notin> {Some ''PENDING'', Some ''APPROVED''}"
    if "text_expired (iso now) r"
    using that assms(2)
    by (simp add: expire_approval_requests_def Let_def approval_status_def fetchone_update_where
        mark_expired_def)
  ultimately show ?thesis
    using assms(2) expire_or_move_True [OF assms(1)]
    by (auto simp: resolve_approval_request_def consume_approval_request_def validation_defs op_guard_def
        Let_def split: if_splits)
qed

theorem approval_deadline_respected_witness:
  "fst (consume_approval_request ''r1'' sample_time sample_approvals) = Inr True
   \<and> utc_us sample_time < utc_us sample_deadline"
proof -
  have e: "ap_expires_at sample_request = Some (iso sample_deadline)" by (simp add: sample_request_def)
  have tz: "dt_tz sample_deadline = dt_tz sample_time"
    by (simp add: sample_deadline(2)) (simp add: sample_time_def)
  from approval_deadline_respected [OF sample_approvals_ok sample_approvals_fetch e sample_deadline(1)
      valid_sample_time tz] sample_consume
  show ?thesis by blast
qed

text \<open>
  The deadline of an approval is not enforced across offsets. \<open>auto_trade\<close> stores the deadline of a request as naive
  Korean wall-clock text, while the Telegram handlers resolve it with a UTC clock; the text
  comparison then reads the two wall clocks as if they were one. A pending request is approved at
  every UTC instant whose wall clock is before the stored one, which is up to nine hours past
  the intended two minutes (Korean wall clock e is the UTC instant e - 9 h).
\<close>

theorem stale_approval_accepted:
  assumes "approvals_ok d" "fetchone (\<lambda>r. ap_request_id r = i) (approval_requests d) = Some r"
    and "ap_status r = ''PENDING''" "strip i \<noteq> []"
    and "ap_expires_at r = Some (iso e)" "valid_dt e" "dt_tz e = None"
    and "valid_dt now" "dt_tz now = Some 0"
    and "local_seconds now < local_seconds e"
  shows "fst (resolve_approval_request i ''approved'' who now d) = Inr True"
proof -
  have "clock_key now < clock_key e" using clock_key_less [OF assms(8,6)] assms(10) by simp
  then have "iso_head now < iso_head e" using iso_head_less [OF assms(8,6)] by simp
  then have "isoformat now < isoformat e" by (simp add: isoformat_def append_less_append)
  then have "\<not> text_expired (iso now) r" using assms(5) by (simp add: text_expired_def iso_def not_le)
  moreover have "upper ''approved'' = ''APPROVED''" by code_simp
  ultimately show ?thesis
    using assms(2-4) expire_or_move_True [OF assms(1)]
    by (simp add: resolve_approval_request_def require_nonempty_def Let_def)
qed

lemma local_seconds_less:
  assumes "valid_dt a" "valid_dt b" "local_us a div 1000000 < local_us b div 1000000"
  shows "local_seconds a < local_seconds b"
proof -
  have "local_us d div 1000000 = int (local_seconds d)" if "valid_dt d" for d
    using valid_dt_bounds [OF that] by (simp add: local_us_def zdiv_int)
  with assms show ?thesis by simp
qed

text \<open>The deadline 09:32 Korean time, approved at 09:30 UTC (18:30 in Seoul): 8 hours 58 minutes late.\<close>

theorem stale_approval_accepted_witness:
  "\<exists>d e now. fst (resolve_approval_request ''r1'' ''approved'' None now d) = Inr True
     \<and> ap_expires_at (hd (approval_requests d)) = Some (iso e) \<and> dt_tz e = None
     \<and> utc_us now - (local_us e - tz_us 540) = (8 * 3600 + 58 * 60) * 1000000"
proof -
  let ?e = "of_local_us 63903288720000000 None" and ?now = "of_local_us 63903288600000000 (Some 0)"
  let ?r = "sample_request\<lparr>ap_status := ''PENDING'', ap_expires_at := Some (iso ?e)\<rparr>"
  let ?d = "empty_db\<lparr>approval_requests := [?r]\<rparr>"
  have v: "valid_dt ?e" "valid_dt ?now" by (simp_all add: valid_of_local_us in_range_us_def)
  have us: "local_us ?e = 63903288720000000" "local_us ?now = 63903288600000000"
    by (simp_all add: local_us_of_local_us)
  have "fst (resolve_approval_request ''r1'' ''approved'' None ?now ?d) = Inr True"
  proof (rule stale_approval_accepted [where r = ?r and e = ?e])
    show "local_seconds ?now < local_seconds ?e" by (rule local_seconds_less [OF v(2,1)]) (simp add: us)
    show "fetchone (\<lambda>r. ap_request_id r = ''r1'') (approval_requests ?d) = Some ?r"
      by (simp add: fetchone_Cons) (simp add: sample_request_def)
  qed (simp_all add: v approvals_ok_def keyed_def string_eval)
  moreover have "utc_us ?now - (local_us ?e - tz_us 540) = (8 * 3600 + 58 * 60) * 1000000"
    by (simp add: utc_us_def us tz_us_def)
  ultimately show ?thesis by (intro exI [of _ ?d] exI [of _ ?e] exI [of _ ?now]) simp
qed

end
