(* ===== verification/OrderLedger.thy ===== *)
theory OrderLedger
  imports Storage
begin

text \<open>
  The order ledger of \<open>storage/database.py\<close>: the life of a \<open>broker_orders\<close> row from the
  claimed intent to a terminal status, the fills rolled into it, and the materialization of
  fills into \<open>live_positions\<close>. The ledger invariant \<open>ledger_ok\<close> is kept by every
  operation; a fill is counted once per fill id; materialization moves the open quantity
  by exactly the signed quantity of the fills it applies.
\<close>

section \<open>Operations on orders\<close>

definition order_clash :: "broker_order \<Rightarrow> broker_order \<Rightarrow> bool" where
  "order_clash r r' = (bo_client_order_id r' = bo_client_order_id r)"

definition claim_order_intent ::
  "string \<Rightarrow> string option \<Rightarrow> string \<Rightarrow> string \<Rightarrow> int \<Rightarrow> pyfloat \<Rightarrow> datetime \<Rightarrow> bool dbop" where
  "claim_order_intent client_order_id signal_id symbol sid requested_qty requested_price created_at =
     require_nonempty client_order_id ''client_order_id''
     (require_nonempty_opt signal_id ''signal_id''
     (validate_symbol symbol
     (require_nonempty sid ''side''
     (case side_of (upper sid) of
        None \<Rightarrow> op_fail (ValueError ''side must be BUY or SELL'')
      | Some normalized_side \<Rightarrow>
        validate_positive_int requested_qty ''requested_qty''
        (validate_positive_float requested_price ''requested_price''
        (\<lambda>d. let timestamp = iso created_at;
              row = \<lparr>bo_client_order_id = client_order_id, bo_signal_id = signal_id, bo_symbol = symbol,
                bo_side = normalized_side, bo_requested_qty = requested_qty,
                bo_requested_price = requested_price, bo_status = INTENT, bo_broker_order_id = None,
                bo_filled_qty = 0, bo_avg_fill_price = None, bo_created_at = timestamp,
                bo_updated_at = timestamp, bo_submitted_at = None, bo_completed_at = None,
                bo_error = None\<rparr>;
              (inserted, t) = insert_or_ignore order_clash row (broker_orders d)
            in (Inr inserted, d\<lparr>broker_orders := t\<rparr>)))))))"

text \<open>\<open>UPDATE broker_orders SET .. WHERE ..\<close> with its row count as the answer.\<close>

definition update_orders :: "(broker_order \<Rightarrow> bool) \<Rightarrow> (broker_order \<Rightarrow> broker_order) \<Rightarrow> bool dbop" where
  "update_orders p f d =
     (Inr (0 < rowcount p (broker_orders d)), d\<lparr>broker_orders := update_where p f (broker_orders d)\<rparr>)"

definition mark_order_submitting :: "string \<Rightarrow> datetime \<Rightarrow> bool dbop" where
  "mark_order_submitting client_order_id updated_at =
     require_nonempty client_order_id ''client_order_id''
       (update_orders (\<lambda>r. bo_client_order_id r = client_order_id)
          (\<lambda>r. r\<lparr>bo_status := SUBMITTING, bo_updated_at := iso updated_at, bo_error := None\<rparr>))"

definition record_order_submission :: "string \<Rightarrow> string \<Rightarrow> datetime \<Rightarrow> bool dbop" where
  "record_order_submission client_order_id broker_order_id submitted_at =
     require_nonempty client_order_id ''client_order_id''
     (require_nonempty broker_order_id ''broker_order_id''
       (update_orders (\<lambda>r. bo_client_order_id r = client_order_id)
          (\<lambda>r. r\<lparr>bo_status := ACKNOWLEDGED, bo_broker_order_id := Some broker_order_id,
                 bo_submitted_at := Some (iso submitted_at), bo_updated_at := iso submitted_at,
                 bo_error := None\<rparr>)))"

definition mark_order_unknown :: "string \<Rightarrow> string option \<Rightarrow> datetime \<Rightarrow> bool dbop" where
  "mark_order_unknown client_order_id error updated_at =
     require_nonempty client_order_id ''client_order_id''
     (require_nonempty_opt error ''error''
       (update_orders (\<lambda>r. bo_client_order_id r = client_order_id)
          (\<lambda>r. r\<lparr>bo_status := UNKNOWN, bo_updated_at := iso updated_at, bo_error := error\<rparr>)))"

definition update_broker_order_status ::
  "string \<Rightarrow> order_status \<Rightarrow> string option \<Rightarrow> int option \<Rightarrow> pyfloat option \<Rightarrow> string option \<Rightarrow>
   datetime \<Rightarrow> datetime option \<Rightarrow> bool dbop" where
  "update_broker_order_status client_order_id status broker_order_id filled_qty avg_fill_price error
     updated_at completed_at =
     require_nonempty client_order_id ''client_order_id''
     (require_nonempty_opt broker_order_id ''broker_order_id''
     (op_guard (case filled_qty of None \<Rightarrow> False | Some q \<Rightarrow> q < 0)
        (ValueError ''filled_qty must be a non-negative integer'')
     ((case avg_fill_price of None \<Rightarrow> (\<lambda>k. k)
        | Some v \<Rightarrow> validate_positive_float v ''avg_fill_price'')
     (require_nonempty_opt error ''error''
       (let completion = (if status \<in> set TERMINAL_BROKER_ORDER_STATUSES
              then Some (iso (case completed_at of None \<Rightarrow> updated_at | Some c \<Rightarrow> c)) else None)
        in update_orders
          (\<lambda>r. bo_client_order_id r = client_order_id
               \<and> (case filled_qty of None \<Rightarrow> True | Some q \<Rightarrow> q \<le> bo_requested_qty r))
          (\<lambda>r. r\<lparr>bo_status := status,
                 bo_broker_order_id := coalesce broker_order_id (bo_broker_order_id r),
                 bo_filled_qty := (case filled_qty of None \<Rightarrow> bo_filled_qty r | Some q \<Rightarrow> q),
                 bo_avg_fill_price := coalesce avg_fill_price (bo_avg_fill_price r),
                 bo_updated_at := iso updated_at, bo_completed_at := completion, bo_error := error\<rparr>))))))"

section \<open>Fills\<close>

text \<open>SQLite stores a NaN result as NULL.\<close>

definition sql_real :: "pyfloat \<Rightarrow> pyfloat option" where
  "sql_real v = (if v = NaN then None else Some v)"

definition fill_clash :: "broker_fill \<Rightarrow> broker_fill \<Rightarrow> bool" where
  "fill_clash r r' = (bf_fill_id r' = bf_fill_id r)"

definition rolled_average :: "broker_order \<Rightarrow> int \<Rightarrow> pyfloat \<Rightarrow> pyfloat option" where
  "rolled_average r quantity price = sql_real (fquot
     (fadd (fmul (f_int (bo_filled_qty r)) (case bo_avg_fill_price r of None \<Rightarrow> Fin 0 | Some v \<Rightarrow> v))
           (fmul (f_int quantity) price))
     (f_int (bo_filled_qty r + quantity)))"

definition roll_fill :: "int \<Rightarrow> pyfloat \<Rightarrow> string option \<Rightarrow> string \<Rightarrow> broker_order \<Rightarrow> broker_order" where
  "roll_fill quantity price effective_broker_id fill_timestamp r =
     (let filled = (bo_filled_qty r + quantity = bo_requested_qty r) in
      r\<lparr>bo_filled_qty := bo_filled_qty r + quantity,
        bo_avg_fill_price := rolled_average r quantity price,
        bo_status := (if filled then FILLED else PARTIALLY_FILLED),
        bo_broker_order_id := coalesce (bo_broker_order_id r) effective_broker_id,
        bo_updated_at := fill_timestamp,
        bo_completed_at := (if filled then Some fill_timestamp else None),
        bo_error := None\<rparr>)"

text \<open>The two statements of the transaction: insert the fill once, then roll it into its order.\<close>

definition fill_fits :: "string \<Rightarrow> int \<Rightarrow> broker_order \<Rightarrow> bool" where
  "fill_fits client_order_id quantity r =
     (bo_client_order_id r = client_order_id \<and> bo_filled_qty r + quantity \<le> bo_requested_qty r)"

definition store_fill :: "broker_fill \<Rightarrow> bool dbop" where
  "store_fill row d =
     (let (inserted, fills) = insert_or_ignore fill_clash row (broker_fills d);
          d1 = d\<lparr>broker_fills := fills\<rparr>;
          p = fill_fits (bf_client_order_id row) (bf_quantity row)
      in if \<not> inserted then (Inr False, d)
         else if rowcount p (broker_orders d1) = 0
         then (Inl (ValueError ''fill quantity exceeds requested order quantity''), d1)
         else (Inr True, d1\<lparr>broker_orders := update_where p
            (roll_fill (bf_quantity row) (bf_price row) (bf_broker_order_id row) (bf_filled_at row))
            (broker_orders d1)\<rparr>))"

definition fill_row :: "string \<Rightarrow> int \<Rightarrow> pyfloat \<Rightarrow> datetime \<Rightarrow> string option \<Rightarrow> datetime \<Rightarrow> broker_order \<Rightarrow> broker_fill" where
  "fill_row fill_id quantity price filled_at broker_order_id created_at order =
     \<lparr>bf_fill_id = fill_id, bf_client_order_id = bo_client_order_id order,
      bf_broker_order_id = str_or broker_order_id (bo_broker_order_id order),
      bf_symbol = bo_symbol order, bf_side = bo_side order, bf_quantity = quantity,
      bf_price = price, bf_filled_at = iso filled_at, bf_created_at = iso created_at\<rparr>"

definition apply_broker_fill ::
  "string \<Rightarrow> string \<Rightarrow> int \<Rightarrow> pyfloat \<Rightarrow> datetime \<Rightarrow> string option \<Rightarrow> string option \<Rightarrow> string option \<Rightarrow>
   datetime \<Rightarrow> bool dbop" where
  "apply_broker_fill fill_id client_order_id quantity price filled_at broker_order_id symbol sid created_at =
     require_nonempty fill_id ''fill_id''
     (require_nonempty client_order_id ''client_order_id''
     (validate_positive_int quantity ''quantity''
     (validate_positive_float price ''price''
     (require_nonempty_opt broker_order_id ''broker_order_id''
     ((case symbol of None \<Rightarrow> (\<lambda>k. k) | Some s \<Rightarrow> validate_symbol s)
     (require_nonempty_opt sid ''side''
     (op_guard (case sid of None \<Rightarrow> False | Some s \<Rightarrow> side_of (upper s) = None)
        (ValueError ''side must be BUY or SELL'')
     (transaction (\<lambda>d.
        case fetchone (\<lambda>r. bo_client_order_id r = client_order_id) (broker_orders d) of
          None \<Rightarrow> op_fail (ValueError (''unknown client_order_id: '' @ client_order_id)) d
        | Some order \<Rightarrow>
          op_guard (case symbol of None \<Rightarrow> False | Some s \<Rightarrow> s \<noteq> bo_symbol order)
            (ValueError ''fill symbol does not match order'')
          (op_guard (case sid of None \<Rightarrow> False | Some s \<Rightarrow> side_of (upper s) \<noteq> Some (bo_side order))
            (ValueError ''fill side does not match order'')
          (op_guard (case (broker_order_id, bo_broker_order_id order) of
                (Some a, Some b) \<Rightarrow> a \<noteq> b | _ \<Rightarrow> False)
            (ValueError ''fill broker_order_id does not match order'')
          (store_fill (fill_row fill_id quantity price filled_at broker_order_id created_at order)))) d)))))))))"

section \<open>Materializing fills into positions\<close>

record mat_terms =
  mt_stop :: "pyfloat option"
  mt_take :: "pyfloat option"
  mt_hold :: "int option"
  mt_close_reason :: string

definition open_position_for :: "string \<Rightarrow> live_position table \<Rightarrow> live_position option" where
  "open_position_for symbol ps = first_by (\<lambda>p. (lp_opened_at p, lp_position_id p))
     (select_where (\<lambda>p. lp_symbol p = symbol \<and> lp_status p = POS_OPEN) ps)"

definition position_clash :: "live_position \<Rightarrow> live_position \<Rightarrow> bool" where
  "position_clash r r' = (lp_position_id r' = lp_position_id r \<or> lp_signal_id r' = lp_signal_id r)"

definition ladder_ok :: "mat_terms \<Rightarrow> pyfloat \<Rightarrow> bool" where
  "ladder_ok mt price = (case (mt_stop mt, mt_take mt) of
     (Some s, Some t) \<Rightarrow> flt s price \<and> flt price t | _ \<Rightarrow> False)"

definition new_position :: "mat_terms \<Rightarrow> broker_order \<Rightarrow> broker_fill \<Rightarrow> datetime \<Rightarrow> live_position" where
  "new_position mt order fill filled_at =
     (let signal_id = (case str_or (bo_signal_id order) None of
            None \<Rightarrow> ''fill:'' @ bo_client_order_id order | Some g \<Rightarrow> g)
      in \<lparr>lp_position_id = ''live-position:'' @ signal_id, lp_signal_id = signal_id,
          lp_symbol = bf_symbol fill, lp_quantity = bf_quantity fill, lp_entry_price = bf_price fill,
          lp_stop_loss_price = the (mt_stop mt), lp_take_profit_price = the (mt_take mt),
          lp_opened_at = iso filled_at, lp_status = POS_OPEN,
          lp_entry_broker_order_id = str_or (bf_broker_order_id fill) (bo_broker_order_id order),
          lp_exit_broker_order_id = None, lp_closed_at = None, lp_close_reason = None,
          lp_max_holding_seconds = mt_hold mt\<rparr>)"

definition update_open :: "live_position \<Rightarrow> (live_position \<Rightarrow> live_position) \<Rightarrow> live_position table \<Rightarrow> live_position table" where
  "update_open p f ps =
     update_where (\<lambda>r. lp_position_id r = lp_position_id p \<and> lp_status r = POS_OPEN) f ps"

definition buy_into :: "mat_terms \<Rightarrow> broker_order \<Rightarrow> broker_fill \<Rightarrow> datetime \<Rightarrow> live_position option \<Rightarrow>
  live_position table \<Rightarrow> live_position table result" where
  "buy_into mt order fill filled_at position ps = (case position of
      None \<Rightarrow>
        if \<not> ladder_ok mt (bf_price fill)
        then Inl (ValueError ''BUY fill requires a valid stop/take price ladder'')
        else let r = new_position mt order fill filled_at
             in if list_ex (position_clash r) ps
                then Inl (IntegrityError ''UNIQUE constraint failed: live_positions'')
                else Inr (ps @ [r])
    | Some p \<Rightarrow>
        (let new_quantity = lp_quantity p + bf_quantity fill in
         rbind (fdiv (fadd (fmul (f_int (lp_quantity p)) (lp_entry_price p))
                           (fmul (f_int (bf_quantity fill)) (bf_price fill)))
                     (f_int new_quantity))
           (\<lambda>avg. case sql_real avg of
              None \<Rightarrow> Inl (IntegrityError ''NOT NULL constraint failed: live_positions.entry_price'')
            | Some new_average \<Rightarrow>
                Inr (update_open p (\<lambda>r. r\<lparr>lp_quantity := new_quantity, lp_entry_price := new_average\<rparr>) ps))))"

definition sell_from :: "mat_terms \<Rightarrow> broker_order \<Rightarrow> broker_fill \<Rightarrow> datetime \<Rightarrow> live_position option \<Rightarrow>
  live_position table \<Rightarrow> live_position table result" where
  "sell_from mt order fill filled_at position ps = (case position of
      None \<Rightarrow> Inl (ValueError ''SELL fill has no open live position'')
    | Some p \<Rightarrow>
        if bf_quantity fill > lp_quantity p
        then Inl (ValueError ''SELL fill exceeds open live position'')
        else let new_quantity = lp_quantity p - bf_quantity fill;
                 exit_id = str_or (bf_broker_order_id fill) (bo_broker_order_id order)
             in if new_quantity = 0
                then Inr (update_open p (\<lambda>r. r\<lparr>lp_quantity := 0, lp_status := POS_CLOSED,
                       lp_exit_broker_order_id := exit_id, lp_closed_at := Some (iso filled_at),
                       lp_close_reason := Some (mt_close_reason mt)\<rparr>) ps)
                else Inr (update_open p (\<lambda>r. r\<lparr>lp_quantity := new_quantity,
                       lp_exit_broker_order_id := exit_id\<rparr>) ps))"

definition fill_position :: "mat_terms \<Rightarrow> broker_order \<Rightarrow> broker_fill \<Rightarrow> live_position table \<Rightarrow> live_position table result" where
  "fill_position mt order fill ps = (case fromisoformat (bf_filled_at fill) of
      None \<Rightarrow> Inl (ValueError ''Invalid isoformat string'')
    | Some filled_at \<Rightarrow>
        let position = open_position_for (bf_symbol fill) ps
        in if bf_side fill = BUY then buy_into mt order fill filled_at position ps
           else sell_from mt order fill filled_at position ps)"

fun materialize_loop :: "mat_terms \<Rightarrow> broker_order \<Rightarrow> datetime \<Rightarrow> broker_fill list \<Rightarrow>
  live_position table \<Rightarrow> fill_application table \<Rightarrow> nat \<Rightarrow>
  (live_position table \<times> fill_application table \<times> nat) result" where
  "materialize_loop mt order clk [] ps as applied = Inr (ps, as, applied)"
| "materialize_loop mt order clk (fill # fills) ps as applied =
     rbind (fill_position mt order fill ps) (\<lambda>ps'.
       materialize_loop mt order clk fills ps'
         (as @ [\<lparr>fa_fill_id = bf_fill_id fill, fa_client_order_id = bo_client_order_id order,
                 fa_applied_at = iso clk\<rparr>])
         (Suc applied))"

definition unapplied_fills :: "db \<Rightarrow> string \<Rightarrow> broker_fill list" where
  "unapplied_fills d client_order_id = sort_key (\<lambda>f. (bf_filled_at f, bf_fill_id f))
     (select_where (\<lambda>f. bf_client_order_id f = client_order_id
        \<and> \<not> exists_where (\<lambda>a. fa_fill_id a = bf_fill_id f) (fill_applications d)) (broker_fills d))"

text \<open>
  One atomic step. In the code the two SELECTs run before the first write opens the transaction, so another connection could
  write between them; such an interleaving is outside the model.
\<close>

definition materialize_order_fills :: "string \<Rightarrow> mat_terms \<Rightarrow> datetime \<Rightarrow> nat dbop" where
  "materialize_order_fills client_order_id mt clk =
     require_nonempty client_order_id ''client_order_id''
     ((case mt_stop mt of None \<Rightarrow> (\<lambda>k. k) | Some v \<Rightarrow> validate_positive_float v ''stop_loss_price'')
     ((case mt_take mt of None \<Rightarrow> (\<lambda>k. k) | Some v \<Rightarrow> validate_positive_float v ''take_profit_price'')
     (op_guard (case mt_hold mt of None \<Rightarrow> False | Some h \<Rightarrow> h \<le> 0)
        (ValueError ''max_holding_seconds must be positive'')
     (op_guard (mt_close_reason mt = []) (ValueError ''close_reason must not be empty'')
     (\<lambda>d. case fetchone (\<lambda>r. bo_client_order_id r = client_order_id) (broker_orders d) of
          None \<Rightarrow> (Inl (ValueError (''unknown client_order_id: '' @ client_order_id)), d)
        | Some order \<Rightarrow>
          (case materialize_loop mt order clk (unapplied_fills d client_order_id)
                  (live_positions d) (fill_applications d) 0 of
             Inl e \<Rightarrow> (Inl e, d)
           | Inr (ps, as, applied) \<Rightarrow>
               (Inr applied, d\<lparr>live_positions := ps, fill_applications := as\<rparr>)))))))"

section \<open>Reads\<close>

definition get_broker_order :: "string \<Rightarrow> broker_order option dbop" where
  "get_broker_order client_order_id = require_nonempty client_order_id ''client_order_id''
     (\<lambda>d. (Inr (fetchone (\<lambda>r. bo_client_order_id r = client_order_id) (broker_orders d)), d))"

definition list_broker_fills :: "string \<Rightarrow> broker_fill list dbop" where
  "list_broker_fills client_order_id = require_nonempty client_order_id ''client_order_id''
     (\<lambda>d. (Inr (sort_key (\<lambda>f. (bf_filled_at f, bf_fill_id f))
          (select_where (\<lambda>f. bf_client_order_id f = client_order_id) (broker_fills d))), d))"

definition list_open_live_positions :: "string option \<Rightarrow> db \<Rightarrow> live_position list" where
  "list_open_live_positions symbol d = sort_key (\<lambda>p. (lp_opened_at p, lp_position_id p))
     (select_where (\<lambda>p. lp_status p = POS_OPEN \<and> (case symbol of None \<Rightarrow> True | Some s \<Rightarrow> lp_symbol p = s))
        (live_positions d))"

definition open_live_position ::
  "string \<Rightarrow> string \<Rightarrow> string \<Rightarrow> int \<Rightarrow> pyfloat \<Rightarrow> pyfloat \<Rightarrow> pyfloat \<Rightarrow> datetime \<Rightarrow> string option \<Rightarrow>
   int option \<Rightarrow> bool dbop" where
  "open_live_position position_id signal_id symbol quantity entry_price stop_loss_price take_profit_price
     opened_at entry_broker_order_id max_holding_seconds =
     validate_paper_record symbol quantity entry_price
     (op_guard (position_id = [] \<or> signal_id = []) (ValueError ''position_id and signal_id are required'')
     (op_guard (\<not> (flt stop_loss_price entry_price \<and> flt entry_price take_profit_price))
        (ValueError ''position prices must satisfy stop < entry < take_profit'')
     (\<lambda>d. let row = \<lparr>lp_position_id = position_id, lp_signal_id = signal_id, lp_symbol = symbol,
             lp_quantity = quantity, lp_entry_price = entry_price, lp_stop_loss_price = stop_loss_price,
             lp_take_profit_price = take_profit_price, lp_opened_at = iso opened_at, lp_status = POS_OPEN,
             lp_entry_broker_order_id = entry_broker_order_id, lp_exit_broker_order_id = None,
             lp_closed_at = None, lp_close_reason = None, lp_max_holding_seconds = max_holding_seconds\<rparr>;
             (inserted, t) = insert_or_ignore position_clash row (live_positions d)
           in (Inr inserted, d\<lparr>live_positions := t\<rparr>))))"

definition close_live_position :: "string \<Rightarrow> string option \<Rightarrow> string \<Rightarrow> datetime \<Rightarrow> bool dbop" where
  "close_live_position position_id exit_broker_order_id close_reason closed_at =
     op_guard (position_id = [] \<or> close_reason = []) (ValueError ''position_id and close_reason are required'')
     (\<lambda>d. let p = (\<lambda>r. lp_position_id r = position_id \<and> lp_status r = POS_OPEN)
           in (Inr (0 < rowcount p (live_positions d)),
               d\<lparr>live_positions := update_where p (\<lambda>r. r\<lparr>lp_status := POS_CLOSED,
                   lp_exit_broker_order_id := exit_broker_order_id, lp_closed_at := Some (iso closed_at),
                   lp_close_reason := Some close_reason\<rparr>) (live_positions d)\<rparr>))"

section \<open>The ledger invariant\<close>

definition order_ok :: "broker_order \<Rightarrow> bool" where
  "order_ok r = (0 < bo_requested_qty r \<and> 0 \<le> bo_filled_qty r \<and> bo_filled_qty r \<le> bo_requested_qty r
     \<and> positive_number (bo_requested_price r))"

definition fill_ok :: "broker_order table \<Rightarrow> broker_fill \<Rightarrow> bool" where
  "fill_ok os f = (0 < bf_quantity f \<and> positive_number (bf_price f)
     \<and> list_ex (\<lambda>r. bo_client_order_id r = bf_client_order_id f \<and> bo_symbol r = bf_symbol f
                     \<and> bo_side r = bf_side f) os)"

definition application_ok :: "broker_fill table \<Rightarrow> fill_application \<Rightarrow> bool" where
  "application_ok fs a = list_ex (\<lambda>f. bf_fill_id f = fa_fill_id a
     \<and> bf_client_order_id f = fa_client_order_id a) fs"

definition positions_ok :: "live_position table \<Rightarrow> bool" where
  "positions_ok ps = (keyed lp_position_id ps \<and> keyed lp_signal_id ps
     \<and> list_all (\<lambda>p. lp_status p = POS_OPEN \<longrightarrow> 0 < lp_quantity p) ps)"

definition ledger_ok :: "db \<Rightarrow> bool" where
  "ledger_ok d = (keyed bo_client_order_id (broker_orders d) \<and> list_all order_ok (broker_orders d)
     \<and> keyed bf_fill_id (broker_fills d) \<and> list_all (fill_ok (broker_orders d)) (broker_fills d)
     \<and> keyed fa_fill_id (fill_applications d)
     \<and> list_all (application_ok (broker_fills d)) (fill_applications d)
     \<and> positions_ok (live_positions d))"

lemma ledger_ok_empty: "ledger_ok empty_db"
  by (simp add: ledger_ok_def empty_db_def positions_ok_def)

lemma fill_ok_update_orders:
  assumes "\<And>r. bo_client_order_id (f r) = bo_client_order_id r" "\<And>r. bo_symbol (f r) = bo_symbol r"
    "\<And>r. bo_side (f r) = bo_side r"
  shows "fill_ok (update_where p f os) x = fill_ok os x"
  using assms by (simp add: fill_ok_def list_ex_update_where)

lemma ledger_ok_update_orders:
  assumes "ledger_ok d"
    and "\<And>r. bo_client_order_id (f r) = bo_client_order_id r" "\<And>r. bo_symbol (f r) = bo_symbol r"
      "\<And>r. bo_side (f r) = bo_side r"
    and "\<And>r. order_ok r \<Longrightarrow> p r \<Longrightarrow> order_ok (f r)"
  shows "ledger_ok (d\<lparr>broker_orders := update_where p f (broker_orders d)\<rparr>)"
proof -
  have "fill_ok (update_where p f (broker_orders d)) = fill_ok (broker_orders d)"
    by (rule ext) (rule fill_ok_update_orders [OF assms(2-4)])
  moreover have "list_all order_ok (update_where p f (broker_orders d))"
    using assms(1,5) by (auto simp: ledger_ok_def list_all_iff table_simps)
  ultimately show ?thesis
    using assms(1,2) by (simp add: ledger_ok_def keyed_update_where)
qed

lemma preserves_update_orders:
  assumes "\<And>r. bo_client_order_id (f r) = bo_client_order_id r" "\<And>r. bo_symbol (f r) = bo_symbol r"
    "\<And>r. bo_side (f r) = bo_side r" "\<And>r. order_ok r \<Longrightarrow> p r \<Longrightarrow> order_ok (f r)"
  shows "preserves ledger_ok (update_orders p f)"
  by (rule preservesI) (simp add: update_orders_def ledger_ok_update_orders assms)

lemma claim_order_intent_ok [preserves_rules]:
  "preserves ledger_ok (claim_order_intent c g sy sd q pr clk)"
  unfolding claim_order_intent_def
proof (intro preserves_rules)
  fix ns
  assume q: "0 < q" and pr: "positive_number pr"
  show "preserves ledger_ok (\<lambda>d. let timestamp = iso clk;
        row = \<lparr>bo_client_order_id = c, bo_signal_id = g, bo_symbol = sy, bo_side = ns,
          bo_requested_qty = q, bo_requested_price = pr, bo_status = INTENT, bo_broker_order_id = None,
          bo_filled_qty = 0, bo_avg_fill_price = None, bo_created_at = timestamp,
          bo_updated_at = timestamp, bo_submitted_at = None, bo_completed_at = None, bo_error = None\<rparr>;
        (inserted, t) = insert_or_ignore order_clash row (broker_orders d)
      in (Inr inserted, d\<lparr>broker_orders := t\<rparr>))"
    using q pr
    by (intro preservesI) (auto simp: Let_def insert_or_ignore_def list_ex_iff order_clash_def
        ledger_ok_def keyed_snoc order_ok_def list_all_iff fill_ok_def)
qed

lemma mark_order_submitting_ok [preserves_rules]: "preserves ledger_ok (mark_order_submitting c clk)"
  unfolding mark_order_submitting_def
  by (intro preserves_rules preserves_update_orders) (simp_all add: order_ok_def)

lemma record_order_submission_ok [preserves_rules]:
  "preserves ledger_ok (record_order_submission c b clk)"
  unfolding record_order_submission_def
  by (intro preserves_rules preserves_update_orders) (simp_all add: order_ok_def)

lemma mark_order_unknown_ok [preserves_rules]: "preserves ledger_ok (mark_order_unknown c e clk)"
  unfolding mark_order_unknown_def
  by (intro preserves_rules preserves_update_orders) (simp_all add: order_ok_def)

lemma update_broker_order_status_ok [preserves_rules]:
  "preserves ledger_ok (update_broker_order_status c st b q av e clk cm)"
  unfolding update_broker_order_status_def Let_def
  by (intro preserves_rules preserves_update_orders) (auto simp: order_ok_def split: option.splits)

lemma store_fill_ok:
  assumes "ledger_ok d" and "0 < bf_quantity row" "positive_number (bf_price row)"
    and "fetchone (\<lambda>r. bo_client_order_id r = bf_client_order_id row) (broker_orders d) = Some order"
    and "bf_symbol row = bo_symbol order" "bf_side row = bo_side order"
    and "store_fill row d = (Inr b, d')"
  shows "ledger_ok d'"
proof (cases b)
  case False
  then have "d' = d"
    using assms(7) by (auto simp: store_fill_def Let_def split: prod.splits if_splits)
  then show ?thesis using assms(1) by simp
next
  case True
  have new: "\<forall>f\<in>set (broker_fills d). bf_fill_id f \<noteq> bf_fill_id row"
    and d': "d' = d\<lparr>broker_fills := broker_fills d @ [row],
        broker_orders := update_where (fill_fits (bf_client_order_id row) (bf_quantity row))
          (roll_fill (bf_quantity row) (bf_price row) (bf_broker_order_id row) (bf_filled_at row))
          (broker_orders d)\<rparr>"
    using True assms(7)
    by (auto simp: store_fill_def Let_def insert_or_ignore_def list_ex_iff fill_clash_def
        split: if_splits)
  have "fill_ok (broker_orders d) row"
    using assms fetchone_SomeD [OF assms(4)] by (auto simp: fill_ok_def list_ex_iff)
  then have "ledger_ok (d\<lparr>broker_fills := broker_fills d @ [row]\<rparr>)"
    using assms(1) new
    by (auto simp: ledger_ok_def keyed_snoc list_all_iff application_ok_def list_ex_iff)
  from ledger_ok_update_orders [OF this, of
      "roll_fill (bf_quantity row) (bf_price row) (bf_broker_order_id row) (bf_filled_at row)"
      "fill_fits (bf_client_order_id row) (bf_quantity row)"]
  show ?thesis
    using assms(2) by (simp add: d' roll_fill_def Let_def order_ok_def fill_fits_def)
qed

lemma apply_broker_fill_run:
  assumes "apply_broker_fill fid c q pr fat b sy sd clk d = (Inr r, d')"
  obtains order where "fetchone (\<lambda>r. bo_client_order_id r = c) (broker_orders d) = Some order"
    "bo_client_order_id order = c" "0 < q" "positive_number pr"
    "store_fill (fill_row fid q pr fat b clk order) d = (Inr r, d')"
proof -
  have pos: "0 < q" "positive_number pr"
    using assms by (auto simp: apply_broker_fill_def validation_defs op_guard_def split: if_splits)
  obtain order where o: "fetchone (\<lambda>r. bo_client_order_id r = c) (broker_orders d) = Some order"
      "store_fill (fill_row fid q pr fat b clk order) d = (Inr r, d')"
    using assms
    by (auto simp: apply_broker_fill_def validation_defs op_guard_def op_fail_def transaction_Inr
        split: if_splits option.splits)
  with fetchone_SomeD [OF o(1)] pos show ?thesis by (auto intro: that)
qed

lemma apply_broker_fill_raises:
  assumes "apply_broker_fill fid c q pr fat b sy sd clk d = (Inl e, d')"
  shows "d' = d"
proof -
  have "op_guard x e1 (transaction m) d = (Inl e, d') \<Longrightarrow> d' = d" for x e1 m
    by (auto simp: op_guard_def dest: transaction_Inl split: if_splits)
  with assms show ?thesis
    by (auto simp: apply_broker_fill_def validation_defs op_guard_def dest: transaction_Inl
        split: if_splits option.splits)
qed

lemma apply_broker_fill_ok [preserves_rules]:
  "preserves ledger_ok (apply_broker_fill fid c q pr fat b sy sd clk)"
proof (rule preservesI)
  fix d assume ok: "ledger_ok d"
  obtain r d' where run: "apply_broker_fill fid c q pr fat b sy sd clk d = (r, d')" by fastforce
  show "ledger_ok (snd (apply_broker_fill fid c q pr fat b sy sd clk d))"
  proof (cases r)
    case (Inl e)
    with run ok show ?thesis by (auto dest: apply_broker_fill_raises)
  next
    case (Inr x)
    from run [unfolded Inr] show ?thesis
      by (rule apply_broker_fill_run)
        (use ok run in \<open>auto simp: fill_row_def elim!: store_fill_ok [rotated 6]\<close>)
  qed
qed

section \<open>Positions follow the applied fills\<close>

definition signed_qty :: "broker_fill \<Rightarrow> int" where
  "signed_qty f = (if bf_side f = BUY then bf_quantity f else - bf_quantity f)"

definition open_part :: "string \<Rightarrow> live_position \<Rightarrow> int" where
  "open_part s p = (if lp_symbol p = s \<and> lp_status p = POS_OPEN then lp_quantity p else 0)"

definition open_qty :: "string \<Rightarrow> live_position table \<Rightarrow> int" where
  "open_qty s ps = sum_list (map (open_part s) ps)"

definition fill_part :: "string \<Rightarrow> broker_fill \<Rightarrow> int" where
  "fill_part s f = (if bf_symbol f = s then signed_qty f else 0)"

definition is_applied :: "db \<Rightarrow> broker_fill \<Rightarrow> bool" where
  "is_applied d f = exists_where (\<lambda>a. fa_fill_id a = bf_fill_id f) (fill_applications d)"

definition applied_qty :: "string \<Rightarrow> db \<Rightarrow> int" where
  "applied_qty s d = sum_list (map (fill_part s) (filter (is_applied d) (broker_fills d)))"

lemma sum_update_keyed:
  fixes g :: "'r \<Rightarrow> int"
  assumes "keyed k t" "x \<in> set t" "P x"
  shows "sum_list (map g (update_where (\<lambda>r. k r = k x \<and> P r) f t)) = sum_list (map g t) - g x + g (f x)"
  using assms
proof (induction t)
  case (Cons y t)
  show ?case
  proof (cases "y = x")
    case True
    have "\<forall>r\<in>set t. \<not> (k r = k x \<and> P r)"
      using Cons.prems True by (auto simp: keyed_def image_iff)
    then have "update_where (\<lambda>r. k r = k x \<and> P r) f t = t" by (rule update_where_id)
    then show ?thesis using True Cons.prems(3) by (simp add: update_where_def)
  next
    case False
    then have "k y \<noteq> k x" "x \<in> set t" "keyed k t"
      using Cons.prems by (auto simp: keyed_def image_iff)
    then show ?thesis using Cons by (simp add: update_where_def)
  qed
qed simp

lemma open_position_for_SomeD:
  "open_position_for s ps = Some p \<Longrightarrow> p \<in> set ps \<and> lp_symbol p = s \<and> lp_status p = POS_OPEN"
  unfolding open_position_for_def by (drule first_by_SomeD) (simp add: table_simps)

lemma update_open_ok:
  assumes "positions_ok ps"
    and "\<And>r. lp_position_id (f r) = lp_position_id r" "\<And>r. lp_signal_id (f r) = lp_signal_id r"
    and "\<And>r. lp_status (f r) = POS_OPEN \<Longrightarrow> 0 < lp_quantity (f r)"
  shows "positions_ok (update_open p f ps)"
  using assms by (auto simp: positions_ok_def update_open_def keyed_update_where list_all_iff table_simps)

lemma open_qty_update_open:
  assumes "positions_ok ps" "p \<in> set ps" "lp_status p = POS_OPEN"
  shows "open_qty s (update_open p f ps) = open_qty s ps - open_part s p + open_part s (f p)"
  using assms sum_update_keyed [of lp_position_id ps p "\<lambda>r. lp_status r = POS_OPEN" "open_part s" f]
  by (simp add: open_qty_def update_open_def positions_ok_def)

lemma buy_into_effect:
  assumes ok: "positions_ok ps" and q: "0 < bf_quantity fill" and side: "bf_side fill = BUY"
    and run: "buy_into mt order fill ts (open_position_for (bf_symbol fill) ps) ps = Inr ps'"
  shows "positions_ok ps' \<and> open_qty s ps' = open_qty s ps + fill_part s fill"
proof (cases "open_position_for (bf_symbol fill) ps")
  case None
  with run have ps': "ps' = ps @ [new_position mt order fill ts]"
    and nc: "\<not> list_ex (position_clash (new_position mt order fill ts)) ps"
    by (auto simp: buy_into_def Let_def split: if_splits)
  have "positions_ok ps'"
    using ok nc q
    by (auto simp: ps' positions_ok_def keyed_snoc list_ex_iff position_clash_def)
      (auto simp: new_position_def Let_def)
  then show ?thesis
    using side by (auto simp: ps' open_qty_def open_part_def fill_part_def signed_qty_def
        new_position_def Let_def)
next
  case (Some p)
  note p = open_position_for_SomeD [OF Some]
  have qp: "0 < lp_quantity p" using ok p by (auto simp: positions_ok_def list_all_iff)
  from run Some obtain av where
    "ps' = update_open p (\<lambda>r. r\<lparr>lp_quantity := lp_quantity p + bf_quantity fill, lp_entry_price := av\<rparr>) ps"
    by (auto simp: buy_into_def Let_def rbind_eq_Inr split: option.splits)
  then show ?thesis
    using ok p q qp side
    by (auto simp: open_qty_update_open intro!: update_open_ok)
      (auto simp: open_part_def fill_part_def signed_qty_def)
qed

lemma sell_from_effect:
  assumes ok: "positions_ok ps" and q: "0 < bf_quantity fill" and side: "bf_side fill = SELL"
    and run: "sell_from mt order fill ts (open_position_for (bf_symbol fill) ps) ps = Inr ps'"
  shows "positions_ok ps' \<and> open_qty s ps' = open_qty s ps + fill_part s fill"
proof -
  from run obtain p where some: "open_position_for (bf_symbol fill) ps = Some p"
    and le: "bf_quantity fill \<le> lp_quantity p"
    by (auto simp: sell_from_def split: option.splits if_splits)
  note p = open_position_for_SomeD [OF some]
  from run some le obtain f where ps': "ps' = update_open p f ps"
    and f: "\<And>r. lp_position_id (f r) = lp_position_id r" "\<And>r. lp_signal_id (f r) = lp_signal_id r"
      "\<And>r. lp_symbol (f r) = lp_symbol r"
      "\<And>r. lp_quantity (f r) = lp_quantity p - bf_quantity fill"
      "\<And>r. lp_status r = POS_OPEN \<Longrightarrow> lp_status (f r) = POS_OPEN \<longleftrightarrow> lp_quantity p \<noteq> bf_quantity fill"
      "\<And>r. lp_quantity p = bf_quantity fill \<Longrightarrow> lp_status (f r) = POS_CLOSED"
    by (cases "lp_quantity p = bf_quantity fill")
      (auto simp: sell_from_def Let_def dest!: sym [of _ ps'])
  have "positions_ok ps'"
    unfolding ps' using ok le f by (intro update_open_ok) (auto, smt (verit) position_status.distinct(1))
  then show ?thesis
    using ok p side le f
    by (auto simp: ps' open_qty_update_open open_part_def fill_part_def signed_qty_def)
qed

lemma fill_position_effect:
  assumes "positions_ok ps" "0 < bf_quantity fill" "fill_position mt order fill ps = Inr ps'"
  shows "positions_ok ps' \<and> open_qty s ps' = open_qty s ps + fill_part s fill"
proof -
  from assms(3) obtain ts where
    run: "if bf_side fill = BUY
      then buy_into mt order fill ts (open_position_for (bf_symbol fill) ps) ps = Inr ps'
      else sell_from mt order fill ts (open_position_for (bf_symbol fill) ps) ps = Inr ps'"
    by (auto simp: fill_position_def Let_def split: option.splits if_splits)
  show ?thesis
  proof (cases "bf_side fill")
    case BUY
    with run show ?thesis by (intro buy_into_effect [OF assms(1,2) BUY]) simp
  next
    case SELL
    with run show ?thesis by (intro sell_from_effect [OF assms(1,2) SELL]) simp
  qed
qed

lemma materialize_loop_effect:
  assumes "materialize_loop mt order clk fills ps as n = Inr (ps', as', n')"
    and "positions_ok ps" "\<forall>f\<in>set fills. 0 < bf_quantity f"
  shows "positions_ok ps' \<and> n' = n + length fills
     \<and> as' = as @ map (\<lambda>f. \<lparr>fa_fill_id = bf_fill_id f, fa_client_order_id = bo_client_order_id order,
                            fa_applied_at = iso clk\<rparr>) fills
     \<and> open_qty s ps' = open_qty s ps + sum_list (map (fill_part s) fills)"
  using assms
proof (induction fills arbitrary: ps as n)
  case (Cons f fills)
  from Cons.prems(1) obtain ps1 where fp: "fill_position mt order f ps = Inr ps1"
    and rest: "materialize_loop mt order clk fills ps1
      (as @ [\<lparr>fa_fill_id = bf_fill_id f, fa_client_order_id = bo_client_order_id order,
              fa_applied_at = iso clk\<rparr>]) (Suc n) = Inr (ps', as', n')"
    by (auto simp: rbind_eq_Inr)
  from fill_position_effect [OF Cons.prems(2) _ fp, of s] Cons.prems(3)
  have ps1: "positions_ok ps1" "open_qty s ps1 = open_qty s ps + fill_part s f" by auto
  from Cons.IH [OF rest ps1(1)] Cons.prems(3) ps1(2) show ?case by simp
qed simp

text \<open>
  A successful run, with the database it leaves: the positions and applications that the loop
  computes from the fills of the order that were not applied before.
\<close>

lemma materialize_order_fills_run:
  assumes "materialize_order_fills c mt clk d = (Inr n, d')"
  obtains order ps as where "fetchone (\<lambda>r. bo_client_order_id r = c) (broker_orders d) = Some order"
    "bo_client_order_id order = c"
    "materialize_loop mt order clk (unapplied_fills d c) (live_positions d) (fill_applications d) 0
       = Inr (ps, as, n)"
    "d' = d\<lparr>live_positions := ps, fill_applications := as\<rparr>"
  using assms
  by (auto simp: materialize_order_fills_def validation_defs op_guard_def intro!: that
      dest: fetchone_SomeD split: if_splits option.splits sum.splits prod.splits)

lemma materialize_order_fills_raises:
  "materialize_order_fills c mt clk d = (Inl e, d') \<Longrightarrow> d' = d"
  by (auto simp: materialize_order_fills_def validation_defs op_guard_def
      split: if_splits option.splits sum.splits prod.splits)

lemma set_unapplied_fills:
  "f \<in> set (unapplied_fills d c) \<longleftrightarrow> f \<in> set (broker_fills d) \<and> bf_client_order_id f = c \<and> \<not> is_applied d f"
  by (auto simp: unapplied_fills_def is_applied_def table_simps)

lemma keyed_unapplied_fills: "ledger_ok d \<Longrightarrow> keyed bf_fill_id (unapplied_fills d c)"
  by (simp add: ledger_ok_def unapplied_fills_def keyed_def select_where_def distinct_map
      inj_on_def distinct_filter)

lemma materialize_order_fills_effect:
  assumes ok: "ledger_ok d" and run: "materialize_order_fills c mt clk d = (Inr n, d')"
  shows "ledger_ok d'" "n = length (unapplied_fills d c)"
    "open_qty s (live_positions d')
       = open_qty s (live_positions d) + sum_list (map (fill_part s) (unapplied_fills d c))"
    "is_applied d' f \<longleftrightarrow> is_applied d f \<or> (\<exists>g\<in>set (unapplied_fills d c). bf_fill_id g = bf_fill_id f)"
    "d' = d\<lparr>live_positions := live_positions d', fill_applications := fill_applications d'\<rparr>"
proof -
  from run obtain order ps as where o: "bo_client_order_id order = c"
    and loop: "materialize_loop mt order clk (unapplied_fills d c) (live_positions d)
      (fill_applications d) 0 = Inr (ps, as, n)"
    and d': "d' = d\<lparr>live_positions := ps, fill_applications := as\<rparr>"
    by (rule materialize_order_fills_run)
  have pos: "\<forall>f\<in>set (unapplied_fills d c). 0 < bf_quantity f"
    using ok by (auto simp: set_unapplied_fills ledger_ok_def list_all_iff fill_ok_def)
  have "positions_ok (live_positions d)" using ok by (simp add: ledger_ok_def)
  note eff = materialize_loop_effect [OF loop this pos]
  from eff have as: "as = fill_applications d @ map (\<lambda>f. \<lparr>fa_fill_id = bf_fill_id f,
      fa_client_order_id = c, fa_applied_at = iso clk\<rparr>) (unapplied_fills d c)" using o by simp
  show "n = length (unapplied_fills d c)" "open_qty s (live_positions d')
       = open_qty s (live_positions d) + sum_list (map (fill_part s) (unapplied_fills d c))"
    using eff by (simp_all add: d')
  show "is_applied d' f \<longleftrightarrow> is_applied d f \<or> (\<exists>g\<in>set (unapplied_fills d c). bf_fill_id g = bf_fill_id f)"
    by (auto simp: is_applied_def d' as table_simps bex_Un)
  show "d' = d\<lparr>live_positions := live_positions d', fill_applications := fill_applications d'\<rparr>"
    by (simp add: d')
  have "keyed fa_fill_id as"
    using ok keyed_unapplied_fills [OF ok]
    by (auto simp: as keyed_def ledger_ok_def set_unapplied_fills is_applied_def table_simps o_def)
  moreover have "list_all (application_ok (broker_fills d)) as"
    using ok by (auto simp: as ledger_ok_def list_all_iff application_ok_def list_ex_iff
        set_unapplied_fills)
  ultimately show "ledger_ok d'"
    using ok eff by (simp add: d' ledger_ok_def)
qed

lemma materialize_order_fills_ok [preserves_rules]: "preserves ledger_ok (materialize_order_fills c mt clk)"
proof (rule preservesI)
  fix d assume ok: "ledger_ok d"
  obtain r d' where run: "materialize_order_fills c mt clk d = (r, d')" by fastforce
  then show "ledger_ok (snd (materialize_order_fills c mt clk d))"
    using ok by (cases r) (auto dest: materialize_order_fills_raises materialize_order_fills_effect(1))
qed

lemma open_live_position_ok [preserves_rules]:
  "preserves ledger_ok (open_live_position i g s q e sl tp clk b h)"
  unfolding open_live_position_def
  by (intro preserves_rules preservesI)
    (auto simp: Let_def insert_or_ignore_def ledger_ok_def positions_ok_def keyed_snoc list_ex_iff
      position_clash_def split: if_splits)

lemma close_live_position_ok [preserves_rules]:
  "preserves ledger_ok (close_live_position i b why clk)"
  unfolding close_live_position_def
  by (intro preserves_rules preservesI)
    (auto simp: Let_def ledger_ok_def positions_ok_def keyed_update_where list_all_iff table_simps)

section \<open>Exactly once\<close>

text \<open>
  A second materialization of the same order finds nothing to apply, whatever price ladder,
  holding time or close reason it is called with, as long as these pass the validation.
\<close>

lemma unapplied_after_materialize:
  assumes "ledger_ok d" "materialize_order_fills c mt clk d = (Inr n, d')"
  shows "unapplied_fills d' c = []"
proof -
  have "broker_fills d' = broker_fills d"
    by (subst materialize_order_fills_effect(5) [OF assms]) simp
  then have "f \<notin> set (unapplied_fills d' c)" for f
    using materialize_order_fills_effect(4) [OF assms, of f] set_unapplied_fills [of f]
    by (auto simp: set_unapplied_fills)
  then show ?thesis by (metis last_in_set)
qed

lemma materialize_nothing:
  assumes "materialize_order_fills c mt clk d = (Inr n, d')" "unapplied_fills d c = []"
  shows "n = 0 \<and> d' = d"
  using assms(1) by (rule materialize_order_fills_run) (use assms(2) in auto)

lemma applied_qty_after_materialize:
  assumes "ledger_ok d" "materialize_order_fills c mt clk d = (Inr n, d')"
  shows "applied_qty s d' = applied_qty s d + sum_list (map (fill_part s) (unapplied_fills d c))"
proof -
  let ?q = "\<lambda>f. bf_client_order_id f = c \<and> \<not> is_applied d f"
  have fills: "broker_fills d' = broker_fills d"
    by (subst materialize_order_fills_effect(5) [OF assms]) simp
  have "is_applied d' f \<longleftrightarrow> is_applied d f \<or> ?q f" if "f \<in> set (broker_fills d)" for f
    using materialize_order_fills_effect(4) [OF assms, of f] that assms(1)
    by (auto simp: set_unapplied_fills ledger_ok_def dest: keyed_unique)
  then have "filter (is_applied d') (broker_fills d)
      = filter (\<lambda>f. is_applied d f \<or> ?q f) (broker_fills d)"
    by (rule filter_cong [OF refl])
  moreover have "sum_list (map (fill_part s) (filter (\<lambda>f. is_applied d f \<or> ?q f) t))
      = sum_list (map (fill_part s) (filter (is_applied d) t)) + sum_list (map (fill_part s) (filter ?q t))" for t
    by (induction t) auto
  moreover have "sum_list (map (fill_part s) (unapplied_fills d c))
      = sum_list (map (fill_part s) (filter ?q (broker_fills d)))"
    by (simp add: unapplied_fills_def is_applied_def select_where_def)
  ultimately show ?thesis
    by (simp add: applied_qty_def fills)
qed

section \<open>Runs of the ledger\<close>

text \<open>
  One call of an operation that the order pipelines make on the ledger. Direct edits of
  \<open>live_positions\<close> (\<open>open_live_position\<close>, \<open>close_live_position\<close>) are not steps here.
\<close>

inductive ledger_step :: "db \<Rightarrow> db \<Rightarrow> bool" where
  step_claim: "ledger_step d (snd (claim_order_intent c g sy sd q pr clk d))"
| step_submitting: "ledger_step d (snd (mark_order_submitting c clk d))"
| step_submission: "ledger_step d (snd (record_order_submission c b clk d))"
| step_unknown: "ledger_step d (snd (mark_order_unknown c e clk d))"
| step_status: "ledger_step d (snd (update_broker_order_status c st ob oq av e clk cm d))"
| step_fill: "ledger_step d (snd (apply_broker_fill fid c q pr fat ob osy osd clk d))"
| step_materialize: "ledger_step d (snd (materialize_order_fills c mt clk d))"

inductive ledger_reach :: "db \<Rightarrow> bool" where
  reach_empty: "ledger_reach empty_db"
| reach_step: "ledger_reach d \<Longrightarrow> ledger_step d d' \<Longrightarrow> ledger_reach d'"

inductive_cases ledger_stepE: "ledger_step d d'"

lemma ledger_step_ok: "ledger_step d d' \<Longrightarrow> ledger_ok d \<Longrightarrow> ledger_ok d'"
  by (erule ledger_step.cases) (auto intro: preservesD [OF _ _] preserves_rules)

definition balanced :: "db \<Rightarrow> bool" where
  "balanced d = (\<forall>s. open_qty s (live_positions d) = applied_qty s d)"

text \<open>Operations that leave fills, applications and positions alone keep the balance.\<close>

definition same_fills :: "db \<Rightarrow> db \<Rightarrow> bool" where
  "same_fills d d' = (broker_fills d' = broker_fills d \<and> fill_applications d' = fill_applications d
     \<and> live_positions d' = live_positions d)"

lemma balanced_same_fills: "balanced d \<Longrightarrow> same_fills d d' \<Longrightarrow> balanced d'"
  by (simp add: balanced_def same_fills_def applied_qty_def is_applied_def [abs_def])

lemma same_fills_refl [simp]: "same_fills d d"
  by (simp add: same_fills_def)

lemma preserves_same_fills_update_orders: "preserves (same_fills d) (update_orders p f)"
  by (rule preservesI) (simp add: same_fills_def update_orders_def)

lemma order_ops_same_fills:
  "preserves (same_fills d0) (claim_order_intent c g sy sd q pr clk)"
  "preserves (same_fills d0) (mark_order_submitting c clk)"
  "preserves (same_fills d0) (record_order_submission c b clk)"
  "preserves (same_fills d0) (mark_order_unknown c e clk)"
  "preserves (same_fills d0) (update_broker_order_status c st ob oq av e clk cm)"
  unfolding claim_order_intent_def mark_order_submitting_def record_order_submission_def
    mark_order_unknown_def update_broker_order_status_def Let_def
      apply (intro preserves_rules preservesI, auto simp: same_fills_def insert_or_ignore_def)[1]
     apply (intro preserves_rules preserves_same_fills_update_orders)+
  done

lemma balanced_order_op: "balanced d \<Longrightarrow> preserves (same_fills d) m \<Longrightarrow> balanced (snd (m d))"
  using preservesD [of "same_fills d" m d] balanced_same_fills [of d "snd (m d)"] by simp

lemma store_fill_inserts:
  assumes "store_fill row d = (Inr True, d')"
  shows "broker_fills d' = broker_fills d @ [row]" "fill_applications d' = fill_applications d"
    "live_positions d' = live_positions d" "\<forall>f\<in>set (broker_fills d). bf_fill_id f \<noteq> bf_fill_id row"
    "broker_orders d' = update_where (fill_fits (bf_client_order_id row) (bf_quantity row))
          (roll_fill (bf_quantity row) (bf_price row) (bf_broker_order_id row) (bf_filled_at row))
          (broker_orders d)"
    "\<exists>r\<in>set (broker_orders d). fill_fits (bf_client_order_id row) (bf_quantity row) r"
  using assms
  by (auto simp: store_fill_def Let_def insert_or_ignore_def list_ex_iff fill_clash_def table_simps
      split: if_splits)

lemma store_fill_ignores: "store_fill row d = (Inr False, d') \<Longrightarrow> d' = d \<and> (\<exists>f\<in>set (broker_fills d). bf_fill_id f = bf_fill_id row)"
  by (auto simp: store_fill_def Let_def insert_or_ignore_def list_ex_iff fill_clash_def
      split: if_splits)

lemma balanced_store_fill:
  assumes "ledger_ok d" "balanced d" "store_fill row d = (Inr r, d')"
  shows "balanced d'"
proof (cases r)
  case True
  have "store_fill row d = (Inr True, d')" using True assms(3) by simp
  note ins = store_fill_inserts [OF this]
  have "\<not> is_applied d' row"
    using assms(1) ins(2,4)
    by (auto simp: is_applied_def ledger_ok_def list_all_iff application_ok_def list_ex_iff table_simps)
  moreover have "is_applied d' = is_applied d" by (simp add: is_applied_def [abs_def] ins(2))
  ultimately show ?thesis
    using assms(2) ins(1,3) by (simp add: balanced_def applied_qty_def)
next
  case False
  then have "store_fill row d = (Inr False, d')" using assms(3) by simp
  from store_fill_ignores [OF this] assms(2) show ?thesis by simp
qed

lemma ledger_step_balanced:
  assumes "ledger_step d d'" "ledger_ok d" "balanced d"
  shows "balanced d'"
  using assms(1)
proof cases
  case (step_fill fid c q pr fat ob osy osd clk)
  obtain r d1 where run: "apply_broker_fill fid c q pr fat ob osy osd clk d = (r, d1)" by fastforce
  show ?thesis
  proof (cases r)
    case Inl
    with run step_fill assms(3) show ?thesis by (auto dest: apply_broker_fill_raises)
  next
    case (Inr x)
    from run [unfolded Inr] show ?thesis
      by (rule apply_broker_fill_run) (use run step_fill assms in \<open>auto intro: balanced_store_fill\<close>)
  qed
next
  case (step_materialize c mt clk)
  obtain r d1 where run: "materialize_order_fills c mt clk d = (r, d1)" by fastforce
  show ?thesis
  proof (cases r)
    case Inl
    with run step_materialize assms(3) show ?thesis by (auto dest: materialize_order_fills_raises)
  next
    case (Inr n)
    note r = run [unfolded Inr]
    with step_materialize assms show ?thesis
      by (simp add: balanced_def applied_qty_after_materialize [OF assms(2) r]
          materialize_order_fills_effect(3) [OF assms(2) r])
  qed
qed (simp_all add: balanced_order_op [OF assms(3) order_ops_same_fills(1)]
    balanced_order_op [OF assms(3) order_ops_same_fills(2)]
    balanced_order_op [OF assms(3) order_ops_same_fills(3)]
    balanced_order_op [OF assms(3) order_ops_same_fills(4)]
    balanced_order_op [OF assms(3) order_ops_same_fills(5)])

lemma ledger_reach_invariant: "ledger_reach d \<Longrightarrow> ledger_ok d \<and> balanced d"
proof (induction rule: ledger_reach.induct)
  case reach_empty
  show ?case using ledger_ok_empty
    by (simp add: balanced_def empty_db_def open_qty_def applied_qty_def)
next
  case (reach_step d d')
  then show ?case using ledger_step_ok ledger_step_balanced by blast
qed

section \<open>Properties\<close>

text \<open>A small ledger on which the properties below are exercised.\<close>

definition sample_order :: broker_order where
  "sample_order = \<lparr>bo_client_order_id = ''c1'', bo_signal_id = Some ''s1'', bo_symbol = ''005930'',
     bo_side = BUY, bo_requested_qty = 10, bo_requested_price = Fin 70000, bo_status = ACKNOWLEDGED,
     bo_broker_order_id = Some ''b1'', bo_filled_qty = 4, bo_avg_fill_price = Some (Fin 70000),
     bo_created_at = ''2026-01-05T09:30:00+09:00'', bo_updated_at = ''2026-01-05T09:30:00+09:00'',
     bo_submitted_at = None, bo_completed_at = None, bo_error = None\<rparr>"

definition sample_fill :: broker_fill where
  "sample_fill = \<lparr>bf_fill_id = ''f1'', bf_client_order_id = ''c1'', bf_broker_order_id = Some ''b1'',
     bf_symbol = ''005930'', bf_side = BUY, bf_quantity = 4, bf_price = Fin 70000,
     bf_filled_at = iso sample_time, bf_created_at = ''2026-01-05T09:30:00+09:00''\<rparr>"

definition sample_ledger :: db where
  "sample_ledger = empty_db\<lparr>broker_orders := [sample_order], broker_fills := [sample_fill]\<rparr>"

lemma sample_ledger_simps:
  "broker_orders sample_ledger = [sample_order]" "broker_fills sample_ledger = [sample_fill]"
  "fill_applications sample_ledger = []" "live_positions sample_ledger = []"
  by (simp_all add: sample_ledger_def empty_db_def)

lemma sample_ledger_ok: "ledger_ok sample_ledger"
  by code_simp

text \<open>
  (C13) Every operation of the database layer on orders, fills and positions keeps the ledger
  invariant, on every branch, the raising ones included: order ids, fill ids, applications,
  position ids and signal ids stay unique, 0 <= filled_qty <= requested_qty, every fill names an
  order of its symbol and side, every application names a stored fill, open positions have a
  positive quantity. The empty database satisfies it.
\<close>

theorem ledger_ops_keep_invariant:
  "ledger_ok empty_db
   \<and> preserves ledger_ok (claim_order_intent c g sy sd q pr clk)
   \<and> preserves ledger_ok (mark_order_submitting c clk)
   \<and> preserves ledger_ok (record_order_submission c b clk)
   \<and> preserves ledger_ok (mark_order_unknown c er clk)
   \<and> preserves ledger_ok (update_broker_order_status c st ob oq av er clk cm)
   \<and> preserves ledger_ok (apply_broker_fill fid c q pr fat ob osy osd clk)
   \<and> preserves ledger_ok (materialize_order_fills c mt clk)
   \<and> preserves ledger_ok (open_live_position pid gid sy q pr sl tp clk ob h)
   \<and> preserves ledger_ok (close_live_position pid ob why clk)"
  using ledger_ok_empty by (intro conjI preserves_rules)

lemma store_fill_rolls:
  assumes "ledger_ok d" "fetchone (\<lambda>r. bo_client_order_id r = c) (broker_orders d) = Some o1"
    and st: "store_fill (fill_row fid q pr fat ob clk o1) d = (Inr True, d')"
  shows "fill_fits c q o1"
    "fetchone (\<lambda>r. bo_client_order_id r = c) (broker_orders d')
        = Some (roll_fill q pr (str_or ob (bo_broker_order_id o1)) (iso fat) o1)"
    "filter (\<lambda>r. bo_client_order_id r \<noteq> c) (broker_orders d')
        = filter (\<lambda>r. bo_client_order_id r \<noteq> c) (broker_orders d)"
proof -
  note o1 = fetchone_SomeD [OF assms(2)]
  note ins = store_fill_inserts [OF st, unfolded fill_row_def, simplified]
  obtain r where r: "r \<in> set (broker_orders d)" "fill_fits c q r" using ins(6) o1 by auto
  have "r = o1"
    using assms(1) r o1 by (auto simp: ledger_ok_def fill_fits_def dest: keyed_unique)
  then show fits: "fill_fits c q o1" using r by simp
  show "fetchone (\<lambda>r. bo_client_order_id r = c) (broker_orders d')
        = Some (roll_fill q pr (str_or ob (bo_broker_order_id o1)) (iso fat) o1)"
    unfolding ins(5) using o1 fits
    by (subst fetchone_update_where) (simp_all add: assms(2) roll_fill_def Let_def)
  show "filter (\<lambda>r. bo_client_order_id r \<noteq> c) (broker_orders d')
        = filter (\<lambda>r. bo_client_order_id r \<noteq> c) (broker_orders d)"
    unfolding ins(5) using o1
    by (intro filter_update_where_other) (simp add: fill_fits_def roll_fill_def Let_def)
qed

text \<open>
  (C6) \<open>apply_broker_fill\<close> on every branch. An exception leaves the database unchanged, also the
  one for a fill that exceeds the order, which is raised after the fill row was inserted. False
  is returned exactly for a fill id already stored, and changes nothing. True stores the fill under a new id, adds its
  quantity to the order's filled quantity without exceeding the requested one, marks the order
  FILLED exactly when it is complete, and leaves every other order alone.
\<close>

theorem apply_broker_fill_correct:
  assumes "ledger_ok d"
  shows "case apply_broker_fill fid c q pr fat ob osy osd clk d of
      (Inl e, d') \<Rightarrow> d' = d
    | (Inr False, d') \<Rightarrow> d' = d \<and> fid \<in> set (map bf_fill_id (broker_fills d))
    | (Inr True, d') \<Rightarrow> fid \<notin> set (map bf_fill_id (broker_fills d))
        \<and> (\<exists>o1 o2. fetchone (\<lambda>r. bo_client_order_id r = c) (broker_orders d) = Some o1
            \<and> fetchone (\<lambda>r. bo_client_order_id r = c) (broker_orders d') = Some o2
            \<and> broker_fills d' = broker_fills d @ [fill_row fid q pr fat ob clk o1]
            \<and> bo_filled_qty o2 = bo_filled_qty o1 + q \<and> bo_filled_qty o2 \<le> bo_requested_qty o2
            \<and> (bo_status o2 = FILLED \<longleftrightarrow> bo_filled_qty o2 = bo_requested_qty o1))
        \<and> filter (\<lambda>r. bo_client_order_id r \<noteq> c) (broker_orders d')
            = filter (\<lambda>r. bo_client_order_id r \<noteq> c) (broker_orders d)"
proof -
  obtain r d' where run: "apply_broker_fill fid c q pr fat ob osy osd clk d = (r, d')" by fastforce
  show ?thesis
  proof (cases r)
    case Inl
    with run show ?thesis by (auto dest: apply_broker_fill_raises)
  next
    case (Inr x)
    from run [unfolded Inr] obtain o1 where
      f: "fetchone (\<lambda>r. bo_client_order_id r = c) (broker_orders d) = Some o1"
      and c: "bo_client_order_id o1 = c" and q: "0 < q"
      and st: "store_fill (fill_row fid q pr fat ob clk o1) d = (Inr x, d')"
      by (rule apply_broker_fill_run)
    show ?thesis
    proof (cases x)
      case False
      then have "store_fill (fill_row fid q pr fat ob clk o1) d = (Inr False, d')" using st by simp
      from store_fill_ignores [OF this] run Inr False show ?thesis
        by (auto simp: fill_row_def image_iff)
    next
      case True
      then have st': "store_fill (fill_row fid q pr fat ob clk o1) d = (Inr True, d')" using st by simp
      from store_fill_rolls [OF assms f st'] store_fill_inserts(1,4) [OF st'] run Inr True f
      show ?thesis by (auto simp: fill_row_def image_iff roll_fill_def Let_def fill_fits_def)
    qed
  qed
qed

lemmas ledger_eval = validation_defs string_eval op_guard_def positive_number_def transaction_def
  sample_ledger_simps sample_order_def sample_fill_def fetchone_def insert_or_ignore_def rowcount_def
  empty_db_def

theorem apply_broker_fill_correct_witness:
  "ledger_ok sample_ledger
   \<and> (case apply_broker_fill ''f2'' ''c1'' 6 (Fin 70000) sample_time (Some ''b1'') None (Some ''buy'')
        sample_time sample_ledger of
      (Inl e, d') \<Rightarrow> False | (Inr False, d') \<Rightarrow> False
    | (Inr True, d') \<Rightarrow> (\<exists>o2. fetchone (\<lambda>r. bo_client_order_id r = ''c1'') (broker_orders d') = Some o2
        \<and> bo_filled_qty o2 = 10 \<and> bo_status o2 = FILLED))"
proof -
  let ?run = "apply_broker_fill ''f2'' ''c1'' 6 (Fin 70000) sample_time (Some ''b1'') None (Some ''buy'')
        sample_time sample_ledger"
  have "side_of (upper ''buy'') = Some BUY" by code_simp
  then have "fst ?run = Inr True"
    by (simp add: apply_broker_fill_def store_fill_def fill_row_def fill_clash_def fill_fits_def
        ledger_eval)
  then obtain d' where run: "?run = (Inr True, d')" by (cases ?run) simp
  have "fetchone (\<lambda>r. bo_client_order_id r = ''c1'') (broker_orders sample_ledger) = Some sample_order"
    by (simp add: ledger_eval)
  with apply_broker_fill_correct [OF sample_ledger_ok, where fid = "''f2''" and c = "''c1''" and q = 6
      and pr = "Fin 70000" and fat = sample_time and ob = "Some ''b1''" and osy = None
      and osd = "Some ''buy''" and clk = sample_time] run
  show ?thesis using sample_ledger_ok by (auto simp: sample_order_def)
qed

text \<open>
  The claim of a client order id before any broker request: it succeeds exactly when no order has
  the id yet, and once it has succeeded every later claim of the same id, with any payload, answers
  False or raises, and changes nothing.
\<close>

theorem claim_order_intent_once:
  assumes "claim_order_intent c g sy sd q pr clk d = (Inr won, d')"
  shows "won = (c \<notin> set (map bo_client_order_id (broker_orders d)))
    \<and> c \<in> set (map bo_client_order_id (broker_orders d'))
    \<and> snd (claim_order_intent c g2 sy2 sd2 q2 pr2 clk2 d') = d'
    \<and> fst (claim_order_intent c g2 sy2 sd2 q2 pr2 clk2 d') \<noteq> Inr True"
proof -
  have run: "won = (c \<notin> set (map bo_client_order_id (broker_orders d)))"
    and c: "c \<in> set (map bo_client_order_id (broker_orders d'))"
    using assms
    by (auto simp: claim_order_intent_def validation_defs op_guard_def op_fail_def Let_def
        insert_or_ignore_def order_clash_def list_ex_iff image_iff split: if_splits option.splits)
  have "list_ex (order_clash r) (broker_orders d')" if "bo_client_order_id r = c" for r
    using c that by (auto simp: list_ex_iff order_clash_def)
  then show ?thesis
    using run c
    by (auto simp: claim_order_intent_def validation_defs op_guard_def op_fail_def Let_def
        insert_or_ignore_def split: option.splits)
qed

theorem claim_order_intent_once_witness:
  "\<exists>d'. claim_order_intent ''c2'' None ''005930'' ''sell'' 3 (Fin 71000) sample_time sample_ledger = (Inr True, d')
    \<and> snd (claim_order_intent ''c2'' (Some ''other'') ''000660'' ''BUY'' 9 (Fin 5) sample_time d') = d'"
proof -
  let ?run = "claim_order_intent ''c2'' None ''005930'' ''sell'' 3 (Fin 71000) sample_time sample_ledger"
  have "side_of (upper ''sell'') = Some SELL" by code_simp
  then have "fst ?run = Inr True"
    by (simp add: claim_order_intent_def order_clash_def ledger_eval)
  then obtain d' where "?run = (Inr True, d')" by (cases ?run) simp
  with claim_order_intent_once [OF this] show ?thesis by blast
qed

text \<open>
  (C7) Materialization of an order's fills: the count returned is the number of fills not applied
  before; the open quantity of every symbol moves by exactly their signed sum; the orders and fills
  themselves are untouched; and calling it again applies nothing and changes nothing, so no fill
  ever reaches a position twice.
\<close>

theorem materialize_exactly_once:
  assumes "ledger_ok d" and "materialize_order_fills c mt clk d = (Inr n, d')"
  shows "n = length (unapplied_fills d c)
    \<and> open_qty s (live_positions d')
        = open_qty s (live_positions d) + sum_list (map (fill_part s) (unapplied_fills d c))
    \<and> broker_orders d' = broker_orders d \<and> broker_fills d' = broker_fills d
    \<and> materialize_order_fills c mt clk2 d' = (Inr 0, d')"
proof -
  note eff = materialize_order_fills_effect [OF assms]
  have same: "broker_orders d' = broker_orders d" "broker_fills d' = broker_fills d"
    by (subst eff(5), simp)+
  have "materialize_order_fills c mt clk2 d' = (Inr 0, d')"
    using assms(2) unapplied_after_materialize [OF assms]
    by (auto simp: materialize_order_fills_def validation_defs op_guard_def same
        split: if_splits option.splits sum.splits)
  with eff(2,3) same show ?thesis by simp
qed

definition sample_terms :: mat_terms where
  "sample_terms = \<lparr>mt_stop = Some (Fin 69000), mt_take = Some (Fin 72000), mt_hold = Some 600,
     mt_close_reason = ''broker_fill''\<rparr>"

theorem materialize_exactly_once_witness:
  "\<exists>d'. materialize_order_fills ''c1'' sample_terms sample_time sample_ledger = (Inr 1, d')
    \<and> open_qty ''005930'' (live_positions d') = 4
    \<and> materialize_order_fills ''c1'' sample_terms sample_time d' = (Inr 0, d')"
proof -
  let ?run = "materialize_order_fills ''c1'' sample_terms sample_time sample_ledger"
  have fills: "unapplied_fills sample_ledger ''c1'' = [sample_fill]"
    by (simp add: unapplied_fills_def select_where_def exists_where_def sample_ledger_simps
        sample_fill_def)
  have "fromisoformat (iso sample_time) = Some sample_time"
    unfolding iso_def by (rule fromisoformat_isoformat_wf [OF valid_sample_time])
  then have "fst ?run = Inr 1"
    by (simp add: materialize_order_fills_def fills sample_terms_def fill_position_def
        open_position_for_def select_where_def first_by_def buy_into_def ladder_ok_def ledger_eval)
  then obtain d' where "?run = (Inr 1, d')" by (cases ?run) simp
  with materialize_exactly_once [OF sample_ledger_ok this, of "''005930''" sample_time]
  show ?thesis
    by (simp add: fills fill_part_def signed_qty_def open_qty_def sample_ledger_simps sample_fill_def)
qed

text \<open>
  (C8) In every database reachable from the empty one through the order operations, the open
  quantity of every symbol equals the signed sum of the applied fills of that symbol (bought minus
  sold), and is never negative: no interleaving of partial fills, repeats, rejections and
  materializations makes the book drift from the fills or oversells it.
\<close>

theorem position_balance:
  assumes "ledger_reach d"
  shows "open_qty s (live_positions d) = applied_qty s d \<and> 0 \<le> open_qty s (live_positions d)"
proof -
  from ledger_reach_invariant [OF assms] have ok: "ledger_ok d" and bal: "balanced d" by auto
  have "0 \<le> open_part s p" if "p \<in> set (live_positions d)" for p
    using ok that by (auto simp: open_part_def ledger_ok_def positions_ok_def list_all_iff)
  then have "0 \<le> open_qty s (live_positions d)"
    unfolding open_qty_def by (intro sum_list_nonneg) auto
  with bal show ?thesis by (simp add: balanced_def)
qed

theorem position_balance_witness:
  "\<exists>d. ledger_reach d \<and> bo_client_order_id ` set (broker_orders d) = {''c9''}
     \<and> open_qty ''005930'' (live_positions d) = applied_qty ''005930'' d"
proof -
  let ?d = "snd (claim_order_intent ''c9'' None ''005930'' ''BUY'' 3 (Fin 71000) sample_time empty_db)"
  have "ledger_reach ?d" by (intro reach_step [OF reach_empty] step_claim)
  moreover have "side_of (upper ''BUY'') = Some BUY" by code_simp
  then have "bo_client_order_id ` set (broker_orders ?d) = {''c9''}"
    by (simp add: claim_order_intent_def order_clash_def ledger_eval)
  ultimately show ?thesis using position_balance [of ?d "''005930''"] by blast
qed

end
