(* ===== verification/Schedule.thy ===== *)
theory Schedule
  imports PyTime
begin

text \<open>
  Exchange sessions (\<open>market/clock.py\<close>, \<open>market/schedule.py\<close>). The exchange calendar is a third-party
  package: \<open>cal\<close> is None when it is not installed and otherwise its minute predicate on
  Korean wall-clock time. Shown: the windows depend on the instant only, entries and forced exits
  never overlap, both lie inside the session.
\<close>

definition KST :: int where
  "KST = 540"

definition astimezone_kst :: "datetime \<Rightarrow> datetime" where
  "astimezone_kst v = of_local_us (utc_us v + tz_us KST) (Some KST)"

definition as_kst :: "datetime \<Rightarrow> datetime" where
  "as_kst v = (if dt_tz v = None then v else (astimezone_kst v)\<lparr>dt_tz := None\<rparr>)"

text \<open>\<open>time()\<close> in microseconds of the day, \<open>weekday()\<close> with Monday 0.\<close>

definition time_us :: "datetime \<Rightarrow> nat" where
  "time_us d = ((dt_hour d * 60 + dt_minute d) * 60 + dt_second d) * 1000000 + dt_micro d"

definition hm :: "nat \<Rightarrow> nat \<Rightarrow> nat" where
  "hm h m = (h * 60 + m) * 60 * 1000000"

definition weekday :: "datetime \<Rightarrow> nat" where
  "weekday d = (toordinal d + 6) mod 7"

definition date_key :: "datetime \<Rightarrow> nat \<times> nat \<times> nat" where
  "date_key d = (dt_year d, dt_month d, dt_day d)"

definition REGULAR_ORDER_START :: nat where "REGULAR_ORDER_START = hm 9 0"
definition REGULAR_ORDER_END :: nat where "REGULAR_ORDER_END = hm 15 20"
definition NEW_ENTRY_END :: nat where "NEW_ENTRY_END = hm 15 0"
definition FORCED_EXIT_START :: nat where "FORCED_EXIT_START = hm 15 10"

type_synonym calendar = "(datetime \<Rightarrow> bool) option"

definition is_regular_market_open :: "calendar \<Rightarrow> datetime \<Rightarrow> bool" where
  "is_regular_market_open cal v = (let now = as_kst v in
     case cal of Some open_minute \<Rightarrow> open_minute now
     | None \<Rightarrow> weekday now < 5 \<and> REGULAR_ORDER_START \<le> time_us now \<and> time_us now \<le> REGULAR_ORDER_END)"

definition exchange_calendar_available :: "calendar \<Rightarrow> bool" where
  "exchange_calendar_available cal = (cal \<noteq> None)"

definition is_new_entry_window :: "calendar \<Rightarrow> datetime \<Rightarrow> bool" where
  "is_new_entry_window cal v = (let now = as_kst v in is_regular_market_open cal now
     \<and> REGULAR_ORDER_START \<le> time_us now \<and> time_us now \<le> NEW_ENTRY_END)"

definition is_forced_exit_window :: "calendar \<Rightarrow> datetime \<Rightarrow> bool" where
  "is_forced_exit_window cal v = (let now = as_kst v in is_regular_market_open cal now
     \<and> FORCED_EXIT_START \<le> time_us now \<and> time_us now \<le> REGULAR_ORDER_END)"

definition is_previous_trading_day_position :: "datetime \<Rightarrow> datetime \<Rightarrow> bool" where
  "is_previous_trading_day_position opened_at now = (date_key (as_kst opened_at) < date_key (as_kst now))"

lemma as_kst_naive [simp]: "dt_tz (as_kst v) = None"
  by (simp add: as_kst_def)

lemma as_kst_idem [simp]: "as_kst (as_kst v) = as_kst v"
  using as_kst_naive [of v] unfolding as_kst_def [of "as_kst v"] by simp

lemma market_open_as_kst [simp]: "is_regular_market_open cal (as_kst v) = is_regular_market_open cal v"
  by (simp add: is_regular_market_open_def)

lemma as_kst_same_instant:
  "dt_tz a \<noteq> None \<Longrightarrow> dt_tz b \<noteq> None \<Longrightarrow> utc_us a = utc_us b \<Longrightarrow> as_kst a = as_kst b"
  by (auto simp: as_kst_def astimezone_kst_def)

text \<open>
  The order windows. Whatever the calendar, a moment that admits new entries is inside the
  session and before the forced-exit window, the two windows never meet, and two aware timestamps of the same
  instant, in any offsets, give the same answers.
\<close>

theorem entry_and_exit_windows:
  "(is_new_entry_window cal v \<longrightarrow> is_regular_market_open cal v \<and> \<not> is_forced_exit_window cal v)
   \<and> (is_forced_exit_window cal v \<longrightarrow> is_regular_market_open cal v)
   \<and> (dt_tz a \<noteq> None \<and> dt_tz b \<noteq> None \<and> utc_us a = utc_us b \<longrightarrow>
        is_new_entry_window cal a = is_new_entry_window cal b
        \<and> is_forced_exit_window cal a = is_forced_exit_window cal b
        \<and> is_regular_market_open cal a = is_regular_market_open cal b)"
  using as_kst_same_instant [of a b]
  by (auto simp: is_new_entry_window_def is_forced_exit_window_def is_regular_market_open_def Let_def
      NEW_ENTRY_END_def FORCED_EXIT_START_def hm_def split: option.splits)

lemma as_kst_sample_time: "as_kst sample_time = sample_time\<lparr>dt_tz := None\<rparr>"
proof -
  have "dt_tz sample_time = Some 540" by (simp add: sample_time_def)
  with of_local_us_local_us [OF valid_sample_time] show ?thesis
    by (simp add: as_kst_def astimezone_kst_def KST_def utc_us_sample_time tz_us_def local_us_sample_time)
qed

lemma sample_open: "is_regular_market_open None sample_time"
proof -
  have "days_before_month 2026 1 = 0" by (simp add: One_nat_def)
  then show ?thesis
    by (simp add: is_regular_market_open_def Let_def as_kst_sample_time)
      (simp add: sample_time_def weekday_def toordinal_def days_before_year_def REGULAR_ORDER_START_def
        REGULAR_ORDER_END_def hm_def time_us_def)
qed

theorem entry_and_exit_windows_witness:
  "is_new_entry_window None sample_time \<and> \<not> is_forced_exit_window None sample_time"
proof -
  have "is_new_entry_window None sample_time"
    unfolding is_new_entry_window_def Let_def market_open_as_kst unfolding as_kst_sample_time
    using sample_open
    by (simp add: sample_time_def REGULAR_ORDER_START_def NEW_ENTRY_END_def hm_def time_us_def)
  with entry_and_exit_windows [of None sample_time sample_time sample_time] show ?thesis by blast
qed

end
