(* ===== verification/KisOrder.thy ===== *)
theory KisOrder
  imports Storage
begin

text \<open>
  Order requests (\<open>broker/kis_order.py\<close>, \<open>broker/kis_endpoints.py\<close>): the validated request, the
  transaction id table, the body that is sent. The HTTP transport is outside the model; the
  callers take the submitter as a parameter, as the \<open>OrderSubmitter\<close> protocol does.
\<close>

datatype kis_env = ENV_DEMO | ENV_REAL

fun env_value :: "kis_env \<Rightarrow> string" where
  "env_value ENV_DEMO = ''demo''"
| "env_value ENV_REAL = ''real''"

definition parse_environment :: "string \<Rightarrow> kis_env result" where
  "parse_environment value = (let v = lower value in
     if v = ''demo'' then Inr ENV_DEMO else if v = ''real'' then Inr ENV_REAL
     else Inl (ValueError (''KIS environment must be 'demo' or 'real'' @ [CHR 0x27])))"

fun rstrip_slash :: "string \<Rightarrow> string" where
  "rstrip_slash s = rev (dropWhile (\<lambda>c. c = CHR ''/'') (rev s))"

fun base_url :: "kis_env \<Rightarrow> string" where
  "base_url ENV_REAL = ''https://openapi.koreainvestment.com:9443''"
| "base_url ENV_DEMO = ''https://openapivts.koreainvestment.com:29443''"

fun websocket_url :: "kis_env \<Rightarrow> string" where
  "websocket_url ENV_REAL = ''ws://ops.koreainvestment.com:21000''"
| "websocket_url ENV_DEMO = ''ws://ops.koreainvestment.com:31000''"

definition api_url :: "kis_env \<Rightarrow> string \<Rightarrow> string" where
  "api_url env path = rstrip_slash (base_url env) @ ''/'' @ dropWhile (\<lambda>c. c = CHR ''/'') path"

datatype kis_order_type = ORDER_LIMIT | ORDER_MARKET

record kis_request =
  kr_symbol :: string
  kr_side :: side
  kr_quantity :: int
  kr_price :: pyfloat
  kr_order_type :: kis_order_type
  kr_exchange_id :: string
  kr_sell_type :: string
  kr_condition_price :: string

definition kis_side_of :: "string \<Rightarrow> side result" where
  "kis_side_of v = (if v = ''buy'' then Inr BUY else if v = ''sell'' then Inr SELL
     else Inl (ValueError (v @ '' is not a valid KisOrderSide'')))"

definition kis_type_of :: "string \<Rightarrow> kis_order_type result" where
  "kis_type_of v = (if v = ''limit'' then Inr ORDER_LIMIT else if v = ''market'' then Inr ORDER_MARKET
     else Inl (ValueError (v @ '' is not a valid KisOrderType'')))"

definition make_kis_request ::
  "string \<Rightarrow> string \<Rightarrow> int \<Rightarrow> pyfloat \<Rightarrow> string \<Rightarrow> string \<Rightarrow> string \<Rightarrow> string \<Rightarrow> kis_request result" where
  "make_kis_request symbol sid quantity price order_type exchange_id sell_type condition_price =
     rbind (kis_side_of sid) (\<lambda>sd. rbind (kis_type_of order_type) (\<lambda>ty.
       guard_else (\<not> isdigit symbol \<or> length symbol \<noteq> 6)
         (ValueError ''symbol must be a six-digit domestic stock code'')
      (guard_else (quantity \<le> 0) (ValueError ''quantity must be a positive integer'')
      (guard_else (ty = ORDER_LIMIT \<and> fle price (Fin 0)) (ValueError ''limit orders require a positive price'')
      (guard_else (ty = ORDER_MARKET \<and> flt price (Fin 0))
         (ValueError ''market order price must be zero or positive'')
      (guard_else (exchange_id = []) (ValueError ''exchange_id is required'')
      (Inr \<lparr>kr_symbol = symbol, kr_side = sd, kr_quantity = quantity, kr_price = price, kr_order_type = ty,
            kr_exchange_id = exchange_id, kr_sell_type = sell_type, kr_condition_price = condition_price\<rparr>)))))))"

fun order_tr_id :: "kis_env \<Rightarrow> side \<Rightarrow> string" where
  "order_tr_id ENV_REAL BUY = ''TTTC0012U''"
| "order_tr_id ENV_REAL SELL = ''TTTC0011U''"
| "order_tr_id ENV_DEMO BUY = ''VTTC0012U''"
| "order_tr_id ENV_DEMO SELL = ''VTTC0011U''"

fun order_division :: "kis_order_type \<Rightarrow> string" where
  "order_division ORDER_LIMIT = ''00''"
| "order_division ORDER_MARKET = ''01''"

definition format_int :: "pyfloat \<Rightarrow> string \<Rightarrow> string result" where
  "format_int v name = rbind (py_int v) (\<lambda>n.
     guard_else (\<not> feq (Fin (of_int n)) v) (ValueError (name @ '' must be a whole number''))
       (Inr (show_int n)))"

definition build_order_body :: "string \<Rightarrow> string \<Rightarrow> kis_request \<Rightarrow> (string \<times> string) list result" where
  "build_order_body account_no product_code r =
     guard_else (\<not> isdigit account_no \<or> length account_no \<noteq> 8)
       (ValueError ''KIS account_no must be exactly eight digits'')
    (guard_else (\<not> isdigit product_code \<or> length product_code \<noteq> 2)
       (ValueError ''KIS account_product_code must be exactly two digits'')
    (rbind (format_int (if kr_order_type r = ORDER_MARKET then Fin 0 else kr_price r) ''price'') (\<lambda>price.
     Inr [(''CANO'', account_no), (''ACNT_PRDT_CD'', product_code), (''PDNO'', kr_symbol r),
          (''ORD_DVSN'', order_division (kr_order_type r)), (''ORD_QTY'', show_int (kr_quantity r)),
          (''ORD_UNPR'', price), (''EXCG_ID_DVSN_CD'', kr_exchange_id r), (''SLL_TYPE'', kr_sell_type r),
          (''CNDT_PRIC'', kr_condition_price r)])))"

section \<open>Properties\<close>

lemma int_of_show_int: "int_of_str (show_int n) = Some n" if "0 \<le> n"
  using that int_of_show_nat [of "nat n"] by (simp add: show_int_def)

lemma not_market: "ty \<noteq> ORDER_MARKET \<Longrightarrow> ty = ORDER_LIMIT"
  by (cases ty) simp_all

lemma format_int_roundtrip:
  assumes "format_int (Fin x) name = Inr s" "0 \<le> x"
  shows "\<exists>n. int_of_str s = Some n \<and> of_int n = x"
  using assms by (auto simp: format_int_def guard_else_def int_of_show_int split: if_splits
      intro!: exI [of _ "\<lfloor>x\<rfloor>"])

text \<open>
  (C30) What is sent is what was asked for. The body of a request that passes validation has exactly nine fields: the account and
  the product code of the caller, eight and two digits; the six-digit symbol; the order division, 00 for a limit and 01 for a
  market order; the exchange, the sell type and the condition price as given; and a positive quantity and a price that read
  back, as integers, exactly as the request's quantity and limit price (0 for a market order): no rounding happens on the way
  out. The four transaction ids are pairwise different, so a demo order is never sent as a real one, nor a buy as a sell.
\<close>

theorem order_body_roundtrip:
  assumes "make_kis_request s sd q p ty ex st cp = Inr r" "isfinite p"
    and "build_order_body a pc r = Inr body"
  shows "map fst body = [''CANO'', ''ACNT_PRDT_CD'', ''PDNO'', ''ORD_DVSN'', ''ORD_QTY'', ''ORD_UNPR'', ''EXCG_ID_DVSN_CD'', ''SLL_TYPE'', ''CNDT_PRIC'']
    \<and> map_of body ''CANO'' = Some a \<and> isdigit a \<and> length a = 8
    \<and> map_of body ''ACNT_PRDT_CD'' = Some pc \<and> isdigit pc \<and> length pc = 2
    \<and> map_of body ''PDNO'' = Some s \<and> isdigit s \<and> length s = 6
    \<and> ty \<in> {''limit'', ''market''} \<and> map_of body ''ORD_DVSN'' = Some (if ty = ''limit'' then ''00'' else ''01'')
    \<and> map_of body ''EXCG_ID_DVSN_CD'' = Some ex \<and> ex \<noteq> []
    \<and> map_of body ''SLL_TYPE'' = Some st \<and> map_of body ''CNDT_PRIC'' = Some cp
    \<and> 0 < q \<and> (\<exists>t. map_of body ''ORD_QTY'' = Some t \<and> int_of_str t = Some q)
    \<and> (\<exists>t n. map_of body ''ORD_UNPR'' = Some t \<and> int_of_str t = Some n
         \<and> (if kr_order_type r = ORDER_MARKET then n = 0 else Fin (of_int n) = p))
    \<and> kis_side_of sd = Inr (kr_side r) \<and> kis_type_of ty = Inr (kr_order_type r)
    \<and> (\<forall>e e' x y. order_tr_id e x = order_tr_id e' y \<longrightarrow> e = e' \<and> x = y)"
proof -
  have r: "kr_symbol r = s" "kr_quantity r = q" "kr_price r = p" "kr_exchange_id r = ex" "kr_sell_type r = st" "kr_condition_price r = cp"
      "kis_side_of sd = Inr (kr_side r)" "kis_type_of ty = Inr (kr_order_type r)"
    and ok: "isdigit s" "length s = 6" "0 < q" "ex \<noteq> []" "kr_order_type r \<noteq> ORDER_MARKET \<Longrightarrow> \<not> fle p (Fin 0)"
    using assms(1) not_market by (auto simp: make_kis_request_def result_iffs)
  have ty: "ty = ''limit'' \<and> kr_order_type r = ORDER_LIMIT \<or> ty = ''market'' \<and> kr_order_type r = ORDER_MARKET"
    using r(8) by (auto simp: kis_type_of_def split: if_splits)
  obtain x where x: "p = Fin x" using assms(2) by (cases p) auto
  from assms(3) [unfolded build_order_body_def r(1-6)] obtain t where t: "format_int (if kr_order_type r = ORDER_MARKET then Fin 0 else p) ''price'' = Inr t"
    and acc: "isdigit a" "length a = 8" "isdigit pc" "length pc = 2"
    and body: "body = [(''CANO'', a), (''ACNT_PRDT_CD'', pc), (''PDNO'', s), (''ORD_DVSN'', order_division (kr_order_type r)),
        (''ORD_QTY'', show_int q), (''ORD_UNPR'', t), (''EXCG_ID_DVSN_CD'', ex), (''SLL_TYPE'', st), (''CNDT_PRIC'', cp)]"
    by (auto simp: result_iffs)
  have "\<exists>n. int_of_str t = Some n \<and> (if kr_order_type r = ORDER_MARKET then n = 0 else Fin (of_int n) = p)"
  proof (cases "kr_order_type r = ORDER_MARKET")
    case True
    with t format_int_roundtrip [of 0 "''price''" t] show ?thesis by auto
  next
    case False
    with ok(5) x have "0 \<le> x" by simp
    with t False x format_int_roundtrip [of x "''price''" t] show ?thesis by auto
  qed
  moreover have "\<forall>e e' x y. order_tr_id e x = order_tr_id e' y \<longrightarrow> e = e' \<and> x = y"
    by (intro allI, rename_tac e e' x y, case_tac e; case_tac e'; case_tac x; case_tac y) simp_all
  ultimately show ?thesis using r(7,8) ok(1-4) acc ty int_of_show_int [of q] unfolding body by auto
qed

theorem order_body_roundtrip_witness:
  "\<exists>r body. make_kis_request ''005930'' ''buy'' 3 (Fin 70100) ''limit'' ''KRX'' [] [] = Inr r
     \<and> build_order_body ''12345678'' ''01'' r = Inr body
     \<and> (\<exists>t n. map_of body ''ORD_UNPR'' = Some t \<and> int_of_str t = Some n \<and> Fin (of_int n) = Fin 70100)"
proof -
  let ?r = "\<lparr>kr_symbol = ''005930'', kr_side = BUY, kr_quantity = 3, kr_price = Fin 70100,
    kr_order_type = ORDER_LIMIT, kr_exchange_id = ''KRX'', kr_sell_type = [], kr_condition_price = []\<rparr>"
  have r: "make_kis_request ''005930'' ''buy'' 3 (Fin 70100) ''limit'' ''KRX'' [] [] = Inr ?r"
    by (simp add: make_kis_request_def kis_side_of_def kis_type_of_def string_eval guard_else_def)
  obtain body where b: "build_order_body ''12345678'' ''01'' ?r = Inr body"
    by (simp add: build_order_body_def format_int_def string_eval guard_else_def)
  have "isfinite (Fin 70100)" by simp
  from order_body_roundtrip [OF r this b] r b show ?thesis by auto
qed

end
