(* ===== verification/SafetyGate.thy ===== *)
theory SafetyGate
  imports Approvals OrderLedger Schedule KisOrder
begin

text \<open>
  The last check before an order leaves the process (\<open>execution/guarded_submitter.py\<close>). The wrapped
  submitter is a parameter that acts on an arbitrary world \<open>'w\<close>, so that "was it called" is visible;
  other processes may write to the database between the side checks and the second read of
  the runtime controls (\<open>others\<close>). The gate is proved equivalent to a specification.
\<close>

section \<open>The gate\<close>

record guard_config =
  gc_db_path :: string
  gc_environment :: kis_env
  gc_owner :: string
  gc_lease :: string

definition SERVICE_LEASE_NAME :: string where
  "SERVICE_LEASE_NAME = ''trading-service''"

definition both_differ :: "'a option \<Rightarrow> 'a option \<Rightarrow> bool" where
  "both_differ a b = (case (a, b) of (Some x, Some y) \<Rightarrow> x \<noteq> y | _ \<Rightarrow> False)"

definition make_guard :: "string option \<Rightarrow> string option \<Rightarrow> string option \<Rightarrow> string option \<Rightarrow> string option \<Rightarrow>
  string option \<Rightarrow> string option \<Rightarrow> string \<Rightarrow> guard_config result" where
  "make_guard db_path database_path environment expected submitter_env service_owner_id owner_id lease_name =
     guard_else (both_differ db_path database_path)
       (ValueError ''db_path and database_path must identify the same database'')
     (case coalesce db_path database_path of None \<Rightarrow> Inl (ValueError ''db_path is required'')
      | Some path \<Rightarrow>
        rbind (case (environment, expected) of (Some a, Some b) \<Rightarrow>
                 rbind (parse_environment a) (\<lambda>x. rbind (parse_environment b) (\<lambda>y.
                   guard_else (x \<noteq> y) (ValueError ''environment and expected_environment must match'') (Inr ())))
               | _ \<Rightarrow> Inr ()) (\<lambda>_.
        case coalesce environment (coalesce expected submitter_env) of
          None \<Rightarrow> Inl (ValueError ''expected KIS environment is required'')
        | Some requested \<Rightarrow> rbind (parse_environment requested) (\<lambda>selected.
          rbind (case submitter_env of None \<Rightarrow> Inr ()
                 | Some a \<Rightarrow> rbind (parse_environment a) (\<lambda>actual.
                     guard_else (actual \<noteq> selected)
                       (ValueError ''guard environment must match the underlying submitter environment'') (Inr ())))
          (\<lambda>_. guard_else (both_differ service_owner_id owner_id)
                 (ValueError ''service_owner_id and owner_id must match'')
               (case coalesce service_owner_id owner_id of
                  None \<Rightarrow> Inl (ValueError ''service_owner_id is required'')
                | Some owner \<Rightarrow>
                  guard_else (strip owner = []) (ValueError ''service_owner_id is required'')
                  (guard_else (strip lease_name = []) (ValueError ''lease_name is required'')
                  (Inr \<lparr>gc_db_path = path, gc_environment = selected, gc_owner = owner,
                        gc_lease = lease_name\<rparr>)))))))"

definition is_true :: "string option \<Rightarrow> bool" where
  "is_true value = (case value of None \<Rightarrow> False
     | Some v \<Rightarrow> lower (strip v) \<in> {''1'', ''true'', ''yes'', ''on''})"

definition aware_now :: "datetime \<Rightarrow> datetime" where
  "aware_now v = (if dt_tz v = None then v\<lparr>dt_tz := Some KST\<rparr> else v)"

definition lease_belongs_to_owner :: "service_lease option \<Rightarrow> string \<Rightarrow> datetime \<Rightarrow> bool" where
  "lease_belongs_to_owner row owner_id now = (case row of None \<Rightarrow> False
     | Some r \<Rightarrow> sl_owner_id r = owner_id \<and> (case fromisoformat (sl_expires_at r) of None \<Rightarrow> False
         | Some e \<Rightarrow> utc_us now < utc_us (aware_now e)))"

fun join_comma :: "string list \<Rightarrow> string" where
  "join_comma [] = []"
| "join_comma [x] = x"
| "join_comma (x # xs) = x @ '', '' @ join_comma xs"

definition gate_error :: "string \<Rightarrow> exc" where
  "gate_error m = OrderSafetyGateError (''order blocked by safety gate: '' @ m)"

definition raised_flags :: "string list \<Rightarrow> db \<Rightarrow> string list" where
  "raised_flags keys d = filter (\<lambda>k. is_true (metadata_value d k)) keys"

definition check_runtime_state :: "guard_config \<Rightarrow> datetime \<Rightarrow> unit dbop" where
  "check_runtime_state g now d = (let control = get_runtime_control d;
       emergency_keys = raised_flags [''emergency_stop'', ''telegram.emergency_stop''] d in
     op_guard (rc_paused control) (gate_error ''runtime_paused'')
     (op_guard (rc_environment control \<noteq> env_value (gc_environment g))
        (gate_error (''runtime_environment_mismatch runtime='' @ rc_environment control
           @ '' expected='' @ env_value (gc_environment g)))
     (op_guard (emergency_keys \<noteq> []) (gate_error (''emergency_stop ('' @ join_comma emergency_keys @ '')''))
     (op_bind (get_service_lease (gc_lease g)) (\<lambda>lease.
        op_guard (\<not> lease_belongs_to_owner lease (gc_owner g) now)
          (gate_error (''service_lease_invalid lease='' @ gc_lease g @ '' owner='' @ gc_owner g))
        (op_ret ()))))) d)"

definition unresolved_buy :: "db \<Rightarrow> broker_order option" where
  "unresolved_buy d = fetchone (\<lambda>r. bo_side r = BUY \<and> bo_status r \<in> {ACKNOWLEDGED, PARTIALLY_FILLED,
     CANCEL_PENDING, UNKNOWN}) (broker_orders d)"

definition sum_open_quantity :: "string \<Rightarrow> db \<Rightarrow> int" where
  "sum_open_quantity symbol d = sum_list (map lp_quantity
     (select_where (\<lambda>p. lp_symbol p = symbol \<and> lp_status p = POS_OPEN) (live_positions d)))"

definition check_side :: "kis_request \<Rightarrow> unit dbop" where
  "check_side req d = (if kr_side req = BUY
     then (let blocked = raised_flags [''block_new_entries'', ''operator_review''] d in
       op_guard (blocked \<noteq> []) (gate_error (join_comma blocked))
       (case unresolved_buy d of None \<Rightarrow> op_ret ()
        | Some r \<Rightarrow> op_fail (gate_error (''unresolved_buy_order status='' @ status_str (bo_status r)))) d)
     else (let open_quantity = sum_open_quantity (kr_symbol req) d in
       op_guard (open_quantity \<le> 0)
         (gate_error (''sell_without_local_open_position symbol='' @ kr_symbol req))
       (op_guard (kr_quantity req > open_quantity)
         (gate_error (''sell_quantity_exceeds_local_position requested='' @ show_int (kr_quantity req)
            @ '' available='' @ show_int open_quantity @ '' symbol='' @ kr_symbol req))
       (op_ret ())) d))"

definition safety_gate ::
  "guard_config \<Rightarrow> calendar \<Rightarrow> datetime \<Rightarrow> (db \<Rightarrow> db) \<Rightarrow> kis_request \<Rightarrow> unit dbop" where
  "safety_gate g cal now others req =
     op_guard (kr_quantity req \<le> 0) (gate_error ''invalid_quantity'')
     (op_guard (upper (kr_exchange_id req) \<noteq> ''KRX'') (gate_error ''exchange_not_krx'')
     (op_bind init_schema (\<lambda>_. op_bind (check_runtime_state g now) (\<lambda>_.
      op_guard (\<not> is_regular_market_open cal now) (gate_error ''market_closed'')
      (op_bind (check_side req) (\<lambda>_. (\<lambda>d. check_runtime_state g now (others d))))))))"

definition wrap_gate_error :: "exc \<Rightarrow> exc" where
  "wrap_gate_error e = (case e of OrderSafetyGateError m \<Rightarrow> OrderSafetyGateError m
     | _ \<Rightarrow> OrderSafetyGateError (''order safety gate check failed: '' @ exc_name e @ '': '' @ exc_text e))"

definition guarded_submit ::
  "guard_config \<Rightarrow> calendar \<Rightarrow> datetime \<Rightarrow> (db \<Rightarrow> db) \<Rightarrow> (kis_request \<Rightarrow> 'w \<Rightarrow> 'r result \<times> 'w) \<Rightarrow>
   kis_request \<Rightarrow> db \<times> 'w \<Rightarrow> 'r result \<times> db \<times> 'w" where
  "guarded_submit g cal now_fn others submit req s = (case s of (d, w) \<Rightarrow>
     (case safety_gate g cal (aware_now now_fn) others req d of
        (Inl e, d') \<Rightarrow> (Inl (wrap_gate_error e), d', w)
      | (Inr _, d') \<Rightarrow> (case submit req w of (r, w') \<Rightarrow> (r, d', w'))))"

section \<open>Specification\<close>

definition flag :: "string \<Rightarrow> db \<Rightarrow> bool" where
  "flag k d = is_true (metadata_value d k)"

definition runtime_clear :: "guard_config \<Rightarrow> datetime \<Rightarrow> db \<Rightarrow> bool" where
  "runtime_clear g now d = (\<not> rc_paused (get_runtime_control d)
     \<and> rc_environment (get_runtime_control d) = env_value (gc_environment g)
     \<and> \<not> flag ''emergency_stop'' d \<and> \<not> flag ''telegram.emergency_stop'' d
     \<and> strip (gc_lease g) \<noteq> []
     \<and> lease_belongs_to_owner (fetchone (\<lambda>r. sl_lease_name r = gc_lease g) (service_leases d)) (gc_owner g) now)"

definition side_clear :: "kis_request \<Rightarrow> db \<Rightarrow> bool" where
  "side_clear req d = (case kr_side req of
      BUY \<Rightarrow> \<not> flag ''block_new_entries'' d \<and> \<not> flag ''operator_review'' d
        \<and> list_all (\<lambda>r. bo_side r = BUY \<longrightarrow> bo_status r \<in> {INTENT, SUBMITTING, FILLED, CANCELLED, REJECTED})
            (broker_orders d)
    | SELL \<Rightarrow> kr_quantity req \<le> open_qty (kr_symbol req) (live_positions d))"

definition may_submit ::
  "guard_config \<Rightarrow> calendar \<Rightarrow> datetime \<Rightarrow> (db \<Rightarrow> db) \<Rightarrow> kis_request \<Rightarrow> db \<Rightarrow> bool" where
  "may_submit g cal now others req d = (0 < kr_quantity req \<and> upper (kr_exchange_id req) = ''KRX''
     \<and> fst (init_schema d) = Inr ()
     \<and> (let d1 = snd (init_schema d) in runtime_clear g now d1 \<and> is_regular_market_open cal now
          \<and> side_clear req d1 \<and> runtime_clear g now (others d1)))"

lemma sum_open_quantity: "sum_open_quantity s d = open_qty s (live_positions d)"
proof -
  have "sum_list (map lp_quantity (filter (\<lambda>p. lp_symbol p = s \<and> lp_status p = POS_OPEN) t))
      = sum_list (map (open_part s) t)" for t
    by (induction t) (auto simp: open_part_def)
  then show ?thesis by (simp add: sum_open_quantity_def open_qty_def select_where_def)
qed

lemma is_gate_error: "\<exists>m. wrap_gate_error e = OrderSafetyGateError m"
  by (cases e) (simp_all add: wrap_gate_error_def)

lemma check_runtime_state_iff:
  "fst (check_runtime_state g now d) = Inr () \<longleftrightarrow> runtime_clear g now d"
  "snd (check_runtime_state g now d) = d"
  by (simp_all add: check_runtime_state_def Let_def op_guard_def op_bind_def op_ret_def
      get_service_lease_def require_nonempty_def raised_flags_def runtime_clear_def flag_def)

lemma check_side_iff:
  assumes "0 < kr_quantity req"
  shows "fst (check_side req d) = Inr () \<longleftrightarrow> side_clear req d"
proof -
  have "unresolved_buy d = None \<longleftrightarrow>
      list_all (\<lambda>r. bo_side r = BUY \<longrightarrow> bo_status r \<in> {INTENT, SUBMITTING, FILLED, CANCELLED, REJECTED})
        (broker_orders d)"
  proof -
    have eq: "\<not> (bo_side r = BUY \<and> bo_status r \<in> {ACKNOWLEDGED, PARTIALLY_FILLED, CANCEL_PENDING, UNKNOWN}) \<longleftrightarrow>
        (bo_side r = BUY \<longrightarrow> bo_status r \<in> {INTENT, SUBMITTING, FILLED, CANCELLED, REJECTED})" for r
      by (cases "bo_status r") simp_all
    show ?thesis unfolding unresolved_buy_def fetchone_None list_all_iff by (rule ball_cong [OF refl eq])
  qed
  with assms show ?thesis
    by (cases "kr_side req")
      (auto simp: check_side_def Let_def op_guard_def op_ret_def op_fail_def raised_flags_def side_clear_def
        flag_def sum_open_quantity split: option.splits)
qed

lemma check_side_reads: "snd (check_side req d) = d"
  by (auto simp: check_side_def Let_def op_guard_def op_ret_def op_fail_def split: option.splits)

lemma op_bind_parts:
  "op_bind m f s = (case fst (m s) of Inl e \<Rightarrow> (Inl e, snd (m s)) | Inr x \<Rightarrow> f x (snd (m s)))"
  by (simp add: op_bind_def split: prod.splits sum.splits)

lemma safety_gate_run:
  "safety_gate g cal now others req d = (let d1 = snd (init_schema d) in
     if kr_quantity req \<le> 0 then (Inl (gate_error ''invalid_quantity''), d)
     else if upper (kr_exchange_id req) \<noteq> ''KRX'' then (Inl (gate_error ''exchange_not_krx''), d)
     else case fst (init_schema d) of Inl e \<Rightarrow> (Inl e, d1)
     | Inr _ \<Rightarrow> (case fst (check_runtime_state g now d1) of Inl e \<Rightarrow> (Inl e, d1)
       | Inr _ \<Rightarrow> if \<not> is_regular_market_open cal now then (Inl (gate_error ''market_closed''), d1)
          else case fst (check_side req d1) of Inl e \<Rightarrow> (Inl e, d1)
            | Inr _ \<Rightarrow> (fst (check_runtime_state g now (others d1)), others d1)))"
proof -
  have pair: "check_runtime_state g now x = (fst (check_runtime_state g now x), x)" for x
    using check_runtime_state_iff(2) [of g now x] by (metis prod.collapse)
  show ?thesis
    unfolding safety_gate_def op_guard_def op_bind_parts Let_def check_runtime_state_iff(2) check_side_reads
    by (subst pair [of "others _"]) (rule refl)
qed

lemma safety_gate_iff:
  "fst (safety_gate g cal now others req d) = Inr () \<longleftrightarrow> may_submit g cal now others req d"
  "may_submit g cal now others req d \<Longrightarrow>
     snd (safety_gate g cal now others req d) = others (snd (init_schema d))"
proof -
  show iff: "fst (safety_gate g cal now others req d) = Inr () \<longleftrightarrow> may_submit g cal now others req d"
    unfolding safety_gate_run may_submit_def Let_def
    using check_side_iff [of req "snd (init_schema d)"]
    by (simp flip: check_runtime_state_iff(1) add: not_le split: sum.split) auto
  show "snd (safety_gate g cal now others req d) = others (snd (init_schema d))"
    if "may_submit g cal now others req d"
    using that unfolding safety_gate_run may_submit_def Let_def
    using check_side_iff [of req "snd (init_schema d)"]
    by (simp flip: check_runtime_state_iff(1) add: not_le)
qed

section \<open>Properties\<close>

lemma guarded_submit_blocked:
  assumes "\<not> may_submit g cal (aware_now now) others req d"
  shows "\<exists>m d'. guarded_submit g cal now others submit req (d, w) = (Inl (OrderSafetyGateError m), d', w)"
proof -
  obtain r d' where run: "safety_gate g cal (aware_now now) others req d = (r, d')" by fastforce
  with assms safety_gate_iff(1) [of g cal "aware_now now" others req d] obtain e where "r = Inl e"
    by (cases r) auto
  moreover obtain m where "wrap_gate_error e = OrderSafetyGateError m" using is_gate_error by blast
  ultimately show ?thesis using run by (simp add: guarded_submit_def)
qed

text \<open>
  (C1) The safety gate is exactly its specification. The wrapped submitter is called, once and with
  the request itself, precisely when the quantity is positive, the order is for KRX, trading is
  not paused, the runtime environment is the guard's, no emergency stop is set, the guard's owner
  holds an unexpired lease, the market is open, a BUY meets no entry block, review flag or
  unresolved BUY, a SELL does not exceed the local open quantity, and the runtime controls
  still hold when they are read again after whatever other processes did. In every other case the answer is an
  \<open>OrderSafetyGateError\<close> and the submitter is not called.
\<close>

theorem guarded_submit_iff_spec:
  "if may_submit g cal (aware_now now) others req d
   then guarded_submit g cal now others submit req (d, w)
      = (fst (submit req w), others (snd (init_schema d)), snd (submit req w))
   else \<exists>m d'. guarded_submit g cal now others submit req (d, w) = (Inl (OrderSafetyGateError m), d', w)"
proof (cases "may_submit g cal (aware_now now) others req d")
  case True
  moreover obtain r d' where run: "safety_gate g cal (aware_now now) others req d = (r, d')" by fastforce
  ultimately have "r = Inr ()" "d' = others (snd (init_schema d))"
    using safety_gate_iff [of g cal "aware_now now" others req d] by simp_all
  with True run show ?thesis by (simp add: guarded_submit_def split: prod.split)
next
  case False
  with guarded_submit_blocked show ?thesis by simp
qed

end
