(* ===== verification/PyDecimal.thy ===== *)
theory PyDecimal
  imports PyFloat
begin

text \<open>
  Python's \<open>decimal.Decimal\<close> in the default context: arithmetic is exact and then rounded half-even
  to 28 significant digits, comparisons and \<open>to_integral_value\<close> are exact. \<open>Decimal(str(x))\<close> of a
  float is its shortest decimal that reads back as the float. Shown: rounding changes
  nothing on values of at most 28 digits, which is how the price rules are exact.
\<close>

fun ndigits :: "nat \<Rightarrow> nat" where
  "ndigits n = (if n < 10 then 1 else Suc (ndigits (n div 10)))"

declare ndigits.simps [simp del]

definition p10 :: "int \<Rightarrow> rat" where
  "p10 k = (if 0 \<le> k then 10 ^ nat k else 1 / 10 ^ nat (- k))"

text \<open>The decimal exponent of a positive rational: \<open>p10 (ilog10 x) \<le> x\<close>, and ten times that exceeds \<open>x\<close>.\<close>

definition ilog10 :: "rat \<Rightarrow> int" where
  "ilog10 x = (if 1 \<le> x then int (ndigits (nat \<lfloor>x\<rfloor>)) - 1 else - int (ndigits (nat (\<lceil>1 / x\<rceil> - 1))))"

definition round_digits :: "nat \<Rightarrow> rat \<Rightarrow> rat" where
  "round_digits n x = (if x = 0 then 0 else let g = p10 (ilog10 \<bar>x\<bar> - int n + 1)
     in of_int (round_even (x / g)) * g)"

definition dec28 :: "rat \<Rightarrow> rat" where
  "dec28 x = round_digits 28 x"

text \<open>
  \<open>repr\<close> of a finite float: the shortest digit count for which one of the two neighbouring
  decimals reads back as the float, and of those the nearer one.
\<close>

definition repr_candidates :: "nat \<Rightarrow> rat \<Rightarrow> rat list" where
  "repr_candidates n x = (let g = p10 (ilog10 \<bar>x\<bar> - int n + 1)
     in filter (\<lambda>c. rnd64 c = x) [of_int \<lfloor>x / g\<rfloor> * g, of_int \<lceil>x / g\<rceil> * g])"

fun repr_search :: "nat \<Rightarrow> nat \<Rightarrow> rat \<Rightarrow> rat" where
  "repr_search 0 n x = x"
| "repr_search (Suc k) n x = (case repr_candidates n x of [] \<Rightarrow> repr_search k (Suc n) x
     | [c] \<Rightarrow> c | c # c' # _ \<Rightarrow> if \<bar>c - x\<bar> \<le> \<bar>c' - x\<bar> then c else c')"

definition repr_float :: "rat \<Rightarrow> rat" where
  "repr_float x = (if x = 0 then 0 else repr_search 17 1 x)"

text \<open>A number argument the price rules accept: an int, a float, or a finite Decimal.\<close>

datatype py_num = NInt int | NFloat pyfloat | NDec rat

fun decimal_of :: "py_num \<Rightarrow> rat option" where
  "decimal_of (NInt n) = Some (of_int n)"
| "decimal_of (NFloat (Fin x)) = Some (repr_float x)"
| "decimal_of (NFloat _) = None"
| "decimal_of (NDec x) = Some x"

fun num_float :: "py_num \<Rightarrow> pyfloat" where
  "num_float (NInt n) = f_int n"
| "num_float (NFloat v) = v"
| "num_float (NDec x) = fl x"

definition ddiv :: "rat \<Rightarrow> rat \<Rightarrow> rat" where "ddiv a b = dec28 (a / b)"
definition dmul :: "rat \<Rightarrow> rat \<Rightarrow> rat" where "dmul a b = dec28 (a * b)"
definition dsub :: "rat \<Rightarrow> rat \<Rightarrow> rat" where "dsub a b = dec28 (a - b)"

section \<open>Exactness\<close>

lemma p10_pos [simp]: "0 < p10 k"
  by (simp add: p10_def)

lemma p10_nonzero [simp]: "p10 k \<noteq> 0"
  by (metis less_irrefl p10_pos)

lemma p10_Suc: "p10 (k + 1) = 10 * p10 k"
proof -
  consider "0 \<le> k" | "k = - 1" | "k < - 1" by linarith
  then show ?thesis
  proof cases
    case 1
    then show ?thesis by (simp add: p10_def nat_add_distrib)
  next
    case 2
    then show ?thesis by (simp add: p10_def)
  next
    case 3
    then have "nat (- k) = Suc (nat (- (k + 1)))" by linarith
    with 3 show ?thesis by (simp add: p10_def)
  qed
qed

lemma p10_add_nat: "p10 (k + int n) = 10 ^ n * p10 k"
proof (induction n)
  case (Suc n)
  have "p10 (k + int (Suc n)) = p10 ((k + int n) + 1)" by (simp add: ac_simps)
  then show ?case by (simp only: p10_Suc Suc) simp
qed simp

lemma p10_less_iff: "p10 j < p10 k \<longleftrightarrow> j < k"
proof -
  have mono: "p10 j \<le> p10 k" if "j \<le> k" for j k
  proof -
    have "p10 k = 10 ^ nat (k - j) * p10 j" using p10_add_nat [of j "nat (k - j)"] that by simp
    then show ?thesis by (simp add: mult_le_cancel_right2 not_less)
  qed
  have "p10 j < p10 k" if "j < k" for j k
    using mono [of "j + 1" k] that p10_Suc [of j] p10_pos [of j] by linarith
  with mono show ?thesis by (metis not_le)
qed

lemma ndigits_bounds: "n \<noteq> 0 \<Longrightarrow> 10 ^ (ndigits n - 1) \<le> n \<and> n < 10 ^ ndigits n \<and> 0 < ndigits n"
proof (induction n rule: ndigits.induct)
  case (1 n)
  show ?case
  proof (cases "n < 10")
    case True
    with 1 show ?thesis by (simp add: ndigits.simps [of n])
  next
    case False
    then have "n div 10 \<noteq> 0" by simp
    with 1 False have ih: "10 ^ (ndigits (n div 10) - 1) \<le> n div 10" "n div 10 < 10 ^ ndigits (n div 10)"
      "0 < ndigits (n div 10)" by auto
    have "10 ^ ndigits (n div 10) = 10 * (10 :: nat) ^ (ndigits (n div 10) - 1)"
      using ih(3) by (cases "ndigits (n div 10)") simp_all
    with ih have "10 ^ ndigits (n div 10) \<le> n" "n < 10 * 10 ^ ndigits (n div 10)" by linarith+
    with False show ?thesis by (simp add: ndigits.simps [of n])
  qed
qed

lemma ilog10_le:
  assumes "0 < x"
  shows "p10 (ilog10 x) \<le> x"
proof (cases "1 \<le> x")
  case True
  let ?n = "nat \<lfloor>x\<rfloor>"
  have n: "?n \<noteq> 0" using True by (simp add: le_floor_iff)
  note b = ndigits_bounds [OF n]
  have "p10 (ilog10 x) = 10 ^ (ndigits ?n - 1)"
    using True b by (simp add: ilog10_def p10_def nat_diff_distrib)
  also have "\<dots> \<le> of_nat ?n" using b by (metis of_nat_le_iff of_nat_numeral of_nat_power)
  also have "\<dots> \<le> x" using True by simp
  finally show ?thesis .
next
  case False
  let ?n = "nat (\<lceil>1 / x\<rceil> - 1)"
  have "1 < 1 / x" using False assms by simp
  then have c: "1 < \<lceil>1 / x\<rceil>" by (simp add: less_ceiling_iff)
  then have n: "?n \<noteq> 0" by simp
  note b = ndigits_bounds [OF n]
  have "1 / x \<le> of_int \<lceil>1 / x\<rceil>" by simp
  also have "\<dots> = of_int (int (?n + 1))" using c by (intro arg_cong [where f = of_int]) linarith
  also have "\<dots> = of_nat (?n + 1)" by (rule of_int_of_nat_eq)
  also have "\<dots> \<le> of_nat (10 ^ ndigits ?n)" using b by (metis Suc_eq_plus1 Suc_leI of_nat_le_iff)
  finally have "1 / x \<le> 10 ^ ndigits ?n" by simp
  then have "1 / 10 ^ ndigits ?n \<le> x" using assms by (simp add: field_simps)
  then show ?thesis using False b by (simp add: ilog10_def p10_def)
qed

text \<open>A decimal of at most \<open>n\<close> digits survives rounding to \<open>n\<close> digits.\<close>

lemma round_digits_exact:
  assumes "x = of_int m * p10 (- int k)" "\<bar>m\<bar> < 10 ^ n"
  shows "round_digits n x = x"
proof (cases "x = 0")
  case False
  define e where "e = ilog10 \<bar>x\<bar>"
  define g where "g = p10 (e - int n + 1)"
  have "p10 e \<le> \<bar>x\<bar>" unfolding e_def using False by (intro ilog10_le) simp
  also have "\<dots> = of_int \<bar>m\<bar> * p10 (- int k)" using abs_of_pos [OF p10_pos, of "- int k"] by (simp add: assms(1) abs_mult)
  also have "\<dots> < of_int (10 ^ n) * p10 (- int k)"
    using assms(2) by (intro mult_strict_right_mono) (simp_all only: of_int_less_iff p10_pos)
  also have "\<dots> = p10 (- int k + int n)" unfolding p10_add_nat by simp
  finally have "e < - int k + int n" by (simp add: p10_less_iff)
  then have "- int k = (e - int n + 1) + int (nat (- int k - (e - int n + 1)))" by simp
  then obtain j where "- int k = (e - int n + 1) + int j" by blast
  then have pk: "p10 (- int k) = 10 ^ j * g" unfolding g_def by (metis p10_add_nat)
  have g0: "g \<noteq> 0" by (simp add: g_def)
  have "x / g = of_int (m * 10 ^ j)" using g0 by (simp add: assms(1) pk)
  then have "round_even (x / g) = m * 10 ^ j" by (metis round_even_of_int)
  then have "round_digits n x = of_int (m * 10 ^ j) * g"
    using False by (simp add: round_digits_def g_def e_def)
  also have "\<dots> = x" by (simp add: assms(1) pk)
  finally show ?thesis .
qed (simp add: round_digits_def)

lemma dec28_exact: "x = of_int m * p10 (- int k) \<Longrightarrow> \<bar>m\<bar> < 10 ^ 28 \<Longrightarrow> dec28 x = x"
  unfolding dec28_def by (rule round_digits_exact)

lemma dec28_of_int: "\<bar>n\<bar> < 10 ^ 28 \<Longrightarrow> dec28 (of_int n) = of_int n"
  by (rule dec28_exact [of _ n 0]) (simp_all add: p10_def)

lemma round_digits_error:
  assumes "x \<noteq> 0" "0 < n"
  shows "\<bar>round_digits n x - x\<bar> \<le> \<bar>x\<bar> * p10 (1 - int n)"
proof -
  define e g where "e = ilog10 \<bar>x\<bar>" and "g = p10 (e - int n + 1)"
  have g: "0 < g" by (simp add: g_def)
  have r: "round_digits n x = of_int (round_even (x / g)) * g"
    using assms(1) by (simp add: round_digits_def g_def e_def Let_def)
  have "\<bar>of_int (round_even (x / g)) - x / g\<bar> \<le> 1 / 2" using round_even_near [of "x / g"] by linarith
  then have "\<bar>of_int (round_even (x / g)) - x / g\<bar> * g \<le> 1 / 2 * g" using g by (intro mult_right_mono) simp_all
  moreover have "\<bar>of_int (round_even (x / g)) - x / g\<bar> * g = \<bar>round_digits n x - x\<bar>"
  proof -
    have "\<bar>of_int (round_even (x / g)) - x / g\<bar> * g = \<bar>(of_int (round_even (x / g)) - x / g) * g\<bar>"
      using g by (simp add: abs_mult)
    also have "\<dots> = \<bar>round_digits n x - x\<bar>" using g by (simp add: r left_diff_distrib)
    finally show ?thesis .
  qed
  ultimately have "\<bar>round_digits n x - x\<bar> \<le> g" using g by linarith
  moreover have "g = p10 e * p10 (1 - int n)"
  proof -
    have "e = (e - int n + 1) + int (n - 1)" using assms(2) by simp
    then have "p10 e = 10 ^ (n - 1) * g" unfolding g_def by (metis p10_add_nat)
    moreover have "p10 (1 - int n) = 1 / 10 ^ (n - 1)"
      using assms(2) by (cases "n = 1") (auto simp: p10_def nat_diff_distrib)
    ultimately show ?thesis by simp
  qed
  moreover have "p10 e * p10 (1 - int n) \<le> \<bar>x\<bar> * p10 (1 - int n)"
    unfolding e_def using assms(1) by (intro mult_right_mono ilog10_le) (simp_all add: less_imp_le)
  ultimately show ?thesis by linarith
qed

lemma dec28_le: "x \<noteq> 0 \<Longrightarrow> dec28 x \<le> x + \<bar>x\<bar> * p10 (- 27)"
  using round_digits_error [of x 28] by (simp add: dec28_def)

end
