(* ===== verification/MarketRules.thy ===== *)
theory MarketRules
  imports PyDecimal Storage
begin

text \<open>
  KRX price rules (\<open>broker/kis_market_rules.py\<close>): tick table, normalization of a limit price to the
  tick grid, validity, and the risk/reward check. Shown: normalization is the floor (buy) or ceiling
  (sell) on the grid, its result is always a valid limit price, also when it crosses into the
  next tick band, and an accepted trade has the required ratio up to the 28-digit rounding.
\<close>

definition mr_decimal :: "py_num \<Rightarrow> string \<Rightarrow> rat result" where
  "mr_decimal v name = (case decimal_of v of
      None \<Rightarrow> Inl (ValueError (name @ '' must be a finite positive number''))
    | Some x \<Rightarrow> guard_else (x \<le> 0) (ValueError (name @ '' must be a finite positive number'')) (Inr x))"

definition tick_of :: "rat \<Rightarrow> int" where
  "tick_of x = (if x < 2000 then 1 else if x < 5000 then 5 else if x < 20000 then 10
     else if x < 50000 then 50 else if x < 200000 then 100 else if x < 500000 then 500 else 1000)"

definition krx_tick_size :: "py_num \<Rightarrow> int result" where
  "krx_tick_size price = rbind (mr_decimal price ''price'') (\<lambda>x. Inr (tick_of x))"

definition normalize_krx_limit_price :: "py_num \<Rightarrow> string \<Rightarrow> int result" where
  "normalize_krx_limit_price price sid = rbind (mr_decimal price ''price'') (\<lambda>x.
     let side_value = lower sid in
     guard_else (side_value \<notin> {''buy'', ''sell'', ''b'', ''s''}) (ValueError ''side must be buy or sell'')
     (rbind (krx_tick_size (NDec x)) (\<lambda>tick.
        let q = ddiv x (of_int tick);
            n = (if side_value \<in> {''buy'', ''b''} then \<lfloor>q\<rfloor> else \<lceil>q\<rceil>);
            normalized = dmul (of_int n) (of_int tick)
        in guard_else (normalized \<le> 0) (ValueError ''normalized price must be positive'')
             (Inr \<lfloor>normalized\<rfloor>))))"

text \<open>\<open>Decimal.__mod__\<close> signals when the integer quotient needs more than 28 digits.\<close>

definition is_valid_krx_limit_price :: "py_num \<Rightarrow> bool result" where
  "is_valid_krx_limit_price price = (case mr_decimal price ''price'' of Inl _ \<Rightarrow> Inr False
     | Inr x \<Rightarrow> if of_int \<lfloor>x\<rfloor> \<noteq> x then Inr False
        else if 10 ^ 28 \<le> \<lfloor>x / of_int (tick_of x)\<rfloor>
        then Inl (BrokerError ''InvalidOperation'' ''quotient too large'')
        else Inr (\<lfloor>x\<rfloor> mod tick_of x = 0))"

definition validate_krx_limit_price :: "py_num \<Rightarrow> int result" where
  "validate_krx_limit_price price = rbind (normalize_krx_limit_price price ''buy'') (\<lambda>normalized.
     rbind (is_valid_krx_limit_price price) (\<lambda>valid. rbind (krx_tick_size price) (\<lambda>tick.
       guard_else (\<not> valid)
         (ValueError (''price is not a valid KRX tick price; expected tick='' @ show_int tick))
         (Inr normalized))))"

record risk_reward_check =
  rr_risk_per_share :: pyfloat
  rr_reward_per_share :: pyfloat
  rr_ratio :: pyfloat
  rr_stop_distance_pct :: pyfloat

definition validate_risk_reward ::
  "py_num \<Rightarrow> py_num \<Rightarrow> py_num \<Rightarrow> pyfloat \<Rightarrow> pyfloat \<Rightarrow> risk_reward_check result" where
  "validate_risk_reward entry_price take_profit_price stop_loss_price minimum_ratio minimum_stop_distance_pct =
     rbind (mr_decimal entry_price ''entry_price'') (\<lambda>entry.
     rbind (mr_decimal take_profit_price ''take_profit_price'') (\<lambda>take_profit.
     rbind (mr_decimal stop_loss_price ''stop_loss_price'') (\<lambda>stop_loss.
     guard_else (take_profit \<le> entry \<or> entry \<le> stop_loss)
       (ValueError ''long trade prices must satisfy stop_loss < entry < take_profit'')
     (case (minimum_ratio, minimum_stop_distance_pct) of
        (Fin mr, Fin ms) \<Rightarrow>
          guard_else (mr \<le> 0) (ValueError ''minimum_ratio must be positive'')
          (guard_else (ms < 0) (ValueError ''minimum_stop_distance_pct must be non-negative'')
          (let risk = dsub entry stop_loss; reward = dsub take_profit entry; ratio = ddiv reward risk;
               stop_distance_pct = ddiv risk entry in
           guard_else (stop_distance_pct < repr_float ms) (ValueError ''stop-loss distance is below the minimum'')
           (guard_else (ratio < repr_float mr) (ValueError ''risk-reward ratio is below the minimum'')
           (Inr \<lparr>rr_risk_per_share = fl risk, rr_reward_per_share = fl reward, rr_ratio = fl ratio,
                 rr_stop_distance_pct = fl stop_distance_pct\<rparr>))))
      | (Fin mr, _) \<Rightarrow> guard_else (mr \<le> 0) (ValueError ''minimum_ratio must be positive'')
          (Inl (ValueError ''minimum_stop_distance_pct must be non-negative''))
      | _ \<Rightarrow> Inl (ValueError ''minimum_ratio must be positive'')))))"

definition is_valid_risk_reward :: "py_num \<Rightarrow> py_num \<Rightarrow> py_num \<Rightarrow> pyfloat \<Rightarrow> pyfloat \<Rightarrow> bool" where
  "is_valid_risk_reward entry take_profit stop_loss minimum_ratio minimum_stop_distance_pct =
     (case validate_risk_reward entry take_profit stop_loss minimum_ratio minimum_stop_distance_pct of
        Inl _ \<Rightarrow> False | Inr _ \<Rightarrow> True)"

section \<open>The tick grid\<close>

lemma tick_of_pos: "0 < tick_of x"
  by (simp add: tick_of_def)

lemma tick_of_cases: "tick_of x \<in> {1, 5, 10, 50, 100, 500, 1000}"
  by (simp add: tick_of_def)

text \<open>A short decimal divided by a tick is a short decimal.\<close>

lemma tick_quotient:
  assumes "x = of_int m * p10 (- int k)"
  shows "\<exists>c. x / of_int (tick_of y) = of_int (m * c) * p10 (- int (k + 3)) \<and> 1 \<le> c \<and> c \<le> 1000"
proof -
  have p: "p10 (- int k) = 1000 * p10 (- int (k + 3))"
  proof -
    have e: "- int k = - int (k + 3) + int 3" by simp
    show ?thesis by (subst e, subst p10_add_nat) simp
  qed
  define c where "c = 1000 div tick_of y"
  have c: "1000 = tick_of y * c" "1 \<le> c" "c \<le> 1000" "0 < tick_of y"
    using tick_of_cases [of y] by (auto simp: c_def)
  have e: "(1000 :: rat) = of_int (tick_of y) * of_int c" using c(1) by (metis of_int_mult of_int_numeral)
  have "x / of_int (tick_of y) = of_int (m * c) * p10 (- int (k + 3))"
    unfolding assms p e using c(4) by simp
  with c show ?thesis by blast
qed

lemma ddiv_tick_exact:
  assumes "x = of_int m * p10 (- int k)" "\<bar>m\<bar> < 10 ^ 24"
  shows "ddiv x (of_int (tick_of y)) = x / of_int (tick_of y)"
proof -
  obtain c where c: "x / of_int (tick_of y) = of_int (m * c) * p10 (- int (k + 3))" "1 \<le> c" "c \<le> 1000"
    using tick_quotient [OF assms(1)] by blast
  have "\<bar>m * c\<bar> \<le> \<bar>m\<bar> * 1000" using c by (simp add: abs_mult mult_left_mono)
  also have "\<dots> < 10 ^ 28" using assms(2) by simp
  finally show ?thesis unfolding ddiv_def using c(1) by (intro dec28_exact [of _ "m * c" "k + 3"]) simp_all
qed

definition on_grid :: "int \<Rightarrow> bool" where
  "on_grid p = (0 < p \<and> p mod tick_of (of_int p) = 0)"

text \<open>Rounding down stays in the band of \<open>x\<close>; rounding up stays in it or lands on the next band's first price.\<close>

lemma floor_on_grid:
  assumes "1 \<le> x"
  shows "on_grid (\<lfloor>x / of_int (tick_of x)\<rfloor> * tick_of x)"
proof -
  define n where "n = \<lfloor>x / of_int (tick_of x)\<rfloor>"
  have le: "of_int n \<le> x / of_int (tick_of x)" "x / of_int (tick_of x) < of_int n + 1" using floor_correct by (auto simp: n_def)
  show ?thesis
    using assms le unfolding n_def [symmetric] on_grid_def tick_of_def [of x]
    by (auto simp: tick_of_def field_simps split: if_splits)
qed

lemma ceiling_in_band:
  fixes x :: rat and n t u :: int
  assumes "x < of_int (u * t)" "of_int n - 1 < x / of_int t" "0 < t"
  shows "n \<le> u"
proof -
  have "x / of_int t < of_int u" using assms(1,3) by (simp add: divide_less_eq)
  with assms(2) have "of_int n < (of_int (u + 1) :: rat)" by simp
  then show ?thesis by (simp only: of_int_less_iff)
qed

lemma ceiling_on_grid:
  assumes "0 < x"
  shows "on_grid (\<lceil>x / of_int (tick_of x)\<rceil> * tick_of x)"
proof -
  define n where "n = \<lceil>x / of_int (tick_of x)\<rceil>"
  have lo: "x \<le> of_int (n * tick_of x)"
    using tick_of_pos [of x] le_of_int_ceiling [of "x / of_int (tick_of x)"]
    by (simp add: n_def pos_divide_le_eq del: le_of_int_ceiling)
  have hi: "of_int n - 1 < x / of_int (tick_of x)" unfolding n_def by linarith
  note up = ceiling_in_band [OF _ hi tick_of_pos]
  have "0 < n * tick_of x" using assms lo by (metis less_le_trans of_int_0_less_iff)
  moreover have "n * tick_of x mod tick_of (of_int (n * tick_of x)) = 0"
  proof -
    consider "x < 2000" | "2000 \<le> x" "x < 5000" | "5000 \<le> x" "x < 20000" | "20000 \<le> x" "x < 50000"
      | "50000 \<le> x" "x < 200000" | "200000 \<le> x" "x < 500000" | "500000 \<le> x" by linarith
    then show ?thesis
    proof cases
      case 1
      then have t: "tick_of x = 1" by (simp add: tick_of_def)
      from up [of 2000] 1 have "n \<le> 2000" by (simp add: t)
      then show ?thesis unfolding t by (cases "n = 2000") (simp_all add: tick_of_def)
    next
      case 2
      then have t: "tick_of x = 5" by (simp add: tick_of_def)
      from up [of 1000] 2 have "n \<le> 1000" by (simp add: t)
      moreover have "400 \<le> n" using lo 2 unfolding t by linarith
      ultimately show ?thesis unfolding t by (cases "n = 1000") (simp_all add: tick_of_def)
    next
      case 3
      then have t: "tick_of x = 10" by (simp add: tick_of_def)
      from up [of 2000] 3 have "n \<le> 2000" by (simp add: t)
      moreover have "500 \<le> n" using lo 3 unfolding t by linarith
      ultimately show ?thesis unfolding t by (cases "n = 2000") (simp_all add: tick_of_def)
    next
      case 4
      then have t: "tick_of x = 50" by (simp add: tick_of_def)
      from up [of 1000] 4 have "n \<le> 1000" by (simp add: t)
      moreover have "400 \<le> n" using lo 4 unfolding t by linarith
      ultimately show ?thesis unfolding t by (cases "n = 1000") (simp_all add: tick_of_def)
    next
      case 5
      then have t: "tick_of x = 100" by (simp add: tick_of_def)
      from up [of 2000] 5 have "n \<le> 2000" by (simp add: t)
      moreover have "500 \<le> n" using lo 5 unfolding t by linarith
      ultimately show ?thesis unfolding t by (cases "n = 2000") (simp_all add: tick_of_def)
    next
      case 6
      then have t: "tick_of x = 500" by (simp add: tick_of_def)
      from up [of 1000] 6 have "n \<le> 1000" by (simp add: t)
      moreover have "400 \<le> n" using lo 6 unfolding t by linarith
      ultimately show ?thesis unfolding t by (cases "n = 1000") (simp_all add: tick_of_def)
    next
      case 7
      then have t: "tick_of x = 1000" by (simp add: tick_of_def)
      have "500 \<le> n" using lo 7 unfolding t by linarith
      then show ?thesis unfolding t by (simp add: tick_of_def)
    qed
  qed
  ultimately show ?thesis unfolding n_def on_grid_def by blast
qed

lemma on_grid_valid:
  assumes "on_grid p" "p < 10 ^ 28"
  shows "is_valid_krx_limit_price (NInt p) = Inr True"
proof -
  have t: "0 < tick_of (of_int p)" by (rule tick_of_pos)
  have "\<lfloor>of_int p / of_int (tick_of (of_int p)) :: rat\<rfloor> = p div tick_of (of_int p)"
    by (rule floor_divide_of_int_eq)
  also have "\<dots> \<le> p" using assms(1) t zdiv_mono2 [of p 1 "tick_of (of_int p)"] by (simp add: on_grid_def)
  finally have "\<not> 10 ^ 28 \<le> \<lfloor>of_int p / of_int (tick_of (of_int p)) :: rat\<rfloor>" using assms(2) by linarith
  then show ?thesis using assms
    by (simp add: is_valid_krx_limit_price_def mr_decimal_def guard_else_def on_grid_def)
qed

lemma normalize_short:
  assumes d: "decimal_of v = Some x" "x = of_int m * p10 (- int k)" "\<bar>m\<bar> < 10 ^ 24" "1 \<le> x" "x < 10 ^ 24"
    and s: "lower sid \<in> {''buy'', ''sell'', ''b'', ''s''}"
  shows "normalize_krx_limit_price v sid = Inr ((if lower sid \<in> {''buy'', ''b''}
      then \<lfloor>x / of_int (tick_of x)\<rfloor> else \<lceil>x / of_int (tick_of x)\<rceil>) * tick_of x)"
proof -
  let ?t = "tick_of x"
  define n where "n = (if lower sid \<in> {''buy'', ''b''} then \<lfloor>x / of_int ?t\<rfloor> else \<lceil>x / of_int ?t\<rceil>)"
  have x0: "0 < x" using d(4) by simp
  have pos: "0 < n * ?t"
    using floor_on_grid [OF d(4)] ceiling_on_grid [OF x0] by (auto simp: n_def on_grid_def)
  have n1: "of_int n < x / of_int ?t + 1"
    unfolding n_def by (cases "lower sid \<in> {''buy'', ''b''}"; simp; linarith)
  have "x / of_int ?t \<le> x" using x0 tick_of_pos [of x] by (simp add: field_simps)
  then have "of_int n < (10 :: rat) ^ 24 + 1" using n1 d(5) by linarith
  then have "(of_int n :: rat) < of_int (10 ^ 24 + 1)" by simp
  then have nb: "n < 10 ^ 24 + 1" by (simp only: of_int_less_iff)
  have "n * ?t \<le> n * 1000"
  proof (rule mult_left_mono)
    show "?t \<le> 1000" using tick_of_cases [of x] by auto
    show "0 \<le> n" using pos tick_of_pos [of x] by (simp add: zero_less_mult_iff)
  qed
  then have "\<bar>n * ?t\<bar> < 10 ^ 28" using nb pos by simp
  then have ex: "dmul (of_int n) (of_int ?t) = of_int (n * ?t)"
    unfolding dmul_def by (metis dec28_of_int of_int_mult)
  have q: "ddiv x (of_int ?t) = x / of_int ?t" by (rule ddiv_tick_exact [OF d(2,3)])
  have "normalize_krx_limit_price v sid = (let normalized = dmul (of_int n) (of_int ?t)
      in guard_else (normalized \<le> 0) (ValueError ''normalized price must be positive'') (Inr \<lfloor>normalized\<rfloor>))"
    using s x0 d(1) unfolding n_def
    by (auto simp: normalize_krx_limit_price_def mr_decimal_def krx_tick_size_def Let_def q guard_else_def)
  also have "\<dots> = Inr (n * ?t)" using pos by (simp add: ex guard_else_def Let_def not_le flip: of_int_mult)
  finally show ?thesis by (simp add: n_def)
qed

section \<open>Properties\<close>

text \<open>
  (C29) Normalizing a limit price of at most 24 digits (every float has at most 17): a buy is
  rounded down and a sell up, by less than one tick, onto the tick grid, and the result is itself
  a valid limit price of KRX, although a sell may be pushed into the next tick band.
\<close>

theorem normalize_on_tick_grid:
  assumes "decimal_of v = Some x" "x = of_int m * p10 (- int k)" "\<bar>m\<bar> < 10 ^ 24" "1 \<le> x" "x < 10 ^ 24"
    and "lower sid \<in> {''buy'', ''sell'', ''b'', ''s''}"
  shows "\<exists>p. normalize_krx_limit_price v sid = Inr p \<and> is_valid_krx_limit_price (NInt p) = Inr True
    \<and> p mod tick_of x = 0
    \<and> (if lower sid \<in> {''buy'', ''b''} then of_int p \<le> x \<and> x < of_int (p + tick_of x)
        else x \<le> of_int p \<and> of_int (p - tick_of x) < x)"
proof -
  let ?t = "tick_of x"
  define n where "n = (if lower sid \<in> {''buy'', ''b''} then \<lfloor>x / of_int ?t\<rfloor> else \<lceil>x / of_int ?t\<rceil>)"
  have run: "normalize_krx_limit_price v sid = Inr (n * ?t)"
    unfolding n_def by (rule normalize_short [OF assms])
  have grid: "on_grid (n * ?t)"
    using floor_on_grid [OF assms(4)] ceiling_on_grid [of x] assms(4) by (simp add: n_def)
  have t: "(0 :: rat) < of_int ?t" "(of_int ?t :: rat) \<le> 1000" using tick_of_pos [of x] tick_of_cases [of x] by auto
  have fl: "of_int \<lfloor>x / of_int ?t\<rfloor> * of_int ?t \<le> x" "x < (of_int \<lfloor>x / of_int ?t\<rfloor> + 1) * of_int ?t"
    by (simp_all only: flip: pos_le_divide_eq [OF t(1)] pos_divide_less_eq [OF t(1)]) linarith+
  have ce: "x \<le> of_int \<lceil>x / of_int ?t\<rceil> * of_int ?t" "(of_int \<lceil>x / of_int ?t\<rceil> - 1) * of_int ?t < x"
    by (simp_all only: flip: pos_divide_le_eq [OF t(1)] pos_less_divide_eq [OF t(1)]) linarith+
  have near: "if lower sid \<in> {''buy'', ''b''} then of_int (n * ?t) \<le> x \<and> x < of_int (n * ?t + ?t)
        else x \<le> of_int (n * ?t) \<and> of_int (n * ?t - ?t) < x"
    using fl ce by (simp add: n_def algebra_simps)
  have "of_int (n * ?t) < x + of_int ?t" using near t(1) by (auto split: if_splits)
  then have "of_int (n * ?t) < (10 :: rat) ^ 24 + 1000"
    using assms(5) t(2) by linarith
  then have "(of_int (n * ?t) :: rat) < of_int (10 ^ 28)" by simp
  then have "n * ?t < 10 ^ 28" by (simp only: of_int_less_iff)
  from on_grid_valid [OF grid this] run near show ?thesis by (intro exI [of _ "n * ?t"]) simp
qed

theorem normalize_on_tick_grid_witness:
  "\<exists>p. normalize_krx_limit_price (NInt 4998) ''sell'' = Inr p \<and> is_valid_krx_limit_price (NInt p) = Inr True
     \<and> 4998 \<le> p \<and> p < 5003"
proof -
  have s: "lower ''sell'' = ''sell''" by code_simp
  have t: "tick_of 4998 = 5" by (simp add: tick_of_def)
  have "(4998 :: rat) = of_int 4998 * p10 (- int 0)" by (simp add: p10_def)
  from normalize_on_tick_grid [OF _ this, of "NInt 4998" "''sell''"]
  obtain p where "normalize_krx_limit_price (NInt 4998) ''sell'' = Inr p"
    "is_valid_krx_limit_price (NInt p) = Inr True" "(4998 :: rat) \<le> of_int p" "of_int (p - 5) < (4998 :: rat)"
    by (auto simp: s t)
  then show ?thesis by (intro exI [of _ p]) simp
qed

text \<open>
  A long trade that passes the risk/reward check has its prices in order, a stop at least the
  minimum distance away and a reward at least the minimum multiple of the risk, the latter two up to
  one unit in the 28th digit, the precision of the quotients; prices are decimals of at most 27 digits.
\<close>

theorem risk_reward_accepted:
  assumes "validate_risk_reward (NDec e) (NDec tp) (NDec sl) (Fin mr) (Fin ms) = Inr r"
    and "e = of_int a * p10 (- int k)" "tp = of_int b * p10 (- int k)" "sl = of_int c * p10 (- int k)"
    and "\<bar>a\<bar> < 10 ^ 27" "\<bar>b\<bar> < 10 ^ 27" "\<bar>c\<bar> < 10 ^ 27"
  shows "sl < e \<and> e < tp
    \<and> repr_float mr * (e - sl) \<le> (tp - e) * (1 + p10 (- 27))
    \<and> repr_float ms * e \<le> (e - sl) * (1 + p10 (- 27))"
proof -
  have exact: "dsub (of_int i * p10 (- int k)) (of_int j * p10 (- int k))
      = of_int i * p10 (- int k) - of_int j * p10 (- int k)" if "\<bar>i\<bar> < 10 ^ 27" "\<bar>j\<bar> < 10 ^ 27" for i j
  proof -
    have "\<bar>i - j\<bar> < 10 ^ 28" using that by simp
    then show ?thesis unfolding dsub_def
      by (intro dec28_exact [of _ "i - j" k]) (simp_all add: left_diff_distrib)
  qed
  have risk: "dsub e sl = e - sl" and reward: "dsub tp e = tp - e"
    using exact [OF assms(5,7)] exact [OF assms(6,5)] by (simp_all add: assms(2-4))
  have ord: "0 < e" "sl < e" "e < tp"
    and dist: "repr_float ms \<le> ddiv (e - sl) e" and ratio: "repr_float mr \<le> ddiv (tp - e) (e - sl)"
    using assms(1)
    by (auto simp: validate_risk_reward_def mr_decimal_def result_iffs Let_def risk reward not_le not_less)
  have up: "ddiv p q * q \<le> p * (1 + p10 (- 27))" if "0 < p" "0 < q" for p q
  proof -
    have "dec28 (p / q) \<le> p / q * (1 + p10 (- 27))"
      using dec28_le [of "p / q"] that by (simp add: distrib_left)
    then have "dec28 (p / q) * q \<le> p / q * (1 + p10 (- 27)) * q" using that by (intro mult_right_mono) simp_all
    then show ?thesis using that by (simp add: ddiv_def)
  qed
  have "repr_float mr * (e - sl) \<le> ddiv (tp - e) (e - sl) * (e - sl)"
    "repr_float ms * e \<le> ddiv (e - sl) e * e"
    using ord ratio dist by (simp_all add: mult_right_mono)
  with up [of "tp - e" "e - sl"] up [of "e - sl" e] ord show ?thesis by (meson diff_gt_0_iff_gt order_trans)
qed

theorem risk_reward_accepted_witness:
  "\<exists>r. validate_risk_reward (NDec 10000) (NDec 10400) (NDec 9800) (Fin 1) (Fin 0) = Inr r
     \<and> repr_float 1 * (10000 - 9800) \<le> (10400 - 10000) * (1 + p10 (- 27))"
proof -
  have one: "repr_float 1 = 1"
  proof -
    have "ilog10 1 = 0" by (simp add: ilog10_def ndigits.simps)
    then have "repr_candidates 1 1 = [1, 1]"
      using rnd64_of_int [of 1] by (simp add: repr_candidates_def p10_def)
    then show ?thesis by (simp add: repr_float_def numeral_eq_Suc)
  qed
  have short: "dec28 (of_int m * p10 (- int k)) = of_int m * p10 (- int k)" if "\<bar>m\<bar> < 10 ^ 28" for m k
    using that by (intro dec28_exact [of _ m k]) simp_all
  have ints: "dec28 200 = 200" "dec28 400 = 400" "dec28 2 = 2"
    using short [of 200 0] short [of 400 0] short [of 2 0] by (simp_all add: p10_def)
  have "dec28 (1 / 50) = 1 / 50" using short [of 2 2] by (simp add: p10_def)
  with ints obtain r where run:
    "validate_risk_reward (NDec 10000) (NDec 10400) (NDec 9800) (Fin 1) (Fin 0) = Inr r"
    by (simp add: validate_risk_reward_def mr_decimal_def guard_else_def Let_def dsub_def ddiv_def one
        repr_float_def [of 0])
  have "repr_float 1 * (10000 - 9800) \<le> (10400 - 10000) * (1 + p10 (- 27))"
    using risk_reward_accepted [OF run, of 10000 0 10400 9800] by (simp add: p10_def)
  with run show ?thesis by blast
qed

end
