(* ===== verification/ExitPolicy.thy ===== *)
theory ExitPolicy
  imports MarketRules Schedule
begin

text \<open>
  The exit policy (\<open>execution/exit_policy.py\<close>): protective SELL orders as limit intents, their
  price plan, and the lifecycle of one order and its replacement chain. Every
  \<open>dataclasses.replace\<close> re-runs the constructor checks, so each transition may raise. The theory
  proves the price bounds of the plan, that quantities always reconcile, that a replacement
  needs a broker-confirmed cancel or reject, and that a chain creates at most
  \<open>max_requotes\<close> replacements, none larger than the original order.
\<close>

section \<open>Data\<close>

datatype exit_state = Ex_SUBMITTED | Ex_STALE | Ex_CANCEL_PENDING | Ex_CANCELLED | Ex_REJECTED | Ex_FILLED
  | Ex_UNKNOWN | Ex_OPERATOR_REVIEW | Ex_REPLACEMENT_INTENT_CREATED

definition TERMINAL_STATES :: "exit_state list" where
  "TERMINAL_STATES = [Ex_CANCELLED, Ex_REJECTED, Ex_FILLED]"

definition ep_decimal :: "py_num \<Rightarrow> string \<Rightarrow> bool \<Rightarrow> rat result" where
  "ep_decimal v name positive = (case decimal_of v of
      None \<Rightarrow> Inl (ExitPolicyError (name @ '' must be a finite '' @ (if positive then ''positive'' else ''non-negative'') @ '' number''))
    | Some x \<Rightarrow> guard_else (if positive then x \<le> 0 else x < 0)
        (ExitPolicyError (name @ '' must be a finite '' @ (if positive then ''positive'' else ''non-negative'') @ '' number''))
        (Inr x))"

definition whole_positive :: "int \<Rightarrow> string \<Rightarrow> int result" where
  "whole_positive v name = guard_else (v \<le> 0) (ExitPolicyError (name @ '' must be a positive integer'')) (Inr v)"

definition ep_symbol :: "string \<Rightarrow> string result" where
  "ep_symbol v = (let s = strip v in guard_else (length s \<noteq> 6 \<or> \<not> isdigit s)
     (ExitPolicyError ''symbol must be a six-digit domestic stock code'') (Inr s))"

definition tick_floor :: "rat \<Rightarrow> (rat \<Rightarrow> int result) \<Rightarrow> (int \<times> int) result" where
  "tick_floor price tick_size_fn = (case tick_size_fn price of
      Inl _ \<Rightarrow> Inl (ExitPolicyError ''KRX tick rule failed'')
    | Inr tick \<Rightarrow> guard_else (tick \<le> 0) (ExitPolicyError ''KRX tick rule returned an invalid tick'')
        (let normalized = dmul (of_int \<lfloor>ddiv price (of_int tick)\<rfloor>) (of_int tick) in
         guard_else (normalized \<le> 0 \<or> normalized \<noteq> of_int \<lfloor>normalized\<rfloor>)
           (ExitPolicyError ''normalized SELL price is invalid'') (Inr (\<lfloor>normalized\<rfloor>, tick))))"

definition validate_order_type :: "string \<Rightarrow> bool \<Rightarrow> string result" where
  "validate_order_type order_type allow_market_order = (let normalized = upper (strip order_type) in
     if normalized = ''LIMIT'' then Inr normalized
     else if normalized = ''MARKET'' \<and> allow_market_order then Inr normalized
     else if normalized = ''MARKET'' then Inl (ExitPolicyError ''market orders are disabled by exit policy'')
     else Inl (ExitPolicyError ''exit order type must be LIMIT''))"

record exit_config =
  ec_max_slippage_bps :: pyfloat
  ec_max_requotes :: int
  ec_requote_interval_seconds :: pyfloat
  ec_close_urgency_seconds :: pyfloat
  ec_min_quantity :: int
  ec_max_quantity :: int
  ec_allow_market_order :: bool

definition check_exit_config :: "exit_config \<Rightarrow> exit_config result" where
  "check_exit_config c =
     rbind (ep_decimal (NFloat (ec_max_slippage_bps c)) ''max_slippage_bps'' False) (\<lambda>slippage.
     guard_else (10000 \<le> slippage) (ExitPolicyError ''max_slippage_bps must be below 10000'')
     (guard_else (ec_max_requotes c < 0) (ExitPolicyError ''max_requotes must be a non-negative integer'')
     (rbind (ep_decimal (NFloat (ec_requote_interval_seconds c)) ''requote_interval_seconds'' False) (\<lambda>interval.
      guard_else (interval \<le> 0) (ExitPolicyError ''requote_interval_seconds must be positive'')
      (rbind (ep_decimal (NFloat (ec_close_urgency_seconds c)) ''close_urgency_seconds'' False) (\<lambda>_.
       guard_else (ec_min_quantity c \<le> 0) (ExitPolicyError ''min_quantity must be a positive integer'')
       (guard_else (ec_max_quantity c < ec_min_quantity c)
          (ExitPolicyError ''max_quantity must be at least min_quantity'') (Inr c))))))))"

record exit_quote =
  eq_bid :: "py_num option"
  eq_ask :: "py_num option"
  eq_current_price :: "py_num option"

record sell_plan =
  sp_price :: int
  sp_tick_size :: int
  sp_slippage_bps :: pyfloat
  sp_source :: string
  sp_urgent :: bool

record sell_intent =
  si_symbol :: string
  si_quantity :: int
  si_price :: int
  si_reason :: string
  si_requote_count :: int
  si_replacement_of :: "string option"
  si_urgent :: bool

definition make_sell_intent :: "sell_intent \<Rightarrow> sell_intent result" where
  "make_sell_intent i = rbind (ep_symbol (si_symbol i)) (\<lambda>s.
     guard_else (s \<noteq> si_symbol i) (ExitPolicyError ''symbol must be a six-digit domestic stock code'')
     (rbind (whole_positive (si_quantity i) ''quantity'') (\<lambda>_.
      rbind (whole_positive (si_price i) ''price'') (\<lambda>_.
      guard_else (si_requote_count i < 0) (ExitPolicyError ''requote_count must be a non-negative integer'')
        (Inr i)))))"

text \<open>A moment is a datetime or a number of seconds; anything else is not accepted by \<open>float()\<close>.\<close>

datatype moment = M_DATE datetime | M_SECONDS pyfloat

record lifecycle =
  lc_order_id :: string
  lc_symbol :: string
  lc_requested :: int
  lc_state :: exit_state
  lc_filled :: int
  lc_remaining :: int
  lc_requotes :: int
  lc_last_intent_at :: "moment option"

definition check_lifecycle :: "lifecycle \<Rightarrow> lifecycle result" where
  "check_lifecycle l =
     guard_else (strip (lc_order_id l) = []) (ExitPolicyError ''order_id is required'')
     (rbind (ep_symbol (lc_symbol l)) (\<lambda>_.
      rbind (whole_positive (lc_requested l) ''requested_quantity'') (\<lambda>_.
      guard_else (lc_filled l < 0) (ExitPolicyError ''filled_quantity must be a non-negative integer'')
      (guard_else (lc_remaining l < 0) (ExitPolicyError ''remaining_quantity must be a non-negative integer'')
      (guard_else (lc_filled l + lc_remaining l \<noteq> lc_requested l)
         (ExitPolicyError ''filled and remaining quantities must reconcile'')
      (guard_else (lc_requotes l < 0) (ExitPolicyError ''requote_count must be a non-negative integer'')
        (Inr l)))))))"

record exit_transition =
  et_lifecycle :: lifecycle
  et_action :: string
  et_reason :: string
  et_intent :: "sell_intent option"
  et_review :: bool

definition stay :: "lifecycle \<Rightarrow> string \<Rightarrow> string \<Rightarrow> bool \<Rightarrow> exit_transition result" where
  "stay l action reason review = Inr \<lparr>et_lifecycle = l, et_action = action, et_reason = reason,
     et_intent = None, et_review = review\<rparr>"

definition move :: "lifecycle \<Rightarrow> string \<Rightarrow> string \<Rightarrow> bool \<Rightarrow> exit_transition result" where
  "move l action reason review = rbind (check_lifecycle l) (\<lambda>l'. stay l' action reason review)"

section \<open>Lifecycle\<close>

definition mark_stale :: "lifecycle \<Rightarrow> exit_transition result" where
  "mark_stale l =
     (if lc_state l = Ex_UNKNOWN \<or> lc_state l = Ex_OPERATOR_REVIEW
      then stay l ''OPERATOR_REVIEW'' ''unknown_order_no_action'' True
      else if lc_state l = Ex_CANCEL_PENDING then stay l ''WAIT'' ''cancel_pending_no_duplicate_cancel'' False
      else if lc_state l \<in> set TERMINAL_STATES then stay l ''WAIT'' ''terminal_order_no_action'' False
      else if lc_state l = Ex_STALE then stay l ''WAIT'' ''stale_cancel_not_yet_requested'' False
      else move (l\<lparr>lc_state := Ex_STALE\<rparr>) ''CANCEL_REQUIRED'' ''stale_sell'' False)"

definition mark_cancel_pending :: "lifecycle \<Rightarrow> exit_transition result" where
  "mark_cancel_pending l =
     (if lc_state l = Ex_CANCEL_PENDING then stay l ''WAIT'' ''cancel_pending_no_duplicate_cancel'' False
      else if lc_state l \<noteq> Ex_STALE then stay l ''OPERATOR_REVIEW'' ''cancel_requires_stale_state'' True
      else move (l\<lparr>lc_state := Ex_CANCEL_PENDING\<rparr>) ''CANCEL'' ''cancel_requested'' False)"

text \<open>The quantities a broker status implies, the missing one being derived from the request.\<close>

definition broker_quantities :: "lifecycle \<Rightarrow> int option \<Rightarrow> int option \<Rightarrow> int \<times> int \<Rightarrow> int \<times> int" where
  "broker_quantities l filled remaining dflt = (case (filled, remaining) of
      (None, None) \<Rightarrow> dflt
    | (None, Some r) \<Rightarrow> (lc_requested l - r, r)
    | (Some f, None) \<Rightarrow> (f, lc_requested l - f)
    | (Some f, Some r) \<Rightarrow> (f, r))"

definition to_unknown :: "lifecycle \<Rightarrow> string \<Rightarrow> exit_transition result" where
  "to_unknown l reason = move (l\<lparr>lc_state := Ex_UNKNOWN\<rparr>) ''OPERATOR_REVIEW'' reason True"

definition observe_broker_status :: "lifecycle \<Rightarrow> string \<Rightarrow> int option \<Rightarrow> int option \<Rightarrow> exit_transition result" where
  "observe_broker_status l status filled_quantity remaining_quantity = (let normalized = upper (strip status) in
     if normalized \<in> {''TIMEOUT'', ''UNKNOWN'', ''ERROR'', ''UNAVAILABLE''} then to_unknown l ''broker_status_unknown''
     else if normalized \<in> {''UNFILLED'', ''PARTIALLY_FILLED'', ''ACKNOWLEDGED'', ''CANCEL_PENDING''}
     then (if filled_quantity = None \<and> remaining_quantity = None
           then stay l ''WAIT'' ''terminal_confirmation_required'' False
           else let (filled, remaining) = broker_quantities l filled_quantity remaining_quantity (0, 0) in
             if filled < 0 \<or> remaining < 0 \<or> filled + remaining \<noteq> lc_requested l
             then to_unknown l ''broker_quantity_mismatch''
             else move (l\<lparr>lc_filled := filled, lc_remaining := remaining\<rparr>) ''WAIT'' ''terminal_confirmation_required'' False)
     else if normalized \<notin> {''CANCELLED'', ''REJECTED'', ''FILLED''} then to_unknown l ''unrecognized_broker_status''
     else let (filled, remaining) = broker_quantities l filled_quantity remaining_quantity
                (if normalized = ''FILLED'' then (lc_requested l, 0) else (lc_filled l, lc_remaining l)) in
       if filled < 0 \<or> remaining < 0 \<or> filled + remaining \<noteq> lc_requested l
          \<or> normalized = ''FILLED'' \<and> remaining \<noteq> 0
       then to_unknown l ''broker_quantity_mismatch''
       else move (l\<lparr>lc_state := (if normalized = ''CANCELLED'' then Ex_CANCELLED
                       else if normalized = ''REJECTED'' then Ex_REJECTED else Ex_FILLED),
                     lc_filled := filled, lc_remaining := remaining\<rparr>)
              ''TERMINAL_CONFIRMED'' (lower normalized @ ''_confirmed'') False)"

section \<open>Policy\<close>

record exit_policy =
  ep_config :: exit_config
  ep_tick_size_fn :: "rat \<Rightarrow> int result"

definition default_tick_size_fn :: "rat \<Rightarrow> int result" where
  "default_tick_size_fn x = krx_tick_size (NDec x)"

text \<open>\<open>Decimal(str(..))\<close> of a setting, finite because the configuration was checked when it was built.\<close>

definition config_decimal :: "pyfloat \<Rightarrow> rat" where
  "config_decimal v = (case decimal_of (NFloat v) of Some x \<Rightarrow> x | None \<Rightarrow> 0)"

definition is_close_urgent :: "exit_policy \<Rightarrow> py_num option \<Rightarrow> bool result" where
  "is_close_urgent p seconds_to_close = (case seconds_to_close of None \<Rightarrow> Inr False
     | Some v \<Rightarrow> rbind (ep_decimal v ''seconds_to_close'' False) (\<lambda>x.
         Inr (x \<le> config_decimal (ec_close_urgency_seconds (ep_config p)))))"

definition interval_elapsed :: "exit_policy \<Rightarrow> moment option \<Rightarrow> moment option \<Rightarrow> bool" where
  "interval_elapsed p last_intent_at now = (case (last_intent_at, now) of
      (Some (M_DATE a), Some (M_DATE b)) \<Rightarrow> (case dt_sub b a of Inl _ \<Rightarrow> False
        | Inr us \<Rightarrow> fle (ec_requote_interval_seconds (ep_config p)) (total_seconds us))
    | (Some (M_SECONDS a), Some (M_SECONDS b)) \<Rightarrow>
        isfinite (fsub b a) \<and> fle (ec_requote_interval_seconds (ep_config p)) (fsub b a)
    | _ \<Rightarrow> False)"

definition plan_sell_limit :: "exit_policy \<Rightarrow> exit_quote \<Rightarrow> py_num option \<Rightarrow> sell_plan result" where
  "plan_sell_limit p quote seconds_to_close = (case eq_bid quote of
      None \<Rightarrow> Inl (ExitPolicyError ''latest bid is required for a marketable SELL limit'')
    | Some b \<Rightarrow> rbind (ep_decimal b ''bid'' True) (\<lambda>bid.
        rbind (case eq_current_price quote of None \<Rightarrow> Inr bid | Some c \<Rightarrow> ep_decimal c ''current_price'' True) (\<lambda>current.
        rbind (case eq_ask quote of None \<Rightarrow> Inr None
               | Some a \<Rightarrow> rbind (ep_decimal a ''ask'' True) (\<lambda>x. Inr (Some x))) (\<lambda>ask.
        guard_else (case ask of None \<Rightarrow> False | Some a \<Rightarrow> a < bid)
          (ExitPolicyError ''crossed quote: bid must not exceed ask'')
        (rbind (tick_floor bid (ep_tick_size_fn p)) (\<lambda>(price, tick).
         let max_loss_price = dmul current (dsub 1 (ddiv (config_decimal (ec_max_slippage_bps (ep_config p))) 10000)) in
         guard_else (of_int price < max_loss_price) (ExitPolicyError ''SELL price exceeds max slippage'')
         (let actual_slippage = max 0 (dmul (ddiv (dsub current (of_int price)) current) 10000) in
          rbind (is_close_urgent p seconds_to_close) (\<lambda>urgent.
            Inr \<lparr>sp_price = price, sp_tick_size = tick, sp_slippage_bps = fl actual_slippage,
                 sp_source = ''bid'', sp_urgent = urgent\<rparr>))))))))"

definition create_sell_intent :: "exit_policy \<Rightarrow> string \<Rightarrow> int \<Rightarrow> exit_quote \<Rightarrow> string \<Rightarrow> int \<Rightarrow> string option \<Rightarrow>
  py_num option \<Rightarrow> string \<Rightarrow> sell_intent result" where
  "create_sell_intent p symbol quantity quote reason requote_count replacement_of seconds_to_close order_type =
     rbind (ep_symbol symbol) (\<lambda>_.
     guard_else (quantity < ec_min_quantity (ep_config p) \<or> ec_max_quantity (ep_config p) < quantity)
       (ExitPolicyError ''quantity is outside exit policy bounds'')
     (guard_else (\<not> (0 \<le> requote_count \<and> requote_count \<le> ec_max_requotes (ep_config p)))
       (ExitPolicyError ''requote_count is outside exit policy bounds'')
     (rbind (validate_order_type order_type (ec_allow_market_order (ep_config p))) (\<lambda>_.
      rbind (plan_sell_limit p quote seconds_to_close) (\<lambda>plan.
      make_sell_intent \<lparr>si_symbol = symbol, si_quantity = quantity, si_price = sp_price plan,
        si_reason = (if strip reason = [] then ''exit'' else strip reason), si_requote_count = requote_count,
        si_replacement_of = replacement_of, si_urgent = sp_urgent plan\<rparr>)))))"

definition initial_lifecycle :: "exit_policy \<Rightarrow> string \<Rightarrow> string \<Rightarrow> int \<Rightarrow> moment option \<Rightarrow> lifecycle result" where
  "initial_lifecycle p order_id symbol quantity now =
     guard_else (quantity < ec_min_quantity (ep_config p) \<or> ec_max_quantity (ep_config p) < quantity)
       (ExitPolicyError ''quantity is outside exit policy bounds'')
     (check_lifecycle \<lparr>lc_order_id = order_id, lc_symbol = symbol, lc_requested = quantity,
        lc_state = Ex_SUBMITTED, lc_filled = 0, lc_remaining = quantity, lc_requotes = 0,
        lc_last_intent_at = now\<rparr>)"

definition replacement :: "lifecycle \<Rightarrow> exit_policy \<Rightarrow> exit_quote \<Rightarrow> moment option \<Rightarrow> py_num option \<Rightarrow> string \<Rightarrow>
  exit_transition result" where
  "replacement l p quote now seconds_to_close reason =
     (if lc_state l = Ex_UNKNOWN \<or> lc_state l = Ex_OPERATOR_REVIEW
      then stay l ''OPERATOR_REVIEW'' ''unknown_order_no_replacement'' True
      else if lc_state l = Ex_CANCEL_PENDING \<or> lc_state l = Ex_STALE
      then stay l ''WAIT'' ''terminal_confirmation_required'' False
      else if lc_state l = Ex_REPLACEMENT_INTENT_CREATED
      then stay l ''WAIT'' ''duplicate_replacement_blocked'' False
      else if lc_state l = Ex_FILLED \<or> lc_remaining l = 0 then stay l ''DONE'' ''no_remaining_quantity'' False
      else if lc_state l \<noteq> Ex_CANCELLED \<and> lc_state l \<noteq> Ex_REJECTED
      then stay l ''WAIT'' ''replacement_requires_terminal_cancel_or_reject'' False
      else if ec_max_requotes (ep_config p) \<le> lc_requotes l
      then stay l ''OPERATOR_REVIEW'' ''max_requotes_reached'' True
      else rbind (is_close_urgent p seconds_to_close) (\<lambda>urgent.
        if \<not> urgent \<and> \<not> interval_elapsed p (lc_last_intent_at l) now
        then stay l ''WAIT'' ''requote_interval_not_elapsed'' False
        else rbind (create_sell_intent p (lc_symbol l) (lc_remaining l) quote reason (lc_requotes l + 1)
               (Some (lc_order_id l)) seconds_to_close ''LIMIT'') (\<lambda>intent.
          rbind (check_lifecycle (l\<lparr>lc_state := Ex_REPLACEMENT_INTENT_CREATED, lc_requested := lc_remaining l,
                   lc_filled := 0, lc_last_intent_at := now, lc_requotes := lc_requotes l + 1\<rparr>)) (\<lambda>l'.
            Inr \<lparr>et_lifecycle = l', et_action = ''CREATE_REPLACEMENT_INTENT'',
                 et_reason = ''terminal_cancel_confirmed'', et_intent = Some intent, et_review = False\<rparr>))))"

definition calculate_sell_limit_price :: "py_num \<Rightarrow> py_num option \<Rightarrow> py_num \<Rightarrow> pyfloat \<Rightarrow> (rat \<Rightarrow> int result) \<Rightarrow> int result" where
  "calculate_sell_limit_price bid ask current_price max_slippage_bps tick_size_fn =
     rbind (check_exit_config \<lparr>ec_max_slippage_bps = max_slippage_bps, ec_max_requotes = 3,
        ec_requote_interval_seconds = Fin 5, ec_close_urgency_seconds = Fin 30, ec_min_quantity = 1,
        ec_max_quantity = 1000000, ec_allow_market_order = False\<rparr>) (\<lambda>config.
     rbind (plan_sell_limit \<lparr>ep_config = config, ep_tick_size_fn = tick_size_fn\<rparr>
        \<lparr>eq_bid = Some bid, eq_ask = ask, eq_current_price = Some current_price\<rparr> None) (\<lambda>plan. Inr (sp_price plan)))"

definition transition_exit_order :: "lifecycle \<Rightarrow> string \<Rightarrow> string option \<Rightarrow> int option \<Rightarrow> int option \<Rightarrow> exit_transition result" where
  "transition_exit_order l event status filled remaining = (let normalized = upper (strip event) in
     if normalized = ''STALE'' then mark_stale l
     else if normalized \<in> {''CANCEL'', ''CANCEL_REQUESTED'', ''CANCEL_PENDING''} then mark_cancel_pending l
     else if normalized \<in> {''STATUS'', ''BROKER_STATUS'', ''TERMINAL''}
     then (case status of None \<Rightarrow> Inl (ExitPolicyError ''broker status is required'')
        | Some s \<Rightarrow> observe_broker_status l s filled remaining)
     else Inl (ExitPolicyError ''unsupported exit lifecycle event''))"

section \<open>Invariant and runs\<close>

definition lifecycle_ok :: "lifecycle \<Rightarrow> bool" where
  "lifecycle_ok l = (0 < lc_requested l \<and> 0 \<le> lc_filled l \<and> 0 \<le> lc_remaining l
     \<and> lc_filled l + lc_remaining l = lc_requested l \<and> 0 \<le> lc_requotes l)"

lemma check_lifecycle_Inr: "check_lifecycle l = Inr l' \<Longrightarrow> l' = l \<and> lifecycle_ok l"
  by (auto simp: check_lifecycle_def whole_positive_def result_iffs lifecycle_ok_def)

lemma stay_Inr: "stay l a r v = Inr t \<Longrightarrow> et_lifecycle t = l \<and> et_intent t = None"
  by (auto simp: stay_def)

lemma move_Inr: "move l a r v = Inr t \<Longrightarrow> et_lifecycle t = l \<and> et_intent t = None \<and> lifecycle_ok l"
  by (auto simp: move_def rbind_eq_Inr dest!: check_lifecycle_Inr stay_Inr)

text \<open>
  Every transition but a replacement leaves the chain's counters alone: same requote count,
  same requested quantity, no intent; and it reaches CANCELLED or REJECTED only on a broker
  status that says so.
\<close>

definition quiet :: "lifecycle \<Rightarrow> exit_transition \<Rightarrow> bool" where
  "quiet l t = (et_intent t = None \<and> lc_requotes (et_lifecycle t) = lc_requotes l
     \<and> lc_requested (et_lifecycle t) = lc_requested l \<and> (lifecycle_ok l \<longrightarrow> lifecycle_ok (et_lifecycle t)))"

lemma stay_quiet: "stay l a r v = Inr t \<Longrightarrow> quiet l t"
  by (auto dest!: stay_Inr simp: quiet_def)

lemma move_quiet:
  "move l' a r v = Inr t \<Longrightarrow> lc_requotes l' = lc_requotes l \<Longrightarrow> lc_requested l' = lc_requested l \<Longrightarrow> quiet l t"
  by (auto dest!: move_Inr simp: quiet_def)

lemma mark_stale_quiet: "mark_stale l = Inr t \<Longrightarrow> quiet l t"
  by (auto simp: mark_stale_def stay_quiet intro: move_quiet split: if_splits)

lemma mark_cancel_pending_quiet: "mark_cancel_pending l = Inr t \<Longrightarrow> quiet l t"
  by (auto simp: mark_cancel_pending_def stay_quiet intro: move_quiet split: if_splits)

lemma observe_quiet: "observe_broker_status l s f r = Inr t \<Longrightarrow> quiet l t"
  by (auto simp: observe_broker_status_def Let_def to_unknown_def stay_quiet intro: move_quiet
      split: if_splits prod.splits)

definition confirms_end :: "string \<Rightarrow> bool" where
  "confirms_end status = (upper (strip status) = ''CANCELLED'' \<or> upper (strip status) = ''REJECTED'')"

definition replaceable :: "lifecycle \<Rightarrow> bool" where
  "replaceable l = (lc_state l = Ex_CANCELLED \<or> lc_state l = Ex_REJECTED)"

lemma not_replaceable_stale: "mark_stale l = Inr t \<Longrightarrow> replaceable (et_lifecycle t) \<Longrightarrow> replaceable l"
  by (auto simp: mark_stale_def replaceable_def dest!: stay_Inr move_Inr split: if_splits)

lemma not_replaceable_cancel: "mark_cancel_pending l = Inr t \<Longrightarrow> replaceable (et_lifecycle t) \<Longrightarrow> replaceable l"
  by (auto simp: mark_cancel_pending_def replaceable_def dest!: stay_Inr move_Inr split: if_splits)

lemma not_replaceable_observe:
  "observe_broker_status l s f r = Inr t \<Longrightarrow> \<not> confirms_end s \<Longrightarrow> replaceable (et_lifecycle t) \<Longrightarrow> replaceable l"
  by (auto simp: observe_broker_status_def Let_def to_unknown_def replaceable_def confirms_end_def
      dest!: stay_Inr move_Inr split: if_splits prod.splits)

lemma make_sell_intent_Inr: "make_sell_intent i = Inr j \<Longrightarrow> j = i \<and> 0 < si_quantity i \<and> 0 < si_price i"
  by (auto simp: make_sell_intent_def whole_positive_def result_iffs)

lemma create_sell_intent_Inr:
  assumes "create_sell_intent p s q quote why n o1 c ty = Inr i"
  shows "si_quantity i = q" "si_requote_count i = n" "n \<le> ec_max_requotes (ep_config p)"
    "0 < si_quantity i" "\<exists>plan. plan_sell_limit p quote c = Inr plan \<and> si_price i = sp_price plan"
  using assms by (auto simp: create_sell_intent_def result_iffs dest!: make_sell_intent_Inr)

lemma replacement_cases:
  assumes "replacement l p quote now c why = Inr t"
  obtains (none) "et_intent t = None" "et_lifecycle t = l"
    | (intent) i where "et_intent t = Some i" "replaceable l" "0 < lc_remaining l"
        "si_quantity i = lc_remaining l" "si_requote_count i = lc_requotes l + 1"
        "lc_requotes l < ec_max_requotes (ep_config p)"
        "et_lifecycle t = l\<lparr>lc_state := Ex_REPLACEMENT_INTENT_CREATED, lc_requested := lc_remaining l,
           lc_filled := 0, lc_last_intent_at := now, lc_requotes := lc_requotes l + 1\<rparr>"
        "lifecycle_ok (et_lifecycle t)"
proof (cases "et_intent t")
  case None
  with assms have "et_lifecycle t = l"
    by (auto simp: replacement_def rbind_eq_Inr dest!: stay_Inr split: if_splits)
  with None none show thesis by blast
next
  case (Some i)
  then have ns: "\<And>a r v. stay l a r v \<noteq> Inr t" by (auto dest: stay_Inr)
  have "replaceable l" "lc_requotes l < ec_max_requotes (ep_config p)"
    using assms ns by (auto simp: replacement_def replaceable_def split: if_splits)
  moreover obtain j l' where c: "create_sell_intent p (lc_symbol l) (lc_remaining l) quote why (lc_requotes l + 1)
        (Some (lc_order_id l)) c ''LIMIT'' = Inr j"
      and l': "check_lifecycle (l\<lparr>lc_state := Ex_REPLACEMENT_INTENT_CREATED, lc_requested := lc_remaining l,
           lc_filled := 0, lc_last_intent_at := now, lc_requotes := lc_requotes l + 1\<rparr>) = Inr l'"
      and t: "et_intent t = Some j" "et_lifecycle t = l'"
    using assms ns by (auto simp: replacement_def rbind_eq_Inr split: if_splits)
  moreover note create_sell_intent_Inr [OF c] check_lifecycle_Inr [OF l']
  ultimately show thesis using intent Some by auto
qed

datatype exit_event =
    EvStale
  | EvCancel
  | EvStatus string "int option" "int option"
  | EvReplace exit_quote "moment option" "py_num option" string

fun exit_apply :: "exit_policy \<Rightarrow> exit_event \<Rightarrow> lifecycle \<Rightarrow> exit_transition result" where
  "exit_apply p EvStale l = mark_stale l"
| "exit_apply p EvCancel l = mark_cancel_pending l"
| "exit_apply p (EvStatus s f r) l = observe_broker_status l s f r"
| "exit_apply p (EvReplace quote now c why) l = replacement l p quote now c why"

text \<open>A run of a chain: a transition that raises leaves the lifecycle value as it was.\<close>

fun exit_run :: "exit_policy \<Rightarrow> exit_event list \<Rightarrow> lifecycle \<Rightarrow> lifecycle \<times> sell_intent list" where
  "exit_run p [] l = (l, [])"
| "exit_run p (e # es) l = (case exit_apply p e l of Inl _ \<Rightarrow> exit_run p es l
     | Inr t \<Rightarrow> (let (l', is) = exit_run p es (et_lifecycle t)
                in (l', (case et_intent t of None \<Rightarrow> [] | Some i \<Rightarrow> [i]) @ is)))"

lemma exit_apply_cases:
  assumes "exit_apply p e l = Inr t"
  obtains (quiet) "quiet l t"
    | (intent) i where "et_intent t = Some i" "replaceable l" "0 < lc_remaining l"
        "si_quantity i = lc_remaining l" "lc_requotes l < ec_max_requotes (ep_config p)"
        "lc_requotes (et_lifecycle t) = lc_requotes l + 1" "lc_requested (et_lifecycle t) = lc_remaining l"
        "\<not> replaceable (et_lifecycle t)" "lifecycle_ok (et_lifecycle t)"
proof (cases e)
  case (EvReplace quote now c why)
  with assms have "replacement l p quote now c why = Inr t" by simp
  then show thesis
  proof (cases rule: replacement_cases)
    case none
    then show thesis by (intro quiet) (simp add: quiet_def)
  next
    case (intent i)
    then show thesis by (intro that(2) [of i]) (simp_all add: replaceable_def)
  qed
qed (use assms quiet in \<open>auto intro: mark_stale_quiet mark_cancel_pending_quiet observe_quiet\<close>)

lemma exit_run_bounds:
  assumes "lifecycle_ok l" "lc_requotes l \<le> ec_max_requotes (ep_config p)" "exit_run p es l = (l', is)"
  shows "lifecycle_ok l' \<and> lc_requotes l' = lc_requotes l + int (length is)
    \<and> lc_requotes l' \<le> ec_max_requotes (ep_config p)
    \<and> list_all (\<lambda>i. 0 < si_quantity i \<and> si_quantity i \<le> lc_requested l) is"
  using assms
proof (induction es arbitrary: l l' "is")
  case (Cons e es)
  show ?case
  proof (cases "exit_apply p e l")
    case (Inl x)
    then have "exit_run p es l = (l', is)" using Cons.prems(3) by simp
    from Cons.IH [OF Cons.prems(1,2) this] show ?thesis .
  next
    case (Inr t)
    obtain l1 is1 where run: "exit_run p es (et_lifecycle t) = (l1, is1)" by fastforce
    with Cons.prems(3) Inr have l': "l' = l1"
      and is': "is = (case et_intent t of None \<Rightarrow> [] | Some i \<Rightarrow> [i]) @ is1" by auto
    from Inr show ?thesis
    proof (cases rule: exit_apply_cases)
      case quiet
      with Cons.prems run Cons.IH [of "et_lifecycle t" l1 is1] show ?thesis
        by (simp add: quiet_def l' is')
    next
      case (intent i)
      with Cons.prems run Cons.IH [of "et_lifecycle t" l1 is1] show ?thesis
        by (auto simp: l' is' lifecycle_ok_def list_all_iff)
    qed
  qed
qed simp

lemma exit_run_append:
  "exit_run p (es1 @ es2) l = (case exit_run p es1 l of (l1, is1) \<Rightarrow> case exit_run p es2 l1 of (l2, is2) \<Rightarrow> (l2, is1 @ is2))"
  by (induction es1 arbitrary: l) (auto split: sum.split prod.split)

lemma exit_apply_not_replaceable:
  assumes "exit_apply p e l = Inr t" "\<not> replaceable l"
    and "\<And>s f r. e = EvStatus s f r \<Longrightarrow> \<not> confirms_end s"
  shows "et_intent t = None \<and> \<not> replaceable (et_lifecycle t)"
proof (cases e)
  case (EvReplace quote now c why)
  with assms(1) have "replacement l p quote now c why = Inr t" by simp
  then show ?thesis by (cases rule: replacement_cases) (use assms(2) in auto)
qed (use assms not_replaceable_stale not_replaceable_cancel not_replaceable_observe mark_stale_quiet
    mark_cancel_pending_quiet observe_quiet in \<open>auto simp: quiet_def\<close>)

section \<open>Properties\<close>

text \<open>
  What the replaced orders of a chain had filled: at every replacement the fills of the order that it replaces.
\<close>

fun sold_before :: "exit_policy \<Rightarrow> exit_event list \<Rightarrow> lifecycle \<Rightarrow> int" where
  "sold_before p [] l = 0"
| "sold_before p (e # es) l = (case exit_apply p e l of Inl _ \<Rightarrow> sold_before p es l
     | Inr t \<Rightarrow> (case et_intent t of None \<Rightarrow> 0 | Some _ \<Rightarrow> lc_filled l) + sold_before p es (et_lifecycle t))"

lemma exit_run_conserves:
  assumes "lifecycle_ok l"
  shows "sold_before p es l + lc_requested (fst (exit_run p es l)) = lc_requested l"
  using assms
proof (induction es arbitrary: l)
  case (Cons e es)
  show ?case
  proof (cases "exit_apply p e l")
    case (Inr t)
    then show ?thesis
    proof (cases rule: exit_apply_cases)
      case quiet
      with Inr Cons show ?thesis by (simp add: quiet_def split: prod.split)
    next
      case (intent i)
      with Inr Cons.IH [of "et_lifecycle t"] Cons.prems show ?thesis by (auto simp: lifecycle_ok_def split: prod.split)
    qed
  qed (use Cons in simp)
qed simp

text \<open>
  (C21) A chain of exit orders is bounded and never oversells. Whatever sequence of staleness marks, cancels, broker
  reports and replacement attempts follows an accepted order, at most \<open>max_requotes\<close> replacement intents are created; each of them asks for
  a positive quantity, exactly what the order it replaces had left unfilled at that moment. What the replaced orders filled, what the
  last one filled and what it has left add up to the original quantity.
\<close>

theorem exit_chain_bounded:
  assumes "initial_lifecycle p oid s q now = Inr l" "0 \<le> ec_max_requotes (ep_config p)"
    and "exit_run p es l = (l', is)"
  shows "sold_before p es l + lc_filled l' + lc_remaining l' = q
    \<and> lc_filled l' + lc_remaining l' = lc_requested l' \<and> 0 \<le> lc_filled l' \<and> 0 \<le> lc_remaining l'
    \<and> int (length is) \<le> ec_max_requotes (ep_config p)
    \<and> list_all (\<lambda>i. 0 < si_quantity i \<and> si_quantity i \<le> q) is
    \<and> (\<forall>es1 e es2 t i. es = es1 @ e # es2 \<and> exit_apply p e (fst (exit_run p es1 l)) = Inr t \<and> et_intent t = Some i
         \<longrightarrow> i \<in> set is \<and> si_quantity i = lc_remaining (fst (exit_run p es1 l))
           \<and> sold_before p (es1 @ [e]) l + si_quantity i = q)"
proof -
  have l: "lifecycle_ok l" "lc_requotes l = 0" "lc_requested l = q"
    using assms(1) by (auto simp: initial_lifecycle_def result_iffs dest!: check_lifecycle_Inr)
  have "i \<in> set is \<and> si_quantity i = lc_remaining (fst (exit_run p es1 l)) \<and> sold_before p (es1 @ [e]) l + si_quantity i = q"
    if "es = es1 @ e # es2" "exit_apply p e (fst (exit_run p es1 l)) = Inr t" "et_intent t = Some i" for es1 e es2 t i
  proof -
    have "si_quantity i = lc_remaining (fst (exit_run p es1 l)) \<and> lc_requested (et_lifecycle t) = lc_remaining (fst (exit_run p es1 l))"
      using that(2) by (cases rule: exit_apply_cases) (use that(3) in \<open>auto simp: quiet_def\<close>)
    moreover have "fst (exit_run p (es1 @ [e]) l) = et_lifecycle t" "set (snd (exit_run p (es1 @ [e]) l)) \<subseteq> set is"
      using assms(3) that by (auto simp: exit_run_append split: prod.splits)
    moreover have "i \<in> set (snd (exit_run p (es1 @ [e]) l))" using that(2,3) by (cases "exit_run p es1 l") (auto simp: exit_run_append)
    ultimately show ?thesis using exit_run_conserves [OF l(1), of p "es1 @ [e]"] l(3) by auto
  qed
  then have chain: "\<forall>es1 e es2 t i. es = es1 @ e # es2 \<and> exit_apply p e (fst (exit_run p es1 l)) = Inr t \<and> et_intent t = Some i
      \<longrightarrow> i \<in> set is \<and> si_quantity i = lc_remaining (fst (exit_run p es1 l)) \<and> sold_before p (es1 @ [e]) l + si_quantity i = q"
    by blast
  have ok: "lifecycle_ok l'" and count: "int (length is) \<le> ec_max_requotes (ep_config p)"
    and each: "list_all (\<lambda>i. 0 < si_quantity i \<and> si_quantity i \<le> q) is"
    using l exit_run_bounds [OF l(1) _ assms(3)] assms(2) by auto
  have "sold_before p es l + lc_requested l' = q" using exit_run_conserves [OF l(1), of p es] l(3) assms(3) by simp
  with ok have "sold_before p es l + lc_filled l' + lc_remaining l' = q \<and> lc_filled l' + lc_remaining l' = lc_requested l'
      \<and> 0 \<le> lc_filled l' \<and> 0 \<le> lc_remaining l'" by (simp add: lifecycle_ok_def)
  then show ?thesis using count each chain by (elim conjE, intro conjI)
qed

text \<open>
  (C20) A working exit order is never replaced on suspicion. From any state other than CANCELLED and
  REJECTED, no sequence of events creates a replacement intent unless it contains a broker
  report of CANCELLED or REJECTED; marking the order stale, requesting the cancel, timeouts
  and partial-fill reports are not enough.
\<close>

theorem no_replacement_without_confirmation:
  assumes "\<not> replaceable l" "\<forall>e\<in>set es. \<forall>s f r. e = EvStatus s f r \<longrightarrow> \<not> confirms_end s"
  shows "snd (exit_run p es l) = []"
  using assms
proof (induction es arbitrary: l)
  case (Cons e es)
  show ?case
  proof (cases "exit_apply p e l")
    case (Inr t)
    with exit_apply_not_replaceable [OF Inr Cons.prems(1)] Cons.prems(2)
    have "et_intent t = None" "\<not> replaceable (et_lifecycle t)" by auto
    with Cons.IH [of "et_lifecycle t"] Cons.prems(2) Inr show ?thesis by (auto split: prod.splits)
  qed (use Cons in auto)
qed simp

definition sample_policy :: exit_policy where
  "sample_policy = \<lparr>ep_config = \<lparr>ec_max_slippage_bps = Fin 50, ec_max_requotes = 3,
     ec_requote_interval_seconds = Fin 5, ec_close_urgency_seconds = Fin 30, ec_min_quantity = 1,
     ec_max_quantity = 1000000, ec_allow_market_order = False\<rparr>, ep_tick_size_fn = default_tick_size_fn\<rparr>"

definition sample_lifecycle :: lifecycle where
  "sample_lifecycle = \<lparr>lc_order_id = ''o1'', lc_symbol = ''005930'', lc_requested = 10,
     lc_state = Ex_SUBMITTED, lc_filled = 0, lc_remaining = 10, lc_requotes = 0, lc_last_intent_at = None\<rparr>"

lemma sample_initial: "initial_lifecycle sample_policy ''o1'' ''005930'' 10 None = Inr sample_lifecycle"
  by code_simp

text \<open>A quote at a stock price of 70,150 won; the session closes in ten seconds, so a replacement does not wait.\<close>

definition sample_quote :: exit_quote where
  "sample_quote = \<lparr>eq_bid = Some (NInt 70150), eq_ask = None, eq_current_price = Some (NDec 70200)\<rparr>"

lemma config_50: "config_decimal (Fin 50) = 50"
proof -
  have "repr_candidates 1 50 = [50, 50]"
    using rnd64_of_int [of 50] by (simp add: repr_candidates_def ilog10_def ndigits.simps p10_def)
  then show ?thesis by (simp add: config_decimal_def repr_float_def numeral_eq_Suc)
qed

lemma config_30: "config_decimal (Fin 30) = 30"
proof -
  have "repr_candidates 1 30 = [30, 30]"
    using rnd64_of_int [of 30] by (simp add: repr_candidates_def ilog10_def ndigits.simps p10_def)
  then show ?thesis by (simp add: config_decimal_def repr_float_def numeral_eq_Suc)
qed

lemma sample_exit_plan:
  assumes "is_close_urgent sample_policy c = Inr u"
  shows "\<exists>plan. plan_sell_limit sample_policy sample_quote c = Inr plan \<and> sp_price plan = 70100"
proof -
  have short: "dec28 (of_int m * p10 (- int k)) = of_int m * p10 (- int k)" if "\<bar>m\<bar> < 10 ^ 28" for m k
    using that by (intro dec28_exact [of _ m k]) simp_all
  have d: "dec28 (1 / 200) = 1 / 200" "dec28 (199 / 200) = 199 / 200" "dec28 69849 = 69849"
    "dec28 (1403 / 2) = 1403 / 2" "dec28 70100 = 70100"
    using short [of 5 3] short [of 995 3] short [of 69849 0] short [of 7015 1] short [of 70100 0]
    by (simp_all add: p10_def)
  have f: "\<lfloor>1403 / 2 :: rat\<rfloor> = 701" by (simp add: floor_eq_iff)
  show ?thesis
    by (simp add: f plan_sell_limit_def ep_decimal_def guard_else_def tick_floor_def default_tick_size_fn_def krx_tick_size_def mr_decimal_def
        tick_of_def sample_policy_def config_50 ddiv_def dmul_def dsub_def d assms [unfolded sample_policy_def]
        Let_def sample_quote_def)
qed

lemma sample_replacement:
  "\<exists>t i. replacement (sample_lifecycle\<lparr>lc_state := Ex_CANCELLED, lc_filled := 4, lc_remaining := 6\<rparr>) sample_policy sample_quote None
     (Some (NInt 10)) [] = Inr t \<and> et_intent t = Some i"
proof -
  have u: "is_close_urgent sample_policy (Some (NInt 10)) = Inr True"
    by (simp add: is_close_urgent_def ep_decimal_def guard_else_def sample_policy_def config_30)
  obtain plan where plan: "plan_sell_limit sample_policy sample_quote (Some (NInt 10)) = Inr plan" "sp_price plan = 70100"
    using sample_exit_plan [OF u] by blast
  have v: "validate_order_type ''LIMIT'' False = Inr ''LIMIT''" by code_simp
  have s: "ep_symbol ''005930'' = Inr ''005930''" "strip ''o1'' \<noteq> []" by (code_simp, simp add: string_eval)
  show ?thesis
    by (simp add: replacement_def create_sell_intent_def make_sell_intent_def check_lifecycle_def whole_positive_def guard_else_def
        u plan s v sample_lifecycle_def)
      (simp add: sample_policy_def v s plan [unfolded sample_policy_def] guard_else_def)
qed

theorem exit_chain_bounded_witness:
  "\<exists>l' i. exit_run sample_policy [EvStale, EvCancel, EvStatus ''cancelled'' (Some 4) None, EvReplace sample_quote None (Some (NInt 10)) []] sample_lifecycle
       = (l', [i]) \<and> si_quantity i = 6 \<and> lc_requested l' = 6
     \<and> sold_before sample_policy [EvStale, EvCancel, EvStatus ''cancelled'' (Some 4) None, EvReplace sample_quote None (Some (NInt 10)) []] sample_lifecycle = 4"
proof -
  let ?es = "[EvStale, EvCancel, EvStatus ''cancelled'' (Some 4) None]" and ?e = "EvReplace sample_quote None (Some (NInt 10)) []"
  let ?m = "sample_lifecycle\<lparr>lc_state := Ex_CANCELLED, lc_filled := 4, lc_remaining := 6\<rparr>"
  have m: "exit_run sample_policy ?es sample_lifecycle = (?m, [])" by code_simp
  obtain t i where t: "exit_apply sample_policy ?e ?m = Inr t" "et_intent t = Some i" using sample_replacement by auto
  have run: "exit_run sample_policy (?es @ [?e]) sample_lifecycle = (et_lifecycle t, [i])"
    using t by (simp only: exit_run_append m) simp
  have "0 \<le> ec_max_requotes (ep_config sample_policy)" by (simp add: sample_policy_def)
  note bounds = exit_chain_bounded [OF sample_initial this run]
  from bounds have "sold_before sample_policy (?es @ [?e]) sample_lifecycle + lc_filled (et_lifecycle t) + lc_remaining (et_lifecycle t) = 10"
    and req: "lc_filled (et_lifecycle t) + lc_remaining (et_lifecycle t) = lc_requested (et_lifecycle t)" by blast+
  moreover have "si_quantity i = lc_remaining ?m \<and> sold_before sample_policy (?es @ [?e]) sample_lifecycle + si_quantity i = 10"
    using bounds [THEN conjunct2, THEN conjunct2, THEN conjunct2, THEN conjunct2, THEN conjunct2, THEN conjunct2,
      THEN spec [of _ ?es], THEN spec [of _ ?e], THEN spec [of _ "[]"], THEN spec [of _ t], THEN spec [of _ i]] t m
    by (simp del: exit_run.simps exit_apply.simps sold_before.simps)
  ultimately show ?thesis using run by (simp del: exit_run.simps sold_before.simps)
qed

theorem no_replacement_without_confirmation_witness:
  "snd (exit_run sample_policy [EvStale, EvCancel, EvStatus ''timeout'' None None] sample_lifecycle) = []"
proof (rule no_replacement_without_confirmation)
  show "\<not> replaceable sample_lifecycle" by (simp add: replaceable_def sample_lifecycle_def)
  have "\<not> confirms_end ''timeout''" by code_simp
  then show "\<forall>e\<in>set [EvStale, EvCancel, EvStatus ''timeout'' None None]. \<forall>s f r. e = EvStatus s f r \<longrightarrow> \<not> confirms_end s"
    by simp
qed

text \<open>
  The price of an exit. With the KRX tick rule and quotes of at most 24 digits, a plan exists only
  for a quote that is not crossed, and its price is the bid rounded down to its tick: a positive
  multiple of the tick, at most the bid and less than one tick below it, and not below the
  slippage limit the policy computes from the current price.
\<close>

theorem sell_plan_price:
  assumes "plan_sell_limit p quote c = Inr plan" "ep_tick_size_fn p = default_tick_size_fn"
    and "eq_bid quote = Some b" "decimal_of b = Some bid" "eq_current_price quote = Some (NDec cur)"
    and "bid = of_int m * p10 (- int k)" "\<bar>m\<bar> < 10 ^ 24" "bid < 10 ^ 24"
  shows "0 < sp_price plan \<and> sp_price plan mod tick_of bid = 0
    \<and> of_int (sp_price plan) \<le> bid \<and> bid < of_int (sp_price plan + tick_of bid)
    \<and> dmul cur (dsub 1 (ddiv (config_decimal (ec_max_slippage_bps (ep_config p))) 10000)) \<le> of_int (sp_price plan)
    \<and> (\<forall>a. eq_ask quote = Some (NDec a) \<longrightarrow> bid \<le> a)"
proof -
  have bid: "0 < bid" using assms(1,3,4) by (auto simp: plan_sell_limit_def ep_decimal_def result_iffs)
  let ?n = "\<lfloor>bid / of_int (tick_of bid)\<rfloor>" and ?t = "tick_of bid"
  have t: "(0 :: rat) < of_int ?t" using tick_of_pos [of bid] by simp
  have q: "ddiv bid (of_int ?t) = bid / of_int ?t" by (rule ddiv_tick_exact [OF assms(6,7)])
  have fl: "of_int (?n * ?t) \<le> bid" "bid < of_int ((?n + 1) * ?t)"
    unfolding of_int_mult of_int_add of_int_1
    by (simp_all only: flip: pos_le_divide_eq [OF t] pos_divide_less_eq [OF t]) linarith+
  have nn: "0 \<le> ?n" using bid t by simp
  have "of_int (?n * ?t) < (of_int (10 ^ 28) :: rat)" using fl(1) assms(8) by simp
  then have "\<bar>?n * ?t\<bar> < 10 ^ 28" using nn tick_of_pos [of bid] by (simp only: of_int_less_iff) simp
  then have ex: "dmul (of_int ?n) (of_int ?t) = of_int (?n * ?t)"
    unfolding dmul_def by (metis dec28_of_int of_int_mult)
  have tf: "tick_floor bid (ep_tick_size_fn p) = Inr pr \<Longrightarrow> pr = (?n * ?t, ?t) \<and> 0 < ?n * ?t" for pr
    using bid by (auto simp: tick_floor_def assms(2) default_tick_size_fn_def krx_tick_size_def mr_decimal_def
        guard_else_def q ex Let_def simp del: of_int_mult split: if_splits)
  show ?thesis
    using assms(1,3-5) fl tf
    by (auto simp: plan_sell_limit_def ep_decimal_def result_iffs Let_def not_less algebra_simps
        split: option.splits prod.splits)
qed

theorem sell_plan_price_witness:
  "\<exists>plan. plan_sell_limit sample_policy sample_quote None = Inr plan \<and> sp_price plan mod 100 = 0 \<and> sp_price plan \<le> 70150"
proof -
  have "is_close_urgent sample_policy None = Inr False" by (simp add: is_close_urgent_def)
  from sample_exit_plan [OF this] obtain plan where plan: "plan_sell_limit sample_policy sample_quote None = Inr plan" by blast
  have t: "tick_of 70150 = 100" by (simp add: tick_of_def)
  have tk: "ep_tick_size_fn sample_policy = default_tick_size_fn" by (simp add: sample_policy_def)
  have b: "eq_bid sample_quote = Some (NInt 70150)" "decimal_of (NInt 70150) = Some 70150"
    "eq_current_price sample_quote = Some (NDec 70200)" "(70150 :: rat) = of_int 70150 * p10 (- int 0)"
    "\<bar>70150 :: int\<bar> < 10 ^ 24" "(70150 :: rat) < 10 ^ 24" by (simp_all add: p10_def sample_quote_def)
  from sell_plan_price [OF plan tk b] have "sp_price plan mod tick_of 70150 = 0" "of_int (sp_price plan) \<le> (70150 :: rat)"
    by blast+
  then show ?thesis using plan t by simp
qed

end
