(* ===== verification/RiskEngine.thy ===== *)
theory RiskEngine
  imports PyFloat
begin

text \<open>
  Position sizing and the entry gate (\<open>risk/models.py\<close>, \<open>risk/position_sizer.py\<close>, \<open>risk/risk_engine.py\<close>).
  Money amounts are floats, and the size is a float floor division. Shown: the division is exact,
  so a sized position risks at most the budget and costs at most the cap, and an
  approved intent satisfies every configured limit.
\<close>

record risk_config =
  rk_allocated_krw :: pyfloat
  rk_risk_per_trade_pct :: pyfloat
  rk_max_position_pct :: pyfloat
  rk_max_total_exposure_pct :: pyfloat
  rk_max_positions :: int
  rk_max_daily_loss_pct :: pyfloat
  rk_consecutive_loss_limit :: int
  rk_max_trades_per_day :: "int option"
  rk_max_orders_per_symbol :: int
  rk_minimum_confidence :: pyfloat

record position_state =
  ps_symbol :: string
  ps_quantity :: int
  ps_avg_price :: pyfloat
  ps_stop_loss :: "pyfloat option"

record portfolio_state =
  pf_current_exposure_krw :: pyfloat
  pf_open_positions :: "position_state list"
  pf_daily_pnl_krw :: pyfloat
  pf_consecutive_losses :: int
  pf_trades_today :: int
  pf_orders_by_symbol :: "(string \<times> int) list"

record order_intent =
  oi_symbol :: string
  oi_strategy :: string
  oi_signal_id :: string
  oi_entry_price :: pyfloat
  oi_stop_loss :: pyfloat
  oi_confidence :: "pyfloat option"

record risk_decision =
  rd_approved :: bool
  rd_reason :: string
  rd_quantity :: int
  rd_max_loss_krw :: pyfloat

definition pct_of :: "pyfloat \<Rightarrow> pyfloat \<Rightarrow> pyfloat" where
  "pct_of amount pct = fquot (fmul amount pct) (Fin 100)"

definition invalid_ladder :: "pyfloat \<Rightarrow> pyfloat \<Rightarrow> bool" where
  "invalid_ladder entry stop = (fle entry (Fin 0) \<or> fle stop (Fin 0) \<or> fle entry stop)"

definition calculate_quantity :: "risk_config \<Rightarrow> pyfloat \<Rightarrow> pyfloat \<Rightarrow> int result" where
  "calculate_quantity config entry_price stop_loss =
     (if invalid_ladder entry_price stop_loss then Inr 0
      else let per_share_risk = fsub entry_price stop_loss;
               risk_budget = pct_of (rk_allocated_krw config) (rk_risk_per_trade_pct config);
               position_cap = pct_of (rk_allocated_krw config) (rk_max_position_pct config)
        in if fle risk_budget (Fin 0) \<or> fle position_cap (Fin 0) then Inr 0
           else rbind (ffloordiv risk_budget per_share_risk) (\<lambda>a. rbind (py_int a) (\<lambda>by_risk.
                rbind (ffloordiv position_cap entry_price) (\<lambda>b. rbind (py_int b) (\<lambda>by_capital.
                  Inr (max 0 (min by_risk by_capital)))))))"

definition reject :: "string \<Rightarrow> risk_decision" where
  "reject reason = \<lparr>rd_approved = False, rd_reason = reason, rd_quantity = 0, rd_max_loss_krw = Fin 0\<rparr>"

definition orders_for :: "portfolio_state \<Rightarrow> string \<Rightarrow> int" where
  "orders_for p s = (case map_of (pf_orders_by_symbol p) s of None \<Rightarrow> 0 | Some n \<Rightarrow> n)"

definition evaluate_order_intent :: "risk_config \<Rightarrow> portfolio_state \<Rightarrow> order_intent \<Rightarrow> risk_decision result" where
  "evaluate_order_intent config portfolio intent =
     (if oi_symbol intent = [] \<or> oi_strategy intent = [] \<or> oi_signal_id intent = []
      then Inr (reject ''invalid_intent'')
      else if invalid_ladder (oi_entry_price intent) (oi_stop_loss intent)
      then Inr (reject ''invalid_entry_or_stop'')
      else if (case oi_confidence intent of None \<Rightarrow> False | Some c \<Rightarrow> flt c (rk_minimum_confidence config))
      then Inr (reject ''confidence_below_minimum'')
      else if list_ex (\<lambda>p. ps_symbol p = oi_symbol intent) (pf_open_positions portfolio)
      then Inr (reject ''existing_position_same_symbol'')
      else if rk_max_positions config \<le> int (length (pf_open_positions portfolio))
      then Inr (reject ''max_positions_reached'')
      else if fle (pf_daily_pnl_krw portfolio)
                (fneg (pct_of (rk_allocated_krw config) (rk_max_daily_loss_pct config)))
      then Inr (reject ''daily_loss_limit_reached'')
      else if rk_consecutive_loss_limit config \<le> pf_consecutive_losses portfolio
      then Inr (reject ''consecutive_loss_limit_reached'')
      else if (case rk_max_trades_per_day config of None \<Rightarrow> False | Some n \<Rightarrow> n \<le> pf_trades_today portfolio)
      then Inr (reject ''max_trades_per_day_reached'')
      else if rk_max_orders_per_symbol config \<le> orders_for portfolio (oi_symbol intent)
      then Inr (reject ''max_orders_per_symbol_reached'')
      else rbind (calculate_quantity config (oi_entry_price intent) (oi_stop_loss intent)) (\<lambda>quantity.
        if quantity \<le> 0 then Inr (reject ''calculated_quantity_zero'')
        else let new_exposure = fadd (pf_current_exposure_krw portfolio)
                   (fmul (f_int quantity) (oi_entry_price intent));
                 exposure_cap = pct_of (rk_allocated_krw config) (rk_max_total_exposure_pct config)
             in if flt exposure_cap new_exposure then Inr (reject ''max_total_exposure_reached'')
                else Inr \<lparr>rd_approved = True, rd_reason = ''approved'', rd_quantity = quantity,
                          rd_max_loss_krw = fmul (f_int quantity)
                            (fsub (oi_entry_price intent) (oi_stop_loss intent))\<rparr>))"

section \<open>Sizing\<close>

lemma pct_of_f64: "is_f64 (pct_of a b)"
proof -
  have inf: "is_f64 (inf_of_sign s)" for s by (simp add: inf_of_sign_def)
  show ?thesis unfolding pct_of_def
    by (cases "fmul a b") (simp_all add: inf)
qed

text \<open>
  Sizing on ordinary numbers: prices that are floats, at least 1 apart (one won), budget and cap finite and below
  \<open>2 ^ 50\<close> won.
\<close>

definition sizing_normal :: "risk_config \<Rightarrow> rat \<Rightarrow> rat \<Rightarrow> rat \<Rightarrow> rat \<Rightarrow> bool" where
  "sizing_normal config e s budget cap = (0 < s \<and> 1 \<le> e - s \<and> e - s < p2 1023
     \<and> pct_of (rk_allocated_krw config) (rk_risk_per_trade_pct config) = Fin budget
     \<and> pct_of (rk_allocated_krw config) (rk_max_position_pct config) = Fin cap
     \<and> 0 < budget \<and> budget < 2 ^ 50 \<and> 0 < cap \<and> cap < 2 ^ 50)"

lemma ilog2_ge_one:
  assumes "1 \<le> y"
  shows "- 1022 \<le> ilog2 y"
proof -
  have "1 \<le> \<lfloor>y\<rfloor>" using assms by (simp add: le_floor_iff)
  then show ?thesis using assms bitlen_nonneg [of "\<lfloor>y\<rfloor>"] by (simp add: ilog2_def)
qed

lemma floor_division_exact:
  assumes "1 \<le> y" "0 < x" "x < 2 ^ 50" "is_f64 (Fin x)"
  shows "rbind (ffloordiv (Fin x) (Fin y)) py_int = Inr \<lfloor>x / y\<rfloor>"
proof -
  have "x / y \<le> x" using assms by (simp add: divide_le_eq)
  then have "\<lfloor>x / y\<rfloor> \<le> \<lfloor>x\<rfloor>" by (rule floor_mono)
  also have "\<dots> < 2 ^ 50" using assms(3) by (simp add: floor_less_iff)
  finally have "ffloordiv_raw (Fin x) (Fin y) = Fin (of_int \<lfloor>x / y\<rfloor>)"
    using assms by (intro ffloordiv_raw_pos) (simp_all add: ilog2_ge_one)
  moreover have "0 \<le> \<lfloor>x / y\<rfloor>" using assms by simp
  ultimately show ?thesis using assms(1) by (simp add: ffloordiv_def)
qed

lemma calculate_quantity_normal:
  assumes "sizing_normal config e s budget cap"
  shows "calculate_quantity config (Fin e) (Fin s) = Inr (min \<lfloor>budget / rnd64 (e - s)\<rfloor> \<lfloor>cap / e\<rfloor>)"
proof -
  note n = assms [unfolded sizing_normal_def]
  have r: "1 \<le> rnd64 (e - s)" using n rnd64_mono [of 1 "e - s"] rnd64_of_int [of 1] by simp
  have "rnd64 (e - s) \<le> p2 1023" using n rnd64_mono [of "e - s" "p2 1023"] rnd64_exact [of 1 1023] by simp
  moreover have "p2 1023 < p2 1024" using p2_Suc [of 1023] p2_pos [of 1023] by simp
  ultimately have lt: "rnd64 (e - s) < p2 1024" by simp
  have "- p2 1024 < rnd64 (e - s)" using r p2_pos [of 1024] by linarith
  then have fs: "fsub (Fin e) (Fin s) = Fin (rnd64 (e - s))"
    using lt by (simp add: fsub_def fl_def Let_def not_le)
  have f64: "is_f64 (Fin budget)" "is_f64 (Fin cap)" using n pct_of_f64 by metis+
  have e: "1 \<le> e" using n by linarith
  note q = floor_division_exact [OF r _ _ f64(1)] floor_division_exact [OF e _ _ f64(2)]
  have nn: "0 \<le> \<lfloor>budget / rnd64 (e - s)\<rfloor>" "0 \<le> \<lfloor>cap / e\<rfloor>" using n r e by simp_all
  have two: "rbind a (\<lambda>x. rbind (py_int x) f) = rbind (rbind a py_int) f" for a and f :: "int \<Rightarrow> int result"
    by (cases a) simp_all
  have pos: "\<not> e \<le> 0" "\<not> s \<le> 0" "\<not> e \<le> s" "\<not> budget \<le> 0" "\<not> cap \<le> 0" using n by linarith+
  have "calculate_quantity config (Fin e) (Fin s) =
      rbind (rbind (ffloordiv (Fin budget) (Fin (rnd64 (e - s)))) py_int) (\<lambda>a.
      rbind (rbind (ffloordiv (Fin cap) (Fin e)) py_int) (\<lambda>b. Inr (max 0 (min a b))))"
    using n pos by (simp add: calculate_quantity_def invalid_ladder_def Let_def fs two)
  then show ?thesis using n q nn by simp
qed

lemma floor_quotient_bounds:
  fixes x y :: rat
  assumes "0 < y"
  shows "of_int \<lfloor>x / y\<rfloor> * y \<le> x" "x < (of_int \<lfloor>x / y\<rfloor> + 1) * y"
proof -
  have "of_int \<lfloor>x / y\<rfloor> \<le> x / y" and lt: "x / y < of_int \<lfloor>x / y\<rfloor> + 1" by linarith+
  then show "of_int \<lfloor>x / y\<rfloor> * y \<le> x" unfolding pos_le_divide_eq [OF assms] by blast
  show "x < (of_int \<lfloor>x / y\<rfloor> + 1) * y" using lt unfolding pos_divide_less_eq [OF assms] by blast
qed

text \<open>
  (C24) For float prices at least one won apart and budgets below \<open>2 ^ 50\<close> won, \<open>calculate_quantity\<close> returns
  a size whose loss at the stop is within the risk budget and whose cost is within the position cap, and
  it is the largest such size: one share more breaks one of the two limits.
\<close>

theorem sizing_maximal:
  assumes "sizing_normal config e s budget cap"
  shows "\<exists>q. calculate_quantity config (Fin e) (Fin s) = Inr q \<and> 0 \<le> q
    \<and> of_int q * rnd64 (e - s) \<le> budget \<and> of_int q * e \<le> cap
    \<and> (budget < (of_int q + 1) * rnd64 (e - s) \<or> cap < (of_int q + 1) * e)"
proof -
  note n = assms [unfolded sizing_normal_def]
  have r: "1 \<le> rnd64 (e - s)" using n rnd64_mono [of 1 "e - s"] rnd64_of_int [of 1] by simp
  have e: "1 \<le> e" using n by linarith
  have pos: "0 < rnd64 (e - s)" "0 < e" using r e by linarith+
  let ?a = "\<lfloor>budget / rnd64 (e - s)\<rfloor>" and ?b = "\<lfloor>cap / e\<rfloor>"
  note ab = floor_quotient_bounds [OF pos(1), of budget] floor_quotient_bounds [OF pos(2), of cap]
  have "of_int (min ?a ?b) * rnd64 (e - s) \<le> of_int ?a * rnd64 (e - s)"
    "of_int (min ?a ?b) * e \<le> of_int ?b * e"
    using pos by (intro mult_right_mono; simp)+
  moreover have "0 \<le> min ?a ?b" using n pos by simp
  ultimately show ?thesis
    using calculate_quantity_normal [OF assms] ab by (intro exI [of _ "min ?a ?b"]) (auto simp: min_def)
qed

definition sample_risk :: risk_config where
  "sample_risk = \<lparr>rk_allocated_krw = Fin 1000000, rk_risk_per_trade_pct = Fin 1, rk_max_position_pct = Fin 20,
     rk_max_total_exposure_pct = Fin 60, rk_max_positions = 3, rk_max_daily_loss_pct = Fin 3,
     rk_consecutive_loss_limit = 3, rk_max_trades_per_day = Some 10, rk_max_orders_per_symbol = 2,
     rk_minimum_confidence = Fin (1 / 2)\<rparr>"

lemma sample_sizing: "sizing_normal sample_risk 10000 9800 10000 200000"
proof -
  have "(10200 :: rat) < p2 1023"
    using p2_mono [of 14 1023] by (simp add: p2_def)
  then show ?thesis by (simp add: sizing_normal_def sample_risk_def pct_of_def)
qed

theorem sizing_maximal_witness:
  "calculate_quantity sample_risk (Fin 10000) (Fin 9800) = Inr 20
   \<and> (\<exists>q. calculate_quantity sample_risk (Fin 10000) (Fin 9800) = Inr q \<and> 0 \<le> q
    \<and> of_int q * rnd64 (10000 - 9800) \<le> 10000 \<and> of_int q * 10000 \<le> (200000 :: rat)
    \<and> (10000 < (of_int q + 1) * rnd64 (10000 - 9800) \<or> (200000 :: rat) < (of_int q + 1) * 10000))"
proof -
  have "rnd64 200 = 200" using rnd64_of_int [of 200] by simp
  then have "calculate_quantity sample_risk (Fin 10000) (Fin 9800) = Inr 20"
    using calculate_quantity_normal [OF sample_sizing] by simp
  then show ?thesis using sizing_maximal [OF sample_sizing] by blast
qed

section \<open>The gate\<close>

text \<open>The limits an entry has to respect, stated apart from the order the code checks them in.\<close>

definition entry_limits :: "risk_config \<Rightarrow> portfolio_state \<Rightarrow> order_intent \<Rightarrow> bool" where
  "entry_limits config p i = (oi_symbol i \<noteq> [] \<and> oi_strategy i \<noteq> [] \<and> oi_signal_id i \<noteq> []
     \<and> \<not> invalid_ladder (oi_entry_price i) (oi_stop_loss i)
     \<and> (\<forall>c. oi_confidence i = Some c \<longrightarrow> \<not> flt c (rk_minimum_confidence config))
     \<and> oi_symbol i \<notin> ps_symbol ` set (pf_open_positions p)
     \<and> int (length (pf_open_positions p)) < rk_max_positions config
     \<and> \<not> fle (pf_daily_pnl_krw p) (fneg (pct_of (rk_allocated_krw config) (rk_max_daily_loss_pct config)))
     \<and> pf_consecutive_losses p < rk_consecutive_loss_limit config
     \<and> (\<forall>n. rk_max_trades_per_day config = Some n \<longrightarrow> pf_trades_today p < n)
     \<and> orders_for p (oi_symbol i) < rk_max_orders_per_symbol config)"

definition exposure_after :: "portfolio_state \<Rightarrow> order_intent \<Rightarrow> int \<Rightarrow> pyfloat" where
  "exposure_after p i q = fadd (pf_current_exposure_krw p) (fmul (f_int q) (oi_entry_price i))"

lemma if_reject:
  "(\<exists>r. (if c then Inr (reject a) else k) = Inr (reject r)) \<longleftrightarrow> c \<or> (\<exists>r. k = Inr (reject r))"
  by auto

lemma limits_broken:
  assumes "\<not> entry_limits config p i"
  shows "\<exists>r. evaluate_order_intent config p i = Inr (reject r)"
proof -
  have conf: "(\<forall>c. x = Some c \<longrightarrow> \<not> f c) = (\<not> (case x of None \<Rightarrow> False | Some c \<Rightarrow> f c))"
    for x :: "'z option" and f by (cases x) simp_all
  have trades: "(\<forall>n. x = Some n \<longrightarrow> m < n) = (\<not> (case x of None \<Rightarrow> False | Some n \<Rightarrow> n \<le> m))"
    for x and m :: int by (cases x) auto
  have sym: "(a \<notin> ps_symbol ` set l) = (\<not> list_ex (\<lambda>x. ps_symbol x = a) l)" for a l
    by (auto simp: list_ex_iff image_iff)
  show ?thesis
    using assms
    unfolding entry_limits_def evaluate_order_intent_def if_reject conf trades sym not_le [symmetric] by blast
qed

definition size_and_cap :: "risk_config \<Rightarrow> portfolio_state \<Rightarrow> order_intent \<Rightarrow> int \<Rightarrow> risk_decision" where
  "size_and_cap config p i quantity =
     (if quantity \<le> 0 then reject ''calculated_quantity_zero''
      else if flt (pct_of (rk_allocated_krw config) (rk_max_total_exposure_pct config)) (exposure_after p i quantity)
      then reject ''max_total_exposure_reached''
      else \<lparr>rd_approved = True, rd_reason = ''approved'', rd_quantity = quantity,
            rd_max_loss_krw = fmul (f_int quantity) (fsub (oi_entry_price i) (oi_stop_loss i))\<rparr>)"

lemma limits_kept:
  assumes "entry_limits config p i"
  shows "evaluate_order_intent config p i
      = rbind (calculate_quantity config (oi_entry_price i) (oi_stop_loss i)) (\<lambda>q. Inr (size_and_cap config p i q))"
proof -
  have "\<not> list_ex (\<lambda>x. ps_symbol x = oi_symbol i) (pf_open_positions p)"
    "\<not> (case oi_confidence i of None \<Rightarrow> False | Some c \<Rightarrow> flt c (rk_minimum_confidence config))"
    "\<not> (case rk_max_trades_per_day config of None \<Rightarrow> False | Some n \<Rightarrow> n \<le> pf_trades_today p)"
    using assms unfolding entry_limits_def by (auto simp: list_ex_iff image_iff split: option.splits)
  then show ?thesis
    using assms
    unfolding entry_limits_def evaluate_order_intent_def size_and_cap_def exposure_after_def Let_def
    by (cases "calculate_quantity config (oi_entry_price i) (oi_stop_loss i)") simp_all
qed

lemma size_and_cap_approved:
  "rd_approved (size_and_cap config p i x) \<and> rd_quantity (size_and_cap config p i x) = q \<longleftrightarrow>
     x = q \<and> 0 < q \<and> \<not> flt (pct_of (rk_allocated_krw config) (rk_max_total_exposure_pct config)) (exposure_after p i q)"
  "\<not> rd_approved (size_and_cap config p i x) \<Longrightarrow> rd_quantity (size_and_cap config p i x) = 0"
  by (auto simp: size_and_cap_def reject_def split: if_splits)

lemma reject_fields [simp]: "\<not> rd_approved (reject r)" "rd_quantity (reject r) = 0"
  by (simp_all add: reject_def)

text \<open>
  (C22) \<open>evaluate_order_intent\<close> approves an intent exactly when all entry limits hold, the size is positive and
  the exposure after the order is not above the cap; the approved quantity is the calculated size.
  A rejected intent carries quantity 0. The evaluation raises only where the sizing raises.
\<close>

theorem risk_gate_iff_limits:
  "((\<exists>d. evaluate_order_intent config p i = Inr d \<and> rd_approved d \<and> rd_quantity d = q) \<longleftrightarrow>
     entry_limits config p i \<and> 0 < q
     \<and> calculate_quantity config (oi_entry_price i) (oi_stop_loss i) = Inr q
     \<and> \<not> flt (pct_of (rk_allocated_krw config) (rk_max_total_exposure_pct config)) (exposure_after p i q))
   \<and> \<not> (\<exists>d. evaluate_order_intent config p i = Inr d \<and> \<not> rd_approved d \<and> rd_quantity d \<noteq> 0)
   \<and> ((\<exists>e. evaluate_order_intent config p i = Inl e) \<longleftrightarrow>
     entry_limits config p i \<and> (\<exists>e. calculate_quantity config (oi_entry_price i) (oi_stop_loss i) = Inl e))"
  (is "(?approved = ?allowed) \<and> \<not> ?padded \<and> (?raises = ?sizing_raises)")
proof -
  consider (broken) r where "\<not> entry_limits config p i" "evaluate_order_intent config p i = Inr (reject r)"
    | (raised) e where "entry_limits config p i" "evaluate_order_intent config p i = Inl e"
        "calculate_quantity config (oi_entry_price i) (oi_stop_loss i) = Inl e"
    | (sized) x where "entry_limits config p i" "evaluate_order_intent config p i = Inr (size_and_cap config p i x)"
        "calculate_quantity config (oi_entry_price i) (oi_stop_loss i) = Inr x"
    using limits_broken limits_kept
    by (cases "calculate_quantity config (oi_entry_price i) (oi_stop_loss i)"; cases "entry_limits config p i")
      (force+)
  then have "?approved = ?allowed" "\<not> ?padded" "?raises = ?sizing_raises"
    using size_and_cap_approved by (cases; force)+
  then show ?thesis by blast
qed

end
