(* ===== verification/PositionManager.thy ===== *)
theory PositionManager
  imports PyTime
begin

text \<open>
  The position life cycle (\<open>execution/position_manager.py\<close>): which exit, if any, a price asks for, and the
  position after it. Shown: the quantities an exit asks for fit the position and applying the
  decision accounts for them; and a partial exit moves the stop to a level the
  validation of the next evaluation rejects.
\<close>

section \<open>Model\<close>

datatype position_action = HOLD | PARTIAL_EXIT | EXIT

record managed_position =
  mp_symbol :: string
  mp_quantity :: int
  mp_entry_price :: pyfloat
  mp_stop_loss :: pyfloat
  mp_tp1_price :: pyfloat
  mp_tp2_price :: pyfloat
  mp_opened_at :: datetime
  mp_tp1_ratio :: pyfloat
  mp_tp1_filled :: bool
  mp_highest_price :: "pyfloat option"
  mp_trailing_active :: bool
  mp_max_holding_seconds :: "int option"

record position_decision =
  pd_action :: position_action
  pd_reason :: string
  pd_quantity :: int
  pd_new_stop_loss :: "pyfloat option"
  pd_trailing_active :: "bool option"
  pd_highest_price :: "pyfloat option"

text \<open>\<open>a or b\<close> on an optional number: zero counts as missing.\<close>

definition float_or :: "pyfloat option \<Rightarrow> 'a \<Rightarrow> (pyfloat \<Rightarrow> 'a) \<Rightarrow> 'a" where
  "float_or a b f = (case a of None \<Rightarrow> b | Some x \<Rightarrow> if x = Fin 0 then b else f x)"

definition price_ok :: "pyfloat \<Rightarrow> bool" where
  "price_ok p = (isfinite p \<and> flt (Fin 0) p)"

definition pm_validate :: "managed_position \<Rightarrow> pyfloat \<Rightarrow> datetime \<Rightarrow> unit result" where
  "pm_validate p current_price now =
     guard_else (strip (mp_symbol p) = []) (ValueError ''symbol must not be empty'')
     (guard_else (mp_quantity p < 1) (ValueError ''quantity must be positive'')
     (guard_else (\<not> list_all price_ok
          [current_price, mp_entry_price p, mp_stop_loss p, mp_tp1_price p, mp_tp2_price p])
        (ValueError ''prices must be finite and positive'')
     (guard_else (\<not> (flt (Fin 0) (mp_tp1_ratio p) \<and> flt (mp_tp1_ratio p) (Fin 1)))
        (ValueError ''tp1_ratio must be greater than 0 and less than 1'')
     (guard_else (\<not> (flt (mp_stop_loss p) (mp_entry_price p) \<and> flt (mp_entry_price p) (mp_tp1_price p)
                     \<and> fle (mp_tp1_price p) (mp_tp2_price p)))
        (ValueError ''price ladder must satisfy stop_loss < entry_price < tp1_price <= tp2_price'')
     (guard_else (case mp_max_holding_seconds p of None \<Rightarrow> False | Some n \<Rightarrow> n < 0)
        (ValueError ''max_holding_seconds must not be negative'')
     (guard_else (case mp_highest_price p of None \<Rightarrow> False | Some h \<Rightarrow> \<not> isfinite h \<or> fle h (Fin 0))
        (ValueError ''highest_price must be finite and positive'')
     (rbind (dt_lt now (mp_opened_at p)) (\<lambda>early.
        guard_else early (ValueError ''now must not precede opened_at'')
        (guard_else ((dt_tz now = None) \<noteq> (dt_tz (mp_opened_at p) = None))
           (ValueError ''opened_at and now must use compatible timezone information'') (Inr ()))))))))))"

definition one_plus_pct :: "pyfloat \<Rightarrow> pyfloat" where
  "one_plus_pct pct = fadd (Fin 1) (fquot pct (Fin 100))"

definition partial_quantity :: "managed_position \<Rightarrow> int result" where
  "partial_quantity p = rbind (float_operand (mp_quantity p)) (\<lambda>q.
     rbind (py_floor (fadd (fmul q (mp_tp1_ratio p)) (Fin (1 / 2)))) (\<lambda>half_up.
       Inr (min (mp_quantity p - 1) (max 1 half_up))))"

definition evaluate_position ::
  "managed_position \<Rightarrow> pyfloat \<Rightarrow> datetime \<Rightarrow> pyfloat \<Rightarrow> pyfloat \<Rightarrow> pyfloat \<Rightarrow> position_decision result" where
  "evaluate_position p current_price now trailing_start_pct trailing_drop_pct break_even_buffer_pct =
     rbind (pm_validate p current_price now) (\<lambda>_.
     guard_else (flt trailing_start_pct (Fin 0) \<or> flt trailing_drop_pct (Fin 0) \<or> flt break_even_buffer_pct (Fin 0))
       (ValueError ''trailing and break-even percentages must not be negative'')
     (let highest_price = fmax current_price (float_or (mp_highest_price p) current_price id);
          trailing_active = (mp_trailing_active p \<or>
            fle (fmul (mp_entry_price p) (one_plus_pct trailing_start_pct)) current_price);
          decide = (\<lambda>action reason quantity new_stop. \<lparr>pd_action = action, pd_reason = reason,
            pd_quantity = quantity, pd_new_stop_loss = new_stop,
            pd_trailing_active = Some trailing_active, pd_highest_price = Some highest_price\<rparr>)
      in if fle current_price (mp_stop_loss p)
         then Inr (decide EXIT ''stop_loss'' (mp_quantity p) None)
         else rbind (dt_sub now (mp_opened_at p)) (\<lambda>held.
           if (case mp_max_holding_seconds p of None \<Rightarrow> False
               | Some n \<Rightarrow> fle (Fin (of_int n)) (total_seconds held))
             \<and> \<not> mp_tp1_filled p \<and> flt current_price (mp_tp1_price p)
           then Inr (decide EXIT ''time_stop'' (mp_quantity p) None)
           else if fle (mp_tp2_price p) current_price
           then Inr (decide EXIT ''take_profit_2'' (mp_quantity p) None)
           else if \<not> mp_tp1_filled p \<and> fle (mp_tp1_price p) current_price
           then (if mp_quantity p = 1 then Inr (decide EXIT ''take_profit_1_single_share'' 1 None)
                 else rbind (partial_quantity p) (\<lambda>partial.
                   Inr (decide PARTIAL_EXIT ''take_profit_1'' (min partial (mp_quantity p))
                     (Some (fmul (mp_entry_price p) (one_plus_pct break_even_buffer_pct))))))
           else if trailing_active
             \<and> fle current_price (fmul highest_price (fsub (Fin 1) (fquot trailing_drop_pct (Fin 100))))
           then Inr (decide EXIT ''trailing_stop'' (mp_quantity p) None)
           else Inr (decide HOLD ''hold'' 0 None))))"

definition keep_trail :: "managed_position \<Rightarrow> position_decision \<Rightarrow> managed_position" where
  "keep_trail p d = p\<lparr>mp_highest_price := float_or (pd_highest_price d) (mp_highest_price p) Some,
     mp_trailing_active := (case pd_trailing_active d of None \<Rightarrow> mp_trailing_active p | Some b \<Rightarrow> b)\<rparr>"

definition apply_position_decision :: "managed_position \<Rightarrow> position_decision \<Rightarrow> managed_position result" where
  "apply_position_decision p d = (case pd_action d of
      PARTIAL_EXIT \<Rightarrow> (let remaining = mp_quantity p - pd_quantity d in
        guard_else (remaining < 1) (ValueError ''partial exit must leave at least one share'')
        (Inr ((keep_trail p d)\<lparr>mp_quantity := remaining, mp_tp1_filled := True,
               mp_stop_loss := float_or (pd_new_stop_loss d) (mp_stop_loss p) id\<rparr>)))
    | EXIT \<Rightarrow> Inr ((keep_trail p d)\<lparr>mp_quantity := 0\<rparr>)
    | HOLD \<Rightarrow> Inr (keep_trail p d))"

section \<open>Decisions\<close>

lemma pm_validate_Inr: "pm_validate p c now = Inr u \<Longrightarrow> 1 \<le> mp_quantity p \<and> price_ok (mp_entry_price p)
    \<and> flt (mp_stop_loss p) (mp_entry_price p) \<and> tz_compatible now (mp_opened_at p)"
  by (auto simp: pm_validate_def result_iffs tz_compatible_def)

lemma partial_quantity_bounds: "partial_quantity p = Inr q \<Longrightarrow> 1 < mp_quantity p \<Longrightarrow> 1 \<le> q \<and> q < mp_quantity p"
  by (auto simp: partial_quantity_def result_iffs)

text \<open>The five ways an evaluation can end, with what each says of the decision.\<close>

lemma evaluate_position_cases:
  assumes "evaluate_position p c now ts td be = Inr d"
  obtains (stop) "fle c (mp_stop_loss p)" "pd_action d = EXIT" "pd_quantity d = mp_quantity p"
      "pd_reason d = ''stop_loss''"
    | (exit) "\<not> fle c (mp_stop_loss p)" "pd_action d = EXIT" "pd_quantity d = mp_quantity p"
    | (partial) q where "\<not> fle c (mp_stop_loss p)" "pd_action d = PARTIAL_EXIT" "pd_quantity d = q" "1 \<le> q"
      "q < mp_quantity p" "\<not> fle (mp_tp2_price p) c" "fle (mp_tp1_price p) c"
      "pd_new_stop_loss d = Some (fmul (mp_entry_price p) (one_plus_pct be))"
    | (hold) "\<not> fle c (mp_stop_loss p)" "pd_action d = HOLD" "pd_quantity d = 0" "\<not> fle (mp_tp2_price p) c"
proof -
  obtain u where v: "pm_validate p c now = Inr u" using assms by (auto simp: evaluate_position_def result_iffs)
  note ok = pm_validate_Inr [OF v]
  show thesis
    using assms v ok that partial_quantity_bounds [of p]
    unfolding evaluate_position_def Let_def dt_sub_def
    by (simp add: guard_else_eq_Inr split: if_splits) (force simp: rbind_eq_Inr min_def)+
qed

text \<open>
  Whatever the prices, a decision of \<open>evaluate_position\<close> fits the position: a hold sells nothing, an exit
  sells all of it, a partial exit sells at least one share and leaves at least one, and
  \<open>apply_position_decision\<close> accepts it and leaves exactly the rest. A price at or below the stop always
  exits in full for that reason, and a price at or above the second target never holds and is never a partial exit.
\<close>

theorem position_decision_fits:
  assumes "evaluate_position p c now ts td be = Inr d"
  shows "(\<exists>p'. apply_position_decision p d = Inr p' \<and> mp_quantity p' = mp_quantity p - pd_quantity d)
    \<and> (pd_action d = HOLD \<and> pd_quantity d = 0
       \<or> pd_action d = EXIT \<and> pd_quantity d = mp_quantity p
       \<or> pd_action d = PARTIAL_EXIT \<and> 1 \<le> pd_quantity d \<and> pd_quantity d < mp_quantity p)
    \<and> (fle c (mp_stop_loss p) \<longrightarrow> pd_reason d = ''stop_loss'')
    \<and> (fle c (mp_stop_loss p) \<or> fle (mp_tp2_price p) c \<longrightarrow> pd_action d = EXIT)"
  using assms by (cases rule: evaluate_position_cases) (auto simp: apply_position_decision_def keep_trail_def Let_def)

section \<open>The break-even stop\<close>

lemma scaled_price_not_below:
  assumes e: "is_f64 e" "price_ok e" and b: "\<not> flt b (Fin 0)"
  shows "\<not> flt (fmul e (one_plus_pct b)) e"
proof -
  obtain x where x: "e = Fin x" "0 < x" using e(2) by (cases e) (auto simp: price_ok_def)
  have r: "rnd64 x = x" using e(1) x by simp
  show ?thesis
  proof (cases b)
    case (Fin y)
    then have y: "0 \<le> y / 100" using b by simp
    have fin: "\<not> flt (fmul e (fl z)) e" if "1 \<le> z" for z
    proof -
      have "1 \<le> rnd64 z" using f64.rnd_above [of 1 z] that rnd64_of_int [of 1] by simp
      then have "x \<le> rnd64 (x * rnd64 z)" using f64.scale_up [OF r] x by simp
      then show ?thesis
        using fl_nonneg [of z] fl_nonneg [of "x * rnd64 z"] that x \<open>1 \<le> rnd64 z\<close> by (auto simp: inf_of_sign_def)
    qed
    consider "fl (y / 100) = Fin (rnd64 (y / 100))" "0 \<le> rnd64 (y / 100)" | "fl (y / 100) = PInf"
      using fl_nonneg [OF y] rnd64_nonneg [OF y] by blast
    then show ?thesis using fin [of "1 + rnd64 (y / 100)"] x by cases (simp_all add: one_plus_pct_def Fin inf_of_sign_def)
  qed (use b x in \<open>simp_all add: one_plus_pct_def inf_of_sign_def\<close>)
qed

lemma evaluate_position_needs:
  assumes "\<not> (price_ok (mp_stop_loss p) \<and> flt (mp_stop_loss p) (mp_entry_price p))"
  shows "\<exists>m. evaluate_position p c now ts td be = Inl (ValueError m)"
  using assms by (auto simp: evaluate_position_def pm_validate_def guard_else_def)

text \<open>
  The stop a first-target exit moves to is never below the entry price (it is the entry price itself
  for the default buffer of 0 percent), and the validation of the next evaluation demands a stop strictly below the entry.
  So after every partial exit the remaining shares cannot be evaluated any more: for every later price,
  time and setting \<open>evaluate_position\<close> raises \<open>ValueError\<close> instead of deciding about the stop.
\<close>

theorem partial_exit_blocks_evaluation:
  assumes "evaluate_position p c now ts td be = Inr d" "pd_action d = PARTIAL_EXIT" "is_f64 (mp_entry_price p)"
  shows "\<exists>p'. apply_position_decision p d = Inr p' \<and> 0 < mp_quantity p'
    \<and> (\<forall>c' now' ts' td' be'. \<exists>m. evaluate_position p' c' now' ts' td' be' = Inl (ValueError m))"
proof -
  obtain u where v: "pm_validate p c now = Inr u" and be: "\<not> flt be (Fin 0)"
    using assms(1) by (auto simp: evaluate_position_def result_iffs)
  note ok = pm_validate_Inr [OF v]
  let ?stop = "fmul (mp_entry_price p) (one_plus_pct be)"
  have stop: "\<not> flt ?stop (mp_entry_price p)" using scaled_price_not_below assms(3) ok be by blast
  then have nz: "?stop \<noteq> Fin 0" using ok by (metis price_ok_def)
  have "pd_quantity d < mp_quantity p" "pd_new_stop_loss d = Some ?stop"
    using assms(1,2) by (cases rule: evaluate_position_cases; simp)+
  then have "\<exists>p'. apply_position_decision p d = Inr p' \<and> 0 < mp_quantity p'
      \<and> mp_stop_loss p' = ?stop \<and> mp_entry_price p' = mp_entry_price p"
    using assms(2) nz by (simp add: apply_position_decision_def keep_trail_def Let_def float_or_def)
  then show ?thesis using stop evaluate_position_needs by metis
qed

definition sample_position :: managed_position where
  "sample_position = \<lparr>mp_symbol = ''005930'', mp_quantity = 10, mp_entry_price = Fin 100, mp_stop_loss = Fin 98,
     mp_tp1_price = Fin 101, mp_tp2_price = Fin 102, mp_opened_at = sample_time, mp_tp1_ratio = Fin (1 / 2),
     mp_tp1_filled = False, mp_highest_price = None, mp_trailing_active = False, mp_max_holding_seconds = None\<rparr>"

lemma sample_partial:
  "\<exists>d. evaluate_position sample_position (Fin 101) sample_time (Fin 0) (Fin 0) (Fin 0) = Inr d
     \<and> pd_action d = PARTIAL_EXIT \<and> pd_quantity d = 5"
proof -
  have v: "pm_validate sample_position (Fin 101) sample_time = Inr ()"
    by (simp add: pm_validate_def sample_position_def price_ok_def dt_lt_def tz_compatible_def string_eval)
  have "fl (11 / 2) = Fin (11 / 2)"
    using rnd64_exact [of 11 "- 1"] p2_53_1024 by (simp add: fl_def Let_def p2_def)
  moreover have "\<lfloor>11 / 2 :: rat\<rfloor> = 5" by linarith
  ultimately have "partial_quantity sample_position = Inr 5"
    by (simp add: partial_quantity_def float_operand_def sample_position_def)
  then show ?thesis
    unfolding evaluate_position_def v
    by (simp add: Let_def sample_position_def dt_sub_def tz_compatible_def)
qed

theorem position_decision_fits_witness:
  "\<exists>d p'. apply_position_decision sample_position d = Inr p' \<and> mp_quantity p' = 10 - pd_quantity d
     \<and> pd_action d = PARTIAL_EXIT \<and> pd_quantity d = 5"
proof -
  obtain d where d: "evaluate_position sample_position (Fin 101) sample_time (Fin 0) (Fin 0) (Fin 0) = Inr d"
    "pd_action d = PARTIAL_EXIT" "pd_quantity d = 5" using sample_partial by blast
  moreover have "mp_quantity sample_position = 10" by (simp add: sample_position_def)
  ultimately show ?thesis using position_decision_fits [OF d(1)] by metis
qed

theorem partial_exit_blocks_evaluation_witness:
  "\<exists>d p'. evaluate_position sample_position (Fin 101) sample_time (Fin 0) (Fin 0) (Fin 0) = Inr d
     \<and> apply_position_decision sample_position d = Inr p' \<and> 0 < mp_quantity p'
     \<and> (\<exists>m. evaluate_position p' (Fin 90) sample_time (Fin 0) (Fin 0) (Fin 0) = Inl (ValueError m))"
proof -
  have "is_f64 (mp_entry_price sample_position)"
    using rnd64_of_int [of 100] p2_53_1024 by (simp add: sample_position_def)
  then show ?thesis using sample_partial partial_exit_blocks_evaluation by meson
qed

end
