(* ===== verification/OrderState.thy ===== *)
theory OrderState
  imports Prelude
begin

text \<open>
  The dry-run life cycle of a trading idea (\<open>execution/state_machine.py\<close>): nine states, nine commands and
  one transition table. Runs of commands are a step relation; shown are the position invariant, the
  absorbing safe mode and that every other state can get back to flat.
\<close>

datatype idea_state = FLAT | WATCHING | ARMED | ENTRY_PENDING | LONG | PARTIAL_LONG | EXIT_PENDING
  | S_COOLDOWN | S_SAFE_MODE

datatype command = WATCH | ARM | SUBMIT_ENTRY | MARK_ENTRY_FILLED | MARK_TP1_FILLED | SUBMIT_EXIT
  | MARK_EXIT_FILLED | C_COOLDOWN | C_SAFE_MODE

fun idea_state_str :: "idea_state \<Rightarrow> string" where
  "idea_state_str FLAT = ''FLAT''"
| "idea_state_str WATCHING = ''WATCHING''"
| "idea_state_str ARMED = ''ARMED''"
| "idea_state_str ENTRY_PENDING = ''ENTRY_PENDING''"
| "idea_state_str LONG = ''LONG''"
| "idea_state_str PARTIAL_LONG = ''PARTIAL_LONG''"
| "idea_state_str EXIT_PENDING = ''EXIT_PENDING''"
| "idea_state_str S_COOLDOWN = ''COOLDOWN''"
| "idea_state_str S_SAFE_MODE = ''SAFE_MODE''"

fun command_str :: "command \<Rightarrow> string" where
  "command_str WATCH = ''WATCH''"
| "command_str ARM = ''ARM''"
| "command_str SUBMIT_ENTRY = ''SUBMIT_ENTRY''"
| "command_str MARK_ENTRY_FILLED = ''MARK_ENTRY_FILLED''"
| "command_str MARK_TP1_FILLED = ''MARK_TP1_FILLED''"
| "command_str SUBMIT_EXIT = ''SUBMIT_EXIT''"
| "command_str MARK_EXIT_FILLED = ''MARK_EXIT_FILLED''"
| "command_str C_COOLDOWN = ''COOLDOWN''"
| "command_str C_SAFE_MODE = ''SAFE_MODE''"

definition TRANSITIONS :: "((idea_state \<times> command) \<times> idea_state) list" where
  "TRANSITIONS =
    [((FLAT, WATCH), WATCHING),
     ((WATCHING, ARM), ARMED),
     ((ARMED, SUBMIT_ENTRY), ENTRY_PENDING),
     ((ENTRY_PENDING, MARK_ENTRY_FILLED), LONG),
     ((LONG, MARK_TP1_FILLED), PARTIAL_LONG),
     ((LONG, SUBMIT_EXIT), EXIT_PENDING),
     ((PARTIAL_LONG, SUBMIT_EXIT), EXIT_PENDING),
     ((EXIT_PENDING, MARK_EXIT_FILLED), FLAT),
     ((FLAT, C_COOLDOWN), S_COOLDOWN),
     ((WATCHING, C_COOLDOWN), S_COOLDOWN),
     ((ARMED, C_COOLDOWN), S_COOLDOWN),
     ((S_COOLDOWN, WATCH), WATCHING)]"

definition invalid_transition :: "idea_state \<Rightarrow> command \<Rightarrow> exc" where
  "invalid_transition s c = ValueError (''invalid transition: '' @ idea_state_str s @ '' + '' @ command_str c)"

definition transition :: "idea_state \<Rightarrow> command \<Rightarrow> idea_state result" where
  "transition s c = (if c = C_SAFE_MODE then Inr S_SAFE_MODE
     else if s = S_SAFE_MODE then Inl (invalid_transition s c)
     else case map_of TRANSITIONS (s, c) of Some t \<Rightarrow> Inr t | None \<Rightarrow> Inl (invalid_transition s c))"

section \<open>Runs\<close>

inductive idea_run :: "idea_state \<Rightarrow> command list \<Rightarrow> idea_state \<Rightarrow> bool" where
  start: "idea_run s [] s"
| step: "idea_run s cs t \<Longrightarrow> transition t c = Inr u \<Longrightarrow> idea_run s (cs @ [c]) u"

inductive_cases idea_run_snocE: "idea_run s (cs @ [c]) u"

text \<open>The states in which shares are held, and the ones that lie beyond each order submission.\<close>

definition holding :: "idea_state \<Rightarrow> bool" where
  "holding s = (s = LONG \<or> s = PARTIAL_LONG \<or> s = EXIT_PENDING)"

definition exiting :: "idea_state \<Rightarrow> nat" where
  "exiting s = (if s = EXIT_PENDING then 1 else 0)"

definition entering :: "idea_state \<Rightarrow> nat" where
  "entering s = (if s = ENTRY_PENDING then 1 else 0)"

lemma transition_table:
  "transition s c = Inr u \<Longrightarrow> u \<noteq> S_SAFE_MODE \<Longrightarrow> s \<noteq> S_SAFE_MODE \<and> ((s, c), u) \<in> set TRANSITIONS"
  by (auto simp: transition_def split: if_splits option.splits dest: map_of_SomeD)

lemma count_list_snoc: "count_list (xs @ [x]) y = count_list xs y + (if x = y then 1 else 0)"
  by (induction xs) auto

text \<open>
  (C31) In every run from \<open>FLAT\<close> that does not end in safe mode the books match: submitted entries are the
  filled ones plus the pending one, filled entries are the filled exits plus the position held, and
  submitted exits are the filled exits plus the pending one. So no exit is submitted without a filled entry and no second
  entry while a position is held.
\<close>

theorem idea_run_books:
  assumes "idea_run FLAT cs s" "s \<noteq> S_SAFE_MODE"
  shows "count_list cs SUBMIT_ENTRY = count_list cs MARK_ENTRY_FILLED + entering s
    \<and> count_list cs MARK_ENTRY_FILLED = count_list cs MARK_EXIT_FILLED + of_bool (holding s)
    \<and> count_list cs SUBMIT_EXIT = count_list cs MARK_EXIT_FILLED + exiting s"
  using assms
proof (induction FLAT cs s rule: idea_run.induct)
  case start
  then show ?case by (simp add: entering_def exiting_def holding_def)
next
  case (step cs t c u)
  have "t \<noteq> S_SAFE_MODE" "((t, c), u) \<in> set TRANSITIONS" using transition_table step by blast+
  with step.hyps(2) show ?case
    unfolding TRANSITIONS_def
    by (auto simp: count_list_snoc entering_def exiting_def holding_def)
qed

theorem idea_run_books_witness:
  "idea_run FLAT [WATCH, ARM, SUBMIT_ENTRY, MARK_ENTRY_FILLED] LONG
   \<and> count_list [WATCH, ARM, SUBMIT_ENTRY, MARK_ENTRY_FILLED] SUBMIT_ENTRY
     = count_list [WATCH, ARM, SUBMIT_ENTRY, MARK_ENTRY_FILLED] MARK_ENTRY_FILLED + entering LONG
   \<and> count_list [WATCH, ARM, SUBMIT_ENTRY, MARK_ENTRY_FILLED] MARK_ENTRY_FILLED
     = count_list [WATCH, ARM, SUBMIT_ENTRY, MARK_ENTRY_FILLED] MARK_EXIT_FILLED + of_bool (holding LONG)"
proof -
  have "idea_run FLAT ([] @ [WATCH]) WATCHING"
    by (rule step [OF start]) (simp add: transition_def TRANSITIONS_def)
  then have "idea_run FLAT (([] @ [WATCH]) @ [ARM]) ARMED"
    by (rule step) (simp add: transition_def TRANSITIONS_def)
  then have "idea_run FLAT ((([] @ [WATCH]) @ [ARM]) @ [SUBMIT_ENTRY]) ENTRY_PENDING"
    by (rule step) (simp add: transition_def TRANSITIONS_def)
  then have r: "idea_run FLAT (((([] @ [WATCH]) @ [ARM]) @ [SUBMIT_ENTRY]) @ [MARK_ENTRY_FILLED]) LONG"
    by (rule step) (simp add: transition_def TRANSITIONS_def)
  then show ?thesis using idea_run_books [OF r] by simp
qed

section \<open>Safe mode and the way back\<close>

fun way_home :: "idea_state \<Rightarrow> command list" where
  "way_home FLAT = []"
| "way_home EXIT_PENDING = [MARK_EXIT_FILLED]"
| "way_home LONG = [SUBMIT_EXIT, MARK_EXIT_FILLED]"
| "way_home PARTIAL_LONG = [SUBMIT_EXIT, MARK_EXIT_FILLED]"
| "way_home ENTRY_PENDING = [MARK_ENTRY_FILLED, SUBMIT_EXIT, MARK_EXIT_FILLED]"
| "way_home ARMED = [SUBMIT_ENTRY, MARK_ENTRY_FILLED, SUBMIT_EXIT, MARK_EXIT_FILLED]"
| "way_home WATCHING = [ARM, SUBMIT_ENTRY, MARK_ENTRY_FILLED, SUBMIT_EXIT, MARK_EXIT_FILLED]"
| "way_home S_COOLDOWN = [WATCH, ARM, SUBMIT_ENTRY, MARK_ENTRY_FILLED, SUBMIT_EXIT, MARK_EXIT_FILLED]"
| "way_home S_SAFE_MODE = []"

fun run_commands :: "idea_state \<Rightarrow> command list \<Rightarrow> idea_state result" where
  "run_commands s [] = Inr s"
| "run_commands s (c # cs) = rbind (transition s c) (\<lambda>t. run_commands t cs)"

lemma idea_run_append: "idea_run t cs u \<Longrightarrow> idea_run s bs t \<Longrightarrow> idea_run s (bs @ cs) u"
proof (induction t cs u rule: idea_run.induct)
  case (step t cs u c v)
  then have "idea_run s ((bs @ cs) @ [c]) v" by (blast intro: idea_run.step)
  then show ?case by simp
qed simp

lemma run_commands_idea_run: "run_commands s cs = Inr t \<Longrightarrow> idea_run s cs t"
proof (induction cs arbitrary: s)
  case (Cons c cs)
  then obtain u where "transition s c = Inr u" "idea_run u cs t" by (auto simp: rbind_eq_Inr)
  then show ?case
    using idea_run_append [of u cs t s "[c]"] idea_run.step [OF start, of s c u] by simp
qed (auto intro: start)

lemma way_home_runs: "s \<noteq> S_SAFE_MODE \<Longrightarrow> run_commands s (way_home s) = Inr FLAT"
  by (cases s) (simp_all add: transition_def TRANSITIONS_def)

lemma safe_mode_absorbing: "idea_run S_SAFE_MODE cs s \<Longrightarrow> s = S_SAFE_MODE"
  by (induction S_SAFE_MODE cs s rule: idea_run.induct) (auto simp: transition_def split: if_splits)

text \<open>
  (C32) Every state except safe mode can get back to \<open>FLAT\<close> by some run; safe mode is accepted in every state and
  is never left by any run.
\<close>

theorem flat_reachable_unless_safe_mode:
  "(\<exists>cs. idea_run s cs FLAT) = (s \<noteq> S_SAFE_MODE) \<and> transition s C_SAFE_MODE = Inr S_SAFE_MODE
   \<and> (\<exists>cs. idea_run S_SAFE_MODE cs t) = (t = S_SAFE_MODE)"
proof -
  have "\<exists>cs. idea_run s cs FLAT" if "s \<noteq> S_SAFE_MODE"
    using run_commands_idea_run [OF way_home_runs [OF that]] by blast
  moreover have "transition s C_SAFE_MODE = Inr S_SAFE_MODE" by (simp add: transition_def)
  ultimately show ?thesis using safe_mode_absorbing start by blast
qed

end
