(* ===== verification/SignalLedger.thy ===== *)
theory SignalLedger
  imports PyTime
begin

text \<open>
  Signal identifiers and the in-memory guard against repeats (\<open>execution/idempotency.py\<close>). The SHA-256 hex
  digest is a parameter of the identifier. Shown: the shape of an identifier, and that over any
  sequence of requests a signal is accepted at most once.
\<close>

datatype signal_time = TS_DATETIME datetime | TS_DATE datetime | TS_TEXT string

definition canonical_timestamp :: "signal_time \<Rightarrow> string result" where
  "canonical_timestamp t = (let value = (case t of
       TS_DATETIME d \<Rightarrow> iso_head d @ iso_tz (dt_tz d)
     | TS_DATE d \<Rightarrow> take 10 (iso_head d)
     | TS_TEXT s \<Rightarrow> strip s)
   in guard_else (value = []) (ValueError ''timestamp must not be empty'') (Inr value))"

text \<open>\<open>re.sub("[^A-Za-z0-9]+", "_", s)\<close>: each maximal run of other characters becomes one underscore.\<close>

fun squeeze :: "bool \<Rightarrow> string \<Rightarrow> string" where
  "squeeze in_run [] = []"
| "squeeze in_run (c # cs) = (if is_alnum_char c then c # squeeze False cs
     else if in_run then squeeze True cs else CHR ''_'' # squeeze True cs)"

definition strip_underscores :: "string \<Rightarrow> string" where
  "strip_underscores s = rev (dropWhile (\<lambda>c. c = CHR ''_'') (rev (dropWhile (\<lambda>c. c = CHR ''_'') s)))"

definition id_prefix :: "string \<Rightarrow> string result" where
  "id_prefix value = (let normalized = strip_underscores (squeeze False (strip value))
     in guard_else (normalized = []) (ValueError ''strategy and symbol must not be empty'') (Inr (upper normalized)))"

definition build_signal_id :: "(string \<Rightarrow> string) \<Rightarrow> string \<Rightarrow> string \<Rightarrow> signal_time \<Rightarrow> string result" where
  "build_signal_id sha256_hex strategy symbol timestamp =
     rbind (canonical_timestamp timestamp) (\<lambda>t.
       let canonical = strip strategy @ ''|'' @ strip symbol @ ''|'' @ t;
           suffix = take 12 (sha256_hex canonical)
       in rbind (id_prefix strategy) (\<lambda>a. rbind (id_prefix symbol) (\<lambda>b.
            Inr (a @ '':'' @ b @ '':'' @ suffix))))"

type_synonym signal_set = "string list"

definition signal_record :: "string \<Rightarrow> signal_set \<Rightarrow> bool result \<times> signal_set" where
  "signal_record signal_id seen = (let s = strip signal_id in
     if s = [] then (Inl (ValueError ''signal_id must not be empty''), seen)
     else if s \<in> set seen then (Inl (DuplicateSignalError (''duplicate signal_id: '' @ s)), seen)
     else (Inr True, s # seen))"

definition signal_seen :: "string \<Rightarrow> signal_set \<Rightarrow> bool" where
  "signal_seen signal_id seen = (strip signal_id \<in> set seen)"

definition signal_count :: "signal_set \<Rightarrow> nat" where
  "signal_count seen = length seen"

definition signal_init :: "string list \<Rightarrow> signal_set" where
  "signal_init signal_ids = remdups signal_ids"

section \<open>Identifiers\<close>

abbreviation id_char :: "char \<Rightarrow> bool" where
  "id_char c \<equiv> is_alnum_char c \<or> c = CHR ''_''"

lemma squeeze_chars: "list_all id_char (squeeze b s)"
  by (induction b s rule: squeeze.induct) auto

lemma list_all_dropWhile: "list_all P xs \<Longrightarrow> list_all P (dropWhile Q xs)"
  by (induction xs) auto

lemma upper_char: "is_lower_char c \<Longrightarrow> char_of (ch_code c - 32) \<noteq> CHR '':''"
proof
  assume l: "is_lower_char c" and "char_of (ch_code c - 32) = CHR '':''"
  then have "of_char (char_of (ch_code c - 32) :: char) = (58 :: nat)" by simp
  then show False using l by (auto simp: is_lower_char_def ch_code_def Let_def)
qed

lemma id_char_not_colon: "id_char c \<Longrightarrow> c \<noteq> CHR '':''"
  by (auto simp: is_alnum_char_def is_digit_char_def is_upper_char_def is_lower_char_def ch_code_def)

lemma id_prefix_no_colon: "id_prefix v = Inr a \<Longrightarrow> CHR '':'' \<notin> set a"
proof -
  assume "id_prefix v = Inr a"
  then have a: "a = upper (strip_underscores (squeeze False (strip v)))"
    by (auto simp: id_prefix_def Let_def guard_else_eq_Inr)
  have "list_all id_char (strip_underscores (squeeze False (strip v)))"
    unfolding strip_underscores_def by (simp add: list_all_dropWhile squeeze_chars)
  then show ?thesis using a upper_char id_char_not_colon by (fastforce simp: upper_def list_all_iff)
qed

lemma split_at_colon:
  assumes "CHR '':'' \<notin> set a" "CHR '':'' \<notin> set b" "a @ CHR '':'' # x = b @ CHR '':'' # y"
  shows "a = b \<and> x = y"
  using assms by (induction a arbitrary: b) (auto simp: Cons_eq_append_conv append_eq_Cons_conv)

text \<open>
  An identifier determines the normalized strategy, the normalized symbol and the hash suffix it was built from:
  signals that differ in one of them never share an identifier, whatever the hash function returns.
\<close>

theorem signal_id_determines_parts:
  assumes "build_signal_id h strategy symbol t = Inr i" "build_signal_id h strategy' symbol' t' = Inr i"
  shows "id_prefix strategy = id_prefix strategy' \<and> id_prefix symbol = id_prefix symbol'
    \<and> (\<exists>c c'. canonical_timestamp t = Inr c \<and> canonical_timestamp t' = Inr c'
        \<and> take 12 (h (strip strategy @ ''|'' @ strip symbol @ ''|'' @ c))
          = take 12 (h (strip strategy' @ ''|'' @ strip symbol' @ ''|'' @ c')))"
proof -
  have parts: "\<exists>a b c. id_prefix st = Inr a \<and> id_prefix sy = Inr b \<and> canonical_timestamp tm = Inr c
      \<and> CHR '':'' \<notin> set a \<and> CHR '':'' \<notin> set b
      \<and> j = a @ CHR '':'' # b @ CHR '':'' # take 12 (h (strip st @ ''|'' @ strip sy @ ''|'' @ c))"
    if "build_signal_id h st sy tm = Inr j" for st sy tm j
    using that id_prefix_no_colon by (auto simp: build_signal_id_def rbind_eq_Inr Let_def)
  show ?thesis using parts [OF assms(1)] parts [OF assms(2)] split_at_colon by metis
qed

theorem signal_id_determines_parts_witness:
  "build_signal_id rev ''pullback watch'' ''005930'' (TS_TEXT ''09:00'') = Inr ''PULLBACK_WATCH:005930:00:90|039500''
   \<and> id_prefix ''pullback watch'' = id_prefix '' pullback-watch''
   \<and> id_prefix ''005930'' = id_prefix ''005930 ''"
proof -
  have a: "build_signal_id rev ''pullback watch'' ''005930'' (TS_TEXT ''09:00'')
      = Inr ''PULLBACK_WATCH:005930:00:90|039500''" by code_simp
  have b: "build_signal_id rev '' pullback-watch'' ''005930 '' (TS_TEXT ''09:00'')
      = Inr ''PULLBACK_WATCH:005930:00:90|039500''" by code_simp
  show ?thesis using signal_id_determines_parts [OF a b] a by blast
qed

section \<open>At most once\<close>

fun record_all :: "string list \<Rightarrow> signal_set \<Rightarrow> string list \<times> signal_set" where
  "record_all [] seen = ([], seen)"
| "record_all (s # ss) seen = (case signal_record s seen of
      (Inr _, seen') \<Rightarrow> (case record_all ss seen' of (acc, fin) \<Rightarrow> (strip s # acc, fin))
    | (Inl _, seen') \<Rightarrow> record_all ss seen')"

lemma record_all_parts:
  assumes "record_all ss seen = (acc, fin)"
  shows "distinct acc \<and> set acc = strip ` set ss - {[]} - set seen \<and> set fin = set seen \<union> set acc
    \<and> length fin = length seen + length acc"
  using assms
proof (induction ss arbitrary: seen acc fin)
  case (Cons s ss)
  show ?case
  proof (cases "strip s = [] \<or> strip s \<in> set seen")
    case True
    then have "record_all ss seen = (acc, fin)" using Cons.prems
      by (auto simp: signal_record_def Let_def split: if_splits)
    from Cons.IH [OF this] show ?thesis using True by auto
  next
    case False
    then obtain acc' where "record_all ss (strip s # seen) = (acc', fin)" "acc = strip s # acc'"
      using Cons.prems by (auto simp: signal_record_def Let_def split: prod.splits)
    with Cons.IH [of "strip s # seen" acc' fin] False show ?thesis by auto
  qed
qed simp

text \<open>
  Over any sequence of requests \<open>SignalLedger.record\<close> accepts exactly the non-empty signals that were not
  known before, each of them once; what it has seen afterwards is what it knew plus what it accepted.
\<close>

theorem signals_recorded_once:
  "distinct (fst (record_all ss (signal_init ids)))
   \<and> set (fst (record_all ss (signal_init ids))) = strip ` set ss - {[]} - set ids
   \<and> signal_seen x (snd (record_all ss (signal_init ids))) = (strip x \<in> set ids \<union> (strip ` set ss - {[]}))
   \<and> signal_count (snd (record_all ss (signal_init ids))) = card (set ids \<union> (strip ` set ss - {[]}))"
proof -
  obtain acc fin where r: "record_all ss (signal_init ids) = (acc, fin)" by fastforce
  note p = record_all_parts [OF r]
  have u: "set ids \<union> (strip ` set ss - {[]}) = set ids \<union> set acc" and d: "set ids \<inter> set acc = {}"
    using p by (auto simp: signal_init_def)
  have "length fin = card (set ids) + card (set acc)"
    using p distinct_card [of acc] by (metis length_remdups_card_conv signal_init_def)
  also have "\<dots> = card (set ids \<union> (strip ` set ss - {[]}))" using u d by (simp add: card_Un_disjoint)
  finally have c: "signal_count fin = card (set ids \<union> (strip ` set ss - {[]}))" by (simp add: signal_count_def)
  have "signal_seen x fin = (strip x \<in> set ids \<union> (strip ` set ss - {[]}))"
    using p u by (simp add: signal_seen_def signal_init_def)
  then show ?thesis using p c r by (simp add: signal_init_def)
qed

end
