(* ===== verification/PaperLedger.thy ===== *)
theory PaperLedger
  imports Storage
begin

text \<open>
  The in-memory paper-trading ledger (\<open>paper/ledger.py\<close>): orders, fills and long-only positions. Dictionaries are
  lists of rows in insertion order. Shown: a run of submissions and fills keeps the books balanced,
  and fills are counted once.
\<close>

section \<open>Model\<close>

datatype paper_status = P_PENDING | P_FILLED | P_REJECTED | P_CANCELLED

fun paper_status_str :: "paper_status \<Rightarrow> string" where
  "paper_status_str P_PENDING = ''PENDING''"
| "paper_status_str P_FILLED = ''FILLED''"
| "paper_status_str P_REJECTED = ''REJECTED''"
| "paper_status_str P_CANCELLED = ''CANCELLED''"

record paper_order =
  po_order_id :: string
  po_symbol :: string
  po_side :: side
  po_quantity :: int
  po_price :: pyfloat
  po_status :: paper_status
  po_filled_quantity :: int

record paper_fill =
  pf_fill_id :: string
  pf_order_id :: string
  pf_quantity :: int
  pf_price :: pyfloat

record paper_position =
  pp_symbol :: string
  pp_quantity :: int
  pp_avg_price :: pyfloat

record paper_ledger =
  pl_orders :: "paper_order list"
  pl_fills :: "paper_fill list"
  pl_positions :: "paper_position list"
  pl_realized_pnl :: pyfloat

record paper_trade_report =
  pr_realized_pnl :: pyfloat
  pr_positions :: "paper_position list"
  pr_open_orders :: "paper_order list"

definition new_ledger :: paper_ledger where
  "new_ledger = \<lparr>pl_orders = [], pl_fills = [], pl_positions = [], pl_realized_pnl = Fin 0\<rparr>"

text \<open>\<open>d[key] = row\<close>: replaces in place or appends.\<close>

definition dict_put :: "('r \<Rightarrow> 'k) \<Rightarrow> 'r \<Rightarrow> 'r list \<Rightarrow> 'r list" where
  "dict_put k r t = (if exists_where (\<lambda>x. k x = k r) t then update_where (\<lambda>x. k x = k r) (\<lambda>_. r) t else t @ [r])"

definition validate_trade_values :: "string \<Rightarrow> int \<Rightarrow> pyfloat \<Rightarrow> unit result" where
  "validate_trade_values symbol quantity price =
     guard_else (strip symbol = []) (ValueError ''symbol must not be empty'')
     (guard_else (quantity \<le> 0) (ValueError ''quantity must be positive'')
     (guard_else (\<not> isfinite price \<or> fle price (Fin 0)) (ValueError ''price must be finite and positive'') (Inr ())))"

definition validate_identifier :: "string \<Rightarrow> string \<Rightarrow> unit result" where
  "validate_identifier value label =
     guard_else (strip value = []) (ValueError (label @ '' must not be empty'')) (Inr ())"

type_synonym 'a plop = "paper_ledger \<Rightarrow> 'a result \<times> paper_ledger"

definition check_then :: "unit result \<Rightarrow> 'a plop \<Rightarrow> 'a plop" where
  "check_then r k l = (case r of Inl e \<Rightarrow> (Inl e, l) | Inr _ \<Rightarrow> k l)"

definition find_order :: "string \<Rightarrow> paper_ledger \<Rightarrow> paper_order option" where
  "find_order i l = fetchone (\<lambda>r. po_order_id r = i) (pl_orders l)"

definition find_position :: "string \<Rightarrow> paper_ledger \<Rightarrow> paper_position option" where
  "find_position s l = fetchone (\<lambda>r. pp_symbol r = s) (pl_positions l)"

definition covers :: "paper_position option \<Rightarrow> int \<Rightarrow> bool" where
  "covers position q = (case position of None \<Rightarrow> False | Some p \<Rightarrow> q \<le> pp_quantity p)"

definition paper_submit_order :: "paper_order \<Rightarrow> paper_order plop" where
  "paper_submit_order intent =
     check_then (validate_identifier (po_order_id intent) ''order_id'')
     (check_then (validate_trade_values (po_symbol intent) (po_quantity intent) (po_price intent))
     (\<lambda>l. case find_order (po_order_id intent) l of
        Some existing \<Rightarrow>
          (if po_symbol existing \<noteq> po_symbol intent \<or> po_side existing \<noteq> po_side intent
              \<or> po_quantity existing \<noteq> po_quantity intent \<or> \<not> feq (po_price existing) (po_price intent)
           then (Inl (ValueError (''conflicting paper order id: '' @ po_order_id intent)), l)
           else (Inr existing, l))
      | None \<Rightarrow>
          let stored = intent\<lparr>po_filled_quantity := 0,
                po_status := (if po_side intent = SELL
                    \<and> \<not> covers (find_position (po_symbol intent) l) (po_quantity intent)
                  then P_REJECTED else P_PENDING)\<rparr>
          in (Inr stored, l\<lparr>pl_orders := pl_orders l @ [stored]\<rparr>)))"

definition average_price :: "int \<Rightarrow> pyfloat \<Rightarrow> int \<Rightarrow> pyfloat \<Rightarrow> pyfloat result" where
  "average_price old_quantity old_avg q price =
     rbind (float_operand old_quantity) (\<lambda>a. rbind (float_operand q) (\<lambda>b.
     rbind (float_operand (old_quantity + q)) (\<lambda>n.
       fdiv (fadd (fmul a old_avg) (fmul b price)) n)))"

definition paper_apply_fill :: "paper_order \<Rightarrow> paper_fill \<Rightarrow> paper_position option \<Rightarrow> unit plop" where
  "paper_apply_fill order fill position l = (if po_side order = BUY
     then (let old_quantity = (case position of None \<Rightarrow> 0 | Some p \<Rightarrow> pp_quantity p);
               old_avg = (case position of None \<Rightarrow> Fin 0 | Some p \<Rightarrow> pp_avg_price p)
           in case average_price old_quantity old_avg (pf_quantity fill) (pf_price fill) of
                Inl e \<Rightarrow> (Inl e, l)
              | Inr average \<Rightarrow> (Inr (), l\<lparr>pl_positions := dict_put pp_symbol
                  \<lparr>pp_symbol = po_symbol order, pp_quantity = old_quantity + pf_quantity fill,
                   pp_avg_price = average\<rparr> (pl_positions l)\<rparr>))
     else case position of None \<Rightarrow> (Inl (AssertionError []), l)
       | Some p \<Rightarrow> (case float_operand (pf_quantity fill) of Inl e \<Rightarrow> (Inl e, l)
           | Inr q \<Rightarrow>
             let l' = l\<lparr>pl_realized_pnl := fadd (pl_realized_pnl l)
                         (fmul (fsub (pf_price fill) (pp_avg_price p)) q)\<rparr>;
                 remaining = pp_quantity p - pf_quantity fill
             in if remaining \<noteq> 0
                then (Inr (), l'\<lparr>pl_positions := dict_put pp_symbol
                  \<lparr>pp_symbol = po_symbol order, pp_quantity = remaining, pp_avg_price = pp_avg_price p\<rparr> (pl_positions l)\<rparr>)
                else (Inr (), l'\<lparr>pl_positions := delete_where (\<lambda>r. pp_symbol r = po_symbol order) (pl_positions l)\<rparr>)))"

definition count_fill :: "paper_order \<Rightarrow> paper_fill \<Rightarrow> paper_order" where
  "count_fill order fill = (let filled = po_filled_quantity order + pf_quantity fill in
     order\<lparr>po_filled_quantity := filled,
           po_status := (if filled = po_quantity order then P_FILLED else po_status order)\<rparr>)"

definition book_fill :: "paper_fill \<Rightarrow> paper_fill plop" where
  "book_fill fill l = (case find_order (pf_order_id fill) l of
      None \<Rightarrow> (Inl (KeyError (''unknown paper order: '' @ pf_order_id fill)), l)
    | Some order \<Rightarrow>
      let position = find_position (po_symbol order) l in
      op_guard (po_status order = P_REJECTED \<or> po_status order = P_CANCELLED)
        (ValueError (''cannot fill order in '' @ paper_status_str (po_status order) @ '' status''))
      (op_guard (po_quantity order < po_filled_quantity order + pf_quantity fill)
        (ValueError ''fill quantity exceeds order quantity'')
      (op_guard (po_side order = SELL \<and> \<not> covers position (pf_quantity fill))
        (ValueError ''sell fill exceeds current long position'')
      (op_bind (paper_apply_fill order fill position) (\<lambda>_ l'.
         (Inr fill, l'\<lparr>pl_fills := pl_fills l' @ [fill],
            pl_orders := update_where (\<lambda>r. po_order_id r = pf_order_id fill)
              (\<lambda>r. count_fill r fill) (pl_orders l')\<rparr>))))) l)"

definition paper_fill_order :: "paper_fill \<Rightarrow> paper_fill plop" where
  "paper_fill_order fill =
     check_then (validate_identifier (pf_fill_id fill) ''fill_id'')
     (check_then (validate_identifier (pf_order_id fill) ''order_id'')
     (check_then (validate_trade_values ''fill'' (pf_quantity fill) (pf_price fill))
     (\<lambda>l. case fetchone (\<lambda>r. pf_fill_id r = pf_fill_id fill) (pl_fills l) of
        Some existing \<Rightarrow>
          (if pf_order_id existing \<noteq> pf_order_id fill \<or> pf_quantity existing \<noteq> pf_quantity fill
              \<or> \<not> feq (pf_price existing) (pf_price fill)
           then (Inl (ValueError (''conflicting paper fill id: '' @ pf_fill_id fill)), l)
           else (Inr existing, l))
      | None \<Rightarrow> book_fill fill l)))"

definition open_orders :: "paper_ledger \<Rightarrow> paper_order list" where
  "open_orders l = filter (\<lambda>r. po_status r = P_PENDING) (pl_orders l)"

definition paper_report :: "paper_ledger \<Rightarrow> paper_trade_report" where
  "paper_report l = \<lparr>pr_realized_pnl = pl_realized_pnl l, pr_positions = pl_positions l,
     pr_open_orders = open_orders l\<rparr>"

section \<open>Balanced books\<close>

definition side_sign :: "side \<Rightarrow> int" where
  "side_sign s = (if s = BUY then 1 else - 1)"

definition held :: "paper_ledger \<Rightarrow> string \<Rightarrow> int" where
  "held l s = (case find_position s l of None \<Rightarrow> 0 | Some p \<Rightarrow> pp_quantity p)"

definition fill_effect :: "paper_order list \<Rightarrow> string \<Rightarrow> paper_fill \<Rightarrow> int" where
  "fill_effect os s f = (case fetchone (\<lambda>r. po_order_id r = pf_order_id f) os of None \<Rightarrow> 0
     | Some r \<Rightarrow> if po_symbol r = s then side_sign (po_side r) * pf_quantity f else 0)"

definition net_traded :: "paper_ledger \<Rightarrow> string \<Rightarrow> int" where
  "net_traded l s = sum_list (map (fill_effect (pl_orders l) s) (pl_fills l))"

definition filled_of :: "paper_ledger \<Rightarrow> string \<Rightarrow> int" where
  "filled_of l i = sum_list (map pf_quantity (filter (\<lambda>f. pf_order_id f = i) (pl_fills l)))"

definition order_balanced :: "paper_ledger \<Rightarrow> paper_order \<Rightarrow> bool" where
  "order_balanced l r = (po_filled_quantity r = filled_of l (po_order_id r)
     \<and> po_filled_quantity r \<le> po_quantity r
     \<and> (po_status r = P_FILLED \<longrightarrow> po_filled_quantity r = po_quantity r))"

definition paper_ok :: "paper_ledger \<Rightarrow> bool" where
  "paper_ok l = (keyed po_order_id (pl_orders l) \<and> keyed pf_fill_id (pl_fills l)
     \<and> (\<forall>f\<in>set (pl_fills l). \<exists>r\<in>set (pl_orders l). po_order_id r = pf_order_id f)
     \<and> (\<forall>r\<in>set (pl_orders l). order_balanced l r)
     \<and> (\<forall>p\<in>set (pl_positions l). 0 < pp_quantity p)
     \<and> (\<forall>s. held l s = net_traded l s))"

lemma fetchone_dict_put:
  "fetchone (\<lambda>x. k x = i) (dict_put k r t) = (if i = k r then Some r else fetchone (\<lambda>x. k x = i) t)"
proof (cases "exists_where (\<lambda>x. k x = k r) t")
  case True
  have "fetchone (\<lambda>x. k x = i) (update_where (\<lambda>x. k x = k r) (\<lambda>_. r) t)
      = (if i = k r \<and> exists_where (\<lambda>x. k x = k r) t then Some r else fetchone (\<lambda>x. k x = i) t)"
    by (induction t) (auto simp: fetchone_Cons update_where_def exists_where_def)
  then show ?thesis using True unfolding dict_put_def by simp
next
  case False
  then have "fetchone (\<lambda>x. k x = k r) t = None" by (simp add: exists_where_iff fetchone_None)
  then show ?thesis using False unfolding dict_put_def
    by (cases "i = k r") (simp_all add: fetchone_append fetchone_Cons split: option.splits)
qed

lemma fetchone_delete_where:
  "fetchone (\<lambda>x. k x = i) (delete_where (\<lambda>x. k x = j) t) = (if i = j then None else fetchone (\<lambda>x. k x = i) t)"
  by (induction t) (auto simp: delete_where_def fetchone_Cons)

lemma set_dict_put: "x \<in> set (dict_put k r t) \<Longrightarrow> x = r \<or> x \<in> set t"
  by (auto simp: dict_put_def set_update_where split: if_splits)

lemma held_nonneg: "\<forall>p\<in>set (pl_positions l). 0 < pp_quantity p \<Longrightarrow> 0 \<le> held l s"
  by (cases "find_position s l") (auto simp: held_def find_position_def dest!: fetchone_SomeD)

lemma apply_fill_effect:
  assumes "paper_apply_fill r f (find_position (po_symbol r) l) l = (Inr u, l')" "0 < pf_quantity f"
    "po_side r = SELL \<Longrightarrow> covers (find_position (po_symbol r) l) (pf_quantity f)"
    "\<forall>p\<in>set (pl_positions l). 0 < pp_quantity p"
  shows "pl_orders l' = pl_orders l \<and> pl_fills l' = pl_fills l
    \<and> (\<forall>p\<in>set (pl_positions l'). 0 < pp_quantity p)
    \<and> held l' s = held l s + (if po_symbol r = s then side_sign (po_side r) * pf_quantity f else 0)"
proof -
  note old = held_nonneg [OF assms(4), of "po_symbol r"]
  show ?thesis
  proof (cases "po_side r")
    case BUY
    then obtain a where "l' = l\<lparr>pl_positions := dict_put pp_symbol \<lparr>pp_symbol = po_symbol r,
        pp_quantity = held l (po_symbol r) + pf_quantity f, pp_avg_price = a\<rparr> (pl_positions l)\<rparr>"
      using assms(1) by (auto simp: paper_apply_fill_def held_def Let_def split: sum.splits)
    with BUY old assms(2,4) show ?thesis
      by (auto dest: set_dict_put simp: held_def find_position_def fetchone_dict_put side_sign_def)
  next
    case SELL
    then obtain p where p: "find_position (po_symbol r) l = Some p" "pf_quantity f \<le> pp_quantity p"
      using assms(3) by (auto simp: covers_def split: option.splits)
    then have h: "held l (po_symbol r) = pp_quantity p" by (simp add: held_def)
    let ?rest = "\<lparr>pp_symbol = po_symbol r, pp_quantity = pp_quantity p - pf_quantity f, pp_avg_price = pp_avg_price p\<rparr>"
    from assms(1) SELL p consider
        (some) "pp_quantity p \<noteq> pf_quantity f" "pl_positions l' = dict_put pp_symbol ?rest (pl_positions l)"
          "pl_orders l' = pl_orders l" "pl_fills l' = pl_fills l"
      | (none) "pp_quantity p = pf_quantity f"
          "pl_positions l' = delete_where (\<lambda>x. pp_symbol x = po_symbol r) (pl_positions l)"
          "pl_orders l' = pl_orders l" "pl_fills l' = pl_fills l"
      by (auto simp: paper_apply_fill_def Let_def split: sum.splits if_splits)
    then show ?thesis
    proof cases
      case some
      then have "\<forall>x\<in>set (pl_positions l'). 0 < pp_quantity x" using p(2) assms(4) by (auto dest!: set_dict_put)
      then show ?thesis using some SELL h by (auto simp: held_def find_position_def side_sign_def fetchone_dict_put)
    next
      case none
      then show ?thesis
        using SELL h assms(4)
        by (auto simp: held_def find_position_def side_sign_def fetchone_delete_where set_delete_where)
    qed
  qed
qed

lemma fill_effect_count: "fill_effect (update_where q (\<lambda>r. count_fill r f) os) = fill_effect os"
proof -
  have [simp]: "po_order_id (count_fill r f) = po_order_id r" "po_symbol (count_fill r f) = po_symbol r"
    "po_side (count_fill r f) = po_side r" for r by (simp_all add: count_fill_def Let_def)
  show ?thesis by (intro ext) (auto simp: fill_effect_def fetchone_update_where split: option.splits)
qed

lemma new_fill_ok:
  assumes ok: "paper_ok l" and r: "find_order (pf_order_id f) l = Some r"
    and fit: "po_filled_quantity r + pf_quantity f \<le> po_quantity r" "0 < pf_quantity f"
    and new: "\<forall>g\<in>set (pl_fills l). pf_fill_id g \<noteq> pf_fill_id f"
    and cov: "po_side r = SELL \<Longrightarrow> covers (find_position (po_symbol r) l) (pf_quantity f)"
    and run: "paper_apply_fill r f (find_position (po_symbol r) l) l = (Inr u, l')"
  shows "paper_ok (l'\<lparr>pl_fills := pl_fills l' @ [f],
    pl_orders := update_where (\<lambda>r. po_order_id r = pf_order_id f) (\<lambda>r. count_fill r f) (pl_orders l')\<rparr>)"
    (is "paper_ok ?n")
proof -
  note ok' = ok [unfolded paper_ok_def]
  have rin: "r \<in> set (pl_orders l)" "po_order_id r = pf_order_id f"
    using fetchone_SomeD r unfolding find_order_def by fastforce+
  note e = apply_fill_effect [OF run fit(2) cov]
  have [simp]: "pl_orders l' = pl_orders l" "pl_fills l' = pl_fills l" using e ok' by blast+
  have held: "held ?n s = held l s + (if po_symbol r = s then side_sign (po_side r) * pf_quantity f else 0)" for s
    using e [of s] ok' by (simp add: held_def find_position_def)
  have net: "net_traded ?n s = net_traded l s + (if po_symbol r = s then side_sign (po_side r) * pf_quantity f else 0)" for s
  proof -
    have "fill_effect (pl_orders l) s f = (if po_symbol r = s then side_sign (po_side r) * pf_quantity f else 0)"
      using r by (simp add: fill_effect_def find_order_def)
    then show ?thesis by (simp add: net_traded_def fill_effect_count)
  qed
  have bal: "order_balanced ?n o'" if mem: "o' \<in> set (pl_orders ?n)" for o'
  proof -
    have key: "keyed po_order_id (pl_orders l)" using ok' by blast
    have "x = r" if "x \<in> set (pl_orders l)" "po_order_id x = pf_order_id f" for x
      using keyed_unique [OF key that(1) rin(1)] that(2) rin(2) by simp
    then consider (same) "o' \<in> set (pl_orders l)" "po_order_id o' \<noteq> pf_order_id f" | (booked) "o' = count_fill r f"
      using mem by (auto simp: set_update_where)
    then show ?thesis
    proof cases
      case same
      then show ?thesis using ok' by (auto simp: order_balanced_def filled_of_def)
    next
      case booked
      have "order_balanced l r" using ok' rin by blast
      then show ?thesis
        using booked fit rin by (auto simp: order_balanced_def filled_of_def count_fill_def Let_def)
    qed
  qed
  have "keyed po_order_id (pl_orders ?n)"
    using ok' by (simp add: keyed_update_where count_fill_def Let_def)
  moreover have "keyed pf_fill_id (pl_fills ?n)" using ok' new by (simp add: keyed_snoc)
  moreover have "\<forall>g\<in>set (pl_fills ?n). \<exists>x\<in>set (pl_orders ?n). po_order_id x = pf_order_id g"
  proof
    fix g assume "g \<in> set (pl_fills ?n)"
    then obtain x where x: "x \<in> set (pl_orders l)" "po_order_id x = pf_order_id g" using ok' rin by auto
    let ?x = "if po_order_id x = pf_order_id f then count_fill x f else x"
    have "?x \<in> set (pl_orders ?n)" using x by (simp add: update_where_def)
    moreover have "po_order_id ?x = pf_order_id g" using x by (simp add: count_fill_def Let_def)
    ultimately show "\<exists>x\<in>set (pl_orders ?n). po_order_id x = pf_order_id g" by blast
  qed
  moreover have "\<forall>p\<in>set (pl_positions ?n). 0 < pp_quantity p" using e ok' by simp
  ultimately show ?thesis unfolding paper_ok_def using held net bal ok' by simp
qed

lemma new_order_ok:
  assumes ok: "paper_ok l" and new: "find_order (po_order_id r) l = None"
    and z: "po_filled_quantity r = 0" "0 < po_quantity r" "po_status r \<noteq> P_FILLED"
  shows "paper_ok (l\<lparr>pl_orders := pl_orders l @ [r]\<rparr>)" (is "paper_ok ?n")
proof -
  note ok' = ok [unfolded paper_ok_def]
  have fresh: "\<forall>x\<in>set (pl_orders l). po_order_id x \<noteq> po_order_id r"
    using new by (simp add: find_order_def fetchone_None)
  then have none: "\<forall>f\<in>set (pl_fills l). pf_order_id f \<noteq> po_order_id r" using ok' by fastforce
  have "fill_effect (pl_orders l @ [r]) s f = fill_effect (pl_orders l) s f" if "f \<in> set (pl_fills l)" for s f
    using none that by (auto simp: fill_effect_def fetchone_append fetchone_Cons split: option.splits)
  then have "net_traded ?n s = net_traded l s" for s by (auto simp: net_traded_def intro: arg_cong [where f = sum_list])
  moreover have "order_balanced ?n r"
    using z none by (auto simp: order_balanced_def filled_of_def filter_False)
  moreover have "\<forall>x\<in>set (pl_orders l). order_balanced ?n x"
    using ok' unfolding order_balanced_def filled_of_def by auto
  ultimately show ?thesis
    using ok' fresh unfolding paper_ok_def by (auto simp: keyed_snoc held_def find_position_def)
qed

lemma check_then_Inr: "check_then r k l = (Inr x, l') \<longleftrightarrow> (\<exists>u. r = Inr u) \<and> k l = (Inr x, l')"
  by (auto simp: check_then_def split: sum.splits)

lemma preserves_check [preserves_rules]: "(r = Inr () \<Longrightarrow> preserves I k) \<Longrightarrow> preserves I (check_then r k)"
  by (cases r) (simp_all add: preserves_def check_then_def)

lemma validate_trade_values_Inr: "validate_trade_values s q p = Inr u \<Longrightarrow> 0 < q \<and> isfinite p"
  by (auto simp: validate_trade_values_def guard_else_eq_Inr)

lemma feq_finite: "isfinite p \<Longrightarrow> feq p p"
  by (cases p) simp_all

lemma paper_submit_order_ok: "preserves paper_ok (paper_submit_order i)"
  unfolding paper_submit_order_def
  by (intro preserves_check preservesI) (auto simp: Let_def intro!: new_order_ok
      dest!: validate_trade_values_Inr split: option.splits)

text \<open>Booking a fill either raises and leaves the ledger alone, or applies it to its order.\<close>

lemma paper_apply_fill_raises: "paper_apply_fill r f p l = (Inl e, l') \<Longrightarrow> l' = l"
  by (auto simp: paper_apply_fill_def Let_def split: if_splits sum.splits option.splits)

lemma book_fill_cases:
  obtains (raises) e where "book_fill f l = (Inl e, l)"
  | (books) r l' where "find_order (pf_order_id f) l = Some r"
      "po_filled_quantity r + pf_quantity f \<le> po_quantity r"
      "po_side r = SELL \<Longrightarrow> covers (find_position (po_symbol r) l) (pf_quantity f)"
      "paper_apply_fill r f (find_position (po_symbol r) l) l = (Inr (), l')"
      "book_fill f l = (Inr f, l'\<lparr>pl_fills := pl_fills l' @ [f],
         pl_orders := update_where (\<lambda>r. po_order_id r = pf_order_id f) (\<lambda>r. count_fill r f) (pl_orders l')\<rparr>)"
proof (cases "find_order (pf_order_id f) l")
  case None
  then show thesis using raises by (simp add: book_fill_def)
next
  case (Some r)
  obtain x l' where run: "paper_apply_fill r f (find_position (po_symbol r) l) l = (x, l')" by fastforce
  have "(\<exists>e. book_fill f l = (Inl e, l))
    \<or> po_filled_quantity r + pf_quantity f \<le> po_quantity r
      \<and> (po_side r = SELL \<longrightarrow> covers (find_position (po_symbol r) l) (pf_quantity f)) \<and> x = Inr ()
      \<and> book_fill f l = (Inr f, l'\<lparr>pl_fills := pl_fills l' @ [f],
         pl_orders := update_where (\<lambda>r. po_order_id r = pf_order_id f) (\<lambda>r. count_fill r f) (pl_orders l')\<rparr>)"
    using paper_apply_fill_raises [of r f] Some run
    by (cases x) (auto simp: book_fill_def Let_def op_guard_def op_bind_def)
  then show thesis using raises books Some run by blast
qed

lemma paper_fill_order_ok: "preserves paper_ok (paper_fill_order f)"
  unfolding paper_fill_order_def
proof (intro preserves_check, rule preservesI)
  fix l :: paper_ledger
  assume v: "validate_trade_values ''fill'' (pf_quantity f) (pf_price f) = Inr ()" and ok: "paper_ok l"
  note q = validate_trade_values_Inr [OF v]
  have "paper_ok (snd (book_fill f l))" if "\<forall>g\<in>set (pl_fills l). pf_fill_id g \<noteq> pf_fill_id f"
    using new_fill_ok ok q that by (cases rule: book_fill_cases [of f l]) auto
  with ok show "paper_ok (snd (case fetchone (\<lambda>r. pf_fill_id r = pf_fill_id f) (pl_fills l) of
        Some existing \<Rightarrow>
          (if pf_order_id existing \<noteq> pf_order_id f \<or> pf_quantity existing \<noteq> pf_quantity f
              \<or> \<not> feq (pf_price existing) (pf_price f)
           then (Inl (ValueError (''conflicting paper fill id: '' @ pf_fill_id f)), l)
           else (Inr existing, l))
      | None \<Rightarrow> book_fill f l))"
    by (auto simp: fetchone_None split: option.splits)
qed

datatype paper_request = P_SUBMIT paper_order | P_FILL paper_fill

fun paper_handle :: "paper_request \<Rightarrow> paper_ledger \<Rightarrow> paper_ledger" where
  "paper_handle (P_SUBMIT i) l = snd (paper_submit_order i l)"
| "paper_handle (P_FILL f) l = snd (paper_fill_order f l)"

definition paper_run :: "paper_request list \<Rightarrow> paper_ledger" where
  "paper_run rs = foldl (\<lambda>l r. paper_handle r l) new_ledger rs"

lemma new_ledger_ok: "paper_ok new_ledger"
  by (simp add: paper_ok_def new_ledger_def held_def find_position_def net_traded_def)

lemma paper_run_ok: "paper_ok (paper_run rs)"
  unfolding paper_run_def
proof (induction rs rule: rev_induct)
  case (snoc r rs)
  then show ?case
    using preservesD [OF paper_submit_order_ok] preservesD [OF paper_fill_order_ok] by (cases r) simp_all
qed (simp add: new_ledger_ok)

text \<open>
  (C33) After any sequence of submissions and fills, accepted or not, the paper ledger is balanced: every symbol
  holds exactly its bought minus its sold fills and is never short, and every order's filled quantity is the sum of its
  fills and at most its quantity.
\<close>

theorem paper_books_balanced:
  "held (paper_run rs) s = net_traded (paper_run rs) s \<and> 0 \<le> held (paper_run rs) s
   \<and> list_all (\<lambda>r. po_filled_quantity r = filled_of (paper_run rs) (po_order_id r)
       \<and> po_filled_quantity r \<le> po_quantity r) (pl_orders (paper_run rs))"
proof -
  note ok = paper_run_ok [of rs, unfolded paper_ok_def]
  then have "0 \<le> held (paper_run rs) s" using held_nonneg by blast
  then show ?thesis using ok by (auto simp: order_balanced_def list_all_iff)
qed

text \<open>
  Delivering the same fill again is harmless in every ledger state: the second delivery gives the same answer,
  value or exception, and changes nothing.
\<close>

theorem paper_fill_idempotent:
  "paper_fill_order f (snd (paper_fill_order f l)) = paper_fill_order f l"
proof (cases "\<exists>u. validate_trade_values ''fill'' (pf_quantity f) (pf_price f) = Inr u")
  case True
  then have p: "feq (pf_price f) (pf_price f)"
    using feq_finite by (blast dest: validate_trade_values_Inr)
  let ?hit = "\<lambda>l. fetchone (\<lambda>r. pf_fill_id r = pf_fill_id f) (pl_fills l)"
  have booked: "?hit (snd (book_fill f l)) = Some f"
    if "?hit l = None" "fst (book_fill f l) = Inr g" for g
  proof (cases rule: book_fill_cases [of f l])
    case (books r l')
    have "pl_fills l' = pl_fills l"
      using books(4) by (auto simp: paper_apply_fill_def Let_def split: if_splits sum.splits option.splits)
    then show ?thesis using books(5) that by (simp add: fetchone_append fetchone_Cons)
  qed (use that in \<open>simp\<close>)
  have same: "book_fill f l = (Inl e, l') \<Longrightarrow> l' = l" "book_fill f l = (Inr g, l') \<Longrightarrow> g = f" for e g l'
    by (cases rule: book_fill_cases [of f l]; simp)+
  show ?thesis
    using booked same p
    by (cases "book_fill f l"; cases "fst (book_fill f l)")
      (auto simp: paper_fill_order_def check_then_def split: sum.splits option.splits)
next
  case False
  then show ?thesis by (auto simp: paper_fill_order_def check_then_def split: sum.splits)
qed

end
