(* ===== verification/PaperStore.thy ===== *)
theory PaperStore
  imports Storage RiskEngine "HOL-Library.AList"
begin

text \<open>
  The paper journal: the tables \<open>paper_orders\<close> and \<open>paper_fills\<close> of \<open>storage/database.py\<close> and the report over them
  (\<open>paper/report.py\<close>). In \<open>paper_positions\<close> the name \<open>quantity\<close> of the HAVING clause is both a column and an alias;
  SQLite resolves it to the column, of some row of the group. The REAL sum is a parameter.
\<close>

section \<open>Model\<close>

record paper_order_row =
  por_order_id :: string
  por_signal_id :: string
  por_symbol :: string
  por_side :: string
  por_quantity :: int
  por_price :: pyfloat
  por_status :: string
  por_created_at :: string

record paper_fill_row =
  pfr_fill_id :: string
  pfr_order_id :: string
  pfr_signal_id :: string
  pfr_symbol :: string
  pfr_side :: string
  pfr_quantity :: int
  pfr_price :: pyfloat
  pfr_filled_at :: string

record paper_db =
  paper_orders :: "paper_order_row table"
  paper_fills :: "paper_fill_row table"

type_synonym 'a pop = "paper_db \<Rightarrow> 'a result \<times> paper_db"

definition check_paper_record :: "string \<Rightarrow> int \<Rightarrow> pyfloat \<Rightarrow> 'a pop \<Rightarrow> 'a pop" where
  "check_paper_record symbol quantity price k =
     op_guard (strip symbol = []) (ValueError ''symbol must not be empty'')
     (op_guard (\<not> isdigit symbol \<or> length symbol \<noteq> 6) (ValueError ''symbol must be a six-digit domestic stock code'')
     (op_guard (quantity \<le> 0) (ValueError ''quantity must be positive'')
     (op_guard (fle price (Fin 0)) (ValueError ''price must be positive'') k)))"

definition paper_signal_exists :: "string \<Rightarrow> paper_db \<Rightarrow> bool" where
  "paper_signal_exists signal_id d = exists_where (\<lambda>r. por_signal_id r = signal_id) (paper_orders d)"

definition paper_order_clash :: "paper_order_row \<Rightarrow> paper_order_row \<Rightarrow> bool" where
  "paper_order_clash r r' = (por_order_id r = por_order_id r' \<or> por_signal_id r = por_signal_id r')"

definition paper_fill_clash :: "paper_fill_row \<Rightarrow> paper_fill_row \<Rightarrow> bool" where
  "paper_fill_clash r r' = (pfr_fill_id r = pfr_fill_id r' \<or> pfr_order_id r = pfr_order_id r' \<or> pfr_signal_id r = pfr_signal_id r')"

text \<open>
  The two statements of a paper trade. NaN is stored as NULL, which \<open>NOT NULL\<close> refuses: an ignored insert like a
  duplicate key. A clash of the fill raises and the transaction rolls back.
\<close>

definition insert_paper_trade :: "string \<Rightarrow> string \<Rightarrow> string \<Rightarrow> string \<Rightarrow> string \<Rightarrow> int \<Rightarrow> pyfloat \<Rightarrow> string \<Rightarrow> bool pop" where
  "insert_paper_trade side order_id fill_id signal_id symbol quantity price timestamp = transaction (\<lambda>d.
     let order = \<lparr>por_order_id = order_id, por_signal_id = signal_id, por_symbol = symbol, por_side = side,
           por_quantity = quantity, por_price = price, por_status = ''FILLED'', por_created_at = timestamp\<rparr>;
         fill = \<lparr>pfr_fill_id = fill_id, pfr_order_id = order_id, pfr_signal_id = signal_id, pfr_symbol = symbol,
           pfr_side = side, pfr_quantity = quantity, pfr_price = price, pfr_filled_at = timestamp\<rparr>
     in if price = NaN then (Inr False, d)
        else case insert_or_ignore paper_order_clash order (paper_orders d) of
          (False, _) \<Rightarrow> (Inr False, d)
        | (True, orders) \<Rightarrow>
          if exists_where (paper_fill_clash fill) (paper_fills d)
          then (Inl (IntegrityError ''UNIQUE constraint failed: paper_fills''), d)
          else (Inr True, d\<lparr>paper_orders := orders, paper_fills := paper_fills d @ [fill]\<rparr>))"

definition record_paper_buy :: "string \<Rightarrow> string \<Rightarrow> string \<Rightarrow> string \<Rightarrow> int \<Rightarrow> pyfloat \<Rightarrow> datetime \<Rightarrow> bool pop" where
  "record_paper_buy order_id fill_id signal_id symbol quantity price created_at =
     check_paper_record symbol quantity price
       (insert_paper_trade ''BUY'' order_id fill_id signal_id symbol quantity price (iso created_at))"

definition signed_quantity :: "paper_fill_row \<Rightarrow> int" where
  "signed_quantity r = (if pfr_side r = ''BUY'' then pfr_quantity r else - pfr_quantity r)"

definition fills_of :: "string \<Rightarrow> paper_db \<Rightarrow> paper_fill_row list" where
  "fills_of symbol d = select_where (\<lambda>r. pfr_symbol r = symbol) (paper_fills d)"

definition net_quantity :: "string \<Rightarrow> paper_db \<Rightarrow> int" where
  "net_quantity symbol d = sum_list (map signed_quantity (fills_of symbol d))"

definition group_position :: "(pyfloat list \<Rightarrow> pyfloat) \<Rightarrow> paper_db \<Rightarrow> string \<Rightarrow> position_state" where
  "group_position real_sum d symbol = (let g = fills_of symbol d;
       buys = filter (\<lambda>r. pfr_side r = ''BUY'') g;
       buy_value = real_sum (map (\<lambda>r. if pfr_side r = ''BUY'' then fmul (f_int (pfr_quantity r)) (pfr_price r) else Fin 0) g);
       buy_quantity = sum_list (map pfr_quantity buys)
     in \<lparr>ps_symbol = symbol, ps_quantity = net_quantity symbol d,
         ps_avg_price = (if buy_quantity \<noteq> 0 then fquot buy_value (f_int buy_quantity) else Fin 0), ps_stop_loss = None\<rparr>)"

definition paper_positions :: "(pyfloat list \<Rightarrow> pyfloat) \<Rightarrow> paper_db \<Rightarrow> position_state list" where
  "paper_positions real_sum d = map (group_position real_sum d)
     (filter (\<lambda>s. 0 < pfr_quantity (last (fills_of s d))) (sort (remdups (map pfr_symbol (paper_fills d)))))"

definition record_paper_sell :: "(pyfloat list \<Rightarrow> pyfloat) \<Rightarrow> string \<Rightarrow> string \<Rightarrow> string \<Rightarrow> string \<Rightarrow> int \<Rightarrow> pyfloat \<Rightarrow>
  datetime \<Rightarrow> bool pop" where
  "record_paper_sell real_sum order_id fill_id signal_id symbol quantity price created_at =
     check_paper_record symbol quantity price (\<lambda>d.
       if paper_signal_exists signal_id d then (Inr False, d)
       else (case List.find (\<lambda>p. ps_symbol p = symbol) (paper_positions real_sum d) of
          None \<Rightarrow> (Inl (ValueError (''paper sell exceeds long position for '' @ symbol)), d)
        | Some p \<Rightarrow>
          if ps_quantity p < quantity then (Inl (ValueError (''paper sell exceeds long position for '' @ symbol)), d)
          else insert_paper_trade ''SELL'' order_id fill_id signal_id symbol quantity price (iso created_at) d))"

definition list_paper_orders :: "string option \<Rightarrow> paper_db \<Rightarrow> paper_order_row list" where
  "list_paper_orders symbol d = sort_key (\<lambda>r. (por_created_at r, por_order_id r))
     (select_where (\<lambda>r. case symbol of None \<Rightarrow> True | Some s \<Rightarrow> por_symbol r = s) (paper_orders d))"

definition list_paper_fills :: "string option \<Rightarrow> paper_db \<Rightarrow> paper_fill_row list" where
  "list_paper_fills symbol d = sort_key (\<lambda>r. (pfr_filled_at r, pfr_fill_id r))
     (select_where (\<lambda>r. case symbol of None \<Rightarrow> True | Some s \<Rightarrow> pfr_symbol r = s) (paper_fills d))"

section \<open>The report\<close>

record paper_position_report =
  ppr_symbol :: string
  ppr_quantity :: int
  ppr_average_cost :: pyfloat

record paper_journal_report =
  pjr_total_orders :: nat
  pjr_total_fills :: nat
  pjr_open_positions :: "paper_position_report list"
  pjr_gross_buy_value :: pyfloat
  pjr_realized_pnl :: pyfloat
  pjr_symbols :: "string list"
  pjr_first_fill :: "string option"
  pjr_last_fill :: "string option"

record inventory =
  inv_quantity :: int
  inv_cost :: pyfloat

definition average_cost :: "inventory \<Rightarrow> pyfloat" where
  "average_cost i = (if inv_quantity i \<noteq> 0 then fquot (inv_cost i) (f_int (inv_quantity i)) else Fin 0)"

record replay_state =
  rs_inventory :: "(string \<times> inventory) list"
  rs_realized :: pyfloat
  rs_gross :: pyfloat

definition inventory_of :: "replay_state \<Rightarrow> string \<Rightarrow> inventory" where
  "inventory_of st s = (case map_of (rs_inventory st) s of Some i \<Rightarrow> i | None \<Rightarrow> \<lparr>inv_quantity = 0, inv_cost = Fin 0\<rparr>)"

text \<open>\<open>setdefault\<close> and the changes to the position it returns.\<close>

definition put_inventory :: "string \<Rightarrow> inventory \<Rightarrow> replay_state \<Rightarrow> replay_state" where
  "put_inventory s i st = st\<lparr>rs_inventory := AList.update s i (rs_inventory st)\<rparr>"

definition replay_fill :: "paper_fill_row \<Rightarrow> replay_state \<Rightarrow> replay_state result" where
  "replay_fill r st = (let s = pfr_symbol r; q = pfr_quantity r; price = pfr_price r; p = inventory_of st s;
       value = fmul (f_int q) price
     in if upper (pfr_side r) = ''BUY''
        then Inr ((put_inventory s \<lparr>inv_quantity = inv_quantity p + q, inv_cost = fadd (inv_cost p) value\<rparr> st)
                    \<lparr>rs_gross := fadd (rs_gross st) value\<rparr>)
        else if upper (pfr_side r) = ''SELL''
        then (if inv_quantity p < q then Inl (ValueError (''paper sell exceeds long position for '' @ s))
              else Inr ((put_inventory s \<lparr>inv_quantity = inv_quantity p - q,
                           inv_cost = fsub (inv_cost p) (fmul (average_cost p) (f_int q))\<rparr> st)
                    \<lparr>rs_realized := fadd (rs_realized st) (fmul (fsub price (average_cost p)) (f_int q))\<rparr>))
        else Inr (put_inventory s p st))"

fun replay_fills :: "paper_fill_row list \<Rightarrow> replay_state \<Rightarrow> replay_state result" where
  "replay_fills [] st = Inr st"
| "replay_fills (r # rs) st = rbind (replay_fill r st) (replay_fills rs)"

definition build_paper_report :: "paper_order_row list \<Rightarrow> paper_fill_row list \<Rightarrow> paper_journal_report result" where
  "build_paper_report orders fills = (let rows = sort_key (\<lambda>r. (pfr_filled_at r, pfr_fill_id r)) fills in
     rbind (replay_fills rows \<lparr>rs_inventory = [], rs_realized = Fin 0, rs_gross = Fin 0\<rparr>) (\<lambda>st.
       Inr \<lparr>pjr_total_orders = length orders, pjr_total_fills = length rows,
            pjr_open_positions = map (\<lambda>(s, i). \<lparr>ppr_symbol = s, ppr_quantity = inv_quantity i, ppr_average_cost = average_cost i\<rparr>)
              (filter (\<lambda>(s, i). 0 < inv_quantity i) (sort_key fst (rs_inventory st))),
            pjr_gross_buy_value = rs_gross st, pjr_realized_pnl = rs_realized st,
            pjr_symbols = sort (remdups (map pfr_symbol rows)),
            pjr_first_fill = (if rows = [] then None else Some (Min (set (map pfr_filled_at rows)))),
            pjr_last_fill = (if rows = [] then None else Some (Max (set (map pfr_filled_at rows))))\<rparr>))"

definition report_from_database :: "string option \<Rightarrow> paper_db \<Rightarrow> paper_journal_report result" where
  "report_from_database symbol d = build_paper_report (list_paper_orders symbol d) (list_paper_fills symbol d)"

section \<open>The journal is long-only\<close>

definition journal_ok :: "paper_db \<Rightarrow> bool" where
  "journal_ok d = ((\<forall>r\<in>set (paper_fills d). 0 < pfr_quantity r \<and> (pfr_side r = ''BUY'' \<or> pfr_side r = ''SELL''))
     \<and> keyed por_signal_id (paper_orders d) \<and> keyed pfr_signal_id (paper_fills d)
     \<and> pfr_signal_id ` set (paper_fills d) = por_signal_id ` set (paper_orders d)
     \<and> (\<forall>s. 0 \<le> net_quantity s d))"

lemma paper_positions_all:
  assumes "journal_ok d"
  shows "paper_positions f d = map (group_position f d) (sort (remdups (map pfr_symbol (paper_fills d))))"
proof -
  have "0 < pfr_quantity (last (fills_of s d))" if "s \<in> pfr_symbol ` set (paper_fills d)" for s
  proof -
    have "fills_of s d \<noteq> []" using that by (auto simp: fills_of_def select_where_def filter_empty_conv)
    then have "last (fills_of s d) \<in> set (paper_fills d)"
      using last_in_set by (fastforce simp: fills_of_def set_select_where)
    then show ?thesis using assms unfolding journal_ok_def by blast
  qed
  then have "filter (\<lambda>s. 0 < pfr_quantity (last (fills_of s d))) (sort (remdups (map pfr_symbol (paper_fills d))))
      = sort (remdups (map pfr_symbol (paper_fills d)))"
    by (intro filter_True) auto
  then show ?thesis by (simp add: paper_positions_def)
qed

lemma find_paper_position:
  assumes "journal_ok d" "List.find (\<lambda>p. ps_symbol p = s) (paper_positions f d) = Some p"
  shows "ps_quantity p = net_quantity s d"
  using assms paper_positions_all [OF assms(1)]
  by (auto simp: find_Some_iff group_position_def Let_def)

lemma insert_paper_trade_cases:
  assumes "insert_paper_trade side i j sg s q p t d = (r, d')"
  obtains (same) "d' = d" "r \<noteq> Inr True"
  | (inserted) "r = Inr True" "\<not> paper_signal_exists sg d"
      "paper_fills d' = paper_fills d @ [\<lparr>pfr_fill_id = j, pfr_order_id = i, pfr_signal_id = sg, pfr_symbol = s,
         pfr_side = side, pfr_quantity = q, pfr_price = p, pfr_filled_at = t\<rparr>]"
      "paper_orders d' = paper_orders d @ [\<lparr>por_order_id = i, por_signal_id = sg, por_symbol = s, por_side = side,
         por_quantity = q, por_price = p, por_status = ''FILLED'', por_created_at = t\<rparr>]"
proof -
  let ?order = "\<lparr>por_order_id = i, por_signal_id = sg, por_symbol = s, por_side = side,
         por_quantity = q, por_price = p, por_status = ''FILLED'', por_created_at = t\<rparr>"
  let ?fill = "\<lparr>pfr_fill_id = j, pfr_order_id = i, pfr_signal_id = sg, pfr_symbol = s,
         pfr_side = side, pfr_quantity = q, pfr_price = p, pfr_filled_at = t\<rparr>"
  show thesis
  proof (cases "p = NaN \<or> list_ex (paper_order_clash ?order) (paper_orders d) \<or> exists_where (paper_fill_clash ?fill) (paper_fills d)")
    case True
    then have "d' = d \<and> r \<noteq> Inr True"
      using assms unfolding insert_paper_trade_def transaction_def Let_def insert_or_ignore_def
      by (auto split: if_splits)
    then show thesis using same by blast
  next
    case False
    then have "r = Inr True \<and> d' = d\<lparr>paper_orders := paper_orders d @ [?order], paper_fills := paper_fills d @ [?fill]\<rparr>"
      using assms unfolding insert_paper_trade_def transaction_def Let_def insert_or_ignore_def by simp
    moreover have "\<not> paper_signal_exists sg d"
      using False by (auto simp: paper_signal_exists_def exists_where_iff list_ex_iff paper_order_clash_def)
    ultimately show thesis using inserted by simp
  qed
qed

lemma net_quantity_append:
  "paper_fills d' = paper_fills d @ [r] \<Longrightarrow>
     net_quantity s d' = net_quantity s d + (if pfr_symbol r = s then signed_quantity r else 0)"
  by (simp add: net_quantity_def fills_of_def select_where_def)

lemma insert_paper_trade_ok:
  assumes ok: "journal_ok d" and run: "insert_paper_trade side i j sg s q p t d = (r, d')"
    and q: "0 < q" "side = ''BUY'' \<or> side = ''SELL'' \<and> q \<le> net_quantity s d"
  shows "journal_ok d'"
  using run
proof (cases rule: insert_paper_trade_cases)
  case same
  then show ?thesis using ok by simp
next
  case inserted
  have new: "sg \<notin> por_signal_id ` set (paper_orders d)" using inserted(2) by (auto simp: paper_signal_exists_def exists_where_iff)
  have "0 \<le> net_quantity x d'" for x
    using net_quantity_append [OF inserted(3), of x] ok q by (auto simp: journal_ok_def signed_quantity_def)
  then show ?thesis
    using ok q new unfolding journal_ok_def inserted(3,4) by (auto simp: keyed_snoc)
qed

lemma check_paper_record_run:
  "check_paper_record s q p k d = (r, d') \<Longrightarrow> (d' = d \<and> (\<exists>e. r = Inl e)) \<or> 0 < q \<and> k d = (r, d')"
  by (auto simp: check_paper_record_def op_guard_def split: if_splits)

lemma record_paper_buy_ok: "preserves journal_ok (record_paper_buy i j sg s q p t)"
proof (rule preservesI)
  fix d assume ok: "journal_ok d"
  obtain r d' where run: "record_paper_buy i j sg s q p t d = (r, d')" by fastforce
  then have "journal_ok d'"
    using check_paper_record_run [OF run [unfolded record_paper_buy_def]] insert_paper_trade_ok [OF ok] ok by blast
  then show "journal_ok (snd (record_paper_buy i j sg s q p t d))" using run by simp
qed

lemma record_paper_sell_ok: "preserves journal_ok (record_paper_sell f i j sg s q p t)"
proof (rule preservesI)
  fix d assume ok: "journal_ok d"
  obtain r d' where run: "record_paper_sell f i j sg s q p t d = (r, d')" by fastforce
  from check_paper_record_run [OF run [unfolded record_paper_sell_def]] consider "d' = d"
    | x where "0 < q" "List.find (\<lambda>p. ps_symbol p = s) (paper_positions f d) = Some x" "q \<le> ps_quantity x"
        "insert_paper_trade ''SELL'' i j sg s q p (iso t) d = (r, d')"
    by (auto split: if_splits option.splits)
  then have "journal_ok d'"
    using insert_paper_trade_ok [OF ok] find_paper_position [OF ok] ok by cases auto
  then show "journal_ok (snd (record_paper_sell f i j sg s q p t d))" using run by simp
qed

datatype paper_trade = T_BUY string string string string int pyfloat datetime
  | T_SELL string string string string int pyfloat datetime

fun paper_trade_op :: "(pyfloat list \<Rightarrow> pyfloat) \<Rightarrow> paper_trade \<Rightarrow> bool pop" where
  "paper_trade_op f (T_BUY i j sg s q p t) = record_paper_buy i j sg s q p t"
| "paper_trade_op f (T_SELL i j sg s q p t) = record_paper_sell f i j sg s q p t"

definition journal_run :: "(pyfloat list \<Rightarrow> pyfloat) \<Rightarrow> paper_trade list \<Rightarrow> paper_db" where
  "journal_run f ts = foldl (\<lambda>d t. snd (paper_trade_op f t d)) \<lparr>paper_orders = [], paper_fills = []\<rparr> ts"

lemma journal_run_ok: "journal_ok (journal_run f ts)"
  unfolding journal_run_def
proof (induction ts rule: rev_induct)
  case Nil
  then show ?case by (simp add: journal_ok_def net_quantity_def fills_of_def select_where_def)
next
  case (snoc t ts)
  then show ?case
    using preservesD [OF record_paper_buy_ok] preservesD [OF record_paper_sell_ok] by (cases t) simp_all
qed

text \<open>
  Over any sequence of paper buys and sells, accepted or refused, the journal never goes short in any symbol, keeps one fill per
  accepted signal, and a signal that is already recorded changes nothing.
\<close>

theorem paper_journal_long_only:
  "0 \<le> net_quantity s (journal_run f ts) \<and> keyed pfr_signal_id (paper_fills (journal_run f ts))
   \<and> pfr_signal_id ` set (paper_fills (journal_run f ts)) = por_signal_id ` set (paper_orders (journal_run f ts))
   \<and> (paper_signal_exists sg (journal_run f ts) \<longrightarrow>
        snd (record_paper_buy i j sg x q p t (journal_run f ts)) = journal_run f ts
        \<and> snd (record_paper_sell f i j sg x q p t (journal_run f ts)) = journal_run f ts)"
proof -
  let ?d = "journal_run f ts"
  have "snd (insert_paper_trade side i j sg x q p u ?d) = ?d" if "paper_signal_exists sg ?d" for side u
    using that by (cases "insert_paper_trade side i j sg x q p u ?d" rule: prod.exhaust)
      (auto elim: insert_paper_trade_cases)
  then have "snd (record_paper_buy i j sg x q p t ?d) = ?d \<and> snd (record_paper_sell f i j sg x q p t ?d) = ?d"
    if "paper_signal_exists sg ?d"
    using that by (simp add: record_paper_buy_def record_paper_sell_def check_paper_record_def op_guard_def)
  then show ?thesis using journal_run_ok [of f ts] by (simp add: journal_ok_def)
qed

section \<open>Closed positions stay listed\<close>

text \<open>
  A paper position that has been sold completely is still returned by \<open>paper_positions\<close>, with quantity 0: the HAVING clause tests the
  quantity of a fill instead of the position's. The risk gate counts it as an open position, so the symbol
  can never be entered again, whatever the limits.
\<close>

theorem flat_paper_position_blocks_entry:
  assumes "d = journal_run f ts" "x \<in> pfr_symbol ` set (paper_fills d)" "net_quantity x d = 0"
    "pf_open_positions portfolio = paper_positions f d" "oi_symbol i = x"
  shows "(\<exists>p\<in>set (paper_positions f d). ps_symbol p = x \<and> ps_quantity p = 0)
    \<and> \<not> (\<exists>dec. evaluate_order_intent config portfolio i = Inr dec \<and> rd_approved dec)"
proof -
  have "paper_positions f d = map (group_position f d) (sort (remdups (map pfr_symbol (paper_fills d))))"
    using paper_positions_all journal_run_ok assms(1) by blast
  then have mem: "group_position f d x \<in> set (paper_positions f d)" using assms(2) by auto
  have fields: "ps_symbol (group_position f d x) = x" "ps_quantity (group_position f d x) = 0"
    using assms(3) by (simp_all add: group_position_def Let_def)
  then have "oi_symbol i \<in> ps_symbol ` set (pf_open_positions portfolio)" using mem assms(4,5) by force
  then have "\<not> entry_limits config portfolio i" by (simp add: entry_limits_def)
  then show ?thesis using mem fields limits_broken by fastforce
qed

section \<open>The report counts the same shares\<close>

definition replay_quantity :: "replay_state \<Rightarrow> string \<Rightarrow> int" where
  "replay_quantity st s = inv_quantity (inventory_of st s)"

lemma side_upper: "upper ''BUY'' = ''BUY''" "upper ''SELL'' = ''SELL''"
  by code_simp+

lemma put_inventory_quantity:
  "replay_quantity (put_inventory k i st) s = (if k = s then inv_quantity i else replay_quantity st s)"
  "distinct (map fst (rs_inventory st)) \<Longrightarrow> distinct (map fst (rs_inventory (put_inventory k i st)))"
  by (simp_all add: replay_quantity_def inventory_of_def put_inventory_def update_conv distinct_update)

lemma replay_fill_quantity:
  assumes "replay_fill r st = Inr st'" "pfr_side r = ''BUY'' \<or> pfr_side r = ''SELL''"
    "distinct (map fst (rs_inventory st))"
  shows "replay_quantity st' s = replay_quantity st s + (if pfr_symbol r = s then signed_quantity r else 0)
    \<and> distinct (map fst (rs_inventory st'))"
proof -
  have upd: "replay_quantity (st\<lparr>rs_gross := g\<rparr>) = replay_quantity st" "replay_quantity (st\<lparr>rs_realized := g\<rparr>) = replay_quantity st"
    for g and st :: replay_state by (simp_all add: fun_eq_iff replay_quantity_def inventory_of_def)
  from assms(1,2) obtain i st1 where "st' = (put_inventory (pfr_symbol r) i st)\<lparr>rs_gross := st1\<rparr>
      \<or> st' = (put_inventory (pfr_symbol r) i st)\<lparr>rs_realized := st1\<rparr>"
    "inv_quantity i = replay_quantity st (pfr_symbol r) + signed_quantity r"
    unfolding replay_fill_def Let_def side_upper replay_quantity_def signed_quantity_def
    by (elim disjE) (fastforce simp: side_upper split: if_splits)+
  then show ?thesis
    using put_inventory_quantity [where k = "pfr_symbol r" and i = i and st = st] assms(3) by (auto simp: upd)
qed

lemma replay_fills_quantity:
  assumes "replay_fills rs st = Inr st'" "\<forall>r\<in>set rs. pfr_side r = ''BUY'' \<or> pfr_side r = ''SELL''"
    "distinct (map fst (rs_inventory st))"
  shows "replay_quantity st' s = replay_quantity st s
      + sum_list (map signed_quantity (filter (\<lambda>r. pfr_symbol r = s) rs))
    \<and> distinct (map fst (rs_inventory st'))"
  using assms
proof (induction rs arbitrary: st)
  case (Cons r rs)
  then obtain st1 where "replay_fill r st = Inr st1" "replay_fills rs st1 = Inr st'" by (auto simp: rbind_eq_Inr)
  with Cons.IH [of st1] Cons.prems replay_fill_quantity [of r st st1 s] show ?case by simp
qed simp

text \<open>
  When the report over a journal succeeds it agrees with the fills: its open positions are sorted by symbol, and a symbol is listed with a quantity
  exactly when that positive number of shares is bought and not sold. Unlike \<open>paper_positions\<close> it drops
  closed positions.
\<close>

theorem paper_report_matches_fills:
  assumes "report_from_database None (journal_run f ts) = Inr r"
  shows "((\<exists>x\<in>set (pjr_open_positions r). ppr_symbol x = s \<and> ppr_quantity x = n) \<longleftrightarrow>
      0 < n \<and> net_quantity s (journal_run f ts) = n)
    \<and> sorted (map ppr_symbol (pjr_open_positions r))
    \<and> pjr_total_fills r = length (paper_fills (journal_run f ts))"
proof -
  let ?d = "journal_run f ts" and ?empty = "\<lparr>rs_inventory = [], rs_realized = Fin 0, rs_gross = Fin 0\<rparr>"
  let ?rows = "list_paper_fills None ?d"
  have rows: "sort_key (\<lambda>r. (pfr_filled_at r, pfr_fill_id r)) ?rows = ?rows"
    unfolding list_paper_fills_def by (intro sort_key_id_if_sorted) simp
  have set: "set ?rows = set (paper_fills ?d)" by (simp add: list_paper_fills_def select_where_def)
  obtain st where st: "replay_fills ?rows ?empty = Inr st"
    and listed: "pjr_open_positions r = map (\<lambda>(s, i). \<lparr>ppr_symbol = s, ppr_quantity = inv_quantity i, ppr_average_cost = average_cost i\<rparr>)
              (filter (\<lambda>(s, i). 0 < inv_quantity i) (sort_key fst (rs_inventory st)))"
    and total: "pjr_total_fills r = length ?rows"
    using assms by (auto simp: report_from_database_def build_paper_report_def rows Let_def rbind_eq_Inr)
  have sides: "\<forall>r\<in>set ?rows. pfr_side r = ''BUY'' \<or> pfr_side r = ''SELL''"
    using journal_run_ok [of f ts] set unfolding journal_ok_def by blast
  note q = replay_fills_quantity [OF st sides]
  have "sum_list (map signed_quantity (filter (\<lambda>r. pfr_symbol r = s) ?rows)) = net_quantity s ?d"
    by (simp add: list_paper_fills_def select_where_def net_quantity_def fills_of_def filter_sort)
  then have net: "replay_quantity st s = net_quantity s ?d" and dist: "distinct (map fst (rs_inventory st))"
    using q by (simp_all add: replay_quantity_def inventory_of_def)
  have "(\<exists>x\<in>set (pjr_open_positions r). ppr_symbol x = s \<and> ppr_quantity x = n)
      \<longleftrightarrow> (\<exists>i. (s, i) \<in> set (rs_inventory st) \<and> inv_quantity i = n \<and> 0 < n)"
    unfolding listed by force
  also have "\<dots> \<longleftrightarrow> 0 < n \<and> replay_quantity st s = n"
    unfolding replay_quantity_def inventory_of_def map_of_eq_Some_iff [OF dist, symmetric]
    by (cases "map_of (rs_inventory st) s") auto
  finally have iff: "(\<exists>x\<in>set (pjr_open_positions r). ppr_symbol x = s \<and> ppr_quantity x = n) \<longleftrightarrow> 0 < n \<and> net_quantity s ?d = n"
    using net by simp
  have "map ppr_symbol (pjr_open_positions r) = map fst (filter (\<lambda>(s, i). 0 < inv_quantity i) (sort_key fst (rs_inventory st)))"
    unfolding listed by (simp add: case_prod_beta comp_def)
  then have "sorted (map ppr_symbol (pjr_open_positions r))" by (simp add: sorted_filter)
  moreover have "length ?rows = length (paper_fills ?d)" by (simp add: list_paper_fills_def select_where_def)
  ultimately show ?thesis using iff total by simp
qed

section \<open>Examples\<close>

definition fsum_sample :: "pyfloat list \<Rightarrow> pyfloat" where
  "fsum_sample xs = foldl fadd (Fin 0) xs"

definition sample_buy :: paper_trade where
  "sample_buy = T_BUY ''o1'' ''f1'' ''s1'' ''005930'' 3 (Fin 70000) sample_time"

definition sample_sell :: paper_trade where
  "sample_sell = T_SELL ''o2'' ''f2'' ''s2'' ''005930'' 3 (Fin 71000) sample_time"

lemma sample_journal:
  "paper_fills (journal_run f [sample_buy, sample_sell]) =
    [\<lparr>pfr_fill_id = ''f1'', pfr_order_id = ''o1'', pfr_signal_id = ''s1'', pfr_symbol = ''005930'', pfr_side = ''BUY'',
      pfr_quantity = 3, pfr_price = Fin 70000, pfr_filled_at = iso sample_time\<rparr>,
     \<lparr>pfr_fill_id = ''f2'', pfr_order_id = ''o2'', pfr_signal_id = ''s2'', pfr_symbol = ''005930'', pfr_side = ''SELL'',
      pfr_quantity = 3, pfr_price = Fin 71000, pfr_filled_at = iso sample_time\<rparr>]"
  "paper_signal_exists ''s1'' (journal_run f [sample_buy, sample_sell])"
  by (simp_all add: journal_run_def sample_buy_def sample_sell_def record_paper_buy_def record_paper_sell_def
      check_paper_record_def op_guard_def string_eval insert_paper_trade_def transaction_def Let_def insert_or_ignore_def
      exists_where_def paper_signal_exists_def paper_positions_def group_position_def fills_of_def select_where_def
      net_quantity_def signed_quantity_def paper_order_clash_def paper_fill_clash_def)

theorem paper_journal_long_only_witness:
  "0 \<le> net_quantity ''005930'' (journal_run fsum_sample [sample_buy, sample_sell])
   \<and> snd (record_paper_buy ''o3'' ''f3'' ''s1'' ''005930'' 1 (Fin 70000) sample_time
       (journal_run fsum_sample [sample_buy, sample_sell])) = journal_run fsum_sample [sample_buy, sample_sell]"
  using paper_journal_long_only [of "''005930''" fsum_sample "[sample_buy, sample_sell]" "''s1''"] sample_journal(2) by blast

definition sample_intent :: order_intent where
  "sample_intent = \<lparr>oi_symbol = ''005930'', oi_strategy = ''PULLBACK_WATCH'', oi_signal_id = ''s3'',
     oi_entry_price = Fin 70000, oi_stop_loss = Fin 69000, oi_confidence = None\<rparr>"

theorem flat_paper_position_blocks_entry_witness:
  "\<not> (\<exists>dec. evaluate_order_intent sample_risk \<lparr>pf_current_exposure_krw = Fin 0,
       pf_open_positions = paper_positions fsum_sample (journal_run fsum_sample [sample_buy, sample_sell]),
       pf_daily_pnl_krw = Fin 0, pf_consecutive_losses = 0, pf_trades_today = 0, pf_orders_by_symbol = []\<rparr> sample_intent
       = Inr dec \<and> rd_approved dec)"
proof -
  let ?d = "journal_run fsum_sample [sample_buy, sample_sell]"
  have "''005930'' \<in> pfr_symbol ` set (paper_fills ?d)" "net_quantity ''005930'' ?d = 0"
    by (simp_all add: sample_journal net_quantity_def fills_of_def select_where_def signed_quantity_def)
  moreover have "oi_symbol sample_intent = ''005930''" by (simp add: sample_intent_def)
  ultimately show ?thesis
    using flat_paper_position_blocks_entry [of ?d fsum_sample "[sample_buy, sample_sell]" "''005930''"
        "\<lparr>pf_current_exposure_krw = Fin 0, pf_open_positions = paper_positions fsum_sample ?d,
          pf_daily_pnl_krw = Fin 0, pf_consecutive_losses = 0, pf_trades_today = 0, pf_orders_by_symbol = []\<rparr>"
        sample_intent sample_risk]
    by simp
qed

theorem paper_report_matches_fills_witness:
  "\<exists>r. report_from_database None (journal_run fsum_sample [sample_buy]) = Inr r
     \<and> (\<exists>x\<in>set (pjr_open_positions r). ppr_symbol x = ''005930'' \<and> ppr_quantity x = 3) \<and> pjr_total_fills r = 1"
proof -
  let ?d = "journal_run fsum_sample [sample_buy]"
  have fills: "paper_fills ?d = [\<lparr>pfr_fill_id = ''f1'', pfr_order_id = ''o1'', pfr_signal_id = ''s1'', pfr_symbol = ''005930'',
      pfr_side = ''BUY'', pfr_quantity = 3, pfr_price = Fin 70000, pfr_filled_at = iso sample_time\<rparr>]"
    by (simp add: journal_run_def sample_buy_def record_paper_buy_def check_paper_record_def op_guard_def string_eval
        insert_paper_trade_def transaction_def Let_def insert_or_ignore_def exists_where_def)
  then have net: "net_quantity ''005930'' ?d = 3"
    by (simp add: net_quantity_def fills_of_def select_where_def signed_quantity_def)
  obtain r where r: "report_from_database None ?d = Inr r"
    by (simp add: report_from_database_def build_paper_report_def list_paper_fills_def fills select_where_def Let_def
        replay_fill_def side_upper)
  then show ?thesis using paper_report_matches_fills [OF r, of "''005930''" 3] net fills by auto
qed

end
