(* ===== verification/MarketBars.thy ===== *)
theory MarketBars
  imports Schedule
begin

text \<open>
  Ticks, one-minute bars and the streaming bar builder (\<open>market/tick.py\<close>, \<open>market/bar_builder.py\<close>). The builder
  is shown equivalent to grouping the ticks by minute and aggregating every group.
\<close>

section \<open>Model\<close>

record market_tick =
  mt_symbol :: string
  mt_timestamp :: datetime
  mt_price :: pyfloat
  mt_volume :: int

record minute_bar =
  mb_symbol :: string
  mb_start :: datetime
  mb_open :: pyfloat
  mb_high :: pyfloat
  mb_low :: pyfloat
  mb_close :: pyfloat
  mb_volume :: int

definition tick_start :: "market_tick \<Rightarrow> datetime" where
  "tick_start t = (mt_timestamp t)\<lparr>dt_second := 0, dt_micro := 0\<rparr>"

definition first_bar :: "market_tick \<Rightarrow> minute_bar" where
  "first_bar t = \<lparr>mb_symbol = mt_symbol t, mb_start = tick_start t, mb_open = mt_price t, mb_high = mt_price t,
     mb_low = mt_price t, mb_close = mt_price t, mb_volume = mt_volume t\<rparr>"

definition extend_bar :: "minute_bar \<Rightarrow> market_tick \<Rightarrow> minute_bar" where
  "extend_bar b t = b\<lparr>mb_high := fmax (mb_high b) (mt_price t), mb_low := fmin (mb_low b) (mt_price t),
     mb_close := mt_price t, mb_volume := mb_volume b + mt_volume t\<rparr>"

text \<open>The builder's state is the bar under construction.\<close>

definition builder_update :: "market_tick \<Rightarrow> minute_bar option \<Rightarrow> minute_bar option result \<times> minute_bar option" where
  "builder_update t bar = (let start = tick_start t in case bar of
      None \<Rightarrow> (Inr None, Some (first_bar t))
    | Some b \<Rightarrow>
      if mt_symbol t \<noteq> mb_symbol b then (Inl (ValueError ''bar builder accepts one symbol''), bar)
      else (case dt_lt start (mb_start b) of Inl e \<Rightarrow> (Inl e, bar)
        | Inr True \<Rightarrow> (Inl (ValueError ''ticks must be chronological''), bar)
        | Inr False \<Rightarrow> if utc_us start = utc_us (mb_start b) then (Inr None, Some (extend_bar b t))
                     else (Inr (Some b), Some (first_bar t))))"

definition builder_flush :: "minute_bar option \<Rightarrow> minute_bar option \<times> minute_bar option" where
  "builder_flush bar = (bar, None)"

section \<open>Equivalence with grouping by minute\<close>

fun feed :: "market_tick list \<Rightarrow> minute_bar option \<Rightarrow> minute_bar list result \<times> minute_bar option" where
  "feed [] bar = (Inr [], bar)"
| "feed (t # ts) bar = (case builder_update t bar of (Inl e, bar') \<Rightarrow> (Inl e, bar')
     | (Inr out, bar') \<Rightarrow> (case feed ts bar' of (Inl e, bar'') \<Rightarrow> (Inl e, bar'')
         | (Inr outs, bar'') \<Rightarrow> (Inr ((case out of None \<Rightarrow> [] | Some b \<Rightarrow> [b]) @ outs), bar'')))"

definition tick_minute :: "market_tick \<Rightarrow> int" where
  "tick_minute t = utc_us (tick_start t)"

text \<open>The reference: runs of ticks of the same minute, each aggregated on its own.\<close>

function minutes :: "market_tick list \<Rightarrow> market_tick list list" where
  "minutes [] = []"
| "minutes (t # ts) = (t # takeWhile (\<lambda>u. tick_minute u = tick_minute t) ts)
     # minutes (dropWhile (\<lambda>u. tick_minute u = tick_minute t) ts)"
  by pat_completeness auto
termination
  by (relation "measure length") (simp_all add: le_imp_less_Suc length_dropWhile_le)

definition bar_of :: "market_tick list \<Rightarrow> minute_bar" where
  "bar_of g = \<lparr>mb_symbol = mt_symbol (hd g), mb_start = tick_start (hd g), mb_open = mt_price (hd g),
     mb_high = foldl fmax (mt_price (hd g)) (map mt_price (tl g)),
     mb_low = foldl fmin (mt_price (hd g)) (map mt_price (tl g)),
     mb_close = mt_price (last g), mb_volume = sum_list (map mt_volume g)\<rparr>"

definition chronological :: "market_tick list \<Rightarrow> bool" where
  "chronological ts = (sorted_wrt (\<lambda>t u. mt_symbol u = mt_symbol t \<and> tz_compatible (tick_start u) (tick_start t)
     \<and> tick_minute t \<le> tick_minute u) ts)"

definition extend_group :: "minute_bar \<Rightarrow> market_tick list \<Rightarrow> minute_bar" where
  "extend_group b g = foldl extend_bar b g"

lemma extend_group_first: "extend_group (first_bar t) g = bar_of (t # g)"
proof -
  have "foldl extend_bar b g = b\<lparr>mb_high := foldl fmax (mb_high b) (map mt_price g),
      mb_low := foldl fmin (mb_low b) (map mt_price g),
      mb_close := (if g = [] then mb_close b else mt_price (last g)),
      mb_volume := mb_volume b + sum_list (map mt_volume g)\<rparr>" for b
    by (induction g arbitrary: b) (auto simp: extend_bar_def)
  then show ?thesis by (simp add: extend_group_def bar_of_def first_bar_def)
qed

definition follows :: "minute_bar \<Rightarrow> market_tick \<Rightarrow> bool" where
  "follows b t = (mt_symbol t = mb_symbol b \<and> tz_compatible (tick_start t) (mb_start b)
     \<and> utc_us (mb_start b) \<le> tick_minute t)"

lemma follows_extend [simp]: "follows (extend_bar b t) = follows b" "mb_start (extend_bar b t) = mb_start b"
  by (simp_all add: follows_def extend_bar_def fun_eq_iff)

lemma update_follows:
  "follows b t \<Longrightarrow> builder_update t (Some b) =
     (if tick_minute t = utc_us (mb_start b) then (Inr None, Some (extend_bar b t)) else (Inr (Some b), Some (first_bar t)))"
  by (auto simp: follows_def builder_update_def dt_lt_def tick_minute_def)

lemma update_not_follows: "\<not> follows b t \<Longrightarrow> \<exists>e. builder_update t (Some b) = (Inl e, Some b)"
  by (auto simp: follows_def builder_update_def dt_lt_def tick_minute_def Let_def)

text \<open>From a bar under construction: it absorbs the rest of its minute, the other groups follow.\<close>

lemma feed_from_bar:
  assumes "chronological ts" "\<forall>t\<in>set ts. follows b t"
  shows "feed ts (Some b) = (let g = takeWhile (\<lambda>t. tick_minute t = utc_us (mb_start b)) ts;
      bars = extend_group b g # map bar_of (minutes (dropWhile (\<lambda>t. tick_minute t = utc_us (mb_start b)) ts))
    in (Inr (butlast bars), Some (last bars)))"
  using assms
proof (induction ts arbitrary: b)
  case Nil
  then show ?case by (simp add: extend_group_def)
next
  case (Cons t ts)
  have c: "chronological ts" and f: "follows b t" "\<forall>u\<in>set ts. follows b u"
    using Cons.prems by (auto simp: chronological_def)
  show ?case
  proof (cases "tick_minute t = utc_us (mb_start b)")
    case True
    then show ?thesis
      using Cons.IH [OF c, of "extend_bar b t"] f update_follows [OF f(1)]
      by (simp add: Let_def extend_group_def)
  next
    case False
    have s: "utc_us (mb_start (first_bar t)) = tick_minute t" by (simp add: first_bar_def tick_minute_def)
    have "\<forall>u\<in>set ts. follows (first_bar t) u"
      using Cons.prems(1) by (auto simp: chronological_def follows_def first_bar_def tick_minute_def)
    then have "feed ts (Some (first_bar t)) = (let bars = map bar_of (minutes (t # ts))
        in (Inr (butlast bars), Some (last bars)))"
      using Cons.IH [OF c, of "first_bar t"] by (simp add: Let_def s extend_group_first)
    then show ?thesis
      using False update_follows [OF f(1)] by (simp add: Let_def extend_group_def del: minutes.simps) simp
  qed
qed

text \<open>Conversely, ticks that are accepted were in order.\<close>

lemma feed_accepts:
  "feed ts (Some b) = (Inr outs, fin) \<Longrightarrow> chronological ts \<and> (\<forall>t\<in>set ts. follows b t)"
proof (induction ts arbitrary: b outs)
  case Nil
  then show ?case by (simp add: chronological_def)
next
  case (Cons t ts)
  have f: "follows b t"
    using Cons.prems update_not_follows [of b t] by (auto split: prod.splits sum.splits)
  obtain b' outs' where b':
    "feed ts (Some b') = (Inr outs', fin)" "b' = first_bar t \<or> b' = extend_bar b t \<and> tick_minute t = utc_us (mb_start b)"
    using Cons.prems update_follows [OF f] by (auto split: prod.splits sum.splits if_splits)
  note ih = Cons.IH [OF b'(1)]
  have step: "follows b u \<and> mt_symbol u = mt_symbol t \<and> tz_compatible (tick_start u) (tick_start t)
      \<and> tick_minute t \<le> tick_minute u" if "u \<in> set ts" for u
    using ih that f b'(2) by (auto simp: follows_def first_bar_def tz_compatible_def tick_minute_def extend_bar_def)
  then show ?case using ih f by (auto simp: chronological_def)
qed

lemma concat_minutes: "concat (minutes ts) = ts"
  by (induction ts rule: minutes.induct) simp_all

text \<open>
  (C34) Feeding ticks one by one and flushing at the end gives exactly the aggregates of the ticks grouped by
  minute: first, highest, lowest and last price and the total volume of each minute, in order, so that no volume is lost
  or counted twice. Ticks that are not in order, change the symbol or mix aware and naive timestamps are
  refused, and nothing else is.
\<close>

theorem bar_builder_equiv:
  "(case feed ts None of
      (Inr outs, fin) \<Rightarrow> chronological ts
        \<and> outs @ (case fst (builder_flush fin) of None \<Rightarrow> [] | Some b \<Rightarrow> [b]) = map bar_of (minutes ts)
        \<and> sum_list (map mb_volume (map bar_of (minutes ts))) = sum_list (map mt_volume ts)
    | (Inl e, _) \<Rightarrow> \<not> chronological ts)"
proof (cases ts)
  case Nil
  then show ?thesis by (simp add: chronological_def builder_flush_def)
next
  case (Cons t us)
  have vol: "sum_list (map mb_volume (map bar_of gs)) = sum_list (map mt_volume (concat gs))" for gs
    by (induction gs) (simp_all add: bar_of_def)
  have run: "feed ts None = (case feed us (Some (first_bar t)) of (Inl e, b) \<Rightarrow> (Inl e, b) | (Inr outs, b) \<Rightarrow> (Inr outs, b))"
    by (simp add: Cons builder_update_def Let_def split: prod.splits sum.splits)
  have chron: "chronological ts \<longleftrightarrow> chronological us \<and> (\<forall>u\<in>set us. follows (first_bar t) u)"
    by (auto simp: Cons chronological_def follows_def first_bar_def tick_minute_def)
  show ?thesis
  proof (cases "chronological ts")
    case True
    let ?bars = "map bar_of (minutes ts)"
    have "feed us (Some (first_bar t)) = (Inr (butlast ?bars), Some (last ?bars))"
      using True feed_from_bar [of us "first_bar t"] chron
      by (simp add: Let_def extend_group_first Cons) (simp add: first_bar_def tick_minute_def)
    moreover have "?bars \<noteq> []" by (simp add: Cons)
    ultimately show ?thesis
      using True run vol [of "minutes ts"] by (simp add: builder_flush_def concat_minutes del: minutes.simps)
  next
    case False
    then show ?thesis using run chron feed_accepts by (auto split: prod.splits sum.splits)
  qed
qed

end
