(* ===== verification/MarketStore.thy ===== *)
theory MarketStore
  imports MarketBars Storage
begin

text \<open>
  The market-data tables of \<open>storage/database.py\<close> (\<open>market_ticks\<close>, \<open>bars_1m\<close>) and their operations. Exchange times are
  stored as naive Korean text. Shown: saved bars come back, once per minute, in chronological order.
\<close>

section \<open>Model\<close>

record tick_row =
  tr_symbol :: string
  tr_timestamp :: string
  tr_price :: pyfloat
  tr_volume :: int
  tr_received_at :: string

record bar_row =
  br_symbol :: string
  br_start :: string
  br_open :: pyfloat
  br_high :: pyfloat
  br_low :: pyfloat
  br_close :: pyfloat
  br_volume :: int

record market_db =
  market_ticks :: "tick_row table"
  bars_1m :: "bar_row table"

type_synonym 'a mop = "market_db \<Rightarrow> 'a result \<times> market_db"

definition canonical_market_time :: "datetime \<Rightarrow> datetime" where
  "canonical_market_time v = as_kst v"

definition bar_values :: "minute_bar \<Rightarrow> bar_row" where
  "bar_values b = \<lparr>br_symbol = mb_symbol b, br_start = iso (canonical_market_time (mb_start b)),
     br_open = mb_open b, br_high = mb_high b, br_low = mb_low b, br_close = mb_close b, br_volume = mb_volume b\<rparr>"

definition same_bar_key :: "bar_row \<Rightarrow> bar_row \<Rightarrow> bool" where
  "same_bar_key a b = (br_symbol a = br_symbol b \<and> br_start a = br_start b)"

definition overwrite_bar :: "bar_row \<Rightarrow> bar_row \<Rightarrow> bar_row" where
  "overwrite_bar r old = old\<lparr>br_open := br_open r, br_high := br_high r, br_low := br_low r,
     br_close := br_close r, br_volume := br_volume r\<rparr>"

definition save_bar :: "minute_bar \<Rightarrow> market_db \<Rightarrow> market_db" where
  "save_bar bar d = (let r = bar_values bar in
     d\<lparr>bars_1m := (if exists_where (same_bar_key r) (bars_1m d)
        then update_where (same_bar_key r) (overwrite_bar r) (bars_1m d)
        else bars_1m d @ [r])\<rparr>)"

definition save_tick :: "market_tick \<Rightarrow> datetime \<Rightarrow> market_db \<Rightarrow> market_db" where
  "save_tick t received d = d\<lparr>market_ticks := market_ticks d @
     [\<lparr>tr_symbol = mt_symbol t, tr_timestamp = iso (canonical_market_time (mt_timestamp t)),
       tr_price = mt_price t, tr_volume = mt_volume t, tr_received_at = iso received\<rparr>]\<rparr>"

definition parse_time :: "string \<Rightarrow> datetime result" where
  "parse_time s = (case fromisoformat s of Some v \<Rightarrow> Inr v
     | None \<Rightarrow> Inl (ValueError (''Invalid isoformat string: '' @ s)))"

definition read_bar :: "bar_row \<Rightarrow> minute_bar result" where
  "read_bar r = rbind (parse_time (br_start r)) (\<lambda>start.
     Inr \<lparr>mb_symbol = br_symbol r, mb_start = start, mb_open = br_open r, mb_high = br_high r,
          mb_low = br_low r, mb_close = br_close r, mb_volume = br_volume r\<rparr>)"

definition read_tick :: "tick_row \<Rightarrow> market_tick result" where
  "read_tick r = rbind (parse_time (tr_timestamp r)) (\<lambda>time.
     Inr \<lparr>mt_symbol = tr_symbol r, mt_timestamp = time, mt_price = tr_price r, mt_volume = tr_volume r\<rparr>)"

fun read_all :: "('r \<Rightarrow> 'b result) \<Rightarrow> 'r list \<Rightarrow> 'b list result" where
  "read_all f [] = Inr []"
| "read_all f (r # rs) = rbind (f r) (\<lambda>x. rbind (read_all f rs) (\<lambda>xs. Inr (x # xs)))"

definition bars_of :: "string \<Rightarrow> market_db \<Rightarrow> bar_row list" where
  "bars_of symbol d = sort_key br_start (select_where (\<lambda>r. br_symbol r = symbol) (bars_1m d))"

definition ticks_of :: "string \<Rightarrow> market_db \<Rightarrow> tick_row list" where
  "ticks_of symbol d = sort_key tr_timestamp (select_where (\<lambda>r. tr_symbol r = symbol) (market_ticks d))"

text \<open>\<open>ORDER BY start DESC LIMIT n\<close> read back in ascending order: the last \<open>n\<close> rows.\<close>

definition last_rows :: "nat \<Rightarrow> 'r list \<Rightarrow> 'r list" where
  "last_rows n rs = drop (length rs - n) rs"

definition load_bars :: "string \<Rightarrow> int option \<Rightarrow> market_db \<Rightarrow> minute_bar list result" where
  "load_bars symbol limit d = (case limit of
      None \<Rightarrow> read_all read_bar (bars_of symbol d)
    | Some n \<Rightarrow> guard_else (n \<le> 0) (ValueError ''limit must be a positive integer'')
        (read_all read_bar (last_rows (nat n) (bars_of symbol d))))"

definition load_recent_bars :: "string \<Rightarrow> int \<Rightarrow> market_db \<Rightarrow> minute_bar list result" where
  "load_recent_bars symbol limit = load_bars symbol (Some limit)"

definition load_ticks :: "string \<Rightarrow> market_db \<Rightarrow> market_tick list result" where
  "load_ticks symbol d = read_all read_tick (ticks_of symbol d)"

definition latest_tick :: "string \<Rightarrow> market_db \<Rightarrow> market_tick option result" where
  "latest_tick symbol d = (let rows = ticks_of symbol d in
     if rows = [] then Inr None else rbind (read_tick (last rows)) (\<lambda>t. Inr (Some t)))"

definition latest_bar :: "string \<Rightarrow> market_db \<Rightarrow> minute_bar option result" where
  "latest_bar symbol d = (let rows = bars_of symbol d in
     if rows = [] then Inr None else rbind (read_bar (last rows)) (\<lambda>b. Inr (Some b)))"

definition delete_old_ticks :: "datetime \<Rightarrow> market_db \<Rightarrow> nat \<times> market_db" where
  "delete_old_ticks cutoff d = (let old = (\<lambda>r. tr_timestamp r < iso (canonical_market_time cutoff)) in
     (rowcount old (market_ticks d), d\<lparr>market_ticks := delete_where old (market_ticks d)\<rparr>))"

definition delete_old_bars :: "datetime \<Rightarrow> market_db \<Rightarrow> nat \<times> market_db" where
  "delete_old_bars cutoff d = (let old = (\<lambda>r. br_start r < iso (canonical_market_time cutoff)) in
     (rowcount old (bars_1m d), d\<lparr>bars_1m := delete_where old (bars_1m d)\<rparr>))"

section \<open>Bars read back\<close>

text \<open>A stored start is the text of a valid naive time, and \<open>(symbol, start)\<close> is unique.\<close>

definition stored_start :: "string \<Rightarrow> bool" where
  "stored_start s = (\<exists>v. valid_dt v \<and> dt_tz v = None \<and> s = iso v)"

definition bars_ok :: "market_db \<Rightarrow> bool" where
  "bars_ok d = (keyed (\<lambda>r. (br_symbol r, br_start r)) (bars_1m d) \<and> (\<forall>r\<in>set (bars_1m d). stored_start (br_start r)))"

definition storable :: "minute_bar \<Rightarrow> bool" where
  "storable b = valid_dt (canonical_market_time (mb_start b))"

definition stored_bar :: "minute_bar \<Rightarrow> minute_bar" where
  "stored_bar b = b\<lparr>mb_start := canonical_market_time (mb_start b)\<rparr>"

definition decode_bar :: "bar_row \<Rightarrow> minute_bar" where
  "decode_bar r = \<lparr>mb_symbol = br_symbol r, mb_start = the (fromisoformat (br_start r)), mb_open = br_open r,
     mb_high = br_high r, mb_low = br_low r, mb_close = br_close r, mb_volume = br_volume r\<rparr>"

lemma stored_start_parse: "stored_start s \<Longrightarrow> \<exists>v. fromisoformat s = Some v \<and> valid_dt v \<and> dt_tz v = None \<and> s = iso v"
  by (auto simp: stored_start_def iso_def fromisoformat_isoformat_wf)

lemma read_all_decode: "\<forall>r\<in>set rs. stored_start (br_start r) \<Longrightarrow> read_all read_bar rs = Inr (map decode_bar rs)"
proof (induction rs)
  case (Cons r rs)
  then obtain v where "fromisoformat (br_start r) = Some v" using stored_start_parse by (meson list.set_intros(1))
  with Cons show ?case by (simp add: read_bar_def parse_time_def decode_bar_def)
qed simp

lemma save_bar_rows: "bars_1m (save_bar b d) = (if exists_where (same_bar_key (bar_values b)) (bars_1m d)
    then update_where (same_bar_key (bar_values b)) (overwrite_bar (bar_values b)) (bars_1m d)
    else bars_1m d @ [bar_values b])"
  by (simp add: save_bar_def Let_def)

lemma overwrite_bar_same: "same_bar_key r old \<Longrightarrow> overwrite_bar r old = r"
  by (cases r; cases old) (simp add: same_bar_key_def overwrite_bar_def)

lemma overwrite_bar_keys [simp]: "br_symbol (overwrite_bar r old) = br_symbol old" "br_start (overwrite_bar r old) = br_start old"
  by (simp_all add: overwrite_bar_def)

lemma set_save_bar:
  "set (bars_1m (save_bar b d)) = insert (bar_values b) {r \<in> set (bars_1m d). \<not> same_bar_key (bar_values b) r}"
proof (cases "\<exists>r\<in>set (bars_1m d). same_bar_key (bar_values b) r")
  case True
  let ?p = "same_bar_key (bar_values b)"
  have "{overwrite_bar (bar_values b) r |r. r \<in> set (bars_1m d) \<and> ?p r} = {bar_values b |r. r \<in> set (bars_1m d) \<and> ?p r}"
    using overwrite_bar_same by metis
  also have "\<dots> = {bar_values b}" using True by blast
  finally show ?thesis using True by (simp add: save_bar_rows exists_where_iff set_update_where)
next
  case False
  then show ?thesis by (auto simp: save_bar_rows exists_where_iff)
qed

lemma keyed_save_bar:
  assumes "keyed (\<lambda>r. (br_symbol r, br_start r)) (bars_1m d)"
  shows "keyed (\<lambda>r. (br_symbol r, br_start r)) (bars_1m (save_bar b d))"
  using assms by (auto simp: save_bar_rows keyed_snoc exists_where_iff same_bar_key_def keyed_update_where)

lemma stored_bar_values: "storable b \<Longrightarrow> stored_start (br_start (bar_values b)) \<and> decode_bar (bar_values b) = stored_bar b"
  using fromisoformat_isoformat_wf [of "canonical_market_time (mb_start b)"]
  by (auto simp: storable_def stored_start_def bar_values_def decode_bar_def stored_bar_def iso_def canonical_market_time_def)

lemma save_bar_ok: "bars_ok d \<Longrightarrow> storable b \<Longrightarrow> bars_ok (save_bar b d)"
  using keyed_save_bar stored_bar_values by (auto simp: bars_ok_def set_save_bar)

lemma set_bars_of: "set (bars_of s d) = {r \<in> set (bars_1m d). br_symbol r = s}"
  by (simp add: bars_of_def set_select_where)

lemma bars_of_increasing:
  assumes "bars_ok d"
  shows "sorted_wrt (\<lambda>r r'. local_us (mb_start (decode_bar r)) < local_us (mb_start (decode_bar r'))) (bars_of s d)"
proof -
  have "keyed (\<lambda>r. (br_symbol r, br_start r)) (bars_of s d)"
    using assms inj_on_subset [of "\<lambda>r. (br_symbol r, br_start r)" "set (bars_1m d)"]
    unfolding bars_ok_def keyed_def bars_of_def select_where_def by (simp add: distinct_map)
  then have dist: "distinct (map br_start (bars_of s d))"
    by (auto simp: keyed_def distinct_map inj_on_def set_bars_of)
  have "sorted (map br_start (bars_of s d))" by (simp add: bars_of_def)
  then have "sorted_wrt (<) (map br_start (bars_of s d))" using dist by (simp add: strict_sorted_iff)
  moreover have "local_us (mb_start (decode_bar r)) < local_us (mb_start (decode_bar r'))"
    if r: "r \<in> set (bars_of s d)" "r' \<in> set (bars_of s d)" "br_start r < br_start r'" for r r'
  proof -
    have "stored_start (br_start r)" "stored_start (br_start r')" using r assms by (auto simp: bars_ok_def set_bars_of)
    then obtain v v' where v: "fromisoformat (br_start r) = Some v" "valid_dt v" "dt_tz v = None" "br_start r = iso v"
      and v': "fromisoformat (br_start r') = Some v'" "valid_dt v'" "dt_tz v' = None" "br_start r' = iso v'"
      by (meson stored_start_parse)
    then have "(iso v' \<le> iso v) = (local_us v' \<le> local_us v)" using isoformat_le_iff by (simp add: iso_def)
    then have "local_us v < local_us v'" using r(3) v(4) v'(4) by (simp add: not_le [symmetric])
    then show ?thesis using v(1) v'(1) by (simp add: decode_bar_def)
  qed
  ultimately show ?thesis
    using sorted_wrt_mono_rel [of "bars_of s d" "\<lambda>r r'. br_start r < br_start r'"
        "\<lambda>r r'. local_us (mb_start (decode_bar r)) < local_us (mb_start (decode_bar r'))"]
    by (simp add: sorted_wrt_map)
qed

text \<open>
  A saved bar is read back. In a store whose bars have valid unique keys, after \<open>save_bar\<close> the bars of the symbol are
  the ones before, except the one of the same minute, together with the saved bar under its
  Korean wall-clock start; they come in strictly chronological order, \<open>load_bars\<close> with a limit returns the
  most recent ones and \<open>latest_bar\<close> the last one; bars of other symbols are not touched.
\<close>

theorem saved_bars_read_back:
  assumes "bars_ok d" "storable b"
  shows "\<exists>old bars. load_bars (mb_symbol b) None d = Inr old \<and> load_bars (mb_symbol b) None (save_bar b d) = Inr bars
    \<and> set bars = insert (stored_bar b) {x \<in> set old. mb_start x \<noteq> canonical_market_time (mb_start b)}
    \<and> sorted_wrt (\<lambda>x y. local_us (mb_start x) < local_us (mb_start y)) bars
    \<and> (\<forall>n. load_recent_bars (mb_symbol b) (int (Suc n)) (save_bar b d) = Inr (last_rows (Suc n) bars))
    \<and> latest_bar (mb_symbol b) (save_bar b d) = Inr (Some (last bars))
    \<and> (\<forall>s. s \<noteq> mb_symbol b \<longrightarrow> load_bars s None (save_bar b d) = load_bars s None d)"
proof -
  let ?s = "mb_symbol b" and ?d = "save_bar b d"
  have ok: "bars_ok ?d" using save_bar_ok assms .
  have load: "load_bars s None e = Inr (map decode_bar (bars_of s e))" if "bars_ok e" for s e
    using that by (simp add: load_bars_def read_all_decode bars_ok_def set_bars_of)
  have key: "decode_bar r \<in> {x. mb_start x \<noteq> canonical_market_time (mb_start b)} \<longleftrightarrow> \<not> same_bar_key (bar_values b) r"
    if r: "r \<in> set (bars_1m d)" "br_symbol r = ?s" for r
  proof -
    obtain v where v: "fromisoformat (br_start r) = Some v" "br_start r = iso v" "valid_dt v"
      using stored_start_parse assms(1) r(1) unfolding bars_ok_def by blast
    moreover have "fromisoformat (iso (canonical_market_time (mb_start b))) = Some (canonical_market_time (mb_start b))"
      using assms(2) by (simp add: storable_def iso_def fromisoformat_isoformat_wf)
    ultimately show ?thesis using r(2) by (auto simp: decode_bar_def same_bar_key_def bar_values_def)
  qed
  have "set (bars_of ?s ?d) = insert (bar_values b) {r \<in> set (bars_of ?s d). \<not> same_bar_key (bar_values b) r}"
    by (auto simp: set_bars_of set_save_bar bar_values_def)
  then have "set (map decode_bar (bars_of ?s ?d)) = insert (stored_bar b)
      {x \<in> set (map decode_bar (bars_of ?s d)). mb_start x \<noteq> canonical_market_time (mb_start b)}"
    using key stored_bar_values [OF assms(2)] by (auto simp: set_bars_of)
  moreover have "sorted_wrt (\<lambda>x y. local_us (mb_start x) < local_us (mb_start y)) (map decode_bar (bars_of ?s ?d))"
    using bars_of_increasing [OF ok] by (simp add: sorted_wrt_map)
  moreover have "load_recent_bars ?s (int (Suc n)) ?d = Inr (last_rows (Suc n) (map decode_bar (bars_of ?s ?d)))" for n
  proof -
    have "\<forall>r\<in>set (last_rows (Suc n) (bars_of ?s ?d)). stored_start (br_start r)"
      using ok set_drop_subset unfolding last_rows_def bars_ok_def set_bars_of by (fastforce simp: set_bars_of)
    then show ?thesis
      by (simp add: load_recent_bars_def load_bars_def read_all_decode last_rows_def drop_map nat_add_distrib)
  qed
  moreover have "latest_bar ?s ?d = Inr (Some (last (map decode_bar (bars_of ?s ?d))))"
  proof -
    have ne: "bars_of ?s ?d \<noteq> []" using set_bars_of [of ?s ?d] by (auto simp: set_save_bar bar_values_def)
    then have "last (bars_of ?s ?d) \<in> set (bars_1m ?d)" using last_in_set set_bars_of by fast
    then have "read_bar (last (bars_of ?s ?d)) = Inr (decode_bar (last (bars_of ?s ?d)))"
      using ok stored_start_parse unfolding bars_ok_def read_bar_def parse_time_def decode_bar_def by fastforce
    then show ?thesis using ne by (simp add: latest_bar_def Let_def last_map)
  qed
  moreover have "load_bars s None ?d = load_bars s None d" if "s \<noteq> ?s" for s
  proof -
    have "select_where (\<lambda>r. br_symbol r = s) (bars_1m ?d) = select_where (\<lambda>r. br_symbol r = s) (bars_1m d)"
      using that unfolding select_where_def save_bar_rows
      by (auto simp: bar_values_def same_bar_key_def intro!: filter_update_where_other)
    then show ?thesis by (simp add: load_bars_def bars_of_def)
  qed
  ultimately show ?thesis using load assms(1) ok by blast
qed

definition sample_bar :: minute_bar where
  "sample_bar = \<lparr>mb_symbol = ''005930'', mb_start = sample_time, mb_open = Fin 70000, mb_high = Fin 70100,
     mb_low = Fin 69900, mb_close = Fin 70050, mb_volume = 120\<rparr>"

theorem saved_bars_read_back_witness:
  "\<exists>bars. load_bars ''005930'' None (save_bar sample_bar \<lparr>market_ticks = [], bars_1m = []\<rparr>) = Inr bars
     \<and> set bars = {stored_bar sample_bar} \<and> latest_bar ''005930'' (save_bar sample_bar \<lparr>market_ticks = [], bars_1m = []\<rparr>)
       = Inr (Some (last bars))"
proof -
  let ?d = "\<lparr>market_ticks = [], bars_1m = []\<rparr>"
  have "bars_ok ?d" by (simp add: bars_ok_def)
  moreover have "storable sample_bar"
    using valid_sample_time
    by (simp add: storable_def sample_bar_def canonical_market_time_def as_kst_sample_time valid_dt_def)
  moreover have "load_bars ''005930'' None ?d = Inr []"
    by (simp add: load_bars_def bars_of_def select_where_def)
  ultimately show ?thesis using saved_bars_read_back [of ?d sample_bar] by (auto simp: sample_bar_def)
qed

end
