(* ===== verification/CompletedBars.thy ===== *)
theory CompletedBars
  imports MarketStore
begin

text \<open>
  Completed one-minute bars from persisted ticks (\<open>market/completed_bars.py\<close>). The query does not fix the order of the
  rows of a symbol, so the loop keeps the first and last order keys it has seen. Shown: whatever the order of the rows and the
  batch size, every bar is the aggregate of the minute's ticks taken in the order of time and row number.
\<close>

section \<open>Model\<close>

definition aware_kst :: "datetime \<Rightarrow> datetime" where
  "aware_kst v = (if dt_tz v = None then v\<lparr>dt_tz := Some KST\<rparr> else astimezone_kst v)"

definition minute_start :: "datetime \<Rightarrow> datetime" where
  "minute_start v = (aware_kst v)\<lparr>dt_second := 0, dt_micro := 0\<rparr>"

definition parse_timestamp :: "string \<Rightarrow> datetime result" where
  "parse_timestamp s = rbind (parse_time s) (\<lambda>v. Inr (aware_kst v))"

fun collect_symbols :: "string list \<Rightarrow> string list \<Rightarrow> string list result" where
  "collect_symbols acc [] = Inr acc"
| "collect_symbols acc (s # ss) = (if \<not> isdigit s \<or> length s \<noteq> 6
     then Inl (ValueError ''domestic stock symbols must be six-digit codes'')
     else collect_symbols (if s \<in> set acc then acc else acc @ [s]) ss)"

definition validate_symbols :: "string list option \<Rightarrow> string list option result" where
  "validate_symbols symbols = (case symbols of None \<Rightarrow> Inr None
     | Some ss \<Rightarrow> rbind (collect_symbols [] ss) (\<lambda>r.
         guard_else (r = []) (ValueError ''symbols must not be empty'') (Inr (Some r))))"

text \<open>\<open>(v.date() + timedelta(days=n)).isoformat()\<close>\<close>

definition date_text :: "datetime \<Rightarrow> int \<Rightarrow> string result" where
  "date_text v days = rbind (dt_plus (v\<lparr>dt_hour := 0, dt_minute := 0, dt_second := 0, dt_micro := 0, dt_tz := None\<rparr>)
     (days * 86400000000)) (\<lambda>w. Inr (take 10 (iso_head w)))"

definition query_range :: "datetime \<Rightarrow> datetime \<Rightarrow> (string \<times> string) result" where
  "query_range range_start range_end = rbind (date_text range_start (- 1)) (\<lambda>a.
     rbind (date_text range_end 2) (\<lambda>b. Inr (a, b)))"

text \<open>A row of the query: a distinct tick with the smallest row number it occurs at.\<close>

record grouped_tick =
  gt_symbol :: string
  gt_timestamp :: string
  gt_price :: pyfloat
  gt_volume :: int
  gt_rowid :: nat

fun group_ticks :: "(nat \<times> tick_row) list \<Rightarrow> grouped_tick list" where
  "group_ticks [] = []"
| "group_ticks ((i, r) # rs) =
     \<lparr>gt_symbol = tr_symbol r, gt_timestamp = tr_timestamp r, gt_price = tr_price r, gt_volume = tr_volume r, gt_rowid = i\<rparr>
     # filter (\<lambda>g. \<not> (gt_symbol g = tr_symbol r \<and> gt_timestamp g = tr_timestamp r \<and> gt_price g = tr_price r
         \<and> gt_volume g = tr_volume r)) (group_ticks rs)"

definition query_rows :: "string list option \<Rightarrow> string \<times> string \<Rightarrow> market_db \<Rightarrow> grouped_tick list" where
  "query_rows symbols window d = sort_key gt_symbol (group_ticks (filter (\<lambda>(_, r). fst window \<le> tr_timestamp r
     \<and> tr_timestamp r < snd window \<and> (case symbols of None \<Rightarrow> True | Some ss \<Rightarrow> tr_symbol r \<in> set ss))
     (enumerate 1 (market_ticks d))))"

type_synonym order_key = "int \<times> nat"

record minute_aggregate =
  ma_symbol :: string
  ma_start :: datetime
  ma_open :: pyfloat
  ma_high :: pyfloat
  ma_low :: pyfloat
  ma_close :: pyfloat
  ma_volume :: int
  ma_first_order :: order_key
  ma_last_order :: order_key

definition new_aggregate :: "string \<Rightarrow> datetime \<Rightarrow> pyfloat \<Rightarrow> int \<Rightarrow> order_key \<Rightarrow> minute_aggregate" where
  "new_aggregate symbol start price volume order = \<lparr>ma_symbol = symbol, ma_start = start, ma_open = price,
     ma_high = price, ma_low = price, ma_close = price, ma_volume = volume, ma_first_order = order, ma_last_order = order\<rparr>"

definition grow_aggregate :: "pyfloat \<Rightarrow> int \<Rightarrow> order_key \<Rightarrow> minute_aggregate \<Rightarrow> minute_aggregate" where
  "grow_aggregate price volume order a =
     (let b = a\<lparr>ma_high := fmax (ma_high a) price, ma_low := fmin (ma_low a) price, ma_volume := ma_volume a + volume\<rparr>;
          c = (if order < ma_first_order b then b\<lparr>ma_open := price, ma_first_order := order\<rparr> else b)
      in if ma_last_order c < order then c\<lparr>ma_close := price, ma_last_order := order\<rparr> else c)"

text \<open>A tick that passed the range checks, with its minute and its order key.\<close>

record minute_tick =
  ct_symbol :: string
  ct_start :: datetime
  ct_price :: pyfloat
  ct_volume :: int
  ct_order :: order_key

definition read_row :: "datetime \<Rightarrow> datetime \<Rightarrow> grouped_tick \<Rightarrow> minute_tick option result" where
  "read_row range_start watermark row = rbind (parse_timestamp (gt_timestamp row)) (\<lambda>timestamp.
     if utc_us timestamp < utc_us range_start \<or> utc_us watermark < utc_us timestamp then Inr None
     else let start = minute_start timestamp in rbind (dt_plus start 60000000) (\<lambda>finish.
       if utc_us watermark < utc_us finish then Inr None
       else Inr (Some \<lparr>ct_symbol = gt_symbol row, ct_start = start, ct_price = gt_price row, ct_volume = gt_volume row,
                       ct_order = (utc_us timestamp, gt_rowid row)\<rparr>)))"

definition add_tick :: "minute_tick \<Rightarrow> minute_aggregate list \<Rightarrow> minute_aggregate list" where
  "add_tick t aggregates =
     (let same = (\<lambda>a. ma_symbol a = ct_symbol t \<and> ma_start a = ct_start t) in
      if exists_where same aggregates then update_where same (grow_aggregate (ct_price t) (ct_volume t) (ct_order t)) aggregates
      else aggregates @ [new_aggregate (ct_symbol t) (ct_start t) (ct_price t) (ct_volume t) (ct_order t)])"

fun add_rows :: "datetime \<Rightarrow> datetime \<Rightarrow> grouped_tick list \<Rightarrow> minute_aggregate list \<Rightarrow> minute_aggregate list result" where
  "add_rows lo hi [] as = Inr as"
| "add_rows lo hi (row # rows) as = rbind (read_row lo hi row) (\<lambda>t.
     add_rows lo hi rows (case t of None \<Rightarrow> as | Some t \<Rightarrow> add_tick t as))"

text \<open>The outer loop reads \<open>batch_size\<close> rows at a time until none is left.\<close>

function add_batches :: "nat \<Rightarrow> datetime \<Rightarrow> datetime \<Rightarrow> grouped_tick list \<Rightarrow> minute_aggregate list \<Rightarrow>
  minute_aggregate list result" where
  "add_batches n lo hi rows as = (if n = 0 \<or> rows = [] then Inr as
     else rbind (add_rows lo hi (take n rows) as) (add_batches n lo hi (drop n rows)))"
  by pat_completeness auto
termination
  by (relation "measure (\<lambda>(n, lo, hi, rows, as). length rows)") auto

definition aggregate_bar :: "minute_aggregate \<Rightarrow> minute_bar" where
  "aggregate_bar a = \<lparr>mb_symbol = ma_symbol a, mb_start = ma_start a, mb_open = ma_open a, mb_high = ma_high a,
     mb_low = ma_low a, mb_close = ma_close a, mb_volume = ma_volume a\<rparr>"

text \<open>The bars are sorted by symbol and start; starts share the time zone, so their clock fields decide.\<close>

type_synonym minute_key = "string \<times> datetime"

definition key_rank :: "minute_key \<Rightarrow> string \<times> nat \<times> nat \<times> nat \<times> nat \<times> nat \<times> nat" where
  "key_rank k = (fst k, clock_key (snd k))"

definition aggregate_key :: "minute_aggregate \<Rightarrow> minute_key" where
  "aggregate_key a = (ma_symbol a, ma_start a)"

definition sorted_bars :: "minute_aggregate list \<Rightarrow> minute_bar list" where
  "sorted_bars as = map aggregate_bar (sort_key (\<lambda>a. key_rank (aggregate_key a)) as)"

definition materialize_completed_bars ::
  "string list option \<Rightarrow> datetime option \<Rightarrow> datetime \<Rightarrow> int \<Rightarrow> int \<Rightarrow> minute_bar list mop" where
  "materialize_completed_bars symbols as_of now batch_size lookback_minutes d =
     (case rbind (validate_symbols symbols) (\<lambda>selected.
        guard_else (case as_of of None \<Rightarrow> False | Some v \<Rightarrow> dt_tz v = None)
          (ValueError ''as_of must be timezone-aware'')
        (guard_else (batch_size \<le> 0) (ValueError ''batch_size must be a positive integer'')
        (guard_else (lookback_minutes \<le> 0) (ValueError ''lookback_minutes must be a positive integer'')
        (let watermark = aware_kst (case as_of of None \<Rightarrow> now | Some v \<Rightarrow> v) in
         rbind (dt_plus watermark (- lookback_minutes * 60000000)) (\<lambda>range_start.
         rbind (query_range range_start watermark) (\<lambda>window.
         rbind (add_batches (nat batch_size) range_start watermark (query_rows selected window d) [])
           (\<lambda>as. Inr (sorted_bars as)))))))) of
       Inl e \<Rightarrow> (Inl e, d)
     | Inr bars \<Rightarrow> (Inr bars, foldl (\<lambda>d b. save_bar b d) d bars))"

section \<open>The loop\<close>

lemma add_rows_append: "add_rows lo hi (xs @ ys) as = rbind (add_rows lo hi xs as) (add_rows lo hi ys)"
proof (induction xs arbitrary: as)
  case (Cons x xs)
  then show ?case by (cases "read_row lo hi x") simp_all
qed simp

lemma add_batches_rows: "0 < n \<Longrightarrow> add_batches n lo hi rows as = add_rows lo hi rows as"
proof (induction n lo hi rows as rule: add_batches.induct)
  case (1 n lo hi rows as)
  show ?case
  proof (cases "rows = []")
    case False
    have "add_batches n lo hi rows as = rbind (add_rows lo hi (take n rows) as) (add_rows lo hi (drop n rows))"
      using 1 False by (cases "add_rows lo hi (take n rows) as") auto
    then show ?thesis using add_rows_append [of lo hi "take n rows" "drop n rows" as] by simp
  qed simp
qed

definition ticks_in :: "datetime \<Rightarrow> datetime \<Rightarrow> grouped_tick list \<Rightarrow> minute_tick list" where
  "ticks_in lo hi rows = concat (map (\<lambda>r. case read_row lo hi r of Inr (Some t) \<Rightarrow> [t] | _ \<Rightarrow> []) rows)"

definition add_ticks :: "minute_tick list \<Rightarrow> minute_aggregate list \<Rightarrow> minute_aggregate list" where
  "add_ticks ts as = foldl (\<lambda>as t. add_tick t as) as ts"

lemma add_rows_ticks:
  "\<forall>r\<in>set rows. \<exists>x. read_row lo hi r = Inr x \<Longrightarrow> add_rows lo hi rows as = Inr (add_ticks (ticks_in lo hi rows) as)"
  by (induction rows arbitrary: as) (auto simp: ticks_in_def add_ticks_def split: option.splits)

section \<open>One minute\<close>

definition grow :: "minute_aggregate \<Rightarrow> minute_tick \<Rightarrow> minute_aggregate" where
  "grow a t = grow_aggregate (ct_price t) (ct_volume t) (ct_order t) a"

fun aggregate :: "minute_tick list \<Rightarrow> minute_aggregate" where
  "aggregate [] = new_aggregate [] sample_time (Fin 0) 0 (0, 0)"
| "aggregate (t # ts) = foldl grow (new_aggregate (ct_symbol t) (ct_start t) (ct_price t) (ct_volume t) (ct_order t)) ts"

definition reference_bar :: "minute_tick list \<Rightarrow> minute_bar" where
  "reference_bar g = \<lparr>mb_symbol = ct_symbol (hd g), mb_start = ct_start (hd g), mb_open = ct_price (hd g),
     mb_high = foldl fmax (ct_price (hd g)) (map ct_price (tl g)),
     mb_low = foldl fmin (ct_price (hd g)) (map ct_price (tl g)),
     mb_close = ct_price (last g), mb_volume = sum_list (map ct_volume g)\<rparr>"

lemma aggregate_snoc: "ts \<noteq> [] \<Longrightarrow> aggregate (ts @ [t]) = grow (aggregate ts) t"
  by (cases ts) simp_all

lemma grow_fields [simp]:
  "ma_symbol (grow a t) = ma_symbol a" "ma_start (grow a t) = ma_start a"
  "ma_high (grow a t) = fmax (ma_high a) (ct_price t)" "ma_low (grow a t) = fmin (ma_low a) (ct_price t)"
  "ma_volume (grow a t) = ma_volume a + ct_volume t"
  by (simp_all add: grow_def grow_aggregate_def Let_def)

lemma grow_order:
  "ma_first_order (grow a t) = min (ma_first_order a) (ct_order t)"
  "ma_last_order (grow a t) = max (ma_last_order a) (ct_order t)"
  "ma_open (grow a t) = (if ct_order t < ma_first_order a then ct_price t else ma_open a)"
  "ma_close (grow a t) = (if ma_last_order a < ct_order t then ct_price t else ma_close a)"
  by (auto simp: grow_def grow_aggregate_def Let_def min_def max_def)

lemma aggregate_ends:
  assumes "ts \<noteq> []"
  shows "\<exists>t\<in>set ts. ma_first_order (aggregate ts) = ct_order t \<and> ma_open (aggregate ts) = ct_price t
      \<and> (\<forall>u\<in>set ts. ct_order t \<le> ct_order u)"
    and "\<exists>t\<in>set ts. ma_last_order (aggregate ts) = ct_order t \<and> ma_close (aggregate ts) = ct_price t
      \<and> (\<forall>u\<in>set ts. ct_order u \<le> ct_order t)"
  using assms
proof (induction ts rule: rev_nonempty_induct)
  case (single t)
  { case 1 then show ?case by (simp add: new_aggregate_def) }
  { case 2 then show ?case by (simp add: new_aggregate_def) }
next
  case (snoc t ts)
  { case 1
    from snoc(2) obtain u where "u \<in> set ts" "ma_first_order (aggregate ts) = ct_order u"
      "ma_open (aggregate ts) = ct_price u" "\<forall>v\<in>set ts. ct_order u \<le> ct_order v" by blast
    then show ?case using snoc(1)
      by (cases "ct_order t < ct_order u") (auto simp: aggregate_snoc grow_order min_def intro: less_imp_le less_le_trans) }
  { case 2
    from snoc(3) obtain u where "u \<in> set ts" "ma_last_order (aggregate ts) = ct_order u"
      "ma_close (aggregate ts) = ct_price u" "\<forall>v\<in>set ts. ct_order v \<le> ct_order u" by blast
    then show ?case using snoc(1)
      by (cases "ct_order u < ct_order t") (auto simp: aggregate_snoc grow_order max_def intro: less_imp_le le_less_trans) }
qed

lemma aggregate_rest:
  assumes "ts \<noteq> []"
  shows "ma_symbol (aggregate ts) = ct_symbol (hd ts)" "ma_start (aggregate ts) = ct_start (hd ts)"
    "ma_high (aggregate ts) = foldl fmax (ct_price (hd ts)) (map ct_price (tl ts))"
    "ma_low (aggregate ts) = foldl fmin (ct_price (hd ts)) (map ct_price (tl ts))"
    "ma_volume (aggregate ts) = sum_list (map ct_volume ts)"
  using assms by (induction ts rule: rev_nonempty_induct) (simp_all add: new_aggregate_def aggregate_snoc)

text \<open>Over finite prices the running maximum and minimum depend on the set of prices only.\<close>

lemma foldl_fmax_fmin:
  "foldl fmax (Fin x) (map Fin xs) = Fin (Max (set (x # xs)))"
  "foldl fmin (Fin x) (map Fin xs) = Fin (Min (set (x # xs)))"
proof -
  have step: "fmax (Fin a) (Fin b) = Fin (max a b)" "fmin (Fin a) (Fin b) = Fin (min a b)" for a b
    by (auto simp: fmax_def fmin_def)
  have "foldl fmax (Fin x) (map Fin xs) = Fin (fold max xs x)" by (induction xs arbitrary: x) (simp_all add: step max.commute)
  then show "foldl fmax (Fin x) (map Fin xs) = Fin (Max (set (x # xs)))" by (simp only: Max.set_eq_fold)
  have "foldl fmin (Fin x) (map Fin xs) = Fin (fold min xs x)" by (induction xs arbitrary: x) (simp_all add: step min.commute)
  then show "foldl fmin (Fin x) (map Fin xs) = Fin (Min (set (x # xs)))" by (simp only: Min.set_eq_fold)
qed

lemma finite_prices: "\<forall>t\<in>set ts. isfinite (ct_price t) \<Longrightarrow> \<exists>xs. map ct_price ts = map Fin xs \<and> Fin ` set xs = ct_price ` set ts"
proof -
  assume "\<forall>t\<in>set ts. isfinite (ct_price t)"
  then have "\<exists>xs. map ct_price ts = map Fin xs"
  proof (induction ts)
    case (Cons t ts)
    then obtain x xs where "ct_price t = Fin x" "map ct_price ts = map Fin xs" by (cases "ct_price t") auto
    then have "map ct_price (t # ts) = map Fin (x # xs)" by simp
    then show ?case by blast
  qed simp
  then show ?thesis by (metis list.set_map)
qed

lemma high_low_set:
  assumes "ts \<noteq> []" "us \<noteq> []" "set ts = set us" "\<forall>t\<in>set us. isfinite (ct_price t)"
  shows "foldl fmax (ct_price (hd ts)) (map ct_price (tl ts)) = foldl fmax (ct_price (hd us)) (map ct_price (tl us))"
    "foldl fmin (ct_price (hd ts)) (map ct_price (tl ts)) = foldl fmin (ct_price (hd us)) (map ct_price (tl us))"
proof -
  obtain xs ys where x: "map ct_price ts = map Fin xs" "Fin ` set xs = ct_price ` set ts"
    and y: "map ct_price us = map Fin ys" "Fin ` set ys = ct_price ` set us"
    using finite_prices assms(3,4) by metis
  have "set xs = set ys" using x(2) y(2) assms(3) by (metis inj_image_eq_iff injI pyfloat.inject)
  moreover have ne: "xs \<noteq> []" "ys \<noteq> []" using assms(1,2) x(1) y(1) by auto
  ultimately have same: "set (hd xs # tl xs) = set (hd ys # tl ys)" by simp
  have hd: "ct_price (hd ts) = Fin (hd xs)" "map ct_price (tl ts) = map Fin (tl xs)"
    "ct_price (hd us) = Fin (hd ys)" "map ct_price (tl us) = map Fin (tl ys)"
    using x(1) y(1) ne assms(1,2) by (metis hd_map map_tl)+
  show "foldl fmax (ct_price (hd ts)) (map ct_price (tl ts)) = foldl fmax (ct_price (hd us)) (map ct_price (tl us))"
    "foldl fmin (ct_price (hd ts)) (map ct_price (tl ts)) = foldl fmin (ct_price (hd us)) (map ct_price (tl us))"
    unfolding hd foldl_fmax_fmin same by simp_all
qed

definition tick_key :: "minute_tick \<Rightarrow> minute_key" where
  "tick_key t = (ct_symbol t, ct_start t)"

lemma sorted_key_ends:
  assumes "sorted (map f s)" "x \<in> set s"
  shows "f (hd s) \<le> f x \<and> f x \<le> f (last s)"
  using assms by (induction s) auto

lemma aggregate_reference:
  assumes "ts \<noteq> []" "distinct (map ct_order ts)" "\<forall>t\<in>set ts. isfinite (ct_price t)" "\<forall>t\<in>set ts. tick_key t = k"
  shows "aggregate_bar (aggregate ts) = reference_bar (sort_key ct_order ts)"
proof -
  let ?s = "sort_key ct_order ts"
  have ne: "?s \<noteq> []" using assms(1) by (metis set_empty set_sort)
  have inj: "t = u" if "t \<in> set ts" "u \<in> set ts" "ct_order t = ct_order u" for t u
    using that assms(2) by (auto simp: distinct_map dest: inj_onD)
  have srt: "sorted (map ct_order ?s)" by simp
  obtain t where t: "t \<in> set ts" "ma_open (aggregate ts) = ct_price t" "\<forall>u\<in>set ts. ct_order t \<le> ct_order u"
    using aggregate_ends(1) [OF assms(1)] by blast
  have "ct_order (hd ?s) \<le> ct_order t" using sorted_key_ends [OF srt] t(1) by simp
  then have "hd ?s = t" using t inj ne by (metis antisym hd_in_set set_sort)
  obtain u where u: "u \<in> set ts" "ma_close (aggregate ts) = ct_price u" "\<forall>v\<in>set ts. ct_order v \<le> ct_order u"
    using aggregate_ends(2) [OF assms(1)] by blast
  have "ct_order u \<le> ct_order (last ?s)" using sorted_key_ends [OF srt] u(1) by simp
  then have "last ?s = u" using u inj ne by (metis antisym last_in_set set_sort)
  have keys: "ct_symbol (hd ts) = ct_symbol t" "ct_start (hd ts) = ct_start t"
    using assms(1,4) t(1) by (metis hd_in_set prod.inject tick_key_def)+
  show ?thesis
    using aggregate_rest [OF assms(1)] high_low_set [OF assms(1) ne] assms(3) keys t(2) u(2) \<open>hd ?s = t\<close> \<open>last ?s = u\<close>
    by (simp add: aggregate_bar_def reference_bar_def)
qed

section \<open>All minutes\<close>

fun first_keys :: "minute_key list \<Rightarrow> minute_tick list \<Rightarrow> minute_key list" where
  "first_keys seen [] = seen"
| "first_keys seen (t # ts) = first_keys (if tick_key t \<in> set seen then seen else seen @ [tick_key t]) ts"

lemma first_keys_snoc: "first_keys seen (ts @ [t]) = (let ks = first_keys seen ts in
    if tick_key t \<in> set ks then ks else ks @ [tick_key t])"
  by (induction ts arbitrary: seen) (simp_all add: Let_def)

lemma first_keys_set: "set (first_keys [] ts) = tick_key ` set ts \<and> distinct (first_keys [] ts)"
  by (induction ts rule: rev_induct) (auto simp: first_keys_snoc Let_def)

abbreviation of_minute :: "minute_key \<Rightarrow> minute_tick list \<Rightarrow> minute_tick list" where
  "of_minute k ts \<equiv> filter (\<lambda>t. tick_key t = k) ts"

lemma of_minute_ne: "k \<in> tick_key ` set ts \<Longrightarrow> of_minute k ts \<noteq> []"
  by (auto simp: filter_empty_conv)

lemma aggregate_of_minute: "k \<in> tick_key ` set ts \<Longrightarrow> aggregate_key (aggregate (of_minute k ts)) = k"
proof -
  assume "k \<in> tick_key ` set ts"
  then have ne: "of_minute k ts \<noteq> []" by (rule of_minute_ne)
  then have "tick_key (hd (of_minute k ts)) = k" using hd_in_set [OF ne] by simp
  then show ?thesis using aggregate_rest(1,2) [OF ne] by (simp add: aggregate_key_def tick_key_def)
qed

lemma add_ticks_minutes: "add_ticks ts [] = map (\<lambda>k. aggregate (of_minute k ts)) (first_keys [] ts)"
proof (induction ts rule: rev_induct)
  case Nil
  then show ?case by (simp add: add_ticks_def)
next
  case (snoc t ts)
  let ?ks = "first_keys [] ts"
  have same: "(ma_symbol a = ct_symbol t \<and> ma_start a = ct_start t) = (aggregate_key a = tick_key t)" for a
    by (simp add: aggregate_key_def tick_key_def)
  have key: "aggregate_key (aggregate (of_minute k ts)) = k" if "k \<in> set ?ks" for k
    using that aggregate_of_minute first_keys_set by blast
  have step: "add_ticks (ts @ [t]) [] = add_tick t (map (\<lambda>k. aggregate (of_minute k ts)) ?ks)"
    using snoc by (simp add: add_ticks_def)
  show ?case
  proof (cases "tick_key t \<in> set ?ks")
    case True
    then have "of_minute (tick_key t) ts \<noteq> []" using of_minute_ne first_keys_set by blast
    then show ?thesis
      using True key unfolding step add_tick_def Let_def same
      by (auto simp: exists_where_iff update_where_def first_keys_snoc Let_def grow_def [symmetric] aggregate_snoc)
  next
    case False
    then have "tick_key t \<notin> tick_key ` set ts" using first_keys_set by blast
    then have "of_minute (tick_key t) ts = []" by (metis (mono_tags, lifting) filter_False image_eqI)
    then show ?thesis
      using False key unfolding step add_tick_def Let_def same
      by (auto simp: exists_where_iff first_keys_snoc Let_def)
  qed
qed

lemma sort_key_map: "sort_key f (map g xs) = map g (sort_key (\<lambda>x. f (g x)) xs)"
proof -
  have "insort_key f (g x) (map g ys) = map g (insort_key (\<lambda>x. f (g x)) x ys)" for x ys by (induction ys) auto
  then show ?thesis by (induction xs) simp_all
qed

lemma sort_key_cong: "(\<And>x. x \<in> set xs \<Longrightarrow> f x = g x) \<Longrightarrow> sort_key f xs = sort_key g xs"
proof (induction xs)
  case (Cons x xs)
  have "insort_key f x ys = insort_key g x ys" if "\<forall>y\<in>set ys. f y = g y" for ys
    using that Cons.prems [of x] by (induction ys) auto
  with Cons show ?case by simp
qed simp

lemma sort_key_unique: "set xs = set ys \<Longrightarrow> distinct xs \<Longrightarrow> distinct ys \<Longrightarrow> inj_on f (set xs) \<Longrightarrow> sort_key f xs = sort_key f ys"
  using set_eq_iff_mset_eq_distinct [of xs ys] sort_key_inj_key_eq [of xs "sort_key f ys" f] by simp

text \<open>The reference: the accepted ticks in the order of time and row number, grouped by symbol and minute.\<close>

definition reference_bars :: "minute_tick list \<Rightarrow> minute_bar list" where
  "reference_bars ts = (let s = sort_key ct_order ts in
     map (\<lambda>k. reference_bar (of_minute k s)) (sort_key key_rank (remdups (map tick_key s))))"

lemma read_row_tick:
  assumes "read_row lo hi r = Inr (Some t)"
  shows "ct_price t = gt_price r \<and> snd (ct_order t) = gt_rowid r
    \<and> dt_micro (ct_start t) = 0 \<and> dt_tz (ct_start t) = Some KST"
proof -
  have "dt_tz (aware_kst v) = Some KST" for v by (simp add: aware_kst_def astimezone_kst_def)
  then show ?thesis
    using assms by (auto simp: read_row_def rbind_eq_Inr Let_def minute_start_def split: if_splits)
qed

lemma set_ticks_in: "t \<in> set (ticks_in lo hi rows) \<longleftrightarrow> (\<exists>r\<in>set rows. read_row lo hi r = Inr (Some t))"
proof
  assume "t \<in> set (ticks_in lo hi rows)"
  then show "\<exists>r\<in>set rows. read_row lo hi r = Inr (Some t)"
    by (auto simp: ticks_in_def split: sum.splits option.splits)
next
  assume "\<exists>r\<in>set rows. read_row lo hi r = Inr (Some t)"
  then obtain r where "r \<in> set rows" "read_row lo hi r = Inr (Some t)" by blast
  then show "t \<in> set (ticks_in lo hi rows)" unfolding ticks_in_def by (auto intro!: bexI [of _ r])
qed

lemma ticks_in_orders: "distinct (map gt_rowid rows) \<Longrightarrow> distinct (map ct_order (ticks_in lo hi rows))"
proof (induction rows)
  case (Cons r rows)
  have "ct_order t \<notin> ct_order ` set (ticks_in lo hi rows)" if t: "read_row lo hi r = Inr (Some t)" for t
  proof
    assume "ct_order t \<in> ct_order ` set (ticks_in lo hi rows)"
    then obtain u where u: "ct_order t = ct_order u" "u \<in> set (ticks_in lo hi rows)" by blast
    from u(2) obtain q where q: "q \<in> set rows" "read_row lo hi q = Inr (Some u)" unfolding set_ticks_in by blast
    then have "gt_rowid q = gt_rowid r" using read_row_tick [OF t] read_row_tick [OF q(2)] u(1) by metis
    then show False using Cons.prems q(1) by (metis distinct.simps(2) image_eqI list.simps(9) list.set_map)
  qed
  then show ?case using Cons by (auto simp: ticks_in_def split: sum.splits option.splits)
qed (simp add: ticks_in_def)

lemma add_ticks_reference:
  assumes d: "distinct (map ct_order ts)" and fin: "\<forall>t\<in>set ts. isfinite (ct_price t)"
    and start: "\<forall>t\<in>set ts. dt_micro (ct_start t) = 0 \<and> dt_tz (ct_start t) = Some KST"
  shows "sorted_bars (add_ticks ts []) = reference_bars ts"
proof -
  let ?ks = "first_keys [] ts"
  have ks: "set ?ks = tick_key ` set ts" "distinct ?ks" using first_keys_set by blast+
  have rank: "sort_key (\<lambda>k. key_rank (aggregate_key (aggregate (of_minute k ts)))) ?ks = sort_key key_rank ?ks"
    using aggregate_of_minute ks(1) by (intro sort_key_cong) simp
  have same: "v = w" if "clock_key v = clock_key w" "dt_micro v = 0" "dt_micro w = 0" "dt_tz v = dt_tz w" for v w
    using that by (cases v; cases w) (simp add: clock_key_def)
  have inj: "inj_on key_rank (set ?ks)"
  proof (rule inj_onI)
    fix x y assume "x \<in> set ?ks" "y \<in> set ?ks" and rank: "key_rank x = key_rank y"
    then obtain t u where "t \<in> set ts" "x = tick_key t" "u \<in> set ts" "y = tick_key u" using ks(1) by blast
    then show "x = y" using rank same start by (simp add: key_rank_def tick_key_def)
  qed
  have bar: "aggregate_bar (aggregate (of_minute k ts)) = reference_bar (of_minute k (sort_key ct_order ts))"
    if "k \<in> set ?ks" for k
  proof -
    have "of_minute k ts \<noteq> []" using that ks(1) of_minute_ne by blast
    moreover have "distinct (map ct_order (of_minute k ts))" using d by (rule distinct_map_filter)
    ultimately have "aggregate_bar (aggregate (of_minute k ts)) = reference_bar (sort_key ct_order (of_minute k ts))"
      using fin by (intro aggregate_reference [where k = k]) simp_all
    then show ?thesis by (simp add: filter_sort)
  qed
  have "sort_key key_rank ?ks = sort_key key_rank (remdups (map tick_key (sort_key ct_order ts)))"
    using ks inj by (intro sort_key_unique) simp_all
  then show ?thesis
    using bar ks(1) unfolding sorted_bars_def add_ticks_minutes sort_key_map rank reference_bars_def Let_def by simp
qed

lemma ticks_in_perm:
  assumes "mset rows' = mset rows"
  shows "mset (ticks_in lo hi rows') = mset (ticks_in lo hi rows)"
proof -
  have "mset (ticks_in lo hi xs) = (\<Sum>r\<in>#mset xs. mset (case read_row lo hi r of Inr (Some t) \<Rightarrow> [t] | _ \<Rightarrow> []))" for xs
    by (induction xs) (simp_all add: ticks_in_def)
  then show ?thesis using assms by simp
qed

lemma reference_bars_perm:
  assumes "mset ts' = mset ts" "distinct (map ct_order ts)"
  shows "reference_bars ts' = reference_bars ts"
proof -
  have "inj_on ct_order (set ts')" using assms by (metis distinct_map set_mset_mset)
  then have "sort_key ct_order ts' = sort_key ct_order ts"
    using sort_key_inj_key_eq [of ts' "sort_key ct_order ts" ct_order] assms(1) by simp
  then show ?thesis by (simp add: reference_bars_def)
qed

text \<open>
  (C35) However SQLite orders the rows of the query and however they are cut into batches, the loop returns the same bars: those
  of the accepted ticks taken in the order of time and row number and grouped by symbol and minute, with the
  first, highest, lowest and last price and the total volume of each group, sorted by symbol and start.
\<close>

theorem completed_bars_order_independent:
  assumes "mset rows' = mset rows" "distinct (map gt_rowid rows)" "0 < n"
    "\<forall>r\<in>set rows. isfinite (gt_price r)" "\<forall>r\<in>set rows. \<exists>x. read_row lo hi r = Inr x"
  shows "\<exists>as. add_batches n lo hi rows' [] = Inr as \<and> sorted_bars as = reference_bars (ticks_in lo hi rows)"
proof -
  have set': "set rows' = set rows" using assms(1) by (metis set_mset_mset)
  have "distinct (map gt_rowid rows')" using assms(1,2) by (metis mset_eq_imp_distinct_iff mset_map)
  then have d: "distinct (map ct_order (ticks_in lo hi rows'))" by (rule ticks_in_orders)
  have run: "add_batches n lo hi rows' [] = Inr (add_ticks (ticks_in lo hi rows') [])"
    using add_batches_rows [OF assms(3)] add_rows_ticks [of rows' lo hi "[]"] assms(5) set' by (simp del: add_batches.simps)
  have "isfinite (ct_price t) \<and> dt_micro (ct_start t) = 0 \<and> dt_tz (ct_start t) = Some KST"
    if t: "t \<in> set (ticks_in lo hi rows')" for t
  proof -
    obtain r where "r \<in> set rows'" "read_row lo hi r = Inr (Some t)" using t unfolding set_ticks_in by blast
    then show ?thesis using read_row_tick assms(4) set' by metis
  qed
  then have "sorted_bars (add_ticks (ticks_in lo hi rows') []) = reference_bars (ticks_in lo hi rows')"
    using d by (intro add_ticks_reference) simp_all
  also have "\<dots> = reference_bars (ticks_in lo hi rows)"
    using ticks_in_perm [OF assms(1)] ticks_in_orders [OF assms(2)] by (rule reference_bars_perm)
  finally show ?thesis using run by blast
qed

lemma query_rows_distinct: "distinct (map gt_rowid (query_rows symbols window d))"
proof -
  have ids: "gt_rowid ` set (group_ticks rs) \<subseteq> fst ` set rs" for rs by (induction rs rule: group_ticks.induct) auto
  have "distinct (map fst rs) \<Longrightarrow> distinct (map gt_rowid (group_ticks rs))" for rs
  proof (induction rs rule: group_ticks.induct)
    case (2 i r rs)
    then show ?case using ids [of rs] by (auto intro: distinct_map_filter)
  qed simp
  moreover have "distinct (map fst (filter P (enumerate 1 (market_ticks d))))" for P
    by (intro distinct_map_filter) (simp add: enumerate_eq_zip)
  ultimately have "distinct (map gt_rowid (group_ticks (filter P (enumerate 1 (market_ticks d)))))" for P by blast
  then show ?thesis by (simp add: query_rows_def distinct_map)
qed

definition sample_row :: "pyfloat \<Rightarrow> nat \<Rightarrow> grouped_tick" where
  "sample_row price i = \<lparr>gt_symbol = ''005930'', gt_timestamp = iso (sample_time\<lparr>dt_tz := None\<rparr>), gt_price = price,
     gt_volume = 10, gt_rowid = i\<rparr>"

definition sample_watermark :: datetime where
  "sample_watermark = of_local_us 63903288660000000 (Some KST)"

lemma sample_row_read: "read_row sample_time sample_watermark (sample_row p i) = Inr (Some
    \<lparr>ct_symbol = ''005930'', ct_start = sample_time, ct_price = p, ct_volume = 10, ct_order = (63903256200000000, i)\<rparr>)"
proof -
  have v: "valid_dt (sample_time\<lparr>dt_tz := None\<rparr>)" using valid_sample_time by (simp add: valid_dt_def)
  have tz: "sample_time\<lparr>dt_tz := Some KST\<rparr> = sample_time" by (simp add: sample_time_def KST_def)
  have parse: "parse_timestamp (iso (sample_time\<lparr>dt_tz := None\<rparr>)) = Inr sample_time"
    using fromisoformat_isoformat_wf [OF v] by (simp add: parse_timestamp_def parse_time_def iso_def aware_kst_def tz)
  have start: "minute_start sample_time = sample_time"
  proof -
    have "aware_kst sample_time = sample_time"
      using of_local_us_local_us [OF valid_sample_time]
      by (simp add: aware_kst_def astimezone_kst_def KST_def utc_us_sample_time tz_us_def local_us_sample_time)
        (simp add: sample_time_def)
    then show ?thesis by (simp add: minute_start_def sample_time_def)
  qed
  have plus: "\<exists>e. dt_plus sample_time 60000000 = Inr e \<and> utc_us e = 63903256260000000"
    using utc_us_dt_plus [of sample_time 60000000]
    by (simp add: dt_plus_def local_us_sample_time in_range_us_def utc_us_sample_time)
  have "utc_us sample_watermark = 63903256260000000"
    by (simp add: sample_watermark_def utc_us_def local_us_of_local_us tz_us_def KST_def)
  then show ?thesis
    using plus parse start by (auto simp: read_row_def sample_row_def Let_def utc_us_sample_time)
qed

theorem completed_bars_order_independent_witness:
  "\<exists>as. add_batches 1 sample_time sample_watermark [sample_row (Fin 101) 2, sample_row (Fin 100) 1] [] = Inr as
     \<and> sorted_bars as = reference_bars (ticks_in sample_time sample_watermark [sample_row (Fin 100) 1, sample_row (Fin 101) 2])
     \<and> length (ticks_in sample_time sample_watermark [sample_row (Fin 100) 1, sample_row (Fin 101) 2]) = 2"
proof -
  have "\<exists>as. add_batches 1 sample_time sample_watermark [sample_row (Fin 101) 2, sample_row (Fin 100) 1] [] = Inr as
     \<and> sorted_bars as = reference_bars (ticks_in sample_time sample_watermark [sample_row (Fin 100) 1, sample_row (Fin 101) 2])"
    by (rule completed_bars_order_independent)
      (simp_all add: sample_row_read, simp_all add: sample_row_def add_mset_commute)
  moreover have "length (ticks_in sample_time sample_watermark [sample_row (Fin 100) 1, sample_row (Fin 101) 2]) = 2"
    by (simp add: ticks_in_def sample_row_read)
  ultimately show ?thesis by blast
qed

end
