(* ===== verification/Features.thy ===== *)
theory Features
  imports MarketBars
begin

text \<open>
  Indicators, feature snapshots, candidate rules and data freshness (\<open>indicators/*.py\<close>, \<open>market/features.py\<close>,
  \<open>strategies/candidate.py\<close>, \<open>market/health.py\<close>). Volumes are integers that fit a float operand, as SQLite stores them.
  Shown: moving averages never look ahead, the three candidate profiles are
  nested, and trading is blocked exactly when no fresh data backs it.
\<close>

section \<open>Indicators\<close>

definition fsum :: "pyfloat list \<Rightarrow> pyfloat" where
  "fsum xs = foldl fadd (Fin 0) xs"

definition last_n :: "nat \<Rightarrow> 'a list \<Rightarrow> 'a list" where
  "last_n n xs = drop (length xs - n) xs"

definition ma_validate :: "pyfloat list \<Rightarrow> int \<Rightarrow> unit result" where
  "ma_validate values period =
     guard_else (period \<le> 0) (ValueError ''period must be positive'')
     (guard_else (list_ex (\<lambda>v. \<not> feq v v) values) (ValueError ''values must not contain NaN'') (Inr ()))"

definition sma :: "pyfloat list \<Rightarrow> int \<Rightarrow> pyfloat option result" where
  "sma values period = rbind (ma_validate values period) (\<lambda>_.
     if int (length values) < period then Inr None
     else rbind (fdiv (fsum (last_n (nat period) values)) (f_int period)) (\<lambda>a. Inr (Some a)))"

fun sma_prefixes :: "pyfloat list \<Rightarrow> int \<Rightarrow> nat list \<Rightarrow> pyfloat option list result" where
  "sma_prefixes values period [] = Inr []"
| "sma_prefixes values period (i # is) = rbind (sma (take (i + 1) values) period) (\<lambda>a.
     rbind (sma_prefixes values period is) (\<lambda>r. Inr (a # r)))"

definition sma_series :: "pyfloat list \<Rightarrow> int \<Rightarrow> pyfloat option list result" where
  "sma_series values period = rbind (ma_validate values period) (\<lambda>_. sma_prefixes values period [0..<length values])"

text \<open>The loop of \<open>ema_series\<close>: the values after the seed, each smoothed into the current average.\<close>

fun ema_loop :: "pyfloat \<Rightarrow> pyfloat \<Rightarrow> pyfloat list \<Rightarrow> pyfloat list" where
  "ema_loop multiplier current [] = []"
| "ema_loop multiplier current (v # vs) =
     (let c = fadd (fmul (fsub v current) multiplier) current in c # ema_loop multiplier c vs)"

definition ema_series :: "pyfloat list \<Rightarrow> int \<Rightarrow> pyfloat option list result" where
  "ema_series values period = rbind (ma_validate values period) (\<lambda>_.
     if int (length values) < period then Inr (replicate (length values) None)
     else rbind (fdiv (fsum (take (nat period) values)) (f_int period)) (\<lambda>current.
       Inr (replicate (nat period - 1) None @ Some current
         # map Some (ema_loop (fl (2 / of_int (period + 1))) current (drop (nat period) values)))))"

definition ema :: "pyfloat list \<Rightarrow> int \<Rightarrow> pyfloat option result" where
  "ema values period = rbind (ema_series values period) (\<lambda>series. Inr (if series = [] then None else last series))"

definition volume_average :: "int list \<Rightarrow> int \<Rightarrow> pyfloat option result" where
  "volume_average volumes period = guard_else (period \<le> 0) (ValueError ''period must be positive'')
     (if int (length volumes) < period then Inr None
      else Inr (Some (fl (of_int (sum_list (last_n (nat period) volumes)) / of_int period))))"

definition volume_ratio :: "int list \<Rightarrow> int \<Rightarrow> pyfloat option result" where
  "volume_ratio volumes period = (if volumes = [] then Inr None
     else rbind (volume_average (butlast volumes) period) (\<lambda>a.
          rbind (if a = None then volume_average volumes period else Inr a) (\<lambda>average.
            case average of None \<Rightarrow> Inr None
            | Some v \<Rightarrow> if fle v (Fin 0) then Inr None
                else rbind (fdiv (f_int (last volumes)) v) (\<lambda>r. Inr (Some r)))))"

definition vwap :: "pyfloat list \<Rightarrow> int list \<Rightarrow> pyfloat option result" where
  "vwap prices volumes =
     guard_else (length prices \<noteq> length volumes) (ValueError ''prices and volumes must have equal length'')
     (if prices = [] then Inr None
      else let total_volume = sum_list volumes in
        if total_volume \<le> 0 then Inr None
        else rbind (fdiv (fsum (map (\<lambda>(p, v). fmul p (f_int v)) (zip prices volumes))) (f_int total_volume))
          (\<lambda>r. Inr (Some r)))"

definition vwap_bars :: "minute_bar list \<Rightarrow> pyfloat option result" where
  "vwap_bars bars = vwap
     (map (\<lambda>b. fquot (fadd (fadd (fadd (mb_open b) (mb_high b)) (mb_low b)) (mb_close b)) (Fin 4)) bars)
     (map mb_volume bars)"

section \<open>Feature snapshots\<close>

record feature_snapshot =
  fs_symbol :: string
  fs_latest_close :: pyfloat
  fs_ema5 :: "pyfloat option"
  fs_ema10 :: "pyfloat option"
  fs_ema20 :: "pyfloat option"
  fs_ma60 :: "pyfloat option"
  fs_vwap :: "pyfloat option"
  fs_volume_ratio :: "pyfloat option"
  fs_high_n :: "pyfloat option"
  fs_low_n :: "pyfloat option"
  fs_distance_from_high_pct :: "pyfloat option"
  fs_ema20_slope_pct :: "pyfloat option"

text \<open>\<open>bars[-lookback - 1:-1]\<close>: the bars before the latest one.\<close>

definition recent_bars :: "minute_bar list \<Rightarrow> nat \<Rightarrow> minute_bar list" where
  "recent_bars bars lookback = (let r = (if 1 < length bars then last_n lookback (butlast bars) else bars)
     in if r = [] then bars else r)"

definition change_pct :: "pyfloat \<Rightarrow> pyfloat \<Rightarrow> pyfloat option result" where
  "change_pct value base = (if base = Fin 0 then Inr None
     else rbind (fdiv (fsub value base) base) (\<lambda>r. Inr (Some (fmul r (Fin 100)))))"

definition slope_pct :: "pyfloat option list \<Rightarrow> pyfloat option result" where
  "slope_pct series = (if 2 \<le> length series then
       (case (series ! (length series - 2), last series) of
          (Some previous, Some current) \<Rightarrow> change_pct current previous
        | _ \<Rightarrow> Inr None)
     else Inr None)"

definition build_feature_snapshot :: "minute_bar list \<Rightarrow> int \<Rightarrow> feature_snapshot option result" where
  "build_feature_snapshot bars lookback = (if bars = [] then Inr None
     else guard_else (lookback \<le> 0) (ValueError ''lookback must be positive'')
     (let closes = map mb_close bars; volumes = map mb_volume bars;
          recent = recent_bars bars (nat lookback);
          high_n = foldl fmax (mb_high (hd recent)) (map mb_high (tl recent));
          low_n = foldl fmin (mb_low (hd recent)) (map mb_low (tl recent))
      in rbind (change_pct (last closes) high_n) (\<lambda>distance.
         rbind (ema_series closes 20) (\<lambda>ema20_values.
         rbind (slope_pct ema20_values) (\<lambda>slope.
         rbind (ema closes 5) (\<lambda>e5. rbind (ema closes 10) (\<lambda>e10. rbind (sma closes 60) (\<lambda>m60.
         rbind (vwap_bars bars) (\<lambda>vw.
         rbind (volume_ratio volumes (min 20 (max 1 (int (length volumes) - 1)))) (\<lambda>ratio.
           Inr (Some \<lparr>fs_symbol = mb_symbol (last bars), fs_latest_close = last closes, fs_ema5 = e5, fs_ema10 = e10,
             fs_ema20 = last ema20_values, fs_ma60 = m60, fs_vwap = vw, fs_volume_ratio = ratio,
             fs_high_n = Some high_n, fs_low_n = Some low_n, fs_distance_from_high_pct = distance,
             fs_ema20_slope_pct = slope\<rparr>)))))))))))"

section \<open>Candidates\<close>

record candidate_signal =
  cs_symbol :: string
  cs_strategy :: string
  cs_score :: pyfloat
  cs_reason :: string
  cs_features :: feature_snapshot

record candidate_thresholds =
  th_pullback_distance_min :: pyfloat
  th_pullback_distance_max :: pyfloat
  th_pullback_volume_ratio :: pyfloat
  th_momentum_distance_min :: pyfloat
  th_momentum_volume_ratio :: pyfloat
  th_breakout_volume_ratio :: pyfloat

definition thresholds :: "rat \<Rightarrow> rat \<Rightarrow> rat \<Rightarrow> rat \<Rightarrow> rat \<Rightarrow> rat \<Rightarrow> candidate_thresholds" where
  "thresholds a b c d e f = \<lparr>th_pullback_distance_min = fl a, th_pullback_distance_max = fl b,
     th_pullback_volume_ratio = fl c, th_momentum_distance_min = fl d, th_momentum_volume_ratio = fl e,
     th_breakout_volume_ratio = fl f\<rparr>"

definition CANDIDATE_PROFILES :: "(string \<times> candidate_thresholds) list" where
  "CANDIDATE_PROFILES =
    [(''conservative'', thresholds (- 1) (- 4 / 10) (13 / 10) (- 2 / 10) (9 / 10) (15 / 10)),
     (''normal'', thresholds (- 15 / 10) (- 3 / 10) 1 (- 3 / 10) (6 / 10) (12 / 10)),
     (''aggressive'', thresholds (- 3) (- 1 / 10) (5 / 10) (- 9 / 10) (35 / 100) (7 / 10))]"

text \<open>A comparison with an optional feature fails when the feature is missing.\<close>

definition opt_is :: "pyfloat option \<Rightarrow> (pyfloat \<Rightarrow> bool) \<Rightarrow> bool" where
  "opt_is v P = (case v of None \<Rightarrow> False | Some x \<Rightarrow> P x)"

definition long_trend_confirmed :: "feature_snapshot \<Rightarrow> bool" where
  "long_trend_confirmed s = opt_is (fs_ema20 s) (\<lambda>e20. opt_is (fs_ema20_slope_pct s) (\<lambda>sl. flt (Fin 0) sl
     \<and> opt_is (fs_ema5 s) (\<lambda>e5. flt e5 (fs_latest_close s) \<and> flt e20 e5)))"

definition short_trend_confirmed :: "feature_snapshot \<Rightarrow> bool" where
  "short_trend_confirmed s = (fs_ema20 s = None
     \<and> opt_is (fs_ema5 s) (\<lambda>e5. fle (fmul e5 (fl (999 / 1000))) (fs_latest_close s)))"

definition above_vwap :: "feature_snapshot \<Rightarrow> bool" where
  "above_vwap s = opt_is (fs_vwap s) (\<lambda>v. flt v (fs_latest_close s))"

definition pullback_watch :: "candidate_thresholds \<Rightarrow> feature_snapshot \<Rightarrow> bool" where
  "pullback_watch th s = (fs_ema20 s \<noteq> None \<and> opt_is (fs_ema20_slope_pct s) (flt (Fin 0)) \<and> above_vwap s
     \<and> opt_is (fs_distance_from_high_pct s) (\<lambda>d. fle (th_pullback_distance_min th) d \<and> fle d (th_pullback_distance_max th))
     \<and> opt_is (fs_volume_ratio s) (fle (th_pullback_volume_ratio th)))"

definition momentum_continuation :: "candidate_thresholds \<Rightarrow> feature_snapshot \<Rightarrow> bool" where
  "momentum_continuation th s = (opt_is (fs_high_n s) (flt (fs_latest_close s))
     \<and> opt_is (fs_distance_from_high_pct s) (\<lambda>d. flt (th_momentum_distance_min th) d \<and> fle d (Fin 0))
     \<and> (long_trend_confirmed s \<or> short_trend_confirmed s) \<and> above_vwap s
     \<and> opt_is (fs_volume_ratio s) (fle (th_momentum_volume_ratio th)))"

definition breakout_watch :: "candidate_thresholds \<Rightarrow> feature_snapshot \<Rightarrow> bool" where
  "breakout_watch th s = (opt_is (fs_high_n s) (\<lambda>h. fle h (fs_latest_close s)) \<and> above_vwap s
     \<and> opt_is (fs_volume_ratio s) (fle (th_breakout_volume_ratio th)))"

definition candidate :: "feature_snapshot \<Rightarrow> string \<Rightarrow> rat \<Rightarrow> string \<Rightarrow> candidate_signal" where
  "candidate s strategy score reason = \<lparr>cs_symbol = fs_symbol s, cs_strategy = strategy, cs_score = fl score,
     cs_reason = reason, cs_features = s\<rparr>"

definition scan_candidates :: "feature_snapshot \<Rightarrow> string \<Rightarrow> candidate_signal list result" where
  "scan_candidates s profile = (case map_of CANDIDATE_PROFILES profile of
      None \<Rightarrow> Inl (ValueError (''unknown candidate profile: '' @ profile))
    | Some th \<Rightarrow> Inr (
        (if pullback_watch th s then [candidate s ''PULLBACK_WATCH'' (76 / 100)
           ''close above VWAP, rising EMA20, controlled pullback from recent high''] else [])
      @ (if momentum_continuation th s then [candidate s ''MOMENTUM_CONTINUATION'' (76 / 100)
           ''close is pressing the recent high with rising EMA stack and above-normal volume''] else [])
      @ (if breakout_watch th s then [candidate s ''BREAKOUT_WATCH'' (8 / 10)
           ''close at recent high, above VWAP, with elevated volume''] else [])))"

section \<open>Data freshness\<close>

datatype health_status = H_OK | H_STALE | H_DISCONNECTED | H_NO_DATA

record market_health =
  mh_status :: health_status
  mh_trading_blocked :: bool
  mh_enter_safe_mode :: bool
  mh_reason :: string
  mh_tick_age_seconds :: "pyfloat option"
  mh_bar_age_seconds :: "pyfloat option"

definition age_seconds :: "datetime \<Rightarrow> datetime \<Rightarrow> pyfloat result" where
  "age_seconds current_time timestamp = rbind (dt_sub current_time timestamp) (\<lambda>us. Inr (fmax (Fin 0) (total_seconds us)))"

definition optional_age :: "datetime \<Rightarrow> datetime option \<Rightarrow> pyfloat option result" where
  "optional_age now t = (case t of None \<Rightarrow> Inr None | Some v \<Rightarrow> rbind (age_seconds now v) (\<lambda>a. Inr (Some a)))"

definition health :: "health_status \<Rightarrow> string \<Rightarrow> pyfloat option \<Rightarrow> pyfloat option \<Rightarrow> market_health" where
  "health st reason tick_age bar_age = \<lparr>mh_status = st, mh_trading_blocked = (st \<noteq> H_OK), mh_enter_safe_mode = (st \<noteq> H_OK),
     mh_reason = reason, mh_tick_age_seconds = tick_age, mh_bar_age_seconds = bar_age\<rparr>"

definition evaluate_market_health ::
  "datetime \<Rightarrow> pyfloat \<Rightarrow> pyfloat \<Rightarrow> bool \<Rightarrow> market_tick option \<Rightarrow> minute_bar option \<Rightarrow> market_health result" where
  "evaluate_market_health now max_tick_age max_bar_age acknowledged latest_tick latest_bar =
     guard_else (fle max_tick_age (Fin 0) \<or> fle max_bar_age (Fin 0)) (ValueError ''maximum data ages must be positive'')
     (rbind (optional_age now (map_option mt_timestamp latest_tick)) (\<lambda>tick_age.
      rbind (optional_age now (map_option mb_start latest_bar)) (\<lambda>bar_age.
        if \<not> acknowledged then Inr (health H_DISCONNECTED ''websocket subscription is not acknowledged'' tick_age bar_age)
        else if latest_tick = None \<and> latest_bar = None
        then Inr (health H_NO_DATA ''no tick or bar data is available'' None None)
        else if opt_is tick_age (\<lambda>a. fle a max_tick_age) \<or> opt_is bar_age (\<lambda>a. fle a max_bar_age)
        then Inr (health H_OK ''market data is fresh'' tick_age bar_age)
        else Inr (health H_STALE ''latest market data is stale'' tick_age bar_age))))"

section \<open>No look-ahead\<close>

lemma ma_validate_take: "ma_validate vs p = Inr u \<Longrightarrow> ma_validate (take k vs) p = Inr u"
  by (auto simp: ma_validate_def guard_else_eq_Inr list_ex_iff dest: in_set_takeD)

lemma ma_validate_pos: "ma_validate vs p = Inr u \<Longrightarrow> 0 < p"
  by (auto simp: ma_validate_def guard_else_eq_Inr)

lemma ema_loop_take: "ema_loop m c (take n vs) = take n (ema_loop m c vs)"
  by (induction m c vs arbitrary: n rule: ema_loop.induct) (auto simp: Let_def take_Cons split: nat.splits)

lemma length_ema_loop [simp]: "length (ema_loop m c vs) = length vs"
  by (induction m c vs rule: ema_loop.induct) (simp_all add: Let_def)

text \<open>
  The exponential moving average never looks ahead: the series of the first \<open>k\<close> values is the first \<open>k\<close> entries of the whole
  series, so no entry depends on a later value. The series has one entry per value, undefined exactly
  before the first full window.
\<close>

theorem ema_no_lookahead:
  assumes "ema_series vs p = Inr xs"
  shows "ema_series (take k vs) p = Inr (take k xs) \<and> length xs = length vs
    \<and> (\<forall>i<length vs. (xs ! i = None) = (int i < p - 1))"
proof -
  obtain u where v: "ma_validate vs p = Inr u" using assms by (auto simp: ema_series_def rbind_eq_Inr)
  note v' = ma_validate_take [OF v, of k] and p = ma_validate_pos [OF v]
  show ?thesis
  proof (cases "int (length vs) < p")
    case True
    then show ?thesis using assms v v' by (auto simp: ema_series_def min_def)
  next
    case False
    then obtain c where c: "fdiv (fsum (take (nat p) vs)) (f_int p) = Inr c"
      and xs: "xs = replicate (nat p - 1) None @ Some c # map Some (ema_loop (fl (2 / of_int (p + 1))) c (drop (nat p) vs))"
      using assms v by (auto simp: ema_series_def rbind_eq_Inr)
    have len: "length xs = length vs" using xs False p by simp
    have none: "(xs ! i = None) = (int i < p - 1)" if "i < length vs" for i
      using that xs False p by (auto simp: nth_append nth_Cons split: nat.splits)
    have "ema_series (take k vs) p = Inr (take k xs)"
    proof (cases "int k < p")
      case True
      then show ?thesis using v' False p xs by (auto simp: ema_series_def min_def)
    next
      case kp: False
      then have k: "k = nat p + (k - nat p)" "nat p - 1 \<le> k" using p by auto
      have "nat p \<le> k" using kp by simp
      then have "take (nat p) (take k vs) = take (nat p) vs" by (simp add: min_def)
      moreover have "drop (nat p) (take k vs) = take (k - nat p) (drop (nat p) vs)" by (simp add: drop_take)
      moreover have "take k xs = replicate (nat p - 1) None
          @ Some c # map Some (take (k - nat p) (ema_loop (fl (2 / of_int (p + 1))) c (drop (nat p) vs)))"
      proof -
        have "k - (nat p - 1) = Suc (k - nat p)" using \<open>nat p \<le> k\<close> p by linarith
        then show ?thesis using k(2) unfolding xs by (simp add: take_map)
      qed
      moreover have "\<not> int (length (take k vs)) < p" using kp False by simp
      ultimately show ?thesis using v' c by (simp add: ema_series_def ema_loop_take)
    qed
    then show ?thesis using len none by blast
  qed
qed

theorem ema_no_lookahead_witness:
  "ema_series [Fin 2, Fin 2, Fin 2, Fin 4] 3 = Inr [None, None, Some (Fin 2), Some (Fin 3)]
   \<and> ema_series [Fin 2, Fin 2, Fin 2] 3 = Inr [None, None, Some (Fin 2)]"
proof -
  have "fl (1 / 2) = Fin (1 / 2)" using rnd64_exact [of 1 "- 1"] p2_53_1024 by (simp add: fl_def Let_def p2_def)
  then have e: "ema_series [Fin 2, Fin 2, Fin 2, Fin 4] 3 = Inr [None, None, Some (Fin 2), Some (Fin 3)]"
    by (simp add: ema_series_def ma_validate_def fsum_def fdiv_def fsub_def numeral_3_eq_3)
  then show ?thesis using ema_no_lookahead [OF e, of 3] by (simp add: numeral_3_eq_3)
qed

section \<open>Nested profiles\<close>

lemma fl_small: "\<bar>r\<bar> \<le> 3 \<Longrightarrow> fl r = Fin (rnd64 r)"
proof -
  assume r: "\<bar>r\<bar> \<le> 3"
  have "rnd64 3 = 3" "rnd64 (- 3) = - 3" using rnd64_of_int [of 3] rnd64_of_int [of "- 3"] by simp_all
  then have "\<bar>rnd64 r\<bar> \<le> 3" using r f64.rnd_below [of 3 r] f64.rnd_above [of "- 3" r] by (simp add: abs_le_iff)
  moreover have "3 < p2 1024" using p2_53_1024 by simp
  ultimately show ?thesis by (simp add: fl_def Let_def abs_le_iff)
qed

definition looser :: "candidate_thresholds \<Rightarrow> candidate_thresholds \<Rightarrow> bool" where
  "looser t u = (\<forall>d. (fle (th_pullback_distance_min t) d \<longrightarrow> fle (th_pullback_distance_min u) d)
     \<and> (fle d (th_pullback_distance_max t) \<longrightarrow> fle d (th_pullback_distance_max u))
     \<and> (fle (th_pullback_volume_ratio t) d \<longrightarrow> fle (th_pullback_volume_ratio u) d)
     \<and> (flt (th_momentum_distance_min t) d \<longrightarrow> flt (th_momentum_distance_min u) d)
     \<and> (fle (th_momentum_volume_ratio t) d \<longrightarrow> fle (th_momentum_volume_ratio u) d)
     \<and> (fle (th_breakout_volume_ratio t) d \<longrightarrow> fle (th_breakout_volume_ratio u) d))"

lemma bound_weaken:
  "x \<le> y \<Longrightarrow> fle (Fin y) d \<Longrightarrow> fle (Fin x) d" "x \<le> y \<Longrightarrow> fle d (Fin x) \<Longrightarrow> fle d (Fin y)"
  "x \<le> y \<Longrightarrow> flt (Fin y) d \<Longrightarrow> flt (Fin x) d"
  by (cases d; auto simp: fle_def)+

lemma looser_thresholds:
  assumes "list_all (\<lambda>r. \<bar>r\<bar> \<le> 3) [a, b, c, d, e, f, a', b', c', d', e', f']"
    "a' \<le> a" "b \<le> b'" "c' \<le> c" "d' \<le> d" "e' \<le> e" "f' \<le> f"
  shows "looser (thresholds a b c d e f) (thresholds a' b' c' d' e' f')"
  using assms rnd64_mono unfolding looser_def thresholds_def by (auto simp: fl_small intro: bound_weaken)

lemma opt_is_mono: "opt_is v P \<Longrightarrow> (\<And>x. P x \<Longrightarrow> Q x) \<Longrightarrow> opt_is v Q"
  by (cases v) (simp_all add: opt_is_def)

lemma looser_rules:
  assumes "looser t u"
  shows "pullback_watch t s \<Longrightarrow> pullback_watch u s" "momentum_continuation t s \<Longrightarrow> momentum_continuation u s"
    "breakout_watch t s \<Longrightarrow> breakout_watch u s"
  using assms unfolding looser_def pullback_watch_def momentum_continuation_def breakout_watch_def
  by (auto elim!: opt_is_mono)

definition rules_found :: "candidate_thresholds \<Rightarrow> feature_snapshot \<Rightarrow> candidate_signal list" where
  "rules_found th s =
        (if pullback_watch th s then [candidate s ''PULLBACK_WATCH'' (76 / 100)
           ''close above VWAP, rising EMA20, controlled pullback from recent high''] else [])
      @ (if momentum_continuation th s then [candidate s ''MOMENTUM_CONTINUATION'' (76 / 100)
           ''close is pressing the recent high with rising EMA stack and above-normal volume''] else [])
      @ (if breakout_watch th s then [candidate s ''BREAKOUT_WATCH'' (8 / 10)
           ''close at recent high, above VWAP, with elevated volume''] else [])"

lemma rules_found_mono: "looser t u \<Longrightarrow> set (rules_found t s) \<subseteq> set (rules_found u s)"
  using looser_rules [of t u s] by (auto simp: rules_found_def)

lemma flt_fle_exclusive: "flt x y \<Longrightarrow> \<not> fle y x"
  by (cases x; cases y) (auto simp: fle_def)

lemma rules_found_sound:
  "c \<in> set (rules_found th s) \<Longrightarrow> above_vwap s \<and> cs_symbol c = fs_symbol s"
  "\<not> (momentum_continuation th s \<and> breakout_watch th s)"
  using flt_fle_exclusive
  by (auto simp: rules_found_def candidate_def pullback_watch_def momentum_continuation_def breakout_watch_def
      opt_is_def split: if_splits option.splits)

text \<open>
  The candidate profiles are nested: on every snapshot the conservative profile finds a subset of what the normal one finds,
  and that a subset of what the aggressive one finds. Every candidate closes above the volume-weighted
  price, a snapshot gives at most two candidates, and an unknown profile is an error.
\<close>

theorem candidate_profiles_nested:
  "\<exists>a b c. scan_candidates s ''conservative'' = Inr a \<and> scan_candidates s ''normal'' = Inr b
     \<and> scan_candidates s ''aggressive'' = Inr c \<and> set a \<subseteq> set b \<and> set b \<subseteq> set c \<and> length c \<le> 2
     \<and> (c \<noteq> [] \<longrightarrow> above_vwap s)
     \<and> (profile \<notin> {''conservative'', ''normal'', ''aggressive''} \<longrightarrow> (\<exists>m. scan_candidates s profile = Inl (ValueError m)))"
proof -
  let ?c = "thresholds (- 1) (- 4 / 10) (13 / 10) (- 2 / 10) (9 / 10) (15 / 10)"
  let ?n = "thresholds (- 15 / 10) (- 3 / 10) 1 (- 3 / 10) (6 / 10) (12 / 10)"
  let ?a = "thresholds (- 3) (- 1 / 10) (5 / 10) (- 9 / 10) (35 / 100) (7 / 10)"
  have run: "scan_candidates s ''conservative'' = Inr (rules_found ?c s)"
    "scan_candidates s ''normal'' = Inr (rules_found ?n s)" "scan_candidates s ''aggressive'' = Inr (rules_found ?a s)"
    by (simp_all add: scan_candidates_def CANDIDATE_PROFILES_def rules_found_def)
  have "looser ?c ?n" "looser ?n ?a" by (rule looser_thresholds; simp)+
  then have sub: "set (rules_found ?c s) \<subseteq> set (rules_found ?n s)" "set (rules_found ?n s) \<subseteq> set (rules_found ?a s)"
    by (simp_all add: rules_found_mono)
  have two: "length (rules_found ?a s) \<le> 2"
    using rules_found_sound(2) [of ?a s] unfolding rules_found_def by auto
  have "rules_found ?a s \<noteq> [] \<longrightarrow> above_vwap s" using rules_found_sound(1) [of "hd (rules_found ?a s)" ?a s] by auto
  moreover have "\<exists>m. scan_candidates s profile = Inl (ValueError m)"
    if "profile \<notin> {''conservative'', ''normal'', ''aggressive''}"
    using that by (simp add: scan_candidates_def CANDIDATE_PROFILES_def)
  ultimately show ?thesis using run sub two by blast
qed

definition sample_snapshot :: feature_snapshot where
  "sample_snapshot = \<lparr>fs_symbol = ''005930'', fs_latest_close = Fin 101, fs_ema5 = Some (Fin 100), fs_ema10 = None,
     fs_ema20 = None, fs_ma60 = None, fs_vwap = Some (Fin 100), fs_volume_ratio = Some (Fin 2), fs_high_n = Some (Fin 100),
     fs_low_n = Some (Fin 99), fs_distance_from_high_pct = Some (Fin 1), fs_ema20_slope_pct = None\<rparr>"

theorem candidate_profiles_nested_witness:
  "\<exists>c m. scan_candidates sample_snapshot ''aggressive'' = Inr c \<and> length c \<le> 2 \<and> above_vwap sample_snapshot
     \<and> scan_candidates sample_snapshot ''turbo'' = Inl (ValueError m)"
  using candidate_profiles_nested [of sample_snapshot "''turbo''"]
  by (auto simp: above_vwap_def opt_is_def sample_snapshot_def)

section \<open>Freshness\<close>

text \<open>
  Trading is allowed by the market-data check exactly when the subscription is acknowledged and the latest tick or the latest bar is
  within its age limit; in every other case the check also asks for safe mode. It raises only for non-positive
  limits and for mixing aware and naive timestamps.
\<close>

theorem trading_allowed_iff_fresh:
  assumes "evaluate_market_health now mt mb ack tick bar = Inr h"
  shows "mh_enter_safe_mode h = mh_trading_blocked h \<and> (mh_trading_blocked h = (mh_status h \<noteq> H_OK))
    \<and> (\<not> mh_trading_blocked h \<longleftrightarrow> ack \<and>
        ((\<exists>t. tick = Some t \<and> fle (fmax (Fin 0) (total_seconds (utc_us now - utc_us (mt_timestamp t)))) mt)
         \<or> (\<exists>b. bar = Some b \<and> fle (fmax (Fin 0) (total_seconds (utc_us now - utc_us (mb_start b)))) mb)))"
  using assms
  by (cases tick; cases bar)
    (auto simp: evaluate_market_health_def guard_else_eq_Inr rbind_eq_Inr optional_age_def age_seconds_def dt_sub_def
      health_def opt_is_def split: if_splits)

theorem trading_allowed_iff_fresh_witness:
  "\<exists>h. evaluate_market_health sample_time (Fin 5) (Fin 90) True
      (Some \<lparr>mt_symbol = ''005930'', mt_timestamp = sample_time, mt_price = Fin 70000, mt_volume = 1\<rparr>) None = Inr h
    \<and> \<not> mh_trading_blocked h"
proof -
  let ?t = "\<lparr>mt_symbol = ''005930'', mt_timestamp = sample_time, mt_price = Fin 70000, mt_volume = 1\<rparr>"
  obtain h where h: "evaluate_market_health sample_time (Fin 5) (Fin 90) True (Some ?t) None = Inr h"
    by (simp add: evaluate_market_health_def optional_age_def age_seconds_def dt_sub_def tz_compatible_def opt_is_def
        total_seconds_def fmax_def)
  moreover have "\<not> mh_trading_blocked h"
    using trading_allowed_iff_fresh [OF h] by (auto simp: total_seconds_def fmax_def)
  ultimately show ?thesis by blast
qed

end
