(* ===== verification/KisHttp.thy ===== *)
theory KisHttp
  imports KisOrder "HOL-Library.Sublist"
begin

text \<open>
  Responses of the broker's REST interface and the error path every client shares
  (\<open>broker/kis_auth.py\<close>: \<open>KisHttpError\<close>, \<open>_raise_for_kis_response\<close>; \<open>broker/kis_order_status.py\<close>:
  \<open>_payload\<close>, \<open>_header\<close>). A payload maps names to JSON scalars, to arrays of rows and to objects; the fields
  the code prints are scalars. Transport is a parameter: a session is a function from a request and a world
  to an answer and a world. Shown: the text kept of an error response contains no request secret.
\<close>

section \<open>JSON values as Python sees them\<close>

datatype jscalar = JNull | JBool bool | JInt int | JStr string

type_synonym jrow = "(string \<times> jscalar) list"

fun py_str :: "jscalar \<Rightarrow> string" where
  "py_str JNull = ''None''"
| "py_str (JBool b) = (if b then ''True'' else ''False'')"
| "py_str (JInt n) = show_int n"
| "py_str (JStr s) = s"

fun truthy :: "jscalar \<Rightarrow> bool" where
  "truthy JNull = False"
| "truthy (JBool b) = b"
| "truthy (JInt n) = (n \<noteq> 0)"
| "truthy (JStr s) = (s \<noteq> [])"

text \<open>\<open>str(value or "")\<close>\<close>

definition str_or_empty :: "jscalar option \<Rightarrow> string" where
  "str_or_empty value = (case value of None \<Rightarrow> [] | Some v \<Rightarrow> if truthy v then py_str v else [])"

text \<open>\<open>value in (None, "")\<close>\<close>

definition blank :: "jscalar \<Rightarrow> bool" where
  "blank v = (v = JNull \<or> v = JStr [])"

fun first_value :: "jrow \<Rightarrow> string list \<Rightarrow> jscalar option" where
  "first_value row [] = None"
| "first_value row (n # ns) = (case map_of row n of
      Some v \<Rightarrow> if blank v then first_value row ns else Some v
    | None \<Rightarrow> first_value row ns)"

declare first_value.simps [simp del]

definition text_of :: "jscalar option \<Rightarrow> string option" where
  "text_of value = (case value of None \<Rightarrow> None | Some v \<Rightarrow>
     if blank v then None else let t = strip (py_str v) in if t = [] then None else Some t)"

text \<open>A row of an array that is not an object is None.\<close>

datatype nested = JArray "jrow option list" | JObject jrow

record payload =
  pl_fields :: jrow
  pl_nested :: "(string \<times> nested) list"

datatype body = NotJson | NotObject | JsonObject payload

record response =
  rs_status :: int
  rs_headers :: "(string \<times> string) list"
  rs_body :: body

record http_request =
  rq_url :: string
  rq_headers :: "(string \<times> string) list"
  rq_fields :: "(string \<times> string) list"

text \<open>\<open>payload.get(name) or []\<close>, a value that is not a list counting as the empty list; likewise objects.\<close>

definition get_rows :: "payload \<Rightarrow> string \<Rightarrow> jrow option list" where
  "get_rows p name = (case map_of (pl_nested p) name of Some (JArray rows) \<Rightarrow> rows | _ \<Rightarrow> [])"

definition get_object :: "payload \<Rightarrow> string \<Rightarrow> jrow" where
  "get_object p name = (case map_of (pl_nested p) name of Some (JObject r) \<Rightarrow> r | _ \<Rightarrow> [])"

section \<open>Redaction\<close>

text \<open>\<open>text.replace(old, new)\<close> for a non-empty \<open>old\<close>: leftmost matches, without overlaps.\<close>

function replace_all :: "string \<Rightarrow> string \<Rightarrow> string \<Rightarrow> string" where
  "replace_all old new s = (case s of [] \<Rightarrow> []
     | c # cs \<Rightarrow> if old \<noteq> [] \<and> prefix old s then new @ replace_all old new (drop (length old) s)
                else c # replace_all old new cs)"
  by auto
termination by (relation "measure (\<lambda>(old, new, s). length s)") auto

declare replace_all.simps [simp del]

definition REDACTED :: string where
  "REDACTED = ''[redacted]''"

definition redact_all :: "string list \<Rightarrow> string \<Rightarrow> string" where
  "redact_all secrets s = foldl (\<lambda>t secret. if secret \<noteq> [] then replace_all secret REDACTED t else t) s secrets"

definition error_keys :: "string list" where
  "error_keys = [''rt_cd'', ''msg_cd'', ''msg1'', ''error_description'']"

definition error_details :: "string list \<Rightarrow> jrow \<Rightarrow> (string \<times> string) list" where
  "error_details secrets fs = List.map_filter (\<lambda>key. case map_of fs key of
       None \<Rightarrow> None
     | Some v \<Rightarrow> if blank v then None else Some (key, take 300 (redact_all secrets (py_str v)))) error_keys"

definition raise_for_kis_response :: "response \<Rightarrow> string list \<Rightarrow> unit result" where
  "raise_for_kis_response r secrets = (if rs_status r < 400 then Inr ()
     else Inl (KisHttpError (rs_status r) (case rs_body r of JsonObject p \<Rightarrow> error_details secrets (pl_fields p) | _ \<Rightarrow> [])))"

definition header_of :: "response \<Rightarrow> string \<Rightarrow> string" where
  "header_of r name = (case map_of (rs_headers r) name of Some v \<Rightarrow> v
     | None \<Rightarrow> (case map_of (rs_headers r) (lower name) of Some v \<Rightarrow> v | None \<Rightarrow> []))"

definition payload_of :: "response \<Rightarrow> string list \<Rightarrow> payload result" where
  "payload_of r secrets = rbind (raise_for_kis_response r secrets) (\<lambda>_. case rs_body r of
      NotJson \<Rightarrow> Inl (RuntimeError ''KIS response was not valid JSON'')
    | NotObject \<Rightarrow> Inl (RuntimeError ''KIS response was not an object'')
    | JsonObject p \<Rightarrow>
        (let rt_cd = (case map_of (pl_fields p) ''rt_cd'' of None \<Rightarrow> ''1'' | Some v \<Rightarrow> py_str v)
         in if rt_cd \<noteq> ''0'' then Inl (KisHttpError (rs_status r) (error_details secrets (pl_fields p)))
            else Inr p))"

section \<open>No secret survives redaction\<close>

text \<open>
  A secret that has no square bracket and does not occur inside the word \<open>redacted\<close> cannot be completed by
  the replacement text; the broker's keys, tokens and account numbers are of this kind.
\<close>

definition redactable :: "string \<Rightarrow> bool" where
  "redactable w = (w \<noteq> [] \<and> CHR ''['' \<notin> set w \<and> CHR '']'' \<notin> set w \<and> \<not> sublist w ''redacted'')"

lemma replace_all_Nil [simp]: "replace_all old new [] = []"
  by (simp add: replace_all.simps)

lemma replace_all_match:
  "old \<noteq> [] \<Longrightarrow> prefix old s \<Longrightarrow> replace_all old new s = new @ replace_all old new (drop (length old) s)"
  by (subst replace_all.simps) (auto split: list.split)

lemma replace_all_skip:
  "\<not> prefix old (c # cs) \<Longrightarrow> replace_all old new (c # cs) = c # replace_all old new cs"
  by (subst replace_all.simps) auto

text \<open>A bracket-free text at the front of the result was at the front of the input.\<close>

lemma prefix_replace_all:
  "prefix w (replace_all old REDACTED s) \<Longrightarrow> CHR ''['' \<notin> set w \<Longrightarrow> prefix w s"
proof (induction s arbitrary: w)
  case (Cons c cs)
  show ?case
  proof (cases "old \<noteq> [] \<and> prefix old (c # cs)")
    case True
    with Cons.prems have "w = []" by (cases w) (auto simp: replace_all_match REDACTED_def)
    then show ?thesis by simp
  next
    case False
    then have "replace_all old REDACTED (c # cs) = c # replace_all old REDACTED cs"
      by (subst replace_all.simps) auto
    with Cons show ?thesis by (cases w) auto
  qed
qed simp

lemma sublist_append_sep: "sublist w (a @ x # b) \<Longrightarrow> x \<notin> set w \<Longrightarrow> sublist w a \<or> sublist w b"
proof (induction a)
  case Nil
  then show ?case by (cases w) (auto simp: sublist_Cons_right prefix_Cons)
next
  case (Cons c cs)
  then consider "prefix w (c # cs @ x # b)" | "sublist w (cs @ x # b)"
    by (auto simp: sublist_Cons_right)
  then show ?case
  proof cases
    case 1
    then have "prefix w (c # cs) \<or> (\<exists>k. w = (c # cs) @ k \<and> prefix k (x # b))"
      using prefix_append [of w "c # cs" "x # b"] by auto
    with Cons.prems(2) show ?thesis by (auto simp: prefix_Cons sublist_Cons_right)
  next
    case 2
    with Cons show ?thesis by (auto simp: sublist_Cons_right)
  qed
qed

lemma redactable_around: "redactable w \<Longrightarrow> sublist w (REDACTED @ t) \<Longrightarrow> sublist w t"
proof -
  assume w: "redactable w" and "sublist w (REDACTED @ t)"
  then have "sublist w ([] @ CHR ''['' # ''redacted'' @ CHR '']'' # t)" by (simp add: REDACTED_def)
  with w have "sublist w [] \<or> sublist w (''redacted'' @ CHR '']'' # t)"
    by (intro sublist_append_sep) (auto simp: redactable_def)
  with w have "sublist w (''redacted'' @ CHR '']'' # t)" by (auto simp: redactable_def)
  with w have "sublist w ''redacted'' \<or> sublist w t"
    by (intro sublist_append_sep) (auto simp: redactable_def)
  with w show ?thesis by (auto simp: redactable_def)
qed

lemma sublist_drop: "sublist w (drop n s) \<Longrightarrow> sublist w s"
  by (metis append_take_drop_id sublist_append_leftI sublist_order.order_trans sublist_order.order_refl)

lemma replace_all_no_new:
  "redactable w \<Longrightarrow> sublist w (replace_all old REDACTED s) \<Longrightarrow> sublist w s"
proof (induction "length s" arbitrary: s rule: less_induct)
  case less
  show ?case
  proof (cases s)
    case Nil
    with less.prems show ?thesis by (simp add: redactable_def)
  next
    case (Cons c cs)
    show ?thesis
    proof (cases "old \<noteq> [] \<and> prefix old s")
      case True
      with less.prems have "sublist w (replace_all old REDACTED (drop (length old) s))"
        using redactable_around by (auto simp: replace_all_match)
      with less True Cons have "sublist w (drop (length old) s)" by (auto simp: less.hyps)
      then show ?thesis by (rule sublist_drop)
    next
      case False
      then have "replace_all old REDACTED s = c # replace_all old REDACTED cs"
        using Cons by (subst replace_all.simps) auto
      with less.prems consider "prefix w (replace_all old REDACTED s)" | "sublist w (replace_all old REDACTED cs)"
        by (auto simp: sublist_Cons_right)
      then show ?thesis
      proof cases
        case 1
        then have "prefix w s" using prefix_replace_all less.prems(1) unfolding redactable_def by blast
        then show ?thesis by (rule prefix_imp_sublist)
      next
        case 2
        with less.hyps [of cs] less.prems(1) Cons have "sublist w cs" by simp
        then show ?thesis unfolding Cons by (simp add: sublist_Cons_right)
      qed
    qed
  qed
qed

lemma replace_all_removes: "redactable w \<Longrightarrow> \<not> sublist w (replace_all w REDACTED s)"
proof (induction "length s" arbitrary: s rule: less_induct)
  case less
  then have w: "w \<noteq> []" by (simp add: redactable_def)
  show ?case
  proof (cases "prefix w s")
    case True
    with w have "s \<noteq> []" by auto
    with True w less have "\<not> sublist w (replace_all w REDACTED (drop (length w) s))" by simp
    with True w less.prems show ?thesis by (auto simp: replace_all_match dest: redactable_around)
  next
    case False
    show ?thesis
    proof (cases s)
      case Nil
      with w show ?thesis by simp
    next
      case (Cons c cs)
      have "\<not> prefix w (replace_all w REDACTED s)"
        using False less.prems prefix_replace_all by (auto simp: redactable_def)
      with Cons False less show ?thesis by (auto simp: sublist_Cons_right replace_all_skip)
    qed
  qed
qed

lemma redact_all_keeps_out: "redactable w \<Longrightarrow> \<not> sublist w s \<Longrightarrow> \<not> sublist w (redact_all secrets s)"
  unfolding redact_all_def
  by (induction secrets arbitrary: s) (auto dest: replace_all_no_new)

lemma redact_all_hides: "redactable w \<Longrightarrow> w \<in> set secrets \<Longrightarrow> \<not> sublist w (redact_all secrets s)"
proof (induction secrets arbitrary: s)
  case (Cons x xs)
  show ?case
  proof (cases "x = w")
    case True
    with Cons.prems have "\<not> sublist w (replace_all w REDACTED s)" "w \<noteq> []"
      by (auto simp: replace_all_removes redactable_def)
    with True Cons.prems show ?thesis using redact_all_keeps_out [of w "replace_all w REDACTED s" xs]
      by (simp add: redact_all_def)
  next
    case False
    with Cons show ?thesis by (auto simp: redact_all_def)
  qed
qed simp

lemma error_details_value:
  "(k, v) \<in> set (error_details secrets fs) \<Longrightarrow> \<exists>x. v = take 300 (redact_all secrets x)"
  by (auto simp: error_details_def List.map_filter_def split: option.splits if_splits)

lemma error_details_hide:
  "redactable w \<Longrightarrow> w \<in> set secrets \<Longrightarrow> (k, v) \<in> set (error_details secrets fs) \<Longrightarrow> \<not> sublist w v"
  using error_details_value [of k v secrets fs] redact_all_hides [of w secrets] sublist_take
  by (metis sublist_order.order_trans)

text \<open>
  (C36) A broker error never carries a request secret. Whatever the broker answers, when the shared error path
  raises a \<open>KisHttpError\<close> its details contain no application key, secret, token or account number that
  was passed to it as a secret, not even one put together by the redaction of another; every value kept is at most
  300 characters long.
\<close>

theorem kis_error_hides_secrets:
  assumes "payload_of r secrets = Inl (KisHttpError code details)"
    and "redactable w" "w \<in> set secrets" "(k, v) \<in> set details"
  shows "\<not> sublist w v \<and> length v \<le> 300"
proof -
  have d: "\<exists>fs. details = error_details secrets fs \<or> details = []"
    using assms(1) by (auto simp: payload_of_def raise_for_kis_response_def result_iffs Let_def
        split: if_splits body.splits option.splits)
  with assms(4) obtain fs where f: "(k, v) \<in> set (error_details secrets fs)" by auto
  then have "length v \<le> 300" using error_details_value [OF f] by auto
  with error_details_hide [OF assms(2,3) f] show ?thesis by simp
qed

definition sample_rejection :: response where
  "sample_rejection = \<lparr>rs_status = 403, rs_headers = [],
     rs_body = JsonObject \<lparr>pl_fields = [(''msg1'', JStr ''bad key k3y'')], pl_nested = []\<rparr>\<rparr>"

theorem kis_error_hides_secrets_witness:
  "payload_of sample_rejection [''k3y''] = Inl (KisHttpError 403 [(''msg1'', ''bad key [redacted]'')])
   \<and> \<not> sublist ''k3y'' ''bad key [redacted]''"
proof -
  have "payload_of sample_rejection [''k3y''] = Inl (KisHttpError 403 [(''msg1'', ''bad key [redacted]'')])"
    by code_simp
  moreover have "redactable ''k3y''" by code_simp
  ultimately show ?thesis
    using kis_error_hides_secrets [of sample_rejection "[''k3y'']" 403 "[(''msg1'', ''bad key [redacted]'')]"
        "''k3y''" "''msg1''" "''bad key [redacted]''"] by simp
qed

end
