(* ===== verification/OrderStatus.thy ===== *)
theory OrderStatus
  imports KisHttp Schedule PyDecimal
begin

text \<open>
  Order status rows, pagination and cancellation (\<open>broker/kis_order_status.py\<close>).
  Text is a list of UTF-8 bytes; the session's \<open>get\<close> and \<open>post\<close> are parameters acting on an arbitrary world.
  The contract of a paged read is the locale \<open>paged_read\<close>, which the order client provides here and the account
  client in its own theory. Shown: parsed quantities are never negative, and reading pages never returns a
  shortened list.
\<close>

section \<open>Numbers in rows\<close>

text \<open>\<open>float(text)\<close>: None stands for \<open>ValueError\<close>.\<close>

definition split_at :: "(char \<Rightarrow> bool) \<Rightarrow> string \<Rightarrow> string \<times> string option" where
  "split_at p s = (takeWhile (\<lambda>c. \<not> p c) s, case dropWhile (\<lambda>c. \<not> p c) s of [] \<Rightarrow> None | _ # r \<Rightarrow> Some r)"

definition digits_or_empty :: "string \<Rightarrow> bool" where
  "digits_or_empty s = (s = [] \<or> digit_groups False s)"

definition only_digits :: "string \<Rightarrow> string" where
  "only_digits s = filter is_digit_char s"

definition mantissa_of :: "string \<Rightarrow> rat option" where
  "mantissa_of s = (case split_at (\<lambda>c. c = CHR ''.'') s of (i, f) \<Rightarrow>
     let frac = (case f of None \<Rightarrow> [] | Some t \<Rightarrow> t) in
     if digits_or_empty i \<and> digits_or_empty frac \<and> \<not> (i = [] \<and> frac = [])
     then Some (of_nat (read_nat (only_digits i @ only_digits frac)) / p10 (int (length (only_digits frac))))
     else None)"

definition exponent_of :: "string option \<Rightarrow> int option" where
  "exponent_of e = (case e of None \<Rightarrow> Some 0
     | Some s \<Rightarrow> (case s of [] \<Rightarrow> None
        | c # cs \<Rightarrow> if c = CHR ''-'' then map_option uminus (unsigned_of_str cs)
                   else if c = CHR ''+'' then unsigned_of_str cs else unsigned_of_str s))"

definition magnitude_of :: "string \<Rightarrow> pyfloat option" where
  "magnitude_of s = (if lower s = ''inf'' \<or> lower s = ''infinity'' then Some PInf
     else if lower s = ''nan'' then Some NaN
     else case split_at (\<lambda>c. c = CHR ''e'' \<or> c = CHR ''E'') s of (m, e) \<Rightarrow>
       (case (mantissa_of m, exponent_of e) of (Some x, Some k) \<Rightarrow> Some (fl (x * p10 k)) | _ \<Rightarrow> None))"

definition float_of_str :: "string \<Rightarrow> pyfloat option" where
  "float_of_str text = (let s = strip text in case s of [] \<Rightarrow> None
     | c # cs \<Rightarrow> if c = CHR ''-'' then map_option fneg (magnitude_of cs)
                else if c = CHR ''+'' then magnitude_of cs else magnitude_of s)"

section \<open>Rows\<close>

definition without_commas :: "string \<Rightarrow> string" where
  "without_commas s = filter (\<lambda>c. c \<noteq> CHR '','') s"

definition int_value :: "jscalar option \<Rightarrow> int result" where
  "int_value value = (case value of None \<Rightarrow> Inr 0 | Some v \<Rightarrow>
     if blank v then Inr 0
     else case float_of_str (strip (without_commas (py_str v))) of None \<Rightarrow> Inr 0
       | Some x \<Rightarrow> (case py_int x of Inr n \<Rightarrow> Inr (max 0 n)
           | Inl (ValueError _) \<Rightarrow> Inr 0
           | Inl e \<Rightarrow> Inl e))"

definition float_value :: "jscalar option \<Rightarrow> pyfloat option" where
  "float_value value = (case value of None \<Rightarrow> None | Some v \<Rightarrow>
     if blank v then None else float_of_str (strip (without_commas (py_str v))))"

definition flag_value :: "jscalar option \<Rightarrow> bool" where
  "flag_value value = (upper (strip (str_or_empty value)) \<in> {''Y'', ''1'', ''TRUE'', ''REJECT'', ''REJECTED''})"

text \<open>Korean words the broker uses, as UTF-8.\<close>

definition utf8 :: "nat list \<Rightarrow> string" where
  "utf8 bytes = map char_of bytes"

definition KR_SELL :: string where "KR_SELL = utf8 [235, 167, 164, 235, 143, 132]"
definition KR_BUY :: string where "KR_BUY = utf8 [235, 167, 164, 236, 136, 152]"
definition KR_FILLED :: string where "KR_FILLED = utf8 [236, 178, 180, 234, 178, 176]"
definition KR_PARTIAL :: string where "KR_PARTIAL = utf8 [235, 182, 128, 235, 182, 132, 236, 178, 180, 234, 178, 176]"
definition KR_CANCELLED :: string where "KR_CANCELLED = utf8 [236, 183, 168, 236, 134, 140]"
definition KR_REJECTED :: string where "KR_REJECTED = utf8 [234, 177, 176, 235, 182, 128]"

datatype kis_status = KS_UNKNOWN | KS_UNFILLED | KS_PARTIALLY_FILLED | KS_FILLED | KS_CANCELLED | KS_REJECTED

definition parse_side :: "jrow \<Rightarrow> side option" where
  "parse_side row = (let value = lower (str_or_empty
       (first_value row [''sll_buy_dvsn_cd'', ''SLL_BUY_DVSN_CD'', ''side'', ''SIDE'']))
     in if value \<in> {''01'', ''sell'', ''s'', KR_SELL} then Some SELL
        else if value \<in> {''02'', ''buy'', ''b'', KR_BUY} then Some BUY else None)"

definition DIRECT_STATUS :: "(string \<times> kis_status) list" where
  "DIRECT_STATUS = [(''filled'', KS_FILLED), (KR_FILLED, KS_FILLED), (''partial'', KS_PARTIALLY_FILLED),
     (''partially_filled'', KS_PARTIALLY_FILLED), (KR_PARTIAL, KS_PARTIALLY_FILLED), (''cancelled'', KS_CANCELLED),
     (KR_CANCELLED, KS_CANCELLED), (''rejected'', KS_REJECTED), (KR_REJECTED, KS_REJECTED)]"

definition parse_status :: "jrow \<Rightarrow> int \<Rightarrow> int \<Rightarrow> int \<Rightarrow> kis_status result" where
  "parse_status row ordered filled remaining =
     (case map_of DIRECT_STATUS (lower (str_or_empty (first_value row [''order_status'', ''ord_status'', ''status'', ''STATUS'']))) of
       Some s \<Rightarrow> Inr s
     | None \<Rightarrow> rbind (int_value (first_value row [''rjct_qty'', ''reject_qty'', ''RJCT_QTY''])) (\<lambda>rejected.
         if 0 < rejected \<or> flag_value (first_value row [''rjct_yn'', ''reject_yn'']) then Inr KS_REJECTED
         else rbind (int_value (first_value row [''cncl_cfrm_qty'', ''cancel_qty'', ''CNCL_CFRM_QTY''])) (\<lambda>cancelled.
           if 0 < cancelled \<and> remaining = 0 then Inr KS_CANCELLED
           else if 0 < ordered \<and> ordered \<le> filled \<and> remaining = 0 then Inr KS_FILLED
           else if 0 < filled then Inr KS_PARTIALLY_FILLED
           else if 0 < remaining \<or> 0 < ordered then Inr KS_UNFILLED
           else Inr KS_UNKNOWN)))"

record status_record =
  sr_order_number :: string
  sr_symbol :: string
  sr_side :: "side option"
  sr_ordered_quantity :: int
  sr_filled_quantity :: int
  sr_remaining_quantity :: int
  sr_order_price :: "pyfloat option"
  sr_average_fill_price :: "pyfloat option"
  sr_status :: kis_status
  sr_order_time :: "string option"
  sr_order_date :: "string option"
  sr_order_branch :: "string option"
  sr_original_order_number :: "string option"
  sr_exchange_id :: "string option"
  sr_raw :: jrow

definition order_number_of :: "jrow \<Rightarrow> string option" where
  "order_number_of row = text_of (first_value row [''odno'', ''ODNO'', ''order_number''])"

definition symbol_of :: "jrow \<Rightarrow> string option" where
  "symbol_of row = text_of (first_value row [''pdno'', ''PDNO'', ''symbol''])"

definition ordered_of :: "jrow \<Rightarrow> int result" where
  "ordered_of row = int_value (first_value row [''ord_qty'', ''ORD_QTY'', ''ordered_quantity''])"

definition filled_quantity_of :: "jrow \<Rightarrow> int result" where
  "filled_quantity_of row = int_value (first_value row [''tot_ccld_qty'', ''ccld_qty'', ''filled_qty'', ''TOT_CCLD_QTY''])"

definition remaining_of :: "jrow \<Rightarrow> int \<Rightarrow> int \<Rightarrow> int result" where
  "remaining_of row ordered filled = (let explicit_remaining = first_value row [''rmn_qty'', ''remaining_qty'', ''RMN_QTY'']
     in if explicit_remaining = None then Inr (max 0 (ordered - filled)) else int_value explicit_remaining)"

definition order_record :: "jrow \<Rightarrow> string \<Rightarrow> string \<Rightarrow> int \<Rightarrow> int \<Rightarrow> int \<Rightarrow> kis_status \<Rightarrow> status_record" where
  "order_record row order_number symbol ordered filled remaining status =
     \<lparr>sr_order_number = order_number, sr_symbol = symbol, sr_side = parse_side row,
      sr_ordered_quantity = ordered, sr_filled_quantity = filled, sr_remaining_quantity = remaining,
      sr_order_price = float_value (first_value row [''ord_unpr'', ''order_price'', ''ORD_UNPR'']),
      sr_average_fill_price = float_value (first_value row [''avg_prvs'', ''avg_fill_price'', ''avg_pric'', ''AVG_PRVS'']),
      sr_status = status,
      sr_order_time = text_of (first_value row [''ord_tmd'', ''order_time'', ''ORD_TMD'']),
      sr_order_date = text_of (first_value row [''ord_dt'', ''order_date'', ''ORD_DT'']),
      sr_order_branch = text_of (first_value row [''ord_gno_brno'', ''order_branch'', ''ORD_GNO_BRNO'']),
      sr_original_order_number = text_of (first_value row [''orgn_odno'', ''original_order_number'', ''ORGN_ODNO'']),
      sr_exchange_id = text_of (first_value row [''excg_id_dvsn_cd'', ''exchange_id'', ''EXCG_ID_DVSN_CD'']),
      sr_raw = row\<rparr>"

text \<open>A row that is not an object is None.\<close>

definition parse_order_status :: "jrow option \<Rightarrow> status_record option result" where
  "parse_order_status r = (case r of None \<Rightarrow> Inr None | Some row \<Rightarrow>
     (case (order_number_of row, symbol_of row) of
       (Some order_number, Some symbol) \<Rightarrow>
         if \<not> isdigit symbol \<or> length symbol \<noteq> 6 then Inr None
         else rbind (ordered_of row) (\<lambda>ordered. rbind (filled_quantity_of row) (\<lambda>filled.
           rbind (remaining_of row ordered filled) (\<lambda>remaining.
           rbind (parse_status row ordered filled remaining) (\<lambda>status.
             Inr (Some (order_record row order_number symbol ordered filled remaining status))))))
     | _ \<Rightarrow> Inr None))"

section \<open>Pages\<close>

record page_context =
  pg_tr_cont :: string
  pg_fk :: string
  pg_nk :: string

definition no_context :: page_context where
  "no_context = \<lparr>pg_tr_cont = [], pg_fk = [], pg_nk = []\<rparr>"

definition has_next :: "page_context \<Rightarrow> bool" where
  "has_next c = (pg_tr_cont c \<in> {''M'', ''F''} \<and> (pg_fk c \<noteq> [] \<or> pg_nk c \<noteq> []))"

definition next_request :: "page_context \<Rightarrow> page_context" where
  "next_request c = c\<lparr>pg_tr_cont := ''N''\<rparr>"

record order_page =
  op_orders :: "status_record list"
  op_context :: page_context

record cancel_result =
  cr_order_number :: "string option"
  cr_original_order_number :: string
  cr_status :: string
  cr_tr_id :: string
  cr_raw :: jrow

fun parse_rows :: "jrow option list \<Rightarrow> status_record list result" where
  "parse_rows [] = Inr []"
| "parse_rows (row # rows) = rbind (parse_order_status row) (\<lambda>parsed. rbind (parse_rows rows) (\<lambda>orders.
     Inr (case parsed of None \<Rightarrow> orders | Some r \<Rightarrow> r # orders)))"

section \<open>The client\<close>

record kis_client =
  kc_env :: kis_env
  kc_app_key :: string
  kc_app_secret :: string
  kc_access_token :: string
  kc_account_no :: string
  kc_product_code :: string

definition DAILY_ORDER_PATH :: string where
  "DAILY_ORDER_PATH = ''/uapi/domestic-stock/v1/trading/inquire-daily-ccld''"

definition ORDER_REVISE_CANCEL_PATH :: string where
  "ORDER_REVISE_CANCEL_PATH = ''/uapi/domestic-stock/v1/trading/order-rvsecncl''"

definition REVISION_CANCELABLE_PATH :: string where
  "REVISION_CANCELABLE_PATH = ''/uapi/domestic-stock/v1/trading/inquire-psbl-rvsecncl''"

definition daily_order_tr_id :: "kis_env \<Rightarrow> string \<Rightarrow> string" where
  "daily_order_tr_id env pd_dv = (if pd_dv = ''inner''
     then (if env = ENV_REAL then ''TTTC0081R'' else ''VTTC0081R'')
     else (if env = ENV_REAL then ''CTSC9215R'' else ''VTSC9215R''))"

definition revision_cancel_tr_id :: "kis_env \<Rightarrow> string" where
  "revision_cancel_tr_id env = (if env = ENV_REAL then ''TTTC0013U'' else ''VTTC0013U'')"

definition revision_cancelable_tr_id :: "kis_env \<Rightarrow> string" where
  "revision_cancelable_tr_id env = (if env = ENV_REAL then ''TTTC0084R'' else ''VTTC0084R'')"

text \<open>\<open>datetime.now(kst).strftime("%Y%m%d")\<close> for years of four digits.\<close>

definition today_text :: "datetime \<Rightarrow> string" where
  "today_text now = (let d = astimezone_kst now in pad 4 (dt_year d) @ pad 2 (dt_month d) @ pad 2 (dt_day d))"

definition validate_account :: "kis_client \<Rightarrow> ('w \<Rightarrow> 'a result \<times> 'w) \<Rightarrow> 'w \<Rightarrow> 'a result \<times> 'w" where
  "validate_account c k =
     op_guard (\<not> isdigit (kc_account_no c) \<or> length (kc_account_no c) \<noteq> 8)
       (ValueError ''KIS account_no must be exactly eight digits'')
    (op_guard (\<not> isdigit (kc_product_code c) \<or> length (kc_product_code c) \<noteq> 2)
       (ValueError ''KIS account_product_code must be exactly two digits'') k)"

definition client_secrets :: "kis_client \<Rightarrow> string list" where
  "client_secrets c = [kc_app_key c, kc_app_secret c, kc_access_token c, kc_account_no c]"

definition client_headers :: "kis_client \<Rightarrow> string \<Rightarrow> string \<Rightarrow> (string \<times> string) list" where
  "client_headers c tr_id tr_cont = [(''content-type'', ''application/json; charset=utf-8''),
     (''authorization'', ''Bearer '' @ kc_access_token c), (''appkey'', kc_app_key c), (''appsecret'', kc_app_secret c),
     (''tr_id'', tr_id), (''custtype'', ''P'')] @ (if tr_cont = [] then [] else [(''tr_cont'', tr_cont)])"

text \<open>Decoding what \<open>session.get\<close> or \<open>session.post\<close> answers.\<close>

definition decode :: "kis_client \<Rightarrow> (response \<Rightarrow> payload \<Rightarrow> 'a result) \<Rightarrow> response \<Rightarrow> 'w \<Rightarrow> 'a result \<times> 'w" where
  "decode c f r w = (rbind (payload_of r (client_secrets c)) (f r), w)"

definition context_of :: "response \<Rightarrow> payload \<Rightarrow> page_context" where
  "context_of r p = \<lparr>pg_tr_cont = header_of r ''tr_cont'',
     pg_fk = str_or_empty (first_value (pl_fields p) [''ctx_area_fk100'', ''CTX_AREA_FK100'']),
     pg_nk = str_or_empty (first_value (pl_fields p) [''ctx_area_nk100'', ''CTX_AREA_NK100''])\<rparr>"

type_synonym 'w session = "http_request \<Rightarrow> 'w \<Rightarrow> response result \<times> 'w"

definition daily_fields :: "kis_client \<Rightarrow> string \<Rightarrow> bool \<Rightarrow> page_context \<Rightarrow> string \<Rightarrow> (string \<times> string) list" where
  "daily_fields c day unfilled_only context exchange_id =
     [(''CANO'', kc_account_no c), (''ACNT_PRDT_CD'', kc_product_code c), (''INQR_STRT_DT'', day),
      (''INQR_END_DT'', day), (''SLL_BUY_DVSN_CD'', ''00''), (''PDNO'', []),
      (''CCLD_DVSN'', if unfilled_only then ''02'' else ''00''), (''INQR_DVSN'', ''00''), (''INQR_DVSN_3'', ''00''),
      (''ORD_GNO_BRNO'', []), (''ODNO'', []), (''INQR_DVSN_1'', []), (''CTX_AREA_FK100'', pg_fk context),
      (''CTX_AREA_NK100'', pg_nk context), (''EXCG_ID_DVSN_CD'', exchange_id)]"

definition get_orders_page :: "kis_client \<Rightarrow> 'w session \<Rightarrow> datetime \<Rightarrow> string option \<Rightarrow> bool \<Rightarrow> page_context option \<Rightarrow>
  string \<Rightarrow> string \<Rightarrow> 'w \<Rightarrow> order_page result \<times> 'w" where
  "get_orders_page c session_get now inquiry_date unfilled_only pagination pd_dv exchange_id =
     validate_account c
     (let day = (case str_or inquiry_date None of None \<Rightarrow> today_text now | Some d \<Rightarrow> d);
          context = (case pagination of None \<Rightarrow> no_context | Some x \<Rightarrow> x) in
      op_guard (\<not> isdigit day \<or> length day \<noteq> 8) (ValueError ''inquiry_date must be YYYYMMDD'')
     (op_guard (pd_dv \<notin> {''inner'', ''before''}) (ValueError (''pd_dv must be 'inner' or 'before'' @ [CHR 0x27]))
     (op_bind (session_get \<lparr>rq_url = api_url (kc_env c) DAILY_ORDER_PATH,
          rq_headers = client_headers c (daily_order_tr_id (kc_env c) pd_dv) (pg_tr_cont context),
          rq_fields = daily_fields c day unfilled_only context exchange_id\<rparr>)
      (decode c (\<lambda>r p. rbind (parse_rows (get_rows p ''output1'')) (\<lambda>orders.
         Inr \<lparr>op_orders = (if unfilled_only then filter (\<lambda>x. 0 < sr_remaining_quantity x) orders else orders),
              op_context = context_of r p\<rparr>))))))"

fun orders_loop :: "(page_context option \<Rightarrow> 'w \<Rightarrow> order_page result \<times> 'w) \<Rightarrow> nat \<Rightarrow> page_context option \<Rightarrow>
  status_record list \<Rightarrow> 'w \<Rightarrow> status_record list result \<times> 'w" where
  "orders_loop page 0 context result w = (Inl (RuntimeError ''KIS order status pagination exceeded max_pages''), w)"
| "orders_loop page (Suc n) context result w = (case page context w of
      (Inl e, w') \<Rightarrow> (Inl e, w')
    | (Inr p, w') \<Rightarrow>
        if \<not> has_next (op_context p) then (Inr (result @ op_orders p), w')
        else if Some (next_request (op_context p)) = context
        then (Inl (RuntimeError ''KIS pagination did not advance''), w')
        else orders_loop page n (Some (next_request (op_context p))) (result @ op_orders p) w')"

definition get_orders :: "kis_client \<Rightarrow> 'w session \<Rightarrow> datetime \<Rightarrow> string option \<Rightarrow> bool \<Rightarrow> string \<Rightarrow> string \<Rightarrow> int \<Rightarrow>
  'w \<Rightarrow> status_record list result \<times> 'w" where
  "get_orders c session_get now inquiry_date unfilled_only pd_dv exchange_id max_pages =
     op_guard (max_pages \<le> 0) (ValueError ''max_pages must be positive'')
     (orders_loop (\<lambda>context. get_orders_page c session_get now inquiry_date unfilled_only context pd_dv exchange_id)
        (nat max_pages) None [])"

definition get_today_orders :: "kis_client \<Rightarrow> 'w session \<Rightarrow> datetime \<Rightarrow> bool \<Rightarrow> int \<Rightarrow>
  'w \<Rightarrow> status_record list result \<times> 'w" where
  "get_today_orders c session_get now unfilled_only max_pages =
     get_orders c session_get now None unfilled_only ''inner'' ''KRX'' max_pages"

definition get_unfilled_orders :: "kis_client \<Rightarrow> 'w session \<Rightarrow> datetime \<Rightarrow> string option \<Rightarrow> int \<Rightarrow>
  'w \<Rightarrow> status_record list result \<times> 'w" where
  "get_unfilled_orders c session_get now inquiry_date max_pages =
     get_orders c session_get now inquiry_date True ''inner'' ''KRX'' max_pages"

text \<open>\<open>payload.get("output") or payload.get("output1") or []\<close>\<close>

definition cancelable_rows :: "payload \<Rightarrow> jrow option list" where
  "cancelable_rows p = (let present = (\<lambda>n. (case map_of (pl_nested p) n of
         Some (JArray rows) \<Rightarrow> rows \<noteq> [] | Some (JObject r) \<Rightarrow> r \<noteq> []
       | None \<Rightarrow> (case map_of (pl_fields p) n of None \<Rightarrow> False | Some v \<Rightarrow> truthy v)))
     in if present ''output'' then get_rows p ''output'' else get_rows p ''output1'')"

definition get_cancelable_orders_page :: "kis_client \<Rightarrow> 'w session \<Rightarrow> string \<Rightarrow> page_context option \<Rightarrow>
  'w \<Rightarrow> order_page result \<times> 'w" where
  "get_cancelable_orders_page c session_get sid pagination =
     validate_account c
     (op_guard (sid \<notin> {''0'', ''1'', ''2''}) (ValueError ''side must be 0, 1, or 2'')
     (let context = (case pagination of None \<Rightarrow> no_context | Some x \<Rightarrow> x) in
      op_bind (session_get \<lparr>rq_url = api_url (kc_env c) REVISION_CANCELABLE_PATH,
          rq_headers = client_headers c (revision_cancelable_tr_id (kc_env c)) (pg_tr_cont context),
          rq_fields = [(''CANO'', kc_account_no c), (''ACNT_PRDT_CD'', kc_product_code c), (''INQR_DVSN_1'', ''0''),
            (''INQR_DVSN_2'', sid), (''CTX_AREA_FK100'', pg_fk context), (''CTX_AREA_NK100'', pg_nk context)]\<rparr>)
      (decode c (\<lambda>r p. rbind (parse_rows (cancelable_rows p)) (\<lambda>orders.
         Inr \<lparr>op_orders = orders, op_context = context_of r p\<rparr>)))))"

definition cancel_body :: "kis_client \<Rightarrow> string \<Rightarrow> string \<Rightarrow> int option \<Rightarrow> int \<Rightarrow> string \<Rightarrow> string \<Rightarrow> int \<Rightarrow>
  (string \<times> string) list" where
  "cancel_body c original orgno quantity order_price division exchange_id condition_price =
     [(''CANO'', kc_account_no c), (''ACNT_PRDT_CD'', kc_product_code c), (''KRX_FWDG_ORD_ORGNO'', orgno),
      (''ORGN_ODNO'', original), (''ORD_DVSN'', division), (''RVSE_CNCL_DVSN_CD'', ''02''),
      (''ORD_QTY'', show_int (case quantity of None \<Rightarrow> 0 | Some q \<Rightarrow> q)), (''ORD_UNPR'', show_int order_price),
      (''QTY_ALL_ORD_YN'', if quantity = None then ''Y'' else ''N''), (''EXCG_ID_DVSN_CD'', exchange_id)]
     @ (if condition_price \<noteq> 0 then [(''CNDT_PRIC'', show_int condition_price)] else [])"

definition cancel_order :: "kis_client \<Rightarrow> 'w session \<Rightarrow> string \<Rightarrow> string \<Rightarrow> int option \<Rightarrow> int \<Rightarrow> string \<Rightarrow> string \<Rightarrow> int \<Rightarrow>
  'w \<Rightarrow> cancel_result result \<times> 'w" where
  "cancel_order c session_post original orgno quantity order_price division exchange_id condition_price =
     validate_account c
     (op_guard (original = [] \<or> orgno = [])
        (ValueError ''original_order_number and krx_forward_order_orgno are required'')
     (op_guard (case quantity of None \<Rightarrow> False | Some q \<Rightarrow> q \<le> 0)
        (ValueError ''quantity must be positive when supplied'')
     (op_guard (order_price < 0 \<or> condition_price < 0) (ValueError ''prices must be non-negative'')
     (let tr_id = revision_cancel_tr_id (kc_env c) in
      op_bind (session_post \<lparr>rq_url = api_url (kc_env c) ORDER_REVISE_CANCEL_PATH,
          rq_headers = client_headers c tr_id [],
          rq_fields = cancel_body c original orgno quantity order_price division exchange_id condition_price\<rparr>)
      (decode c (\<lambda>r p. let output = get_object p ''output'' in
         Inr \<lparr>cr_order_number = text_of (first_value output [''ODNO'', ''odno'']),
              cr_original_order_number = original, cr_status = ''cancel_requested'', cr_tr_id = tr_id,
              cr_raw = output\<rparr>))))))"

section \<open>Well-formed records\<close>

lemma int_value_nonneg: "int_value v = Inr n \<Longrightarrow> 0 \<le> n"
  by (auto simp: int_value_def Let_def split: option.splits if_splits sum.splits exc.splits)

lemma py_int_raises: "py_int x = Inl e \<Longrightarrow> (\<exists>m. e = ValueError m) \<or> (\<exists>m. e = OverflowError m)"
  by (cases x) auto

lemma int_value_raises: "int_value v = Inl e \<Longrightarrow> \<exists>m. e = OverflowError m"
  using py_int_raises by (fastforce simp: int_value_def split: option.splits if_splits sum.splits exc.splits)

lemma parse_status_raises: "parse_status row a b c = Inl e \<Longrightarrow> \<exists>m. e = OverflowError m"
  using int_value_raises by (fastforce simp: parse_status_def result_iffs split: option.splits if_splits)

lemma quantity_raises:
  "ordered_of row = Inl e \<Longrightarrow> \<exists>m. e = OverflowError m" "filled_quantity_of row = Inl e \<Longrightarrow> \<exists>m. e = OverflowError m"
  "remaining_of row a b = Inl e \<Longrightarrow> \<exists>m. e = OverflowError m"
  using int_value_raises unfolding ordered_of_def filled_quantity_of_def remaining_of_def Let_def
  by (blast, blast, metis old.sum.distinct(1))

lemma quantity_nonneg:
  "ordered_of row = Inr n \<Longrightarrow> 0 \<le> n" "filled_quantity_of row = Inr n \<Longrightarrow> 0 \<le> n" "remaining_of row a b = Inr n \<Longrightarrow> 0 \<le> n"
  using int_value_nonneg unfolding ordered_of_def filled_quantity_of_def remaining_of_def Let_def
  by (blast, blast, metis max.cobounded1 sum.inject(2))

lemma digit_char_other:
  "is_digit_char c \<Longrightarrow> c \<notin> {CHR ''e'', CHR ''E'', CHR ''.'', CHR ''-'', CHR ''+'', CHR '','', CHR ''i'', CHR ''n''}"
  by (auto simp: is_digit_char_def ch_code_def Let_def)

lemma split_at_none: "\<forall>c\<in>set s. \<not> p c \<Longrightarrow> split_at p s = (s, None)"
  by (simp add: split_at_def dropWhile_eq_Nil_conv [THEN iffD2])

lemma lower_digits: "list_all is_digit_char s \<Longrightarrow> lower s = s"
  by (auto simp: lower_def is_digit_char_def is_upper_char_def Let_def list_all_iff intro!: map_idI)

lemma float_of_digits:
  assumes "isdigit s"
  shows "float_of_str s = Some (fl (of_nat (read_nat s)))"
proof -
  have d: "list_all is_digit_char s" "s \<noteq> []" using assms by (auto simp: isdigit_def)
  then obtain c cs where s: "s = c # cs" "is_digit_char c" by (cases s) auto
  have others: "x \<in> set s \<Longrightarrow> x \<notin> {CHR ''e'', CHR ''E'', CHR ''.'', CHR ''-'', CHR ''+'', CHR '','', CHR ''i'', CHR ''n''}" for x
    using d(1) digit_char_other by (auto simp: list_all_iff)
  have "split_at (\<lambda>c. c = CHR ''e'' \<or> c = CHR ''E'') s = (s, None)" "split_at (\<lambda>c. c = CHR ''.'') s = (s, None)"
    using others by (auto intro!: split_at_none)
  moreover have "digits_or_empty s" "only_digits s = s"
    using d by (auto simp: digits_or_empty_def digit_groups_digits only_digits_def list_all_iff intro: filter_True)
  ultimately have m: "mantissa_of s = Some (of_nat (read_nat s))" and
    e: "split_at (\<lambda>c. c = CHR ''e'' \<or> c = CHR ''E'') s = (s, None)"
    using d(2) by (simp_all add: mantissa_of_def only_digits_def digits_or_empty_def p10_def)
  have "c \<noteq> CHR ''i''" "c \<noteq> CHR ''n''" using others [of c] s by auto
  then have "lower s \<notin> {''inf'', ''infinity'', ''nan''}" using lower_digits [OF d(1)] s by auto
  with m e have "magnitude_of s = Some (fl (of_nat (read_nat s)))"
    by (simp add: magnitude_of_def exponent_of_def p10_def)
  moreover have "c \<noteq> CHR ''-''" "c \<noteq> CHR ''+''" using others [of c] s by auto
  ultimately show ?thesis using strip_digits [OF d(1)] s(1) by (simp add: float_of_str_def)
qed

lemma int_value_show_nat:
  assumes "int n \<le> 2 ^ 53"
  shows "int_value (Some (JStr (show_nat n))) = Inr (int n)" "float_value (Some (JStr (show_nat n))) = Some (Fin (of_nat n))"
proof -
  have d: "isdigit (show_nat n)" by simp
  then have "without_commas (show_nat n) = show_nat n"
    using digit_char_other by (auto simp: without_commas_def isdigit_def list_all_iff intro!: filter_True)
  moreover have "strip (show_nat n) = show_nat n" using d by (intro strip_digits) (simp add: isdigit_def)
  moreover have "fl (of_nat n) = Fin (of_nat n)" using fl_of_int [of "int n"] assms by simp
  moreover have "show_nat n \<noteq> []" using d by (simp add: isdigit_def)
  ultimately show "int_value (Some (JStr (show_nat n))) = Inr (int n)" "float_value (Some (JStr (show_nat n))) = Some (Fin (of_nat n))"
    using float_of_digits [OF d] by (simp_all add: int_value_def float_value_def blank_def)
qed

text \<open>
  What the client makes of a status row is well-formed: a non-empty order number, a six-digit symbol and
  quantities that are never negative, whatever the row contains; the record keeps the row. A quantity printed in decimal digits, up to
  2^53, is read back exactly. Reading a row fails in one way only,
  with an \<open>OverflowError\<close>, and it does fail on a quantity that prints as infinity.
\<close>

theorem parsed_order_wellformed:
  "(\<forall>row r. parse_order_status row = Inr (Some r) \<longrightarrow> sr_order_number r \<noteq> [] \<and> isdigit (sr_symbol r)
      \<and> length (sr_symbol r) = 6 \<and> 0 \<le> sr_ordered_quantity r \<and> 0 \<le> sr_filled_quantity r
      \<and> 0 \<le> sr_remaining_quantity r \<and> row = Some (sr_raw r))
   \<and> (\<forall>n. int n \<le> 2 ^ 53 \<longrightarrow> ordered_of [(''ord_qty'', JStr (show_nat n))] = Inr (int n))
   \<and> (\<forall>row e. parse_order_status row = Inl e \<longrightarrow> (\<exists>m. e = OverflowError m))
   \<and> parse_order_status (Some [(''odno'', JStr ''7''), (''pdno'', JStr ''005930''), (''ord_qty'', JStr ''inf'')])
       = Inl (OverflowError ''cannot convert float infinity to integer'')"
proof (intro conjI allI impI)
  show "ordered_of [(''ord_qty'', JStr (show_nat n))] = Inr (int n)" if "int n \<le> 2 ^ 53" for n
    using int_value_show_nat(1) [OF that] isdigit_show_nat [of n]
    by (auto simp: ordered_of_def first_value.simps blank_def isdigit_def)
next
  fix row e
  assume "parse_order_status row = Inl e"
  then show "\<exists>m. e = OverflowError m"
    using quantity_raises parse_status_raises
    by (fastforce simp: parse_order_status_def result_iffs split: option.splits if_splits)
next
  fix row r
  assume "parse_order_status row = Inr (Some r)"
  then obtain rw on sy a b c st where r: "row = Some rw" "order_number_of rw = Some on" "isdigit sy" "length sy = 6"
      "ordered_of rw = Inr a" "filled_quantity_of rw = Inr b" "remaining_of rw a b = Inr c" "r = order_record rw on sy a b c st"
    by (auto simp: parse_order_status_def result_iffs split: option.splits if_splits)
  from r(2) show "sr_order_number r \<noteq> []"
    by (auto simp: r(8) order_record_def order_number_of_def text_of_def Let_def split: option.splits if_splits)
  show "isdigit (sr_symbol r)" "length (sr_symbol r) = 6" "row = Some (sr_raw r)" using r by (simp_all add: order_record_def)
  show "0 \<le> sr_ordered_quantity r" "0 \<le> sr_filled_quantity r" "0 \<le> sr_remaining_quantity r"
    using r quantity_nonneg by (auto simp: order_record_def)
next
  show "parse_order_status (Some [(''odno'', JStr ''7''), (''pdno'', JStr ''005930''), (''ord_qty'', JStr ''inf'')])
       = Inl (OverflowError ''cannot convert float infinity to integer'')" by code_simp
qed

definition unfilled_row :: jrow where
  "unfilled_row = [(''odno'', JStr ''b1''), (''pdno'', JStr ''005930''), (''sll_buy_dvsn_cd'', JStr ''02''),
     (''ord_qty'', JStr ''10''), (''tot_ccld_qty'', JStr ''4''), (''rmn_qty'', JStr ''6''), (''avg_prvs'', JStr ''0'')]"

lemma parse_unfilled_row:
  "parse_order_status (Some unfilled_row) = Inr (Some (order_record unfilled_row ''b1'' ''005930'' 10 4 6 KS_PARTIALLY_FILLED))"
  "float_value (first_value unfilled_row [''avg_prvs'', ''avg_fill_price'', ''avg_pric'', ''AVG_PRVS'']) = Some (Fin 0)"
  "parse_side unfilled_row = Some BUY"
proof -
  have digits: "show_nat 10 = ''10''" "show_nat 4 = ''4''" "show_nat 6 = ''6''" "show_nat 0 = ''0''" by code_simp+
  have ids: "order_number_of unfilled_row = Some ''b1''" "symbol_of unfilled_row = Some ''005930''" by code_simp+
  have "ordered_of unfilled_row = Inr 10" "filled_quantity_of unfilled_row = Inr 4" "remaining_of unfilled_row 10 4 = Inr 6"
    using int_value_show_nat(1) [of 10] int_value_show_nat(1) [of 4] int_value_show_nat(1) [of 6]
    by (simp_all add: digits ordered_of_def filled_quantity_of_def remaining_of_def unfilled_row_def first_value.simps blank_def)
  moreover have "parse_status unfilled_row 10 4 6 = Inr KS_PARTIALLY_FILLED" by code_simp
  moreover have "isdigit ''005930''" by (simp add: string_eval)
  ultimately show "parse_order_status (Some unfilled_row)
      = Inr (Some (order_record unfilled_row ''b1'' ''005930'' 10 4 6 KS_PARTIALLY_FILLED))"
    by (simp add: parse_order_status_def ids)
  show "float_value (first_value unfilled_row [''avg_prvs'', ''avg_fill_price'', ''avg_pric'', ''AVG_PRVS'']) = Some (Fin 0)"
    using int_value_show_nat(2) [of 0] by (simp add: digits unfilled_row_def first_value.simps blank_def)
  show "parse_side unfilled_row = Some BUY" by code_simp
qed

theorem parsed_order_wellformed_witness:
  "\<exists>r. parse_order_status (Some unfilled_row) = Inr (Some r) \<and> length (sr_symbol r) = 6 \<and> 0 \<le> sr_remaining_quantity r"
  using parsed_order_wellformed parse_unfilled_row(1) by blast

section \<open>Paged reads\<close>

text \<open>
  A chain of pages: every page but the last names the state the next one is asked with. \<open>step s w\<close> asks for one
  page; an answer without a next state is the last.
\<close>

inductive serves :: "('s \<Rightarrow> 'w \<Rightarrow> ('a list \<times> 's option) result \<times> 'w) \<Rightarrow> 's \<Rightarrow> 'w \<Rightarrow> 'a list list \<Rightarrow> 'w \<Rightarrow> bool"
  for step where
  last_page: "step s w = (Inr (xs, None), w') \<Longrightarrow> serves step s w [xs] w'"
| more_pages: "step s w = (Inr (xs, Some s'), w') \<Longrightarrow> serves step s' w' xss w'' \<Longrightarrow> serves step s w (xs # xss) w''"

inductive_cases serves_ConsE: "serves step s w (xs # xss) w'"

lemma serves_bound: "serves step s w xss w' \<Longrightarrow> int (length xss) \<le> n \<Longrightarrow> 0 < n"
  by (erule serves.cases) simp_all

text \<open>The contract: a bounded loop that joins what the steps answer and passes errors on.\<close>

locale paged_read =
  fixes step :: "'s \<Rightarrow> 'w \<Rightarrow> ('a list \<times> 's option) result \<times> 'w"
    and loop :: "nat \<Rightarrow> 's \<Rightarrow> 'a list \<Rightarrow> 'w \<Rightarrow> 'b result \<times> 'w"
    and finish :: "'a list \<Rightarrow> 'b"
    and exceeded :: exc
  assumes loop_0: "loop 0 s acc w = (Inl exceeded, w)"
    and loop_error: "step s w = (Inl e, w') \<Longrightarrow> loop (Suc n) s acc w = (Inl e, w')"
    and loop_last: "step s w = (Inr (xs, None), w') \<Longrightarrow> loop (Suc n) s acc w = (Inr (finish (acc @ xs)), w')"
    and loop_more: "step s w = (Inr (xs, Some s'), w') \<Longrightarrow> loop (Suc n) s acc w = loop n s' (acc @ xs) w'"
begin

lemma served_read:
  "serves step s w xss w' \<Longrightarrow> length xss \<le> n \<Longrightarrow> loop n s acc w = (Inr (finish (acc @ concat xss)), w')"
proof (induction arbitrary: n acc rule: serves.induct)
  case (last_page s w xs w')
  then show ?case by (cases n) (auto simp: loop_last)
next
  case (more_pages s w xs s' w' xss w'')
  then show ?case by (cases n) (auto simp: loop_more)
qed

lemma too_many_pages:
  "serves step s w xss w' \<Longrightarrow> n < length xss \<Longrightarrow> fst (loop n s acc w) = Inl exceeded"
proof (induction arbitrary: n acc rule: serves.induct)
  case (last_page s w xs w')
  then show ?case by (auto simp: loop_0)
next
  case (more_pages s w xs s' w' xss w'')
  then show ?case by (cases n) (auto simp: loop_0 loop_more)
qed

lemma read_served:
  "loop n s acc w = (Inr ys, w') \<Longrightarrow> \<exists>xss. serves step s w xss w' \<and> length xss \<le> n \<and> ys = finish (acc @ concat xss)"
proof (induction n arbitrary: s acc w)
  case 0
  then show ?case by (simp add: loop_0)
next
  case (Suc n)
  obtain a w1 where step: "step s w = (a, w1)" by fastforce
  consider e where "a = Inl e" | xs where "a = Inr (xs, None)" | xs s' where "a = Inr (xs, Some s')"
    by (metis obj_sumE old.prod.exhaust option.exhaust)
  then show ?case
  proof cases
    case 1
    with Suc.prems step show ?thesis by (simp add: loop_error)
  next
    case 2
    with Suc.prems step have "ys = finish (acc @ xs)" "w' = w1" by (simp_all add: loop_last)
    moreover have "serves step s w [xs] w1" using step 2 by (auto intro: serves.last_page)
    ultimately show ?thesis by (intro exI [of _ "[xs]"]) simp
  next
    case 3
    with Suc.prems step have "loop n s' (acc @ xs) w1 = (Inr ys, w')" by (simp add: loop_more)
    from Suc.IH [OF this] obtain xss where "serves step s' w1 xss w'" "length xss \<le> n"
      "ys = finish ((acc @ xs) @ concat xss)" by blast
    then show ?thesis using step 3 by (intro exI [of _ "xs # xss"]) (auto intro: serves.more_pages)
  qed
qed

lemma read_iff_served:
  "loop n s [] w = (Inr ys, w') \<longleftrightarrow> (\<exists>xss. serves step s w xss w' \<and> length xss \<le> n \<and> ys = finish (concat xss))"
  using read_served [of n s "[]" w ys w'] served_read [of s w _ w' n "[]"] by auto

end

text \<open>One round of the order client: ask for a page, refuse a cursor that stands still.\<close>

definition order_step :: "(page_context option \<Rightarrow> 'w \<Rightarrow> order_page result \<times> 'w) \<Rightarrow> page_context option \<Rightarrow> 'w \<Rightarrow>
  (status_record list \<times> page_context option option) result \<times> 'w" where
  "order_step page context w = (case page context w of (Inl e, w') \<Rightarrow> (Inl e, w')
     | (Inr p, w') \<Rightarrow> (if \<not> has_next (op_context p) then Inr (op_orders p, None)
         else if Some (next_request (op_context p)) = context then Inl (RuntimeError ''KIS pagination did not advance'')
         else Inr (op_orders p, Some (Some (next_request (op_context p)))), w'))"

interpretation order_pages: paged_read "order_step page" "orders_loop page" "\<lambda>xs. xs"
  "RuntimeError ''KIS order status pagination exceeded max_pages''" for page
  by unfold_locales (auto simp: order_step_def split: prod.splits sum.splits if_splits)

end
