(* ===== verification/AccountClient.thy ===== *)
theory AccountClient
  imports OrderStatus
begin

text \<open>
  The account snapshot (\<open>broker/kis_account.py\<close>): parsing of position and summary rows, one page of the
  balance, the bounded loop over pages. The client provides the contract of a paged read. Shown: both paged clients return the
  rows of every page of a chain the broker serves, or raise.
\<close>

section \<open>Rows\<close>

record account_position =
  kp_symbol :: string
  kp_qty :: int
  kp_sellable_qty :: "int option"
  kp_avg_price :: "pyfloat option"
  kp_current_price :: "pyfloat option"
  kp_evaluation_pnl :: "pyfloat option"
  kp_evaluation_amount :: "pyfloat option"
  kp_name :: string

record account_summary =
  ks_deposit :: "pyfloat option"
  ks_orderable_cash :: "pyfloat option"
  ks_total_evaluation :: "pyfloat option"
  ks_evaluation_pnl :: "pyfloat option"

record account_page =
  ag_positions :: "account_position list"
  ag_summary :: account_summary
  ag_context :: page_context

record account_snapshot =
  an_positions :: "account_position list"
  an_summary :: account_summary

definition account_has_next :: "page_context \<Rightarrow> bool" where
  "account_has_next c = (upper (pg_tr_cont c) \<in> {''M'', ''F''} \<and> (pg_fk c \<noteq> [] \<or> pg_nk c \<noteq> []))"

definition account_int :: "jscalar option \<Rightarrow> int option result" where
  "account_int value = (case value of None \<Rightarrow> Inr None | Some v \<Rightarrow>
     if blank v then Inr None
     else case float_of_str (strip (without_commas (py_str v))) of None \<Rightarrow> Inr None
       | Some x \<Rightarrow> (case py_int x of Inr n \<Rightarrow> Inr (Some n)
           | Inl (ValueError _) \<Rightarrow> Inr None
           | Inl e \<Rightarrow> Inl e))"

definition account_float :: "jscalar option \<Rightarrow> pyfloat option" where
  "account_float value = (case float_value value of Some x \<Rightarrow> if x = NaN then None else Some x | None \<Rightarrow> None)"

definition drop_negative :: "pyfloat option \<Rightarrow> pyfloat option" where
  "drop_negative value = (case value of Some x \<Rightarrow> if flt x (Fin 0) then None else Some x | None \<Rightarrow> None)"

definition as_rows :: "payload \<Rightarrow> string \<Rightarrow> jrow list" where
  "as_rows p name = (case map_of (pl_nested p) name of None \<Rightarrow> []
     | Some (JObject r) \<Rightarrow> [r]
     | Some (JArray rows) \<Rightarrow> List.map_filter (\<lambda>x. x) rows)"

definition position_record :: "jrow \<Rightarrow> string \<Rightarrow> int \<Rightarrow> int option \<Rightarrow> account_position" where
  "position_record row symbol qty sellable = \<lparr>kp_symbol = symbol, kp_qty = qty,
     kp_sellable_qty = (case sellable of Some n \<Rightarrow> if n < 0 then None else Some n | None \<Rightarrow> None),
     kp_avg_price = drop_negative (account_float (first_value row [''pchs_avg_pric'', ''PCHS_AVG_PRIC'', ''avg_price''])),
     kp_current_price = drop_negative (account_float (first_value row [''prpr'', ''PRPR'', ''current_price''])),
     kp_evaluation_pnl = account_float (first_value row [''evlu_pfls_amt'', ''EVLU_PFLS_AMT'', ''evaluation_pnl'']),
     kp_evaluation_amount = account_float (first_value row [''evlu_amt'', ''EVLU_AMT'', ''evaluation_amount'']),
     kp_name = str_or_empty (first_value row [''prdt_name'', ''PRDT_NAME'', ''name''])\<rparr>"

definition parse_account_position :: "jrow \<Rightarrow> account_position option result" where
  "parse_account_position row =
     (let symbol = text_of (first_value row [''pdno'', ''PDNO'', ''symbol'', ''SYMBOL'']) in
      rbind (account_int (first_value row [''hldg_qty'', ''HLDG_QTY'', ''qty'', ''quantity''])) (\<lambda>qty.
        case (symbol, qty) of
          (Some s, Some q) \<Rightarrow>
            if \<not> isdigit s \<or> length s \<noteq> 6 \<or> q \<le> 0 then Inr None
            else rbind (account_int (first_value row [''ord_psbl_qty'', ''ORD_PSBL_QTY'', ''sellable_qty'',
                ''sellable_quantity''])) (\<lambda>sellable. Inr (Some (position_record row s q sellable)))
        | _ \<Rightarrow> Inr None))"

definition parse_account_summary :: "jrow \<Rightarrow> account_summary" where
  "parse_account_summary row = \<lparr>
     ks_deposit = account_float (first_value row [''dnca_tot_amt'', ''DNCA_TOT_AMT'', ''deposit'']),
     ks_orderable_cash = account_float (first_value row [''ord_psbl_cash'', ''ORD_PSBL_CASH'', ''ord_psbl_amt'',
       ''ORD_PSBL_AMT'', ''orderable_cash'']),
     ks_total_evaluation = account_float (first_value row [''tot_evlu_amt'', ''TOT_EVLU_AMT'', ''evlu_amt_smtl'',
       ''total_evaluation'']),
     ks_evaluation_pnl = account_float (first_value row [''evlu_pfls_smtl_amt'', ''EVLU_PFLS_SMTL_AMT'',
       ''evaluation_pnl''])\<rparr>"

fun parse_positions :: "jrow list \<Rightarrow> account_position list result" where
  "parse_positions [] = Inr []"
| "parse_positions (row # rows) = rbind (parse_account_position row) (\<lambda>parsed. rbind (parse_positions rows) (\<lambda>ps.
     Inr (case parsed of None \<Rightarrow> ps | Some p \<Rightarrow> p # ps)))"

section \<open>Pages\<close>

definition BALANCE_PATH :: string where
  "BALANCE_PATH = ''/uapi/domestic-stock/v1/trading/inquire-balance''"

definition balance_tr_id :: "kis_env \<Rightarrow> string" where
  "balance_tr_id env = (if env = ENV_REAL then ''TTTC8434R'' else ''VTTC8434R'')"

definition account_payload :: "response \<Rightarrow> string list \<Rightarrow> payload result" where
  "account_payload r secrets = rbind (raise_for_kis_response r secrets) (\<lambda>_. case rs_body r of
      NotJson \<Rightarrow> Inl (RuntimeError ''KIS account response was not valid JSON'')
    | NotObject \<Rightarrow> Inl (RuntimeError ''KIS account response was not an object'')
    | JsonObject p \<Rightarrow>
        if (case map_of (pl_fields p) ''rt_cd'' of None \<Rightarrow> ''1'' | Some v \<Rightarrow> py_str v) \<noteq> ''0''
        then Inl (RuntimeError ''KIS account request failed'') else Inr p)"

text \<open>\<open>str(payload.get(a) or payload.get(b) or "")\<close>\<close>

definition either_text :: "payload \<Rightarrow> string \<Rightarrow> string \<Rightarrow> string" where
  "either_text p a b = (let x = str_or_empty (map_of (pl_fields p) a)
     in if x \<noteq> [] then x else str_or_empty (map_of (pl_fields p) b))"

definition account_context :: "payload \<Rightarrow> response \<Rightarrow> page_context" where
  "account_context p r = \<lparr>pg_tr_cont = header_of r ''tr_cont'',
     pg_fk = either_text p ''ctx_area_fk100'' ''CTX_AREA_FK100'', pg_nk = either_text p ''ctx_area_nk100'' ''CTX_AREA_NK100''\<rparr>"

definition balance_headers :: "kis_client \<Rightarrow> page_context \<Rightarrow> (string \<times> string) list" where
  "balance_headers c x = [(''content-type'', ''application/json; charset=utf-8''),
     (''authorization'', ''Bearer '' @ kc_access_token c), (''appkey'', kc_app_key c), (''appsecret'', kc_app_secret c),
     (''tr_id'', balance_tr_id (kc_env c)), (''custtype'', ''P''),
     (''tr_cont'', if pg_fk x \<noteq> [] \<or> pg_nk x \<noteq> [] then ''N'' else [])]"

definition balance_fields :: "kis_client \<Rightarrow> page_context \<Rightarrow> (string \<times> string) list" where
  "balance_fields c x = [(''CANO'', kc_account_no c), (''ACNT_PRDT_CD'', kc_product_code c), (''AFHR_FLPR_YN'', ''N''),
     (''OFL_YN'', []), (''INQR_DVSN'', ''02''), (''UNPR_DVSN'', ''01''), (''FUND_STTL_ICLD_YN'', ''N''),
     (''FNCG_AMT_AUTO_RDPT_YN'', ''N''), (''PRCS_DVSN'', ''01''), (''CTX_AREA_FK100'', pg_fk x),
     (''CTX_AREA_NK100'', pg_nk x)]"

definition account_get_page :: "kis_client \<Rightarrow> int \<Rightarrow> 'w session \<Rightarrow> page_context \<Rightarrow> 'w \<Rightarrow> account_page result \<times> 'w" where
  "account_get_page c max_pages session_get x =
     validate_account c
     (op_guard (max_pages \<le> 0) (ValueError ''max_pages must be positive'')
     (op_bind (session_get \<lparr>rq_url = api_url (kc_env c) BALANCE_PATH, rq_headers = balance_headers c x,
          rq_fields = balance_fields c x\<rparr>)
      (\<lambda>r w. (rbind (account_payload r (client_secrets c)) (\<lambda>p.
         rbind (parse_positions (as_rows p ''output1'')) (\<lambda>ps.
           Inr \<lparr>ag_positions = ps,
                ag_summary = parse_account_summary (case as_rows p ''output2'' of [] \<Rightarrow> [] | row # _ \<Rightarrow> row),
                ag_context = account_context p r\<rparr>)), w))))"

definition page_marker :: "page_context \<Rightarrow> string \<times> string" where
  "page_marker x = (pg_fk x, pg_nk x)"

fun account_loop :: "(page_context \<Rightarrow> 'w \<Rightarrow> account_page result \<times> 'w) \<Rightarrow> nat \<Rightarrow> page_context \<Rightarrow> (string \<times> string) list \<Rightarrow>
  account_position list \<Rightarrow> account_summary option \<Rightarrow> 'w \<Rightarrow> account_snapshot result \<times> 'w" where
  "account_loop page 0 x seen ps summary w = (Inl (RuntimeError ''KIS account pagination exceeded max_pages''), w)"
| "account_loop page (Suc n) x seen ps summary w = (case page x w of
      (Inl e, w') \<Rightarrow> (Inl e, w')
    | (Inr g, w') \<Rightarrow>
        let first_summary = (case summary of None \<Rightarrow> ag_summary g | Some s \<Rightarrow> s) in
        if \<not> account_has_next (ag_context g)
        then (Inr \<lparr>an_positions = ps @ ag_positions g, an_summary = first_summary\<rparr>, w')
        else if page_marker (ag_context g) \<in> set seen
        then (Inl (RuntimeError ''KIS account pagination cursor did not advance''), w')
        else account_loop page n (ag_context g) (page_marker (ag_context g) # seen) (ps @ ag_positions g)
               (Some first_summary) w')"

text \<open>The constructor caps the number of pages at ten.\<close>

definition get_snapshot :: "kis_client \<Rightarrow> int \<Rightarrow> 'w session \<Rightarrow> 'w \<Rightarrow> account_snapshot result \<times> 'w" where
  "get_snapshot c max_pages session_get =
     (let m = min max_pages 10 in
      account_loop (account_get_page c m session_get) (nat m) no_context [] [] None)"

section \<open>The contract of a paged read\<close>

type_synonym account_cursor = "page_context \<times> (string \<times> string) list \<times> account_summary option"

definition account_step :: "(page_context \<Rightarrow> 'w \<Rightarrow> account_page result \<times> 'w) \<Rightarrow> account_cursor \<Rightarrow> 'w \<Rightarrow>
  (account_position list \<times> account_cursor option) result \<times> 'w" where
  "account_step page s w = (case s of (x, seen, summary) \<Rightarrow> (case page x w of (Inl e, w') \<Rightarrow> (Inl e, w')
     | (Inr g, w') \<Rightarrow> (if \<not> account_has_next (ag_context g) then Inr (ag_positions g, None)
         else if page_marker (ag_context g) \<in> set seen
         then Inl (RuntimeError ''KIS account pagination cursor did not advance'')
         else Inr (ag_positions g, Some (ag_context g, page_marker (ag_context g) # seen,
                Some (case summary of None \<Rightarrow> ag_summary g | Some s \<Rightarrow> s))), w')))"

definition account_read :: "(page_context \<Rightarrow> 'w \<Rightarrow> account_page result \<times> 'w) \<Rightarrow> nat \<Rightarrow> account_cursor \<Rightarrow>
  account_position list \<Rightarrow> 'w \<Rightarrow> account_position list result \<times> 'w" where
  "account_read page n s acc w = (case s of (x, seen, summary) \<Rightarrow>
     (case account_loop page n x seen acc summary w of (r, w') \<Rightarrow> (rbind r (\<lambda>a. Inr (an_positions a)), w')))"

interpretation account_pages: paged_read "account_step page" "account_read page" "\<lambda>xs. xs"
  "RuntimeError ''KIS account pagination exceeded max_pages''" for page
  by unfold_locales (auto simp: account_step_def account_read_def Let_def split: prod.splits sum.splits if_splits)

text \<open>
  (C37) A paged read is complete or fails. The order list of the status client and the positions of the account snapshot
  are returned exactly when the broker serves a chain of pages, each asked for with the cursor the page before
  it named, that ends within the allowed number of pages; the result is then the concatenation of all of them.
  Whatever else happens, a failing page, a cursor that stands still, too many pages, the call raises, so
  neither client ever hands a shortened list to reconciliation.
\<close>

theorem paged_reads_complete:
  "(get_orders c get now day unfilled pd ex n w = (Inr orders, w')
      \<longleftrightarrow> (\<exists>pages. serves (order_step (\<lambda>x. get_orders_page c get now day unfilled x pd ex)) None w pages w'
            \<and> int (length pages) \<le> n \<and> orders = concat pages))
   \<and> ((\<exists>snapshot. get_snapshot c m get w = (Inr snapshot, w') \<and> an_positions snapshot = ps)
      \<longleftrightarrow> (\<exists>pages. serves (account_step (account_get_page c (min m 10) get)) (no_context, [], None) w pages w'
            \<and> int (length pages) \<le> min m 10 \<and> ps = concat pages))"
proof
  let ?page = "\<lambda>x. get_orders_page c get now day unfilled x pd ex"
  show "get_orders c get now day unfilled pd ex n w = (Inr orders, w')
      \<longleftrightarrow> (\<exists>pages. serves (order_step ?page) None w pages w' \<and> int (length pages) \<le> n \<and> orders = concat pages)"
    using order_pages.read_iff_served [of ?page "nat n" None w orders w']
    by (cases "n \<le> 0") (auto simp: get_orders_def nat_le_iff le_nat_iff dest: serves_bound)
next
  let ?m = "min m 10" let ?page = "account_get_page c ?m get"
  have "(\<exists>snapshot. get_snapshot c m get w = (Inr snapshot, w') \<and> an_positions snapshot = ps)
      \<longleftrightarrow> account_read ?page (nat ?m) (no_context, [], None) [] w = (Inr ps, w')"
    by (auto simp: get_snapshot_def account_read_def Let_def rbind_eq_Inr split: prod.splits)
  then show "(\<exists>snapshot. get_snapshot c m get w = (Inr snapshot, w') \<and> an_positions snapshot = ps)
      \<longleftrightarrow> (\<exists>pages. serves (account_step ?page) (no_context, [], None) w pages w'
            \<and> int (length pages) \<le> ?m \<and> ps = concat pages)"
    using account_pages.read_iff_served [of ?page "nat ?m" "(no_context, [], None)" w ps w']
    by (cases "?m \<le> 0") (auto simp: le_nat_iff dest: serves_bound)
qed

end
