(* ===== verification/Reconcile.thy ===== *)
theory Reconcile
  imports SafetyGate AccountClient
begin

text \<open>
  Reconciliation of the local ledger with the broker (\<open>pipeline/broker_reconciliation.py\<close>). One pass reads the broker's
  orders and positions, adopts fills of known orders, compares both sides and records whether new entries stay
  blocked. The two clients are parameters on an arbitrary world. Shown: the pass keeps the books for every broker
  answer, its block flags are set exactly when something disagrees and then stop every BUY, and a pass
  that leaves entries open has found both sides in agreement.
\<close>

section \<open>Helpers\<close>

definition ACTIVE_LOCAL_STATUSES :: "order_status list" where
  "ACTIVE_LOCAL_STATUSES = [INTENT, SUBMITTING, ACKNOWLEDGED, PARTIALLY_FILLED, CANCEL_PENDING, UNKNOWN]"

record reconciliation_report =
  rr_updated_orders :: nat
  rr_new_fills :: nat
  rr_materialized_fills :: nat
  rr_operator_review :: bool
  rr_block_new_entries :: bool
  rr_reasons :: "string list"

text \<open>The locals of one pass.\<close>

record recon =
  rn_reasons :: "string list"
  rn_matched :: "string list"
  rn_updated :: nat
  rn_fills :: nat
  rn_materialized :: nat

definition start_recon :: recon where
  "start_recon = \<lparr>rn_reasons = [], rn_matched = [], rn_updated = 0, rn_fills = 0, rn_materialized = 0\<rparr>"

definition add_reason :: "string \<Rightarrow> recon \<Rightarrow> recon" where
  "add_reason m n = n\<lparr>rn_reasons := rn_reasons n @ [m]\<rparr>"

definition broker_side :: "status_record \<Rightarrow> string" where
  "broker_side b = (case sr_side b of None \<Rightarrow> [] | Some s \<Rightarrow> side_str s)"

definition same_order :: "broker_order \<Rightarrow> status_record \<Rightarrow> bool" where
  "same_order r b = (bo_symbol r = sr_symbol b \<and> side_str (bo_side r) = broker_side b)"

fun join_colon :: "string list \<Rightarrow> string" where
  "join_colon [] = []"
| "join_colon [x] = x"
| "join_colon (x # xs) = x @ '':'' @ join_colon xs"

definition code_part :: "(string \<times> string) list \<Rightarrow> string \<Rightarrow> string list" where
  "code_part details key = (let value = strip (case map_of details key of None \<Rightarrow> [] | Some v \<Rightarrow> v)
     in if value \<noteq> [] \<and> list_all (\<lambda>c. is_alnum_char c \<or> c = CHR ''-'' \<or> c = CHR ''_'') value
        then [key @ ''_'' @ value] else [])"

definition exception_code :: "exc \<Rightarrow> string" where
  "exception_code e = (case e of
      KisHttpError code details \<Rightarrow> join_colon ([''KisHttpError'', ''http_'' @ show_int code]
        @ code_part details ''rt_cd'' @ code_part details ''msg_cd'')
    | _ \<Rightarrow> exc_name e)"

fun local_status_for_broker :: "kis_status \<Rightarrow> order_status option" where
  "local_status_for_broker KS_UNFILLED = Some ACKNOWLEDGED"
| "local_status_for_broker KS_PARTIALLY_FILLED = Some PARTIALLY_FILLED"
| "local_status_for_broker KS_FILLED = Some FILLED"
| "local_status_for_broker KS_CANCELLED = Some CANCELLED"
| "local_status_for_broker KS_REJECTED = Some REJECTED"
| "local_status_for_broker KS_UNKNOWN = None"

definition incremental_fill_price :: "broker_order \<Rightarrow> status_record \<Rightarrow> int \<Rightarrow> pyfloat result" where
  "incremental_fill_price r b delta =
     guard_else (delta \<le> 0) (ValueError ''fill delta must be positive'')
     (case sr_average_fill_price b of None \<Rightarrow> Inr (bo_requested_price r)
      | Some broker_average \<Rightarrow>
        (case bo_avg_fill_price r of None \<Rightarrow> Inr broker_average
         | Some previous_average \<Rightarrow>
           if bo_filled_qty r \<le> 0 then Inr broker_average
           else rbind (float_operand (sr_filled_quantity b)) (\<lambda>total.
             rbind (float_operand (bo_filled_qty r)) (\<lambda>previous.
             rbind (float_operand delta) (\<lambda>added.
             rbind (fdiv (fsub (fmul broker_average total) (fmul previous_average previous)) added) (\<lambda>price.
               guard_else (fle price (Fin 0)) (ValueError ''derived incremental fill price must be positive'')
                 (Inr price)))))))"

definition materialize_local_fills :: "broker_order \<Rightarrow> datetime \<Rightarrow> nat dbop" where
  "materialize_local_fills r clk d = (if bo_side r = BUY
     then (case fetchone (\<lambda>a. bo_signal_id r = Some (ad_decision_id a)) (ai_decision_audits d) of
         None \<Rightarrow> op_fail (ValueError ''missing entry risk metadata'') d
       | Some a \<Rightarrow> materialize_order_fills (bo_client_order_id r)
           \<lparr>mt_stop = ad_stop_loss_price a, mt_take = ad_take_profit_price a,
            mt_hold = Some (case ad_max_holding_seconds a of None \<Rightarrow> 900 | Some n \<Rightarrow> if n = 0 then 900 else n),
            mt_close_reason = ''broker_fill''\<rparr> clk d)
     else materialize_order_fills (bo_client_order_id r)
       \<lparr>mt_stop = None, mt_take = None, mt_hold = None, mt_close_reason = ''broker_fill''\<rparr> clk d)"

definition local_position_quantities :: "db \<Rightarrow> (string \<times> int) list" where
  "local_position_quantities d = map (\<lambda>s. (s, sum_open_quantity s d))
     (remdups (map lp_symbol (select_where (\<lambda>p. lp_status p = POS_OPEN) (live_positions d))))"

text \<open>\<open>dict.fromkeys\<close> keeps the first of equal reasons.\<close>

definition unique :: "'a list \<Rightarrow> 'a list" where
  "unique xs = rev (remdups (rev xs))"

definition flag_text :: "bool \<Rightarrow> string" where
  "flag_text b = (if b then ''true'' else ''false'')"

definition finish :: "datetime \<Rightarrow> recon \<Rightarrow> reconciliation_report dbop" where
  "finish now n = (let reasons = unique (rn_reasons n); review = (reasons \<noteq> []) in
     op_bind (set_runtime_metadata ''operator_review'' (flag_text review) now) (\<lambda>_.
     op_bind (set_runtime_metadata ''block_new_entries'' (flag_text review) now) (\<lambda>_.
       op_ret \<lparr>rr_updated_orders = rn_updated n, rr_new_fills = rn_fills n, rr_materialized_fills = rn_materialized n,
         rr_operator_review = review, rr_block_new_entries = review, rr_reasons = reasons\<rparr>)))"

section \<open>One pass\<close>

text \<open>The dictionary of broker orders: the last of several rows with the same number wins.\<close>

definition by_broker_id :: "status_record list \<Rightarrow> string \<Rightarrow> status_record option" where
  "by_broker_id bs i = map_of (rev (map (\<lambda>b. (sr_order_number b, b)) (filter (\<lambda>b. sr_order_number b \<noteq> []) bs))) i"

definition local_rows :: "db \<Rightarrow> broker_order list" where
  "local_rows d = sort_key (\<lambda>r. (bo_created_at r, bo_client_order_id r))
     (select_where (\<lambda>r. bo_status r \<in> set ACTIVE_LOCAL_STATUSES
        \<or> exists_where (\<lambda>f. bf_client_order_id f = bo_client_order_id r
             \<and> \<not> exists_where (\<lambda>a. fa_fill_id a = bf_fill_id f) (fill_applications d)) (broker_fills d))
       (broker_orders d))"

text \<open>Adopting the fills the broker reports beyond the local quantity; None when the fill was refused.\<close>

definition adopt_fill :: "datetime \<Rightarrow> datetime \<Rightarrow> broker_order \<Rightarrow> status_record \<Rightarrow> recon \<Rightarrow> (recon \<times> bool) dbop" where
  "adopt_fill now clk r b n d =
     (let delta = sr_filled_quantity b - bo_filled_qty r in
      if delta = 0 then (Inr (n, True), d)
      else case incremental_fill_price r b delta of Inl e \<Rightarrow> (Inl e, d)
        | Inr fill_price \<Rightarrow>
          (case apply_broker_fill (''reconcile:'' @ bo_client_order_id r @ '':cum:'' @ show_int (sr_filled_quantity b))
                  (bo_client_order_id r) delta fill_price now (Some (sr_order_number b)) (Some (sr_symbol b))
                  (map_option side_str (sr_side b)) clk d of
             (Inl e, d') \<Rightarrow> (Inr (add_reason (''fill_apply_failed:'' @ bo_client_order_id r @ '':'' @ exc_name e) n, False), d')
           | (Inr inserted, d') \<Rightarrow> (Inr (if inserted then n\<lparr>rn_fills := Suc (rn_fills n)\<rparr> else n, True), d')))"

definition pass_status :: "order_status \<Rightarrow> order_status \<Rightarrow> order_status" where
  "pass_status local_status status =
     (if local_status = CANCEL_PENDING \<and> status \<in> {ACKNOWLEDGED, PARTIALLY_FILLED} then CANCEL_PENDING else status)"

definition adopt_status :: "datetime \<Rightarrow> datetime \<Rightarrow> broker_order \<Rightarrow> status_record \<Rightarrow> recon \<Rightarrow> recon dbop" where
  "adopt_status now clk r b n = (case local_status_for_broker (sr_status b) of
      None \<Rightarrow> op_ret (add_reason (''broker_status_unknown:'' @ bo_client_order_id r) n)
    | Some st \<Rightarrow> let status = pass_status (bo_status r) st in
      op_bind (update_broker_order_status (bo_client_order_id r) status (Some (sr_order_number b))
          (Some (sr_filled_quantity b)) (sr_average_fill_price b) None now
          (if status \<in> {FILLED, CANCELLED, REJECTED} then Some now else None))
      (\<lambda>updated d. let n1 = (if updated then n\<lparr>rn_updated := Suc (rn_updated n)\<rparr> else n) in
         (case materialize_local_fills r clk d of
            (Inl e, d') \<Rightarrow> (Inr (add_reason (''materialize_failed:'' @ bo_client_order_id r @ '':'' @ exc_name e) n1), d')
          | (Inr k, d') \<Rightarrow> (Inr (n1\<lparr>rn_materialized := rn_materialized n1 + k\<rparr>), d'))))"

definition order_id_of :: "broker_order \<Rightarrow> string" where
  "order_id_of r = (case bo_broker_order_id r of None \<Rightarrow> [] | Some i \<Rightarrow> i)"

definition reconcile_known :: "datetime \<Rightarrow> datetime \<Rightarrow> status_record list \<Rightarrow> broker_order \<Rightarrow> recon \<Rightarrow> recon dbop" where
  "reconcile_known now clk bs r n =
     (let c = bo_client_order_id r; i = order_id_of r
      in if i = [] then op_ret (add_reason (''local_order_unconfirmed:'' @ c) n)
         else case by_broker_id bs i of
           None \<Rightarrow> op_ret (add_reason (''broker_order_missing:'' @ c @ '':'' @ i) n)
         | Some b \<Rightarrow> let m = n\<lparr>rn_matched := i # rn_matched n\<rparr> in
             if \<not> same_order r b then op_ret (add_reason (''order_identity_mismatch:'' @ c @ '':'' @ i) m)
             else if sr_filled_quantity b < bo_filled_qty r then op_ret (add_reason (''fill_regression:'' @ c) m)
             else if sr_ordered_quantity b \<noteq> 0 \<and> sr_ordered_quantity b \<noteq> bo_requested_qty r
             then op_ret (add_reason (''order_quantity_mismatch:'' @ c) m)
             else op_bind (adopt_fill now clk r b m) (\<lambda>(m', adopted).
               if adopted then adopt_status now clk r b m' else op_ret m'))"

definition reconcile_local :: "datetime \<Rightarrow> datetime \<Rightarrow> status_record list \<Rightarrow> broker_order \<Rightarrow> recon \<Rightarrow> recon dbop" where
  "reconcile_local now clk bs r n = reconcile_known now clk bs r
     (if bo_status r = UNKNOWN then add_reason (''local_unknown:'' @ bo_client_order_id r) n else n)"

fun reconcile_rows :: "datetime \<Rightarrow> datetime \<Rightarrow> status_record list \<Rightarrow> broker_order list \<Rightarrow> recon \<Rightarrow> recon dbop" where
  "reconcile_rows now clk bs [] n = op_ret n"
| "reconcile_rows now clk bs (r # rs) n = op_bind (reconcile_local now clk bs r n) (reconcile_rows now clk bs rs)"

definition still_open :: "status_record \<Rightarrow> bool" where
  "still_open b = (0 < sr_remaining_quantity b \<or> sr_status b \<in> {KS_UNFILLED, KS_PARTIALLY_FILLED})"

definition broker_only :: "status_record list \<Rightarrow> recon \<Rightarrow> recon" where
  "broker_only bs n = n\<lparr>rn_reasons := rn_reasons n @ map (\<lambda>b. ''broker_only_open_order:'' @ sr_order_number b)
     (filter (\<lambda>b. sr_order_number b \<notin> set (rn_matched n) \<and> still_open b) bs)\<rparr>"

text \<open>\<open>\{position.symbol: int(position.qty) for ..\}\<close> and \<open>get(symbol, 0)\<close>\<close>

definition quantity_in :: "(string \<times> int) list \<Rightarrow> string \<Rightarrow> int" where
  "quantity_in m s = (case map_of m s of None \<Rightarrow> 0 | Some q \<Rightarrow> q)"

definition broker_position_quantities :: "account_snapshot \<Rightarrow> (string \<times> int) list" where
  "broker_position_quantities a = rev (map (\<lambda>p. (kp_symbol p, kp_qty p)) (an_positions a))"

definition position_mismatches :: "account_snapshot \<Rightarrow> db \<Rightarrow> string list" where
  "position_mismatches a d = (let l = local_position_quantities d; b = broker_position_quantities a in
     map (\<lambda>s. ''position_mismatch:'' @ s @ '':local='' @ show_int (quantity_in l s) @ '':broker='' @ show_int (quantity_in b s))
       (filter (\<lambda>s. quantity_in l s \<noteq> quantity_in b s) (sort (remdups (map fst l @ map fst b)))))"

definition compare_positions :: "datetime \<Rightarrow> account_snapshot result \<Rightarrow> recon \<Rightarrow> reconciliation_report dbop" where
  "compare_positions now account n d = (case account of
      Inl e \<Rightarrow> finish now (add_reason (''account_snapshot_unavailable:'' @ exception_code e) n) d
    | Inr a \<Rightarrow> finish now (n\<lparr>rn_reasons := rn_reasons n @ position_mismatches a d\<rparr>) d)"

text \<open>A value or error handed in by the caller, or else a call of the client.\<close>

definition supplied :: "'a option \<Rightarrow> exc option \<Rightarrow> ('w \<Rightarrow> 'a result \<times> 'w) \<Rightarrow> 'w \<Rightarrow> 'a result \<times> 'w" where
  "supplied value error call w = (case error of Some e \<Rightarrow> (Inl e, w)
     | None \<Rightarrow> (case value of Some x \<Rightarrow> (Inr x, w) | None \<Rightarrow> call w))"

definition reconcile_broker_state ::
  "('w \<Rightarrow> status_record list result \<times> 'w) \<Rightarrow> ('w \<Rightarrow> account_snapshot result \<times> 'w) \<Rightarrow> datetime \<Rightarrow> datetime \<Rightarrow>
   status_record list option \<Rightarrow> exc option \<Rightarrow> account_snapshot option \<Rightarrow> exc option \<Rightarrow>
   db \<times> 'w \<Rightarrow> reconciliation_report result \<times> db \<times> 'w" where
  "reconcile_broker_state today_orders snapshot now clk given_orders broker_orders_error account account_error s =
     (case s of (d, w) \<Rightarrow> (case supplied given_orders broker_orders_error today_orders w of
        (Inl e, w1) \<Rightarrow> (case finish now (add_reason (''order_status_unavailable:'' @ exception_code e) start_recon) d of
            (r, d') \<Rightarrow> (r, d', w1))
      | (Inr bs, w1) \<Rightarrow> (case reconcile_rows now clk bs (local_rows d) start_recon d of
            (Inl e, d1) \<Rightarrow> (Inl e, d1, w1)
          | (Inr n, d1) \<Rightarrow> (case supplied account account_error snapshot w1 of
                (a, w2) \<Rightarrow> (case compare_positions now a (broker_only bs n) d1 of (r, d2) \<Rightarrow> (r, d2, w2))))))"

definition reconcile :: "('w \<Rightarrow> status_record list result \<times> 'w) \<Rightarrow> ('w \<Rightarrow> account_snapshot result \<times> 'w) \<Rightarrow> datetime \<Rightarrow> datetime \<Rightarrow>
  db \<times> 'w \<Rightarrow> reconciliation_report result \<times> db \<times> 'w" where
  "reconcile today_orders snapshot now clk = reconcile_broker_state today_orders snapshot now clk None None None None"

section \<open>What every client of the ledger keeps\<close>

text \<open>
  An invariant that the ledger operations and writes of certain metadata keys keep is kept by every program that changes the database through
  them only, whatever the broker answers and wherever it raises.
\<close>

locale ledger_client =
  fixes I :: "db \<Rightarrow> bool"
    and key_ok :: "string \<Rightarrow> bool"
  assumes keeps_fill: "preserves I (apply_broker_fill fid c q pr fat ob sy sd clk)"
    and keeps_status: "preserves I (update_broker_order_status c st ob oq av e clk cm)"
    and keeps_unknown: "preserves I (mark_order_unknown c e clk)"
    and keeps_materialize: "preserves I (materialize_order_fills c mt clk)"
    and keeps_metadata: "key_ok k \<Longrightarrow> preserves I (set_runtime_metadata k v clk)"
    and review_keys: "key_ok ''operator_review''" "key_ok ''block_new_entries''"
begin

lemma keeps_finish: "preserves I (finish now n)"
  unfolding finish_def Let_def by (intro preserves_bind keeps_metadata review_keys preserves_ret)

lemma keeps_materialize_local: "preserves I (materialize_local_fills r clk)"
  by (rule preservesI) (auto simp: materialize_local_fills_def op_fail_def split: option.split
      intro: preservesD [OF keeps_materialize])

lemma keeps_adopt_fill: "preserves I (adopt_fill now clk r b n)"
  by (rule preservesI) (auto simp: adopt_fill_def Let_def split: sum.split prod.split
      intro: preserves_run [OF keeps_fill])

lemma keeps_adopt_status: "preserves I (adopt_status now clk r b n)"
proof -
  have "preserves I (\<lambda>d. let n1 = m in (case materialize_local_fills r clk d of
       (Inl e, d') \<Rightarrow> (Inr (f e n1), d') | (Inr k, d') \<Rightarrow> (Inr (g k n1), d')))" for m f and g :: "nat \<Rightarrow> recon \<Rightarrow> recon"
    by (rule preservesI) (auto simp: Let_def split: prod.split sum.split intro: preserves_run [OF keeps_materialize_local])
  then show ?thesis unfolding adopt_status_def Let_def
    by (intro preserves_option preserves_ret preserves_bind keeps_status)
qed

lemma keeps_local: "preserves I (reconcile_local now clk bs r n)"
  unfolding reconcile_local_def reconcile_known_def Let_def
  by (intro preserves_if preserves_option preserves_ret preserves_bind keeps_adopt_fill)
    (auto intro: preserves_if keeps_adopt_status preserves_ret split: prod.split)

lemma keeps_rows: "preserves I (reconcile_rows now clk bs rs n)"
  by (induction rs arbitrary: n) (auto intro: preserves_ret preserves_bind keeps_local)

lemma keeps_compare: "preserves I (compare_positions now a n)"
  by (rule preservesI) (auto simp: compare_positions_def split: sum.split intro: preservesD [OF keeps_finish])

lemma keeps_reconcile:
  assumes "I d"
  shows "I (fst (snd (reconcile_broker_state orders snapshot now clk bo be ac ae (d, w))))"
  using assms
  by (auto simp: reconcile_broker_state_def split: prod.split sum.split
      intro: preserves_run [OF keeps_finish] preserves_run [OF keeps_rows]
        preserves_run [OF keeps_compare preserves_run [OF keeps_rows]])

end

text \<open>The books: the ledger invariant and positions that equal the applied fills.\<close>

definition books_ok :: "db \<Rightarrow> bool" where
  "books_ok d = (ledger_ok d \<and> balanced d)"

lemma books_step: "(\<And>d. ledger_step d (snd (m d))) \<Longrightarrow> preserves books_ok m"
  by (rule preservesI) (auto simp: books_ok_def intro: ledger_step_ok ledger_step_balanced)

lemma ledger_ok_metadata [simp]: "ledger_ok (d\<lparr>runtime_metadata := t\<rparr>) = ledger_ok d"
  by (simp add: ledger_ok_def)

lemma balanced_metadata [simp]: "balanced (d\<lparr>runtime_metadata := t\<rparr>) = balanced d"
  by (simp add: balanced_def applied_qty_def is_applied_def [abs_def])

lemma books_metadata: "preserves books_ok (set_runtime_metadata k v clk)"
  unfolding set_runtime_metadata_def by (intro preserves_rules preservesI) (simp add: books_ok_def)

interpretation books: ledger_client books_ok "\<lambda>_. True"
  by unfold_locales (auto intro!: books_step books_metadata ledger_step.intros)

text \<open>Leases, the pause switch, approvals, audits and the watch list are nobody's business here.\<close>

definition controls_of :: "db \<Rightarrow> service_lease table \<times> runtime_control option \<times> order_audit table \<times> ai_decision table \<times> approval_request table \<times> watch_row table" where
  "controls_of d = (service_leases d, control_row d, broker_order_audits d, ai_decision_audits d, approval_requests d, watchlist d)"

definition same_controls :: "db \<Rightarrow> db \<Rightarrow> bool" where
  "same_controls d0 d = (controls_of d = controls_of d0)"

lemma preserves_same_controls: "(\<And>d. controls_of (snd (m d)) = controls_of d) \<Longrightarrow> preserves (same_controls d0) m"
  by (rule preservesI) (simp add: same_controls_def)

lemma controls_update_orders: "preserves (same_controls d0) (update_orders p f)"
  by (rule preserves_same_controls) (simp add: update_orders_def controls_of_def)

lemma frame_fill:
  assumes "\<And>row d. view (snd (store_fill row d)) = view d"
  shows "view (snd (apply_broker_fill fid c q pr fat ob sy sd clk d)) = view d"
proof -
  obtain r d' where run: "apply_broker_fill fid c q pr fat ob sy sd clk d = (r, d')" by fastforce
  show ?thesis
  proof (cases r)
    case (Inl e)
    with run show ?thesis by (auto dest: apply_broker_fill_raises)
  next
    case (Inr x)
    from run [unfolded Inr] show ?thesis
      by (rule apply_broker_fill_run) (use run assms in \<open>metis snd_conv\<close>)
  qed
qed

lemma controls_store_fill: "controls_of (snd (store_fill row d)) = controls_of d"
  by (auto simp: store_fill_def Let_def controls_of_def split: prod.split)

interpretation controls: ledger_client "same_controls d0" "\<lambda>_. True" for d0
proof unfold_locales
  show "preserves (same_controls d0) (apply_broker_fill fid c q pr fat ob sy sd clk)" for fid c q pr fat ob sy sd clk
    by (rule preserves_same_controls, rule frame_fill, rule controls_store_fill)
  show "preserves (same_controls d0) (update_broker_order_status c st ob oq av e clk cm)" for c st ob oq av e clk cm
    unfolding update_broker_order_status_def Let_def by (intro preserves_rules controls_update_orders)
  show "preserves (same_controls d0) (mark_order_unknown c e clk)" for c e clk
    unfolding mark_order_unknown_def by (intro preserves_rules controls_update_orders)
  show "preserves (same_controls d0) (materialize_order_fills c mt clk)" for c mt clk
    unfolding materialize_order_fills_def
    by (intro preserves_rules preserves_same_controls)
      (auto simp: controls_of_def split: option.split sum.split)
  show "preserves (same_controls d0) (set_runtime_metadata k v clk)" for k v clk
    unfolding set_runtime_metadata_def
    by (intro preserves_rules preserves_same_controls) (simp add: controls_of_def)
qed simp_all

section \<open>The flags\<close>

lemma finish_run:
  assumes "finish now n d = (r, d')"
  defines "review \<equiv> rn_reasons n \<noteq> []"
  shows "\<exists>rep. r = Inr rep \<and> rr_reasons rep = unique (rn_reasons n) \<and> rr_operator_review rep = review
      \<and> rr_block_new_entries rep = review"
    and "flag ''operator_review'' d' = review" "flag ''block_new_entries'' d' = review"
    and "live_positions d' = live_positions d"
proof -
  have ne: "unique xs \<noteq> [] \<longleftrightarrow> xs \<noteq> []" for xs :: "string list" by (simp add: unique_def)
  have keys: "strip ''operator_review'' \<noteq> []" "strip ''block_new_entries'' \<noteq> []" by (simp_all add: string_eval)
  obtain x1 d1 where s1: "set_runtime_metadata ''operator_review'' (flag_text review) now d = (Inr x1, d1)"
    using keys(1) by (simp add: set_runtime_metadata_def require_nonempty_def)
  obtain x2 d2 where s2: "set_runtime_metadata ''block_new_entries'' (flag_text review) now d1 = (Inr x2, d2)"
    using keys(2) by (simp add: set_runtime_metadata_def require_nonempty_def)
  have d': "d' = d2" and r: "\<exists>rep. r = Inr rep \<and> rr_reasons rep = unique (rn_reasons n) \<and> rr_operator_review rep = review
      \<and> rr_block_new_entries rep = review"
    using assms(1) s1 s2 ne by (auto simp: finish_def Let_def op_bind_def op_ret_def review_def)
  have v1: "metadata_value d1 k = (if k = ''operator_review'' then Some (flag_text review) else metadata_value d k)" for k
    using metadata_value_set [OF keys(1), of "flag_text review" now d k] s1 by simp
  have v2: "metadata_value d2 k = (if k = ''block_new_entries'' then Some (flag_text review) else metadata_value d1 k)" for k
    using metadata_value_set [OF keys(2), of "flag_text review" now d1 k] s2 by simp
  have t: "is_true (Some (flag_text b)) = b" for b
    by (cases b) (simp_all add: flag_text_def is_true_def, code_simp+)
  show "\<exists>rep. r = Inr rep \<and> rr_reasons rep = unique (rn_reasons n) \<and> rr_operator_review rep = review
      \<and> rr_block_new_entries rep = review" by (rule r)
  show "flag ''operator_review'' d' = review" "flag ''block_new_entries'' d' = review"
    by (simp_all add: d' flag_def v1 v2 t)
  show "live_positions d' = live_positions d"
    using s1 s2 keys d' by (auto simp: set_runtime_metadata_def require_nonempty_def)
qed

lemma flag_init_schema: "flag k (snd (init_schema d)) = flag k d"
  by (auto simp: flag_def metadata_value_def init_schema_def init_control_def split: sum.split option.split)

lemma blocked_buy:
  assumes "flag ''block_new_entries'' d" "kr_side req = BUY"
  shows "\<exists>m d'. guarded_submit g cal now others submit req (d, w) = (Inl (OrderSafetyGateError m), d', w)"
  by (rule guarded_submit_blocked)
    (simp add: may_submit_def side_clear_def assms flag_init_schema Let_def)

section \<open>Agreement\<close>

definition agrees :: "status_record list \<Rightarrow> broker_order \<Rightarrow> bool" where
  "agrees bs r = (bo_status r \<noteq> UNKNOWN \<and> (\<exists>i b. bo_broker_order_id r = Some i \<and> by_broker_id bs i = Some b
     \<and> same_order r b \<and> bo_filled_qty r \<le> sr_filled_quantity b
     \<and> (sr_ordered_quantity b = 0 \<or> sr_ordered_quantity b = bo_requested_qty r) \<and> sr_status b \<noteq> KS_UNKNOWN))"

text \<open>How the locals grow over a step: reasons are only added, and adding none means a condition holds.\<close>

definition grows :: "bool \<Rightarrow> string set \<Rightarrow> recon \<Rightarrow> recon \<Rightarrow> bool" where
  "grows ok ids n n' = ((\<exists>xs. rn_reasons n' = rn_reasons n @ xs \<and> (xs = [] \<longrightarrow> ok))
     \<and> set (rn_matched n') \<subseteq> set (rn_matched n) \<union> ids)"

lemma grows_reason: "grows ok ids n (add_reason m n)"
  by (simp add: grows_def add_reason_def)

lemma grows_trans: "grows ok ids n n' \<Longrightarrow> grows ok' ids' n' n'' \<Longrightarrow> grows (ok \<and> ok') (ids \<union> ids') n n''"
  by (fastforce simp: grows_def)

lemma grows_mono: "grows ok ids n n' \<Longrightarrow> ok \<longrightarrow> ok' \<Longrightarrow> ids \<subseteq> ids' \<Longrightarrow> grows ok' ids' n n'"
  by (fastforce simp: grows_def)

lemma adopt_fill_grows: "adopt_fill now clk r b n d = (Inr (n', a), d') \<Longrightarrow> grows a {} n n'"
  by (auto simp: adopt_fill_def Let_def grows_def add_reason_def split: if_splits sum.splits prod.splits)

lemma adopt_status_grows: "adopt_status now clk r b n d = (Inr n', d') \<Longrightarrow> grows (sr_status b \<noteq> KS_UNKNOWN) {} n n'"
  by (cases "sr_status b")
    (auto simp: adopt_status_def Let_def grows_def add_reason_def op_ret_def op_bind_def
      split: if_splits sum.splits prod.splits)

lemma known_grows:
  assumes run: "reconcile_known now clk bs r n d = (Inr n', d')"
  shows "grows (bo_status r \<noteq> UNKNOWN \<longrightarrow> agrees bs r) {order_id_of r} n n'"
proof (cases "order_id_of r = [] \<or> by_broker_id bs (order_id_of r) = None")
  case True
  with run have "\<exists>t. n' = add_reason t n" by (auto simp: reconcile_known_def op_ret_def Let_def split: if_splits)
  then show ?thesis by (auto intro: grows_reason)
next
  case False
  then obtain b where b: "order_id_of r \<noteq> []" "by_broker_id bs (order_id_of r) = Some b" by auto
  define m where "m = n\<lparr>rn_matched := order_id_of r # rn_matched n\<rparr>"
  have m: "grows True {order_id_of r} n m" by (simp add: m_def grows_def)
  show ?thesis
  proof (cases "same_order r b \<and> bo_filled_qty r \<le> sr_filled_quantity b
      \<and> (sr_ordered_quantity b = 0 \<or> sr_ordered_quantity b = bo_requested_qty r)")
    case False
    with run b have "\<exists>t. n' = add_reason t m"
      by (auto simp: reconcile_known_def op_ret_def m_def Let_def split: if_splits)
    then obtain t where "n' = add_reason t m" by blast
    with grows_mono [OF grows_trans [OF m grows_reason [of False "{}" m t]]] show ?thesis by simp
  next
    case same: True
    with run b obtain m' a d1 where f: "adopt_fill now clk r b m d = (Inr (m', a), d1)"
      and rest: "(if a then adopt_status now clk r b m' else op_ret m') d1 = (Inr n', d')"
      by (auto simp: reconcile_known_def m_def Let_def op_bind_Inr)
    have "grows (a \<and> sr_status b \<noteq> KS_UNKNOWN) {} m n'"
    proof (cases a)
      case True
      with grows_trans [OF adopt_fill_grows [OF f] adopt_status_grows] rest show ?thesis by simp
    next
      case False
      with adopt_fill_grows [OF f] rest show ?thesis by (simp add: op_ret_def)
    qed
    from grows_trans [OF m this] show ?thesis using same b
      by (elim grows_mono) (auto simp: agrees_def order_id_of_def split: option.splits)
  qed
qed

lemma local_grows:
  assumes "reconcile_local now clk bs r n d = (Inr n', d')"
  shows "grows (agrees bs r) {order_id_of r} n n'"
proof -
  define n1 where "n1 = (if bo_status r = UNKNOWN then add_reason (''local_unknown:'' @ bo_client_order_id r) n else n)"
  have "grows (bo_status r \<noteq> UNKNOWN) {} n n1" by (simp add: n1_def grows_def add_reason_def)
  moreover have "grows (bo_status r \<noteq> UNKNOWN \<longrightarrow> agrees bs r) {order_id_of r} n1 n'"
    using assms by (intro known_grows) (simp add: reconcile_local_def n1_def)
  ultimately show ?thesis using grows_trans by (fastforce elim: grows_mono)
qed

lemma rows_grow:
  "reconcile_rows now clk bs rs n d = (Inr n', d') \<Longrightarrow> grows (list_all (agrees bs) rs) (order_id_of ` set rs) n n'"
proof (induction rs arbitrary: n d)
  case Nil
  then show ?case by (simp add: op_ret_def grows_def)
next
  case (Cons r rs)
  then obtain n1 d1 where "reconcile_local now clk bs r n d = (Inr n1, d1)" "reconcile_rows now clk bs rs n1 d1 = (Inr n', d')"
    by (auto simp: op_bind_Inr)
  from grows_trans [OF local_grows [OF this(1)] Cons.IH [OF this(2)]] show ?case by simp
qed

lemma local_quantity: "quantity_in (local_position_quantities d) s = open_qty s (live_positions d)"
proof (cases "s \<in> set (map lp_symbol (select_where (\<lambda>p. lp_status p = POS_OPEN) (live_positions d)))")
  case True
  then show ?thesis
    by (auto simp: quantity_in_def local_position_quantities_def image_image sum_open_quantity
        map_of_eq_None_iff split: option.split dest!: map_of_SomeD)
next
  case False
  then have "select_where (\<lambda>p. lp_symbol p = s \<and> lp_status p = POS_OPEN) (live_positions d) = []"
    by (auto simp: select_where_def filter_empty_conv)
  then have "open_qty s (live_positions d) = 0" by (simp add: sum_open_quantity [symmetric] sum_open_quantity_def)
  moreover have "map_of (local_position_quantities d) s = None"
    using False by (auto simp: local_position_quantities_def map_of_eq_None_iff)
  ultimately show ?thesis by (simp add: quantity_in_def)
qed

lemma no_mismatch:
  assumes "position_mismatches a d = []"
  shows "open_qty s (live_positions d) = quantity_in (broker_position_quantities a) s"
proof (cases "s \<in> set (map fst (local_position_quantities d) @ map fst (broker_position_quantities a))")
  case True
  with assms show ?thesis
    by (auto simp: position_mismatches_def Let_def filter_empty_conv local_quantity [symmetric])
next
  case False
  then have "map_of (local_position_quantities d) s = None" "map_of (broker_position_quantities a) s = None"
    by (auto simp: map_of_eq_None_iff)
  then show ?thesis by (simp add: local_quantity [symmetric] quantity_in_def)
qed

lemma no_broker_only:
  assumes "rn_reasons (broker_only bs n) = []" "b \<in> set bs" "still_open b"
  shows "sr_order_number b \<in> set (rn_matched n)"
  using assms by (auto simp: broker_only_def filter_empty_conv)

text \<open>Every pass that returns ends in \<open>finish\<close>; without a reason both sides agreed on the way there.\<close>

lemma reconcile_ends:
  assumes "reconcile_broker_state orders snapshot now clk bo be ac ae (d, w) = (Inr rep, d', w')"
  shows "\<exists>n e. finish now n e = (Inr rep, d')
    \<and> (rn_reasons n = [] \<longrightarrow> (\<exists>bs a w1. supplied bo be orders w = (Inr bs, w1)
         \<and> supplied ac ae snapshot w1 = (Inr a, w') \<and> list_all (agrees bs) (local_rows d)
         \<and> (\<forall>b\<in>set bs. still_open b \<longrightarrow> sr_order_number b \<in> order_id_of ` set (local_rows d))
         \<and> (\<forall>s. open_qty s (live_positions e) = quantity_in (broker_position_quantities a) s)))"
proof -
  obtain q w1 where q: "supplied bo be orders w = (q, w1)" by fastforce
  show ?thesis
  proof (cases q)
    case (Inl e)
    with assms q have "finish now (add_reason (''order_status_unavailable:'' @ exception_code e) start_recon) d = (Inr rep, d')"
      by (auto simp: reconcile_broker_state_def split: prod.splits)
    then show ?thesis by (intro exI conjI) (auto simp: add_reason_def)
  next
    case (Inr bs)
    obtain p w2 where p: "supplied ac ae snapshot w1 = (p, w2)" by fastforce
    from assms q Inr p obtain n d1 where rows: "reconcile_rows now clk bs (local_rows d) start_recon d = (Inr n, d1)"
      and cmp: "compare_positions now p (broker_only bs n) d1 = (Inr rep, d')" and w': "w' = w2"
      by (auto simp: reconcile_broker_state_def split: prod.splits sum.splits)
    show ?thesis
    proof (cases p)
      case (Inl e)
      with cmp have "finish now (add_reason (''account_snapshot_unavailable:'' @ exception_code e) (broker_only bs n)) d1 = (Inr rep, d')"
        by (simp add: compare_positions_def)
      then show ?thesis by (intro exI conjI) (auto simp: add_reason_def)
    next
      case a: (Inr a)
      let ?n = "(broker_only bs n)\<lparr>rn_reasons := rn_reasons (broker_only bs n) @ position_mismatches a d1\<rparr>"
      have "finish now ?n d1 = (Inr rep, d')" using cmp a by (simp add: compare_positions_def)
      moreover have "list_all (agrees bs) (local_rows d)
         \<and> (\<forall>b\<in>set bs. still_open b \<longrightarrow> sr_order_number b \<in> order_id_of ` set (local_rows d))
         \<and> (\<forall>s. open_qty s (live_positions d1) = quantity_in (broker_position_quantities a) s)" if none: "rn_reasons ?n = []"
      proof (intro conjI ballI impI allI)
        from none have bo: "rn_reasons (broker_only bs n) = []" and pm: "position_mismatches a d1 = []" by simp_all
        from bo have "rn_reasons n = []" by (simp add: broker_only_def)
        with rows_grow [OF rows] show "list_all (agrees bs) (local_rows d)" by (simp add: grows_def start_recon_def)
        show "open_qty s (live_positions d1) = quantity_in (broker_position_quantities a) s" for s
          by (rule no_mismatch [OF pm])
        show "sr_order_number b \<in> order_id_of ` set (local_rows d)" if "b \<in> set bs" "still_open b" for b
          using no_broker_only [OF bo that] rows_grow [OF rows] by (auto simp: grows_def start_recon_def)
      qed
      ultimately show ?thesis using q p Inr a w' by blast
    qed
  qed
qed

section \<open>Properties\<close>

text \<open>
  (C3) Reconciliation is fail-closed. When a pass returns, its review and block flags, in the report and in the database, are set exactly when it found a
  reason. While a reason stands, the safety gate refuses every BUY, whatever the guard, the time and the submitter, and the submitter is not
  called. A pass without a reason has seen both sides agree: the broker answered both queries, every
  active local order (or one with an unapplied fill) is known to the broker under its number with the same symbol, side and quantity
  and a known status, the broker has no open order of its own, and the local open quantity of every symbol is
  the broker's.
\<close>

theorem reconcile_fail_closed:
  assumes "reconcile_broker_state orders snapshot now clk bo be ac ae (d, w) = (Inr rep, d', w')"
  shows "rr_operator_review rep = (rr_reasons rep \<noteq> []) \<and> rr_block_new_entries rep = (rr_reasons rep \<noteq> [])
    \<and> flag ''operator_review'' d' = (rr_reasons rep \<noteq> []) \<and> flag ''block_new_entries'' d' = (rr_reasons rep \<noteq> [])
    \<and> (rr_reasons rep \<noteq> [] \<longrightarrow> (\<forall>g cal t others submit req v. kr_side req = BUY \<longrightarrow>
         (\<exists>m d''. guarded_submit g cal t others submit req (d', v) = (Inl (OrderSafetyGateError m), d'', v))))
    \<and> (rr_reasons rep = [] \<longrightarrow> (\<exists>bs a w1. supplied bo be orders w = (Inr bs, w1)
         \<and> supplied ac ae snapshot w1 = (Inr a, w') \<and> list_all (agrees bs) (local_rows d)
         \<and> (\<forall>b\<in>set bs. still_open b \<longrightarrow> sr_order_number b \<in> order_id_of ` set (local_rows d))
         \<and> (\<forall>s. open_qty s (live_positions d') = quantity_in (broker_position_quantities a) s)))"
proof -
  have ne: "unique xs = [] \<longleftrightarrow> xs = []" for xs :: "string list" by (simp add: unique_def)
  have flags: "rr_operator_review rep = (rr_reasons rep \<noteq> []) \<and> rr_block_new_entries rep = (rr_reasons rep \<noteq> [])
    \<and> flag ''operator_review'' d' = (rr_reasons rep \<noteq> []) \<and> flag ''block_new_entries'' d' = (rr_reasons rep \<noteq> [])"
    if "finish now n e = (Inr rep, d')" for n e
    using finish_run [OF that] by (auto simp: ne)
  obtain n e where fin: "finish now n e = (Inr rep, d')"
    and agree: "rn_reasons n = [] \<longrightarrow> (\<exists>bs a w1. supplied bo be orders w = (Inr bs, w1)
         \<and> supplied ac ae snapshot w1 = (Inr a, w') \<and> list_all (agrees bs) (local_rows d)
         \<and> (\<forall>b\<in>set bs. still_open b \<longrightarrow> sr_order_number b \<in> order_id_of ` set (local_rows d))
         \<and> (\<forall>s. open_qty s (live_positions e) = quantity_in (broker_position_quantities a) s))"
    using reconcile_ends [OF assms] by blast
  have "live_positions d' = live_positions e" "rr_reasons rep = [] \<longleftrightarrow> rn_reasons n = []"
    using finish_run [OF fin] by (auto simp: ne)
  with agree flags [OF fin] blocked_buy show ?thesis by auto
qed

definition no_account :: account_snapshot where
  "no_account = \<lparr>an_positions = [], an_summary = parse_account_summary []\<rparr>"

lemma sample_local_rows: "local_rows sample_ledger = [sample_order]"
  by (simp add: local_rows_def sample_ledger_simps select_where_def ACTIVE_LOCAL_STATUSES_def sample_order_def)

lemma sample_unmatched: "reconcile_rows now clk [] [sample_order] start_recon d
    = (Inr (add_reason ''broker_order_missing:c1:b1'' start_recon), d)"
  by (simp add: reconcile_local_def reconcile_known_def Let_def op_bind_def op_ret_def by_broker_id_def order_id_of_def sample_order_def)

theorem reconcile_fail_closed_witness:
  "\<exists>rep d'. reconcile_broker_state (\<lambda>w. (Inr [], w)) (\<lambda>w. (Inr no_account, w)) sample_time sample_time None None None None
       (sample_ledger, ()) = (Inr rep, d', ()) \<and> rr_reasons rep = [''broker_order_missing:c1:b1''] \<and> flag ''block_new_entries'' d'"
proof -
  let ?run = "reconcile_broker_state (\<lambda>w. (Inr [], w)) (\<lambda>w. (Inr no_account, w)) sample_time sample_time None None None None
       (sample_ledger, ())"
  let ?n = "add_reason ''broker_order_missing:c1:b1'' start_recon"
  obtain r d' where fin: "finish sample_time ?n sample_ledger = (r, d')" by fastforce
  from finish_run(1) [OF this] obtain rep where rep: "r = Inr rep" "rr_reasons rep = [''broker_order_missing:c1:b1'']"
    by (auto simp: add_reason_def start_recon_def unique_def)
  have "broker_only [] ?n = ?n" "position_mismatches no_account sample_ledger = []"
    by (simp_all add: broker_only_def add_reason_def start_recon_def position_mismatches_def Let_def
        local_position_quantities_def broker_position_quantities_def no_account_def sample_ledger_simps select_where_def)
  with fin rep have run: "?run = (Inr rep, d', ())"
    by (simp add: reconcile_broker_state_def supplied_def sample_local_rows sample_unmatched compare_positions_def
        del: reconcile_rows.simps)
  from reconcile_fail_closed [OF run] have "flag ''block_new_entries'' d' = (rr_reasons rep \<noteq> [])"
    by (elim conjE)
  then have "flag ''block_new_entries'' d'" using rep(2) by simp
  with run rep(2) show ?thesis by blast
qed

text \<open>
  (C14) Reconciliation never damages the books. For every answer of the broker, on every branch and also when the pass raises half way, the ledger
  invariant and the balance of positions and applied fills survive, and leases, the pause switch, approvals, audits and the watch
  list are as before.
\<close>

theorem reconcile_keeps_books:
  assumes "ledger_ok d" "balanced d" "reconcile_broker_state orders snapshot now clk bo be ac ae (d, w) = (r, d', w')"
  shows "ledger_ok d' \<and> balanced d' \<and> controls_of d' = controls_of d"
  using books.keeps_reconcile [of d orders snapshot now clk bo be ac ae w]
    controls.keeps_reconcile [of d d orders snapshot now clk bo be ac ae w] assms
  by (simp add: books_ok_def same_controls_def)

theorem reconcile_keeps_books_witness:
  "ledger_ok (fst (snd (reconcile_broker_state (\<lambda>w. (Inr [], w)) (\<lambda>w. (Inr no_account, w)) sample_time sample_time None None None None
     (sample_ledger, ()))))"
proof -
  have "balanced sample_ledger"
    by (simp add: balanced_def applied_qty_def is_applied_def [abs_def] open_qty_def sample_ledger_simps exists_where_def)
  from reconcile_keeps_books [OF sample_ledger_ok this, of "\<lambda>w. (Inr [], w)" "\<lambda>w. (Inr no_account, w)" sample_time
      sample_time None None None None "()"] show ?thesis by (metis prod.collapse)
qed

text \<open>
  An unfilled order with a reported average price of zero stops reconciliation. When the first local row matches a broker row with nothing
  new filled whose average price is not positive, as a row with \<open>avg_prvs\<close> 0 parses to, the status update refuses the price and the
  exception leaves the pass: no later order is looked at, positions are not compared, and the database stays as it was.
\<close>

theorem zero_average_price_aborts:
  assumes "local_rows d = r # rs" "order_id_of r \<noteq> []" "by_broker_id bs (order_id_of r) = Some b" "same_order r b"
    and "sr_filled_quantity b = bo_filled_qty r" "sr_ordered_quantity b \<in> {0, bo_requested_qty r}"
    and "sr_status b \<noteq> KS_UNKNOWN" "sr_average_fill_price b = Some x" "\<not> positive_number x"
  shows "\<exists>m. reconcile_broker_state orders snapshot now clk (Some bs) None ac ae (d, w) = (Inl (ValueError m), d, w)"
proof -
  obtain st where st: "local_status_for_broker (sr_status b) = Some st" using assms(7) by (cases "sr_status b") auto
  have up: "\<exists>m. update_broker_order_status c status i q (Some x) None now cm d = (Inl (ValueError m), d)" for c status i q cm
    using assms(9) by (auto simp: update_broker_order_status_def validation_defs op_guard_def positive_number_def split: option.splits)
  obtain m where "adopt_status now clk r b n d = (Inl (ValueError m), d)" for n
    using up [of "bo_client_order_id r" "pass_status (bo_status r) st" "Some (sr_order_number b)" "Some (sr_filled_quantity b)"
        "if pass_status (bo_status r) st \<in> {FILLED, CANCELLED, REJECTED} then Some now else None"] st assms(8)
    by (auto simp: adopt_status_def op_bind_def Let_def)
  then have "reconcile_local now clk bs r n d = (Inl (ValueError m), d)" for n
    using assms by (auto simp: reconcile_local_def reconcile_known_def Let_def op_bind_def adopt_fill_def)
  then show ?thesis using assms(1) by (simp add: reconcile_broker_state_def supplied_def op_bind_def)
qed

theorem zero_average_price_aborts_witness:
  "\<exists>b m. parse_order_status (Some unfilled_row) = Inr (Some b)
     \<and> reconcile_broker_state (\<lambda>w. (Inr [], w)) (\<lambda>w. (Inr no_account, w)) sample_time sample_time (Some [b]) None None None
         (sample_ledger, ()) = (Inl (ValueError m), sample_ledger, ())"
proof -
  let ?b = "order_record unfilled_row ''b1'' ''005930'' 10 4 6 KS_PARTIALLY_FILLED"
  have f: "sr_order_number ?b = ''b1''" "sr_symbol ?b = ''005930''" "sr_side ?b = Some BUY" "sr_filled_quantity ?b = 4"
    "sr_ordered_quantity ?b = 10" "sr_status ?b = KS_PARTIALLY_FILLED" "sr_average_fill_price ?b = Some (Fin 0)"
    by (simp_all add: order_record_def parse_unfilled_row)
  have "\<exists>m. reconcile_broker_state (\<lambda>w. (Inr [], w)) (\<lambda>w. (Inr no_account, w)) sample_time sample_time (Some [?b]) None None None
         (sample_ledger, ()) = (Inl (ValueError m), sample_ledger, ())"
    by (rule zero_average_price_aborts [where r = sample_order and b = ?b and x = "Fin 0"])
      (simp_all add: sample_local_rows order_id_of_def by_broker_id_def same_order_def broker_side_def f, simp_all add: sample_order_def positive_number_def)
  with parse_unfilled_row(1) show ?thesis by blast
qed

end
