(* ===== verification/Json.thy ===== *)
theory Json
  imports OrderStatus
begin

text \<open>
  Python's \<open>json.loads\<close> and \<open>json.dumps\<close> as the storage markers use them. Text is UTF-8; a number keeps its lexeme, and an object keeps
  its members in order, a later one of two equal keys winning on lookup. Nesting is not bounded here, where CPython raises
  \<open>RecursionError\<close> about a thousand levels deep. Shown: what \<open>dumps\<close> prints of strings and null, in objects and arrays of any depth, \<open>loads\<close> reads back.
\<close>

datatype json = J_null | J_bool bool | J_num string | J_str string | J_arr "json list" | J_obj "(string \<times> json) list"

section \<open>Strings\<close>

text \<open>The UTF-8 bytes of a code point; \<open>loads\<close> also lets lone surrogates pass.\<close>

definition utf8_of :: "nat \<Rightarrow> string" where
  "utf8_of n = map char_of
     (if n < 128 then [n]
      else if n < 2048 then [192 + n div 64, 128 + n mod 64]
      else if n < 65536 then [224 + n div 4096, 128 + n div 64 mod 64, 128 + n mod 64]
      else [240 + n div 262144, 128 + n div 4096 mod 64, 128 + n div 64 mod 64, 128 + n mod 64])"

definition hex_val :: "char \<Rightarrow> nat option" where
  "hex_val c = (let n = ch_code c in
     if 48 \<le> n \<and> n \<le> 57 then Some (n - 48) else if 97 \<le> n \<and> n \<le> 102 then Some (n - 87)
     else if 65 \<le> n \<and> n \<le> 70 then Some (n - 55) else None)"

fun read_hex4 :: "string \<Rightarrow> (nat \<times> string) option" where
  "read_hex4 (a # b # c # d # r) = (case (hex_val a, hex_val b, hex_val c, hex_val d) of
     (Some w, Some x, Some y, Some z) \<Rightarrow> Some (((w * 16 + x) * 16 + y) * 16 + z, r) | _ \<Rightarrow> None)"
| "read_hex4 _ = None"

definition simple_escape :: "char \<Rightarrow> char option" where
  "simple_escape c = map_of [(CHR 0x22, CHR 0x22), (CHR 0x5C, CHR 0x5C), (CHR ''/'', CHR ''/''), (CHR ''b'', CHR 0x08),
     (CHR ''f'', CHR 0x0C), (CHR ''n'', CHR 0x0A), (CHR ''r'', CHR 0x0D), (CHR ''t'', CHR 0x09)] c"

text \<open>One \<open>\u\<close> escape after its letter, joined with a following low surrogate.\<close>

definition read_unicode :: "string \<Rightarrow> (string \<times> string) option" where
  "read_unicode s = (case read_hex4 s of None \<Rightarrow> None
     | Some (n, r) \<Rightarrow>
       (if 55296 \<le> n \<and> n \<le> 56319
        then (case r of b # u # r1 \<Rightarrow>
               (if b = CHR 0x5C \<and> u = CHR ''u''
                then (case read_hex4 r1 of None \<Rightarrow> None
                      | Some (m, r2) \<Rightarrow> if 56320 \<le> m \<and> m \<le> 57343
                          then Some (utf8_of (65536 + (n - 55296) * 1024 + (m - 56320)), r2) else Some (utf8_of n, r))
                else Some (utf8_of n, r))
             | _ \<Rightarrow> Some (utf8_of n, r))
        else Some (utf8_of n, r)))"

text \<open>The rest of a string after its opening quote, with enough fuel for its length.\<close>

fun scan_string :: "nat \<Rightarrow> string \<Rightarrow> (string \<times> string) option" where
  "scan_string 0 s = None"
| "scan_string (Suc n) s = (case s of [] \<Rightarrow> None
     | c # r \<Rightarrow>
       if c = CHR 0x22 then Some ([], r)
       else if c = CHR 0x5C then (case r of [] \<Rightarrow> None
         | e # r1 \<Rightarrow>
           (case (if e = CHR ''u'' then read_unicode r1 else map_option (\<lambda>x. ([x], r1)) (simple_escape e)) of None \<Rightarrow> None
            | Some (x, r2) \<Rightarrow> map_option (\<lambda>(t, r'). (x @ t, r')) (scan_string n r2)))
       else if ch_code c < 32 then None
       else map_option (\<lambda>(t, r'). (c # t, r')) (scan_string n r))"

section \<open>Numbers\<close>

definition take_digits :: "string \<Rightarrow> string \<times> string" where
  "take_digits s = (takeWhile is_digit_char s, dropWhile is_digit_char s)"

definition int_part :: "string \<Rightarrow> (string \<times> string) option" where
  "int_part s = (case s of [] \<Rightarrow> None
     | c # r \<Rightarrow> if c = CHR ''0'' then Some ([c], r) else if is_digit_char c then Some (take_digits s) else None)"

definition frac_part :: "string \<Rightarrow> string \<times> string" where
  "frac_part s = (case s of [] \<Rightarrow> ([], s)
     | c # r \<Rightarrow> if c = CHR ''.'' \<and> fst (take_digits r) \<noteq> [] then (c # fst (take_digits r), snd (take_digits r)) else ([], s))"

definition exp_part :: "string \<Rightarrow> string \<times> string" where
  "exp_part s = (case s of [] \<Rightarrow> ([], s)
     | c # r \<Rightarrow> if c = CHR ''e'' \<or> c = CHR ''E''
         then (let (sign, r1) = (case r of x # r' \<Rightarrow> if x = CHR ''+'' \<or> x = CHR ''-'' then ([x], r') else ([], r) | [] \<Rightarrow> ([], r))
               in if fst (take_digits r1) \<noteq> [] then (c # sign @ fst (take_digits r1), snd (take_digits r1)) else ([], s))
         else ([], s))"

definition scan_number :: "string \<Rightarrow> (json \<times> string) option" where
  "scan_number s = (let (sign, s1) = (case s of c # r \<Rightarrow> if c = CHR ''-'' then ([c], r) else ([], s) | [] \<Rightarrow> ([], s))
     in case int_part s1 of None \<Rightarrow> None
        | Some (i, s2) \<Rightarrow> let (f, s3) = frac_part s2; (e, s4) = exp_part s3 in Some (J_num (sign @ i @ f @ e), s4))"

section \<open>Values\<close>

definition is_json_space :: "char \<Rightarrow> bool" where
  "is_json_space c = (c = CHR '' '' \<or> c = CHR 0x09 \<or> c = CHR 0x0A \<or> c = CHR 0x0D)"

definition skip_space :: "string \<Rightarrow> string" where
  "skip_space s = dropWhile is_json_space s"

fun strip_prefix :: "string \<Rightarrow> string \<Rightarrow> string option" where
  "strip_prefix [] s = Some s"
| "strip_prefix (p # ps) (c # s) = (if p = c then strip_prefix ps s else None)"
| "strip_prefix (p # ps) [] = None"

definition json_words :: "(string \<times> json) list" where
  "json_words = [(''null'', J_null), (''true'', J_bool True), (''false'', J_bool False), (''NaN'', J_num ''NaN''),
     (''Infinity'', J_num ''Infinity''), (''-Infinity'', J_num ''-Infinity'')]"

definition scan_word :: "string \<Rightarrow> (json \<times> string) option" where
  "scan_word s = (case List.map_filter (\<lambda>(w, v). map_option (\<lambda>r. (v, r)) (strip_prefix w s)) json_words of
     [] \<Rightarrow> None | x # _ \<Rightarrow> Some x)"

text \<open>
  \<open>json_items\<close> reads from the first value of a non-empty array, \<open>json_members\<close> from the opening quote of a key.
\<close>

fun json_value :: "nat \<Rightarrow> string \<Rightarrow> (json \<times> string) option"
  and json_items :: "nat \<Rightarrow> string \<Rightarrow> (json list \<times> string) option"
  and json_members :: "nat \<Rightarrow> string \<Rightarrow> ((string \<times> json) list \<times> string) option" where
  "json_value 0 s = None"
| "json_value (Suc n) s = (case s of [] \<Rightarrow> None
     | c # r \<Rightarrow>
       if c = CHR 0x22 then map_option (\<lambda>(t, r'). (J_str t, r')) (scan_string (length s) r)
       else if c = CHR ''['' then (case skip_space r of
           [] \<Rightarrow> None
         | x # r1 \<Rightarrow> if x = CHR '']'' then Some (J_arr [], r1)
                    else map_option (\<lambda>(vs, r'). (J_arr vs, r')) (json_items n (x # r1)))
       else if c = CHR ''{'' then (case skip_space r of
           [] \<Rightarrow> None
         | x # r1 \<Rightarrow> if x = CHR ''}'' then Some (J_obj [], r1)
                    else map_option (\<lambda>(ms, r'). (J_obj ms, r')) (json_members n (x # r1)))
       else (case scan_word s of Some x \<Rightarrow> Some x | None \<Rightarrow> scan_number s))"
| "json_items 0 s = None"
| "json_items (Suc n) s = (case json_value n s of None \<Rightarrow> None
     | Some (v, r) \<Rightarrow> (case skip_space r of [] \<Rightarrow> None
         | x # r1 \<Rightarrow> if x = CHR '']'' then Some ([v], r1)
                    else if x = CHR '','' then map_option (\<lambda>(vs, r'). (v # vs, r')) (json_items n (skip_space r1))
                    else None))"
| "json_members 0 s = None"
| "json_members (Suc n) s = (case s of [] \<Rightarrow> None
     | q # s1 \<Rightarrow>
       if q \<noteq> CHR 0x22 then None
       else case scan_string (length s) s1 of None \<Rightarrow> None
         | Some (k, s2) \<Rightarrow> (case skip_space s2 of [] \<Rightarrow> None
            | x # s3 \<Rightarrow>
              if x \<noteq> CHR '':'' then None
              else case json_value n (skip_space s3) of None \<Rightarrow> None
                | Some (v, r) \<Rightarrow> (case skip_space r of [] \<Rightarrow> None
                   | y # r1 \<Rightarrow> if y = CHR ''}'' then Some ([(k, v)], r1)
                              else if y = CHR '','' then map_option (\<lambda>(ms, r'). ((k, v) # ms, r')) (json_members n (skip_space r1))
                              else None)))"

text \<open>None stands for \<open>JSONDecodeError\<close>, a \<open>ValueError\<close>.\<close>

definition loads :: "string \<Rightarrow> json option" where
  "loads s = (case json_value (Suc (length s)) (skip_space s) of None \<Rightarrow> None
     | Some (v, r) \<Rightarrow> if skip_space r = [] then Some v else None)"

text \<open>\<open>d.get(key)\<close> on a decoded object.\<close>

definition member :: "(string \<times> json) list \<Rightarrow> string \<Rightarrow> json option" where
  "member ms k = map_of (rev ms) k"

definition member_or_null :: "(string \<times> json) list \<Rightarrow> string \<Rightarrow> json" where
  "member_or_null ms k = (case member ms k of None \<Rightarrow> J_null | Some v \<Rightarrow> v)"

fun json_truthy :: "json \<Rightarrow> bool" where
  "json_truthy J_null = False"
| "json_truthy (J_bool b) = b"
| "json_truthy (J_num n) = (float_of_str n \<noteq> Some (Fin 0))"
| "json_truthy (J_str s) = (s \<noteq> [])"
| "json_truthy (J_arr vs) = (vs \<noteq> [])"
| "json_truthy (J_obj ms) = (ms \<noteq> [])"

section \<open>Printing\<close>

definition hex_digit :: "nat \<Rightarrow> char" where
  "hex_digit n = (if n < 10 then char_of (48 + n) else char_of (87 + n))"

definition hex4 :: "nat \<Rightarrow> string" where
  "hex4 n = [hex_digit (n div 4096 mod 16), hex_digit (n div 256 mod 16), hex_digit (n div 16 mod 16), hex_digit (n mod 16)]"

definition u_escape :: "nat \<Rightarrow> string" where
  "u_escape n = (if n < 65536 then CHR 0x5C # CHR ''u'' # hex4 n
     else CHR 0x5C # CHR ''u'' # hex4 (55296 + (n - 65536) div 1024)
       @ CHR 0x5C # CHR ''u'' # hex4 (56320 + (n - 65536) mod 1024))"

definition escape_ascii :: "char \<Rightarrow> string" where
  "escape_ascii c = (case map_of [(CHR 0x22, CHR 0x22), (CHR 0x5C, CHR 0x5C), (CHR 0x08, CHR ''b''), (CHR 0x0C, CHR ''f''),
       (CHR 0x0A, CHR ''n''), (CHR 0x0D, CHR ''r''), (CHR 0x09, CHR ''t'')] c of
      Some e \<Rightarrow> [CHR 0x5C, e]
    | None \<Rightarrow> if 32 \<le> ch_code c \<and> ch_code c \<le> 126 then [c] else u_escape (ch_code c))"

definition tail_bits :: "char \<Rightarrow> nat" where
  "tail_bits c = ch_code c - 128"

text \<open>\<open>ensure_ascii\<close>: a character beyond ASCII, a sequence of bytes here, becomes \<open>\u\<close> escapes.\<close>

fun escape :: "string \<Rightarrow> string" where
  "escape [] = []"
| "escape (c # s) = (if ch_code c < 128 then escape_ascii c @ escape s
     else if ch_code c < 224 then (case s of a # r \<Rightarrow>
       u_escape ((ch_code c - 192) * 64 + tail_bits a) @ escape r | _ \<Rightarrow> [])
     else if ch_code c < 240 then (case s of a # b # r \<Rightarrow>
       u_escape (((ch_code c - 224) * 64 + tail_bits a) * 64 + tail_bits b) @ escape r | _ \<Rightarrow> [])
     else (case s of a # b # d # r \<Rightarrow>
       u_escape ((((ch_code c - 240) * 64 + tail_bits a) * 64 + tail_bits b) * 64 + tail_bits d) @ escape r | _ \<Rightarrow> []))"

definition quote :: "string \<Rightarrow> string" where
  "quote s = CHR 0x22 # escape s @ [CHR 0x22]"

fun join_items :: "string list \<Rightarrow> string" where
  "join_items [] = []"
| "join_items [x] = x"
| "join_items (x # y # xs) = x @ '', '' @ join_items (y # xs)"

fun dumps :: "json \<Rightarrow> string" where
  "dumps J_null = ''null''"
| "dumps (J_bool b) = (if b then ''true'' else ''false'')"
| "dumps (J_num n) = n"
| "dumps (J_str s) = quote s"
| "dumps (J_arr vs) = ''['' @ join_items (map dumps vs) @ '']''"
| "dumps (J_obj ms) = ''{'' @ join_items (map (\<lambda>(k, v). quote k @ '': '' @ dumps v) ms) @ ''}''"

section \<open>Reading back what was printed\<close>

lemma ch_code_char_of [simp]: "n < 256 \<Longrightarrow> ch_code (char_of n) = n"
  by (simp add: ch_code_def)

lemma char_of_ch_code [simp]: "char_of (ch_code c) = c"
  by (simp add: ch_code_def)

lemma hex_val_digit [simp]: "k < 16 \<Longrightarrow> hex_val (hex_digit k) = Some k"
  by (auto simp: hex_val_def hex_digit_def Let_def)

lemma read_hex4_hex4: "n < 65536 \<Longrightarrow> read_hex4 (hex4 n @ r) = Some (n, r)"
proof -
  assume n: "n < 65536"
  define q1 q2 q3 where q: "q1 = n div 16" "q2 = q1 div 16" "q3 = q2 div 16"
  have d: "n div 256 = q2" "n div 4096 = q3" by (simp_all add: q div_mult2_eq [symmetric])
  have "16 * q1 + n mod 16 = n" "16 * q2 + q1 mod 16 = q1" "16 * q3 + q2 mod 16 = q2" "q3 < 16"
    using n by (simp_all add: q)
  then have "((q3 * 16 + q2 mod 16) * 16 + q1 mod 16) * 16 + n mod 16 = n" "q3 mod 16 = q3" "hex_val (hex_digit q3) = Some q3"
    by simp_all
  moreover have "hex_val (hex_digit (k mod 16)) = Some (k mod 16)" for k by simp
  ultimately show ?thesis
    by (simp only: hex4_def d q(1) [symmetric] append.simps read_hex4.simps prod.case option.case)
qed

lemma ascii_inject: "ch_code c = ch_code d \<longleftrightarrow> c = d"
  by (metis char_of_ch_code)

lemma scan_escape_ascii:
  assumes "ch_code c < 128"
  shows "scan_string (Suc n) (escape_ascii c @ s) = map_option (\<lambda>(t, r). (c # t, r)) (scan_string n s)"
proof -
  let ?table = "[(CHR 0x22, CHR 0x22), (CHR 0x5C, CHR 0x5C), (CHR 0x08, CHR ''b''), (CHR 0x0C, CHR ''f''),
       (CHR 0x0A, CHR ''n''), (CHR 0x0D, CHR ''r''), (CHR 0x09, CHR ''t'')]"
  consider e where "map_of ?table c = Some e" | "map_of ?table c = None" "32 \<le> ch_code c \<and> ch_code c \<le> 126"
    | "map_of ?table c = None" "\<not> (32 \<le> ch_code c \<and> ch_code c \<le> 126)" by (cases "map_of ?table c") auto
  then show ?thesis
  proof cases
    case 1
    then have "escape_ascii c = [CHR 0x5C, e]" by (simp add: escape_ascii_def)
    moreover have "simple_escape e = Some c" "e \<noteq> CHR ''u''"
      using 1 by (auto simp: simple_escape_def split: if_splits)
    ultimately show ?thesis by (auto split: option.split)
  next
    case 2
    then have "escape_ascii c = [c]" "c \<noteq> CHR 0x22" "c \<noteq> CHR 0x5C" by (auto simp: escape_ascii_def)
    with 2 show ?thesis by simp
  next
    case 3
    then have "escape_ascii c = CHR 0x5C # CHR ''u'' # hex4 (ch_code c)"
      using assms by (simp add: escape_ascii_def u_escape_def)
    moreover have "read_unicode (hex4 (ch_code c) @ s) = Some ([c], s)"
      using assms by (simp add: read_unicode_def read_hex4_hex4 utf8_of_def)
    ultimately show ?thesis by (auto split: option.split)
  qed
qed

definition ascii :: "string \<Rightarrow> bool" where
  "ascii s = list_all (\<lambda>c. ch_code c < 128) s"

lemma escape_ascii_nonempty: "0 < length (escape_ascii c)"
  by (simp add: escape_ascii_def u_escape_def split: option.split)

lemma scan_escape:
  "ascii t \<Longrightarrow> length (escape t) < n \<Longrightarrow> scan_string n (escape t @ CHR 0x22 # r) = Some (t, r)"
proof (induction t arbitrary: n)
  case Nil
  then show ?case by (cases n) simp_all
next
  case (Cons c t)
  then obtain m where n: "n = Suc m" by (cases n) auto
  have "length (escape t) < m" using Cons.prems n escape_ascii_nonempty [of c]
    by (cases "escape_ascii c") (auto simp: ascii_def)
  with Cons n show ?case by (simp add: scan_escape_ascii ascii_def del: scan_string.simps)
qed

lemma scan_quote: "ascii t \<Longrightarrow> scan_string (length (quote t @ r)) (escape t @ CHR 0x22 # r) = Some (t, r)"
  by (rule scan_escape) (simp_all add: quote_def)

text \<open>Values without numbers whose strings are ASCII.\<close>

fun plain :: "json \<Rightarrow> bool" where
  "plain J_null = True"
| "plain (J_bool b) = True"
| "plain (J_num n) = False"
| "plain (J_str s) = ascii s"
| "plain (J_arr vs) = list_all plain vs"
| "plain (J_obj ms) = list_all (\<lambda>(k, v). ascii k \<and> plain v) ms"

lemma skip_space_keep: "\<not> is_json_space c \<Longrightarrow> skip_space (c # s) = c # s"
  by (simp add: skip_space_def)

lemma dumps_head:
  assumes "plain v"
  obtains c s where "dumps v = c # s" "\<not> is_json_space c" "c \<noteq> CHR '']''"
proof (cases v)
  case (J_bool b)
  with that show ?thesis by (cases b) (simp_all add: is_json_space_def)
qed (use assms that in \<open>auto simp: quote_def is_json_space_def\<close>)

lemma skip_space_dumps: "plain v \<Longrightarrow> skip_space (dumps v @ r) = dumps v @ r"
  by (metis append_Cons dumps_head skip_space_keep)

definition print_member :: "string \<times> json \<Rightarrow> string" where
  "print_member m = (case m of (k, v) \<Rightarrow> quote k @ '': '' @ dumps v)"

lemma items_dumps:
  assumes "\<And>v n r. v \<in> set vs \<Longrightarrow> length (dumps v) \<le> n \<Longrightarrow> json_value n (dumps v @ r) = Some (v, r)"
    and "\<And>v. v \<in> set vs \<Longrightarrow> plain v" and "vs \<noteq> []" "length (join_items (map dumps vs)) < n"
  shows "json_items n (join_items (map dumps vs) @ CHR '']'' # r) = Some (vs, r)"
  using assms
proof (induction vs arbitrary: n)
  case (Cons v vs)
  then obtain m where n: "n = Suc m" by (cases n) auto
  show ?case
  proof (cases vs)
    case Nil
    with Cons.prems(1) [of v m "CHR '']'' # r"] Cons.prems(4) n show ?thesis by (simp add: skip_space_keep is_json_space_def)
  next
    case (Cons u us)
    let ?rest = "join_items (map dumps vs) @ CHR '']'' # r"
    have "plain u" using Cons.prems(2) [of u] Cons by simp
    then have "skip_space ('' '' @ ?rest) = ?rest"
      using skip_space_dumps [of u] Cons by (cases us) (auto simp: skip_space_def is_json_space_def)
    moreover have "json_items m ?rest = Some (vs, r)"
      using Cons.prems n Cons by (intro Cons.IH) auto
    ultimately show ?thesis
      using Cons.prems(1) [of v m "'', '' @ ?rest"] Cons.prems(4) n Cons
      by (simp add: skip_space_keep is_json_space_def)
  qed
qed simp

lemma members_dumps:
  assumes "\<And>k v n r. (k, v) \<in> set ms \<Longrightarrow> length (dumps v) \<le> n \<Longrightarrow> json_value n (dumps v @ r) = Some (v, r)"
    and "\<And>k v. (k, v) \<in> set ms \<Longrightarrow> ascii k \<and> plain v" and "ms \<noteq> []" "length (join_items (map print_member ms)) < n"
  shows "json_members n (join_items (map print_member ms) @ CHR ''}'' # r) = Some (ms, r)"
  using assms
proof (induction ms arbitrary: n)
  case (Cons m ms)
  then obtain n' where n: "n = Suc n'" by (cases n) auto
  obtain k v where m: "m = (k, v)" by fastforce
  have kv: "ascii k" "plain v" using Cons.prems(2) [of k v] m by simp_all
  have one: "json_members n (print_member m @ t) = (case skip_space t of [] \<Rightarrow> None
       | y # r1 \<Rightarrow> if y = CHR ''}'' then Some ([(k, v)], r1)
                  else if y = CHR '','' then map_option (\<lambda>(ms, r'). ((k, v) # ms, r')) (json_members n' (skip_space r1))
                  else None)" if "length (dumps v) \<le> n'" for t
  proof -
    have "json_value n' (dumps v @ t) = Some (v, t)" using Cons.prems(1) [of k v n' t] that m by simp
    moreover have "skip_space (CHR '' '' # dumps v @ t) = dumps v @ t"
      using skip_space_dumps [OF kv(2)] by (simp add: skip_space_def is_json_space_def)
    moreover have "scan_string (length (quote k @ '': '' @ dumps v @ t)) (escape k @ CHR 0x22 # CHR '':'' # CHR '' '' # dumps v @ t)
        = Some (k, CHR '':'' # CHR '' '' # dumps v @ t)"
      using scan_quote [OF kv(1), of "'': '' @ dumps v @ t"] by simp
    ultimately show ?thesis
      by (simp add: n m print_member_def quote_def skip_space_keep is_json_space_def del: scan_string.simps)
  qed
  show ?case
  proof (cases ms)
    case Nil
    with Cons.prems(4) n m one [of "CHR ''}'' # r"] show ?thesis
      by (simp add: skip_space_keep is_json_space_def print_member_def)
  next
    case (Cons u us)
    let ?rest = "join_items (map print_member ms) @ CHR ''}'' # r"
    have "skip_space ('' '' @ ?rest) = ?rest"
      using Cons by (cases us) (auto simp: skip_space_def is_json_space_def print_member_def quote_def split: prod.split)
    moreover have "json_members n' ?rest = Some (ms, r)"
    proof (rule Cons.IH)
      show "json_value i (dumps x @ t) = Some (x, t)" if "(j, x) \<in> set ms" "length (dumps x) \<le> i" for j x i t
        using Cons.prems(1) [of j x i t] that by simp
      show "ascii j \<and> plain x" if "(j, x) \<in> set ms" for j x using Cons.prems(2) [of j x] that by simp
      show "ms \<noteq> []" "length (join_items (map print_member ms)) < n'" using Cons.prems(4) n Cons by simp_all
    qed
    moreover have "length (dumps v) \<le> n'" using Cons.prems(4) n m Cons by (simp add: print_member_def)
    ultimately show ?thesis
      using one [of "'', '' @ ?rest"] n m Cons
      by (simp add: skip_space_keep is_json_space_def)
  qed
qed simp

lemma print_members: "map (\<lambda>(k, v). quote k @ CHR '':'' # CHR '' '' # dumps v) ms = map print_member ms"
  by (simp add: print_member_def [abs_def])

lemma head_of_join: "vs \<noteq> [] \<Longrightarrow> \<exists>t. join_items (map f vs) = f (hd vs) @ t"
  by (cases vs rule: remdups_adj.cases) auto

lemma value_dumps: "plain v \<Longrightarrow> length (dumps v) \<le> n \<Longrightarrow> json_value n (dumps v @ r) = Some (v, r)"
proof (induction v arbitrary: n r)
  case J_null
  then obtain m where "n = Suc m" by (cases n) auto
  then show ?case by (simp add: scan_word_def json_words_def List.map_filter_def)
next
  case (J_bool b)
  then obtain m where "n = Suc m" by (cases n; cases b) auto
  then show ?case by (cases b) (simp_all add: scan_word_def json_words_def List.map_filter_def)
next
  case (J_num x)
  then show ?case by simp
next
  case (J_str s)
  then obtain m where "n = Suc m" by (cases n) (auto simp: quote_def)
  with J_str scan_quote [of s r] show ?case by (simp add: quote_def del: scan_string.simps)
next
  case (J_arr vs)
  then obtain m where n: "n = Suc m" by (cases n) auto
  show ?case
  proof (cases "vs = []")
    case True
    with n show ?thesis by (simp add: skip_space_keep is_json_space_def)
  next
    case False
    have all: "\<And>v. v \<in> set vs \<Longrightarrow> plain v" using J_arr.prems(1) by (simp add: list_all_iff)
    have items: "json_items m (join_items (map dumps vs) @ CHR '']'' # r) = Some (vs, r)"
      using J_arr n all False by (intro items_dumps) auto
    obtain t where t: "join_items (map dumps vs) = dumps (hd vs) @ t" using head_of_join [OF False] by blast
    obtain c s where c: "dumps (hd vs) = c # s" "\<not> is_json_space c" "c \<noteq> CHR '']''" using dumps_head all False by (metis list.set_sel(1))
    show ?thesis using n items t c by (simp add: skip_space_keep)
  qed
next
  case (J_obj ms)
  then obtain m where n: "n = Suc m" by (cases n) auto
  show ?case
  proof (cases "ms = []")
    case True
    with n show ?thesis by (simp add: skip_space_keep is_json_space_def)
  next
    case False
    have all: "\<And>k v. (k, v) \<in> set ms \<Longrightarrow> ascii k \<and> plain v" using J_obj.prems(1) by (auto simp: list_all_iff)
    have members: "json_members m (join_items (map print_member ms) @ CHR ''}'' # r) = Some (ms, r)"
      using J_obj n all False by (intro members_dumps) (auto simp: print_members)
    obtain t where t: "join_items (map print_member ms) = print_member (hd ms) @ t" using head_of_join [OF False] by blast
    obtain s where c: "print_member (hd ms) = CHR 0x22 # s"
      by (cases "hd ms") (simp add: print_member_def quote_def)
    show ?thesis using n members t c by (simp add: print_members skip_space_keep is_json_space_def)
  qed
qed

lemma loads_dumps: "plain v \<Longrightarrow> loads (dumps v) = Some v"
  using value_dumps [of v "Suc (length (dumps v))" "[]"] skip_space_dumps [of v "[]"]
  by (simp add: loads_def skip_space_def)

lemma object_value: "json_value (Suc n) (CHR ''{'' # s) = Some (v, r) \<Longrightarrow> \<exists>ms. v = J_obj ms"
  by (subst (asm) json_value.simps(2)) (auto split: list.splits if_splits)

lemma loads_object: "loads (CHR ''{'' # s) = Some v \<Longrightarrow> \<exists>ms. v = J_obj ms"
  using object_value by (auto simp: loads_def skip_space_keep is_json_space_def simp del: json_value.simps split: option.splits if_splits)

declare json_value.simps [simp del] json_items.simps [simp del] json_members.simps [simp del] scan_string.simps [simp del]

end
