(* ===== verification/OrderManagement.thy ===== *)
theory OrderManagement
  imports Reconcile Json
begin

text \<open>
  Cancellation of stale orders (\<open>pipeline/order_management.py\<close>). A pass reads the orders that are not terminal, resolves the ones with a
  pending marker and asks the broker to cancel the stale ones. The cancel call is a parameter on an arbitrary world, the KRX calendar a parameter as in
  the schedule. Shown: over any run of passes the broker acknowledges at most one cancel per order, and the books survive every pass.
\<close>

section \<open>Data\<close>

record om_config =
  omc_buy_ttl :: pyfloat
  omc_sell_ttl :: pyfloat

definition make_om_config :: "pyfloat \<Rightarrow> pyfloat \<Rightarrow> om_config result" where
  "make_om_config buy sell = guard_else (flt buy (Fin 0) \<or> flt sell (Fin 0)) (ValueError ''order TTLs must be non-negative'')
     (Inr \<lparr>omc_buy_ttl = buy, omc_sell_ttl = sell\<rparr>)"

definition ACTIVE_STATUSES :: "order_status list" where
  "ACTIVE_STATUSES = [ACKNOWLEDGED, PARTIALLY_FILLED]"

definition DO_NOT_RECALL_STATUSES :: "order_status list" where
  "DO_NOT_RECALL_STATUSES = [CANCEL_PENDING, UNKNOWN, FILLED, CANCELLED, REJECTED]"

record om_action =
  oa_client_order_id :: string
  oa_symbol :: string
  oa_action :: string
  oa_reason :: string
  oa_remaining_quantity :: int

record om_report =
  omr_inspected :: nat
  omr_cancel_requested :: nat
  omr_pending :: nat
  omr_unknown :: nat
  omr_confirmed :: nat
  omr_operator_review :: bool
  omr_block_new_entries :: bool
  omr_actions :: "om_action list"

record reevaluation =
  re_allowed :: bool
  re_reason :: string
  re_last_bar :: "json option"

text \<open>The locals of one pass, next to the database and the world.\<close>

record om_locals =
  oml_cancel_requested :: nat
  oml_pending :: nat
  oml_unknown :: nat
  oml_confirmed :: nat
  oml_review :: bool
  oml_actions :: "om_action list"

type_synonym 'w om_state = "om_locals \<times> db \<times> 'w"
type_synonym ('a, 'w) omop = "'w om_state \<Rightarrow> 'a result \<times> 'w om_state"

definition om_start :: om_locals where
  "om_start = \<lparr>oml_cancel_requested = 0, oml_pending = 0, oml_unknown = 0, oml_confirmed = 0, oml_review = False, oml_actions = []\<rparr>"

definition on_db :: "'a dbop \<Rightarrow> ('a, 'w) omop" where
  "on_db m s = (case s of (l, d, w) \<Rightarrow> (case m d of (r, d') \<Rightarrow> (r, l, d', w)))"

definition on_locals :: "(om_locals \<Rightarrow> om_locals) \<Rightarrow> (unit, 'w) omop" where
  "on_locals f s = (case s of (l, d, w) \<Rightarrow> (Inr (), f l, d, w))"

definition with_locals :: "(om_locals \<Rightarrow> ('a, 'w) omop) \<Rightarrow> ('a, 'w) omop" where
  "with_locals f s = f (fst s) s"

definition on_world :: "('w \<Rightarrow> 'a result \<times> 'w) \<Rightarrow> ('a, 'w) omop" where
  "on_world m s = (case s of (l, d, w) \<Rightarrow> (case m w of (r, w') \<Rightarrow> (r, l, d, w')))"

section \<open>Markers\<close>

definition pending_key :: "string \<Rightarrow> string" where
  "pending_key c = ''order_management.pending.'' @ c"

definition confirmed_key :: "string \<Rightarrow> string" where
  "confirmed_key symbol = ''order_management.confirmed.'' @ symbol"

definition marker_of :: "string option \<Rightarrow> (string \<times> json) list option" where
  "marker_of value = (case value of None \<Rightarrow> None
     | Some v \<Rightarrow> if v = [] then None
         else case loads v of None \<Rightarrow> Some [(''invalid'', J_bool True)]
           | Some (J_obj ms) \<Rightarrow> Some ms | Some _ \<Rightarrow> None)"

definition pending_marker :: "string \<Rightarrow> (string \<times> json) list option dbop" where
  "pending_marker c = op_bind (get_runtime_metadata (pending_key c)) (\<lambda>value. op_ret (marker_of value))"

definition json_text :: "string option \<Rightarrow> json" where
  "json_text v = (case v of None \<Rightarrow> J_null | Some s \<Rightarrow> J_str s)"

definition store_pending_marker :: "string \<Rightarrow> string option \<Rightarrow> datetime \<Rightarrow> string dbop" where
  "store_pending_marker c bar_key now = set_runtime_metadata (pending_key c)
     (dumps (J_obj [(''bar_key'', json_text bar_key), (''requested_at'', J_str (isoformat now))])) now"

definition block_new_entries :: "string \<Rightarrow> datetime \<Rightarrow> string dbop" where
  "block_new_entries reason clk =
     op_bind (set_runtime_metadata ''operator_review'' ''true'' clk) (\<lambda>_.
     op_bind (set_runtime_metadata ''block_new_entries'' ''true'' clk) (\<lambda>_.
       set_runtime_metadata ''order_management.last_reason'' reason clk))"

definition mark_unknown :: "string \<Rightarrow> string \<Rightarrow> datetime \<Rightarrow> datetime \<Rightarrow> string dbop" where
  "mark_unknown c reason now clk = op_bind (mark_order_unknown c (Some reason) now) (\<lambda>_. block_new_entries reason clk)"

datatype marker_result = MR_PENDING | MR_CONFIRMED

fun terminal_status :: "kis_status \<Rightarrow> order_status option" where
  "terminal_status KS_CANCELLED = Some CANCELLED"
| "terminal_status KS_FILLED = Some FILLED"
| "terminal_status KS_REJECTED = Some REJECTED"
| "terminal_status _ = None"

definition reconcile_pending_marker ::
  "broker_order \<Rightarrow> status_record option \<Rightarrow> datetime \<Rightarrow> (string \<times> json) list \<Rightarrow> marker_result dbop" where
  "reconcile_pending_marker r broker now marker = (let c = bo_client_order_id r in
     case (if json_truthy (member_or_null marker ''invalid'') then None else broker) of None \<Rightarrow> op_ret MR_PENDING
     | Some b \<Rightarrow> (case terminal_status (sr_status b) of
         Some status \<Rightarrow>
           op_bind (update_broker_order_status c status (Some (sr_order_number b)) (Some (sr_filled_quantity b))
                      (sr_average_fill_price b) None now (Some now)) (\<lambda>_.
           op_bind (set_runtime_metadata (confirmed_key (bo_symbol r))
                      (dumps (J_obj [(''bar_key'', member_or_null marker ''bar_key''), (''client_order_id'', J_str c)])) now) (\<lambda>_.
           op_bind (set_runtime_metadata (pending_key c) ''confirmed'' now) (\<lambda>_. op_ret MR_CONFIRMED)))
       | None \<Rightarrow>
           op_bind (update_broker_order_status c CANCEL_PENDING (Some (sr_order_number b)) (Some (sr_filled_quantity b))
                      (sr_average_fill_price b) None now None) (\<lambda>_. op_ret MR_PENDING)))"

section \<open>Staleness\<close>

definition age_seconds :: "broker_order \<Rightarrow> datetime \<Rightarrow> pyfloat result" where
  "age_seconds r now =
     (let timestamp = (case str_or (bo_submitted_at r) None of Some t \<Rightarrow> t
        | None \<Rightarrow> if bo_updated_at r \<noteq> [] then bo_updated_at r else bo_created_at r)
      in case fromisoformat timestamp of None \<Rightarrow> Inr PInf
         | Some started \<Rightarrow> rbind (dt_sub (as_kst now) (as_kst started)) (\<lambda>us. Inr (fmax (Fin 0) (total_seconds us))))"

definition is_stale :: "calendar \<Rightarrow> broker_order \<Rightarrow> datetime \<Rightarrow> om_config \<Rightarrow> (bool \<times> string) result" where
  "is_stale cal r now cfg = (if \<not> is_regular_market_open cal now then Inr (False, ''market_closed'')
     else rbind (age_seconds r now) (\<lambda>age.
       let ttl = (if bo_side r = BUY then omc_buy_ttl cfg else omc_sell_ttl cfg) in
       if fle ttl age then Inr (True, ''ttl_'' @ lower (side_str (bo_side r)))
       else if bo_side r = BUY \<and> \<not> is_new_entry_window cal now \<and> is_regular_market_open cal now
       then Inr (True, ''entry_window_closed'') else Inr (False, ''fresh'')))"

definition valid_cancel_fields :: "status_record \<Rightarrow> string option" where
  "valid_cancel_fields b = (if sr_order_number b = [] then Some ''missing_order_number''
     else if str_or (sr_order_branch b) None = None then Some ''missing_order_branch''
     else if sr_remaining_quantity b \<le> 0 then Some ''missing_remaining_quantity'' else None)"

section \<open>One pass\<close>

definition om_act :: "broker_order \<Rightarrow> string \<Rightarrow> string \<Rightarrow> int \<Rightarrow> om_action" where
  "om_act r action reason remaining = \<lparr>oa_client_order_id = bo_client_order_id r, oa_symbol = bo_symbol r, oa_action = action,
     oa_reason = reason, oa_remaining_quantity = remaining\<rparr>"

definition give_up :: "broker_order \<Rightarrow> string \<Rightarrow> string \<Rightarrow> datetime \<Rightarrow> datetime \<Rightarrow> (unit, 'w) omop" where
  "give_up r error reason now clk =
     op_bind (on_locals (\<lambda>l. l\<lparr>oml_unknown := Suc (oml_unknown l), oml_review := True\<rparr>)) (\<lambda>_.
     op_bind (on_db (mark_unknown (bo_client_order_id r) error now clk)) (\<lambda>_.
       on_locals (\<lambda>l. l\<lparr>oml_actions := oml_actions l @ [om_act r ''UNKNOWN'' reason 0]\<rparr>)))"

definition cancel_price :: "broker_order \<Rightarrow> status_record \<Rightarrow> int result" where
  "cancel_price r b = py_int (case sr_order_price b of Some p \<Rightarrow> if p = Fin 0 then bo_requested_price r else p
     | None \<Rightarrow> bo_requested_price r)"

text \<open>The body of the \<open>try\<close>; the cancel call takes order number, branch, quantity and price.\<close>

definition request_cancel ::
  "(string \<Rightarrow> string \<Rightarrow> int \<Rightarrow> int \<Rightarrow> 'w \<Rightarrow> 'c result \<times> 'w) \<Rightarrow> broker_order \<Rightarrow> status_record \<Rightarrow> string option \<Rightarrow> string \<Rightarrow> datetime \<Rightarrow>
   (unit, 'w) omop" where
  "request_cancel cancel r b bar_key reason now = (case cancel_price r b of Inl e \<Rightarrow> op_fail e
     | Inr price \<Rightarrow>
       op_bind (on_db (update_broker_order_status (bo_client_order_id r) CANCEL_PENDING (Some (sr_order_number b))
           (Some (sr_filled_quantity b)) (sr_average_fill_price b) None now None)) (\<lambda>_.
       op_bind (on_world (cancel (sr_order_number b) (case sr_order_branch b of None \<Rightarrow> ''None'' | Some x \<Rightarrow> x)
           (sr_remaining_quantity b) price)) (\<lambda>_.
       op_bind (on_db (store_pending_marker (bo_client_order_id r) bar_key now)) (\<lambda>_.
         on_locals (\<lambda>l. l\<lparr>oml_cancel_requested := Suc (oml_cancel_requested l), oml_pending := Suc (oml_pending l),
           oml_actions := oml_actions l @ [om_act r ''CANCEL_PENDING'' reason (sr_remaining_quantity b)]\<rparr>)))))"

definition catching :: "('a, 'w) omop \<Rightarrow> (exc \<Rightarrow> ('a, 'w) omop) \<Rightarrow> ('a, 'w) omop" where
  "catching m h s = (case m s of (Inl e, s') \<Rightarrow> h e s' | (Inr x, s') \<Rightarrow> (Inr x, s'))"

definition manage_active ::
  "calendar \<Rightarrow> (string \<Rightarrow> string \<Rightarrow> int \<Rightarrow> int \<Rightarrow> 'w \<Rightarrow> 'c result \<times> 'w) \<Rightarrow> om_config \<Rightarrow> string option \<Rightarrow> datetime \<Rightarrow> datetime \<Rightarrow>
   broker_order \<Rightarrow> status_record option \<Rightarrow> (unit, 'w) omop" where
  "manage_active cal cancel cfg bar_key now clk r broker =
     (if strip (order_id_of r) = [] then give_up r ''missing_order_number'' ''missing_order_number'' now clk
      else case broker of None \<Rightarrow> op_ret ()
        | Some b \<Rightarrow>
          if sr_status b \<notin> {KS_UNFILLED, KS_PARTIALLY_FILLED} then op_ret ()
          else if \<not> same_order r b then give_up r ''order_identity_missing_or_mismatch'' ''identity_mismatch'' now clk
          else case is_stale cal r now cfg of Inl e \<Rightarrow> op_fail e
            | Inr (stale, reason) \<Rightarrow>
              if \<not> stale then op_ret ()
              else case valid_cancel_fields b of Some why \<Rightarrow> give_up r why why now clk
                | None \<Rightarrow> catching (request_cancel cancel r b bar_key reason now)
                    (\<lambda>e. give_up r (''cancel_ambiguous:'' @ exc_name e) ''cancel_ambiguous'' now clk))"

definition count_marker :: "marker_result \<Rightarrow> om_locals \<Rightarrow> om_locals" where
  "count_marker k l = (case k of MR_CONFIRMED \<Rightarrow> l\<lparr>oml_confirmed := Suc (oml_confirmed l)\<rparr>
     | MR_PENDING \<Rightarrow> l\<lparr>oml_pending := Suc (oml_pending l)\<rparr>)"

definition manage_row ::
  "calendar \<Rightarrow> (string \<Rightarrow> string \<Rightarrow> int \<Rightarrow> int \<Rightarrow> 'w \<Rightarrow> 'c result \<times> 'w) \<Rightarrow> om_config \<Rightarrow> string option \<Rightarrow> datetime \<Rightarrow> datetime \<Rightarrow>
   status_record list \<Rightarrow> broker_order \<Rightarrow> (unit, 'w) omop" where
  "manage_row cal cancel cfg bar_key now clk bs r =
     op_bind (on_db (pending_marker (bo_client_order_id r))) (\<lambda>marker.
       let broker = by_broker_id bs (order_id_of r) in
       case marker of
         Some m \<Rightarrow> op_bind (on_db (reconcile_pending_marker r broker now m)) (\<lambda>k. on_locals (count_marker k))
       | None \<Rightarrow>
         if bo_status r \<in> set DO_NOT_RECALL_STATUSES
         then (if bo_status r = CANCEL_PENDING then on_locals (count_marker MR_PENDING) else op_ret ())
         else if bo_status r \<notin> set ACTIVE_STATUSES then op_ret ()
         else manage_active cal cancel cfg bar_key now clk r broker)"

fun manage_rows ::
  "calendar \<Rightarrow> (string \<Rightarrow> string \<Rightarrow> int \<Rightarrow> int \<Rightarrow> 'w \<Rightarrow> 'c result \<times> 'w) \<Rightarrow> om_config \<Rightarrow> string option \<Rightarrow> datetime \<Rightarrow> datetime \<Rightarrow>
   status_record list \<Rightarrow> broker_order list \<Rightarrow> (unit, 'w) omop" where
  "manage_rows cal cancel cfg bar_key now clk bs [] = op_ret ()"
| "manage_rows cal cancel cfg bar_key now clk bs (r # rs) =
     op_bind (manage_row cal cancel cfg bar_key now clk bs r) (\<lambda>_. manage_rows cal cancel cfg bar_key now clk bs rs)"

definition open_rows :: "db \<Rightarrow> broker_order list" where
  "open_rows d = sort_key (\<lambda>r. (bo_created_at r, bo_client_order_id r))
     (select_where (\<lambda>r. bo_status r \<notin> {FILLED, CANCELLED, REJECTED}) (broker_orders d))"

definition unavailable_report :: om_report where
  "unavailable_report = \<lparr>omr_inspected = 0, omr_cancel_requested = 0, omr_pending = 0, omr_unknown = 0, omr_confirmed = 0,
     omr_operator_review = True, omr_block_new_entries = True,
     omr_actions = [\<lparr>oa_client_order_id = [], oa_symbol = [], oa_action = ''UNKNOWN'', oa_reason = ''order_status_unavailable'',
       oa_remaining_quantity = 0\<rparr>]\<rparr>"

definition om_summary :: "nat \<Rightarrow> om_locals \<Rightarrow> om_report" where
  "om_summary inspected l = \<lparr>omr_inspected = inspected, omr_cancel_requested = oml_cancel_requested l, omr_pending = oml_pending l,
     omr_unknown = oml_unknown l, omr_confirmed = oml_confirmed l, omr_operator_review = oml_review l,
     omr_block_new_entries = (oml_review l \<or> 0 < oml_pending l), omr_actions = oml_actions l\<rparr>"

definition close_pass :: "nat \<Rightarrow> datetime \<Rightarrow> (om_report, 'w) omop" where
  "close_pass inspected clk = with_locals (\<lambda>l.
     op_bind (if oml_review l then on_db (block_new_entries ''order_management_operator_review'' clk) else op_ret [])
       (\<lambda>_. op_ret (om_summary inspected l)))"

text \<open>The pass starts with fresh locals, which stay visible in the resulting state.\<close>

definition manage_stale_orders ::
  "calendar \<Rightarrow> ('w \<Rightarrow> status_record list result \<times> 'w) \<Rightarrow> (string \<Rightarrow> string \<Rightarrow> int \<Rightarrow> int \<Rightarrow> 'w \<Rightarrow> 'c result \<times> 'w) \<Rightarrow> om_config \<Rightarrow>
   string option \<Rightarrow> datetime \<Rightarrow> datetime \<Rightarrow> status_record list option \<Rightarrow> exc option \<Rightarrow> db \<times> 'w \<Rightarrow> om_report result \<times> 'w om_state" where
  "manage_stale_orders cal today_orders cancel cfg bar_key now clk given_orders given_error s =
     (case s of (d, w) \<Rightarrow> (case supplied given_orders given_error today_orders w of
        (Inl e, w1) \<Rightarrow> op_bind (on_db (block_new_entries (''order_status_unavailable:'' @ exc_name e) clk))
            (\<lambda>_. op_ret unavailable_report) (om_start, d, w1)
      | (Inr bs, w1) \<Rightarrow> op_bind (manage_rows cal cancel cfg bar_key now clk bs (open_rows d))
            (\<lambda>_. close_pass (length (open_rows d)) clk) (om_start, d, w1)))"

definition run_order_management_cycle ::
  "calendar \<Rightarrow> ('w \<Rightarrow> status_record list result \<times> 'w) \<Rightarrow> (string \<Rightarrow> string \<Rightarrow> int \<Rightarrow> int \<Rightarrow> 'w \<Rightarrow> 'c result \<times> 'w) \<Rightarrow> om_config \<Rightarrow>
   string option \<Rightarrow> datetime \<Rightarrow> datetime \<Rightarrow> status_record list option \<Rightarrow> exc option \<Rightarrow> db \<times> 'w \<Rightarrow> om_report result \<times> 'w om_state" where
  "run_order_management_cycle = manage_stale_orders"

section \<open>Entering again\<close>

definition can_re_evaluate_entry :: "string \<Rightarrow> string \<Rightarrow> reevaluation dbop" where
  "can_re_evaluate_entry symbol bar_key d =
     (if exists_where (\<lambda>r. bo_symbol r = symbol \<and> bo_status r \<in> {INTENT, SUBMITTING, ACKNOWLEDGED, PARTIALLY_FILLED,
           CANCEL_PENDING, UNKNOWN}) (broker_orders d)
      then (Inr \<lparr>re_allowed = False, re_reason = ''unresolved_order'', re_last_bar = None\<rparr>, d)
      else op_bind (get_runtime_metadata (confirmed_key symbol)) (\<lambda>value.
        case str_or value None of
          None \<Rightarrow> op_ret \<lparr>re_allowed = True, re_reason = ''no_unresolved_order'', re_last_bar = None\<rparr>
        | Some text \<Rightarrow> (case loads text of
            None \<Rightarrow> op_ret \<lparr>re_allowed = False, re_reason = ''invalid_confirmation_state'', re_last_bar = None\<rparr>
          | Some (J_obj ms) \<Rightarrow> (let bar = member_or_null ms ''bar_key'' in
              if bar = J_str bar_key
              then op_ret \<lparr>re_allowed = False, re_reason = ''same_bar_after_cancel'', re_last_bar = Some bar\<rparr>
              else op_ret \<lparr>re_allowed = True, re_reason = ''cancel_confirmed_new_bar'', re_last_bar = Some bar\<rparr>)
          | Some _ \<Rightarrow> op_fail (BrokerError ''AttributeError'' []))) d)"

definition entry_reevaluation_state :: "string \<Rightarrow> string \<Rightarrow> reevaluation dbop" where
  "entry_reevaluation_state = can_re_evaluate_entry"

section \<open>The books\<close>

text \<open>An invariant of the database, read off the state of a pass.\<close>

definition on_books :: "(db \<Rightarrow> bool) \<Rightarrow> 'w om_state \<Rightarrow> bool" where
  "on_books I s = I (fst (snd s))"

lemma keeps_on_db: "preserves I m \<Longrightarrow> preserves (on_books I) (on_db m)"
  by (auto simp: preserves_def on_books_def on_db_def split: prod.split)

lemma keeps_on_locals: "preserves (on_books I) (on_locals f)"
  by (auto simp: preserves_def on_books_def on_locals_def split: prod.split)

lemma keeps_on_world: "preserves (on_books I) (on_world m)"
  by (auto simp: preserves_def on_books_def on_world_def split: prod.split)

lemma keeps_catching: "preserves I m \<Longrightarrow> (\<And>e. preserves I (h e)) \<Longrightarrow> preserves I (catching m h)"
  by (auto simp: preserves_def catching_def split: prod.split sum.split) (metis snd_conv)+

lemma pending_marker_reads: "snd (pending_marker c d) = d"
  by (simp add: pending_marker_def get_runtime_metadata_def require_nonempty_def op_guard_def op_bind_def op_ret_def)

lemma keeps_with_locals: "(\<And>l. preserves I (f l)) \<Longrightarrow> preserves I (with_locals f)"
  by (simp add: preserves_def with_locals_def)

lemma preserves_sum:
  "(\<And>e. preserves I (f e)) \<Longrightarrow> (\<And>x. preserves I (g x)) \<Longrightarrow> preserves I (case v of Inl e \<Rightarrow> f e | Inr x \<Rightarrow> g x)"
  by (cases v) simp_all

lemmas om_keeps = preserves_sum keeps_with_locals keeps_on_db keeps_on_locals keeps_on_world keeps_catching preserves_ret preserves_fail preserves_bind
  preserves_if preserves_option preserves_read [OF pending_marker_reads]

text \<open>A program that only moves orders between states and writes metadata, under any key.\<close>

locale marker_client =
  fixes I :: "db \<Rightarrow> bool"
  assumes keeps_move: "preserves I (update_broker_order_status c st ob oq av e clk cm)"
    and keeps_lost: "preserves I (mark_order_unknown c e clk)"
    and keeps_key: "preserves I (set_runtime_metadata k v clk)"
begin

lemma keeps_block: "preserves I (block_new_entries why clk)"
  unfolding block_new_entries_def by (intro om_keeps keeps_key)

lemma keeps_mark_unknown: "preserves I (mark_unknown c why now clk)"
  unfolding mark_unknown_def by (intro om_keeps keeps_lost keeps_block)

lemma keeps_marker: "preserves I (reconcile_pending_marker r b now m)"
  unfolding reconcile_pending_marker_def Let_def by (intro om_keeps keeps_move keeps_key)

lemma keeps_give_up: "preserves (on_books I) (give_up r e why now clk)"
  unfolding give_up_def by (intro om_keeps keeps_mark_unknown)

lemma keeps_request: "preserves (on_books I) (request_cancel cancel r b bar why now)"
  unfolding request_cancel_def store_pending_marker_def by (intro om_keeps keeps_move keeps_key)

lemma keeps_active: "preserves (on_books I) (manage_active cal cancel cfg bar now clk r b)"
  unfolding manage_active_def
  by (intro preserves_if preserves_option preserves_ret keeps_give_up)
    (auto split: sum.split prod.split option.split intro!: om_keeps keeps_give_up keeps_request)

lemma keeps_row: "preserves (on_books I) (manage_row cal cancel cfg bar now clk bs r)"
  unfolding manage_row_def Let_def by (intro om_keeps keeps_marker keeps_active)

lemma keeps_manage_rows: "preserves (on_books I) (manage_rows cal cancel cfg bar now clk bs rs)"
  by (induction rs) (auto intro: om_keeps keeps_row)

lemma keeps_close: "preserves (on_books I) (close_pass n clk)"
  unfolding close_pass_def by (intro om_keeps keeps_block)

lemma keeps_manage:
  assumes "I d"
  shows "on_books I (snd (manage_stale_orders cal today cancel cfg bar now clk go ge (d, w)))"
proof -
  obtain q w1 where q: "supplied go ge today w = (q, w1)" by fastforce
  have start: "on_books I (om_start, d, w1)" using assms by (simp add: on_books_def)
  have blk: "preserves (on_books I) (op_bind (on_db (block_new_entries why clk)) (\<lambda>_. op_ret unavailable_report))" for why
    by (intro om_keeps keeps_block)
  have rows: "preserves (on_books I) (op_bind (manage_rows cal cancel cfg bar now clk bs rs) (\<lambda>_. close_pass n clk))" for bs rs n
    by (intro om_keeps keeps_manage_rows keeps_close)
  show ?thesis using q preservesD [OF blk start] preservesD [OF rows start] by (cases q) (simp_all add: manage_stale_orders_def)
qed

end

interpretation managed_books: marker_client books_ok
  by unfold_locales (use books.keeps_status books.keeps_unknown books.keeps_metadata in auto)

interpretation managed_controls: marker_client "same_controls d0" for d0
  by unfold_locales (use controls.keeps_status controls.keeps_unknown controls.keeps_metadata in auto)

interpretation managed_positions: marker_client "\<lambda>d. live_positions d = ps" for ps
proof unfold_locales
  have orders: "preserves (\<lambda>d. live_positions d = ps) (update_orders p f)" for p f
    by (rule preservesI) (simp add: update_orders_def)
  show "preserves (\<lambda>d. live_positions d = ps) (update_broker_order_status c st ob oq av e clk cm)" for c st ob oq av e clk cm
    unfolding update_broker_order_status_def Let_def by (intro preserves_rules orders)
  show "preserves (\<lambda>d. live_positions d = ps) (mark_order_unknown c e clk)" for c e clk
    unfolding mark_order_unknown_def by (intro preserves_rules orders)
  show "preserves (\<lambda>d. live_positions d = ps) (set_runtime_metadata k v clk)" for k v clk
    unfolding set_runtime_metadata_def by (intro preserves_rules preservesI) simp
qed

section \<open>One acknowledged cancel per order\<close>

definition marked :: "string \<Rightarrow> db \<Rightarrow> bool" where
  "marked c d = (marker_of (metadata_value d (pending_key c)) \<noteq> None)"

definition acks :: "string \<Rightarrow> om_action list \<Rightarrow> nat" where
  "acks c actions = length (filter (\<lambda>a. oa_client_order_id a = c \<and> oa_action a = ''CANCEL_PENDING'') actions)"

text \<open>With \<open>k\<close> acknowledged cancels before the pass: at most one in all, and none is left unmarked.\<close>

definition once :: "string \<Rightarrow> nat \<Rightarrow> 'w om_state \<Rightarrow> bool" where
  "once c k s = (case s of (l, d, w) \<Rightarrow> k + acks c (oml_actions l) \<le> 1 \<and> (0 < k + acks c (oml_actions l) \<longrightarrow> marked c d))"

lemma marker_of_object: "marker_of (Some (dumps (J_obj ms))) \<noteq> None"
  using loads_object by (fastforce simp: marker_of_def split: option.split json.split)

lemma marker_of_confirmed: "marker_of (Some ''confirmed'') \<noteq> None"
  by code_simp

lemma pending_key_nonblank: "strip (pending_key c) \<noteq> []"
  by (simp add: pending_key_def string_eval)

lemma pending_key_others:
  "confirmed_key s \<noteq> pending_key c" "''operator_review'' \<noteq> pending_key c" "''block_new_entries'' \<noteq> pending_key c"
  "''order_management.last_reason'' \<noteq> pending_key c" "pending_key c = pending_key c' \<longleftrightarrow> c = c'"
  by (simp_all add: pending_key_def confirmed_key_def)

lemma set_runtime_metadata_blank: "strip key = [] \<Longrightarrow> snd (set_runtime_metadata key v clk d) = d"
  by (simp add: set_runtime_metadata_def require_nonempty_def)

lemma marked_metadata:
  assumes "key = pending_key c \<longrightarrow> marker_of (Some v) \<noteq> None"
  shows "preserves (marked c) (set_runtime_metadata key v clk)"
proof (rule preservesI)
  fix d assume "marked c d"
  with assms show "marked c (snd (set_runtime_metadata key v clk d))"
    by (cases "strip key = []") (auto simp: marked_def metadata_value_set set_runtime_metadata_blank)
qed

lemma marked_update_orders: "preserves (marked c) (update_orders p f)"
  by (rule preservesI) (simp add: marked_def metadata_value_def update_orders_def)

lemma marked_order_ops:
  "preserves (marked c) (update_broker_order_status i st ob oq av e now cm)" "preserves (marked c) (mark_order_unknown i e now)"
  unfolding update_broker_order_status_def mark_order_unknown_def Let_def
  by (intro preserves_rules marked_update_orders)+

lemma marked_block: "preserves (marked c) (block_new_entries why clk)"
  unfolding block_new_entries_def
  by (intro om_keeps marked_metadata) (use pending_key_others in blast)+

lemma marked_mark_unknown: "preserves (marked c) (mark_unknown i why now clk)"
  unfolding mark_unknown_def by (intro om_keeps marked_order_ops marked_block)

lemma marked_marker: "preserves (marked c) (reconcile_pending_marker r b now m)"
  unfolding reconcile_pending_marker_def Let_def
  by (intro om_keeps marked_order_ops marked_metadata)
    (use marker_of_confirmed marker_of_object pending_key_others(1) in blast)+

lemma marked_store: "preserves (marked c) (store_pending_marker i bar now)"
  unfolding store_pending_marker_def by (intro marked_metadata impI marker_of_object)

lemma marked_store_fill: "marked c (snd (store_fill row d)) = marked c d"
  by (auto simp: store_fill_def Let_def marked_def metadata_value_def split: prod.split)

interpretation marked: ledger_client "marked c" "\<lambda>k. k \<noteq> pending_key c" for c
proof unfold_locales
  show "preserves (marked c) (apply_broker_fill fid i q pr fat ob sy sd clk)" for fid i q pr fat ob sy sd clk
    by (rule preservesI) (simp add: frame_fill [of "marked c", OF marked_store_fill])
  show "preserves (marked c) (materialize_order_fills i mt clk)" for i mt clk
    unfolding materialize_order_fills_def
    by (intro preserves_rules preservesI) (auto simp: marked_def metadata_value_def split: option.split sum.split)
  show "preserves (marked c) (set_runtime_metadata k v clk)" if "k \<noteq> pending_key c" for k v clk
    using that by (simp add: marked_metadata)
qed (use marked_order_ops pending_key_others in auto)

lemma once_on_db: "preserves (marked c) m \<Longrightarrow> preserves (once c k) (on_db m)"
  by (auto simp: preserves_def once_def on_db_def split: prod.split)

lemma once_on_world: "preserves (once c k) (on_world m)"
  by (auto simp: preserves_def once_def on_world_def split: prod.split)

lemma once_on_locals: "(\<And>l. acks c (oml_actions (f l)) = acks c (oml_actions l)) \<Longrightarrow> preserves (once c k) (on_locals f)"
  by (auto simp: preserves_def once_def on_locals_def split: prod.split)

lemma acks_append: "acks c (as @ bs) = acks c as + acks c bs"
  by (simp add: acks_def)

lemma once_give_up: "preserves (once c k) (give_up r e why now clk)"
  unfolding give_up_def
  by (intro preserves_bind once_on_locals once_on_db marked_mark_unknown) (simp_all add: acks_def om_act_def)

lemma once_request:
  assumes "once c k s" "bo_client_order_id r = c \<Longrightarrow> \<not> marked c (fst (snd s))"
  shows "once c k (snd (request_cancel cancel r b bar why now s))"
proof (cases "cancel_price r b")
  case (Inl e)
  with assms show ?thesis by (simp add: request_cancel_def op_fail_def)
next
  case (Inr price)
  obtain l d w where s: "s = (l, d, w)" by (cases s)
  obtain r1 d1 where up: "update_broker_order_status (bo_client_order_id r) CANCEL_PENDING (Some (sr_order_number b))
      (Some (sr_filled_quantity b)) (sr_average_fill_price b) None now None d = (r1, d1)" by fastforce
  obtain r2 w1 where ca: "cancel (sr_order_number b) (case sr_order_branch b of None \<Rightarrow> ''None'' | Some x \<Rightarrow> x)
      (sr_remaining_quantity b) price w = (r2, w1)" by fastforce
  obtain x d2 where st: "store_pending_marker (bo_client_order_id r) bar now d1 = (Inr x, d2)"
    using pending_key_nonblank by (simp add: store_pending_marker_def set_runtime_metadata_def require_nonempty_def)
  have m1: "marked c d \<longrightarrow> marked c d1" using preserves_run [OF marked_order_ops(1) _ up] by blast
  have m2: "marked c d1 \<longrightarrow> marked c d2" using preserves_run [OF marked_store _ st] by blast
  have m3: "marked (bo_client_order_id r) d2"
    using metadata_value_set [OF pending_key_nonblank] marker_of_object st by (metis marked_def snd_conv store_pending_marker_def)
  have fresh: "k + acks c (oml_actions l) = 0" if "bo_client_order_id r = c" using assms that by (auto simp: once_def s)
  show ?thesis
    using assms(1) m1 m2 m3 fresh up ca st Inr
    by (cases r1; cases r2; cases "bo_client_order_id r = c")
      (auto simp: request_cancel_def s op_bind_def on_db_def on_world_def on_locals_def once_def acks_append acks_def om_act_def)
qed

lemma once_cancel:
  assumes "once c k s" "bo_client_order_id r = c \<Longrightarrow> \<not> marked c (fst (snd s))"
  shows "once c k (snd (catching (request_cancel cancel r b bar why now) (\<lambda>e. give_up r (f e) why' now clk) s))"
proof -
  obtain q s1 where q: "request_cancel cancel r b bar why now s = (q, s1)" by (rule prod.exhaust)
  have "once c k s1" using once_request [OF assms] q by (metis snd_conv)
  then have "once c k (snd (give_up r e why' now clk s1))" for e by (rule preservesD [OF once_give_up])
  with \<open>once c k s1\<close> q show ?thesis by (cases q) (simp_all add: catching_def)
qed

lemma once_active:
  assumes "once c k s" "bo_client_order_id r = c \<Longrightarrow> \<not> marked c (fst (snd s))"
  shows "once c k (snd (manage_active cal cancel cfg bar now clk r b s))"
proof -
  have give: "once c k (snd (give_up r e why now clk s))" for e why by (rule preservesD [OF once_give_up assms(1)])
  show ?thesis
    using give once_cancel [OF assms] assms(1)
    by (auto simp: manage_active_def op_ret_def op_fail_def split: option.split sum.split prod.split)
qed

lemma once_row: "preserves (once c k) (manage_row cal cancel cfg bar now clk bs r)"
proof (rule preservesI)
  fix s :: "'a om_state"
  assume s: "once c k s"
  let ?i = "bo_client_order_id r"
  let ?m = "marker_of (metadata_value (fst (snd s)) (pending_key ?i))"
  have read: "on_db (pending_marker ?i) s = (Inr ?m, s)"
    using pending_key_nonblank
    by (simp add: on_db_def pending_marker_def get_runtime_metadata_def require_nonempty_def op_bind_def op_ret_def split: prod.split)
  have pend: "preserves (once c k) (on_locals (count_marker j))" for j
    by (rule once_on_locals) (simp add: count_marker_def split: marker_result.split)
  show "once c k (snd (manage_row cal cancel cfg bar now clk bs r s))"
  proof (cases ?m)
    case (Some m)
    have "preserves (once c k) (op_bind (on_db (reconcile_pending_marker r (by_broker_id bs (order_id_of r)) now m))
        (\<lambda>j. on_locals (count_marker j)))"
      by (intro preserves_bind once_on_db marked_marker pend)
    from preservesD [OF this s] read Some show ?thesis
      by (simp add: manage_row_def op_bind_def [of "on_db (pending_marker ?i)"] Let_def)
  next
    case None
    have act: "once c k (snd (manage_active cal cancel cfg bar now clk r b s))" for b
      using None by (intro once_active [OF s]) (auto simp: marked_def)
    from None read s preservesD [OF pend s] act show ?thesis
      by (simp add: manage_row_def op_bind_def [of "on_db (pending_marker ?i)"] Let_def op_ret_def)
  qed
qed

lemma once_rows: "preserves (once c k) (manage_rows cal cancel cfg bar now clk bs rs)"
  by (induction rs) (auto intro: preserves_ret preserves_bind once_row)

lemma once_manage:
  assumes "k \<le> 1" "0 < k \<Longrightarrow> marked c d"
  shows "once c k (snd (manage_stale_orders cal today cancel cfg bar now clk go ge (d, w)))"
proof -
  obtain q w1 where q: "supplied go ge today w = (q, w1)" by fastforce
  have start: "once c k (om_start, d, w1)" using assms by (simp add: once_def acks_def om_start_def)
  have blk: "preserves (once c k) (op_bind (on_db (block_new_entries why clk)) (\<lambda>_. op_ret unavailable_report))" for why
    by (intro preserves_bind once_on_db marked_block preserves_ret)
  have rows: "preserves (once c k) (op_bind (manage_rows cal cancel cfg bar now clk bs rs) (\<lambda>_. close_pass n clk))" for bs rs n
    unfolding close_pass_def
    by (intro preserves_bind once_rows keeps_with_locals preserves_if once_on_db marked_block preserves_ret)
  show ?thesis using q preservesD [OF blk start] preservesD [OF rows start] by (cases q) (simp_all add: manage_stale_orders_def)
qed

text \<open>
  Runs of the service loop over the order book: management passes, reconciliation passes and ledger steps in any order, with any broker
  data, times and settings, also passes that raise. The actions of all management passes are collected.
\<close>

inductive passes :: "db \<times> 'w \<Rightarrow> om_action list \<Rightarrow> db \<times> 'w \<Rightarrow> bool" for s0 where
  no_pass: "passes s0 [] s0"
| management: "passes s0 as (d, w) \<Longrightarrow>
    manage_stale_orders cal today (cancel :: string \<Rightarrow> string \<Rightarrow> int \<Rightarrow> int \<Rightarrow> 'w \<Rightarrow> cancel_result result \<times> 'w)
      cfg bar now clk go ge (d, w) = (r, l, d', w') \<Longrightarrow> passes s0 (as @ oml_actions l) (d', w')"
| reconciliation: "passes s0 as (d, w) \<Longrightarrow>
    reconcile_broker_state orders snapshot now clk bo be ac ae (d, w) = (r, d', w') \<Longrightarrow> passes s0 as (d', w')"
| ledger: "passes s0 as (d, w) \<Longrightarrow> ledger_step d d' \<Longrightarrow> passes s0 as (d', w)"

lemma marked_ledger_step: "ledger_step d d' \<Longrightarrow> marked c d \<Longrightarrow> marked c d'"
proof (erule ledger_step.cases)
  have claim: "preserves (marked c) (claim_order_intent i g sy sd q pr t)" for i g sy sd q pr t
    unfolding claim_order_intent_def Let_def
    by (intro preserves_rules preservesI) (auto simp: marked_def metadata_value_def insert_or_ignore_def)
  have submit: "preserves (marked c) (mark_order_submitting i t)" "preserves (marked c) (record_order_submission i b t)" for i b t
    unfolding mark_order_submitting_def record_order_submission_def by (intro preserves_rules marked_update_orders)+
  show "marked c d \<Longrightarrow> marked c d'" if "d = e" "d' = snd (claim_order_intent i g sy sd q pr t e)" for e i g sy sd q pr t
    using that preservesD [OF claim] by simp
  show "marked c d \<Longrightarrow> marked c d'" if "d = e" "d' = snd (mark_order_submitting i t e)" for e i t
    using that preservesD [OF submit(1)] by simp
  show "marked c d \<Longrightarrow> marked c d'" if "d = e" "d' = snd (record_order_submission i b t e)" for e i b t
    using that preservesD [OF submit(2)] by simp
qed (auto intro: preservesD [OF marked.keeps_unknown] preservesD [OF marked.keeps_status] preservesD [OF marked.keeps_fill]
    preservesD [OF marked.keeps_materialize])

lemma passes_once: "passes s0 as s \<Longrightarrow> acks c as \<le> 1 \<and> (0 < acks c as \<longrightarrow> marked c (fst s))"
proof (induction rule: passes.induct)
  case no_pass
  then show ?case by (simp add: acks_def)
next
  case (management as d w cal today cancel cfg bar now clk go ge r l d' w')
  then have "once c (acks c as) (snd (manage_stale_orders cal today cancel cfg bar now clk go ge (d, w)))"
    by (intro once_manage) auto
  with management.hyps(2) show ?case by (simp add: once_def acks_append)
next
  case (reconciliation as d w orders snapshot now clk bo be ac ae r d' w')
  then show ?case using marked.keeps_reconcile [of c d orders snapshot now clk bo be ac ae w] by auto
next
  case (ledger as d w d')
  then show ?case using marked_ledger_step by auto
qed



text \<open>The sample order as the broker still has it, four of ten filled, and a cancel call that is always acknowledged; the world counts the calls.\<close>

definition still_working :: status_record where
  "still_working = \<lparr>sr_order_number = ''b1'', sr_symbol = ''005930'', sr_side = Some BUY, sr_ordered_quantity = 10,
     sr_filled_quantity = 4, sr_remaining_quantity = 6, sr_order_price = Some (Fin 70000), sr_average_fill_price = None,
     sr_status = KS_PARTIALLY_FILLED, sr_order_time = None, sr_order_date = None, sr_order_branch = Some ''06010'',
     sr_original_order_number = None, sr_exchange_id = None, sr_raw = []\<rparr>"

definition acked :: "string \<Rightarrow> string \<Rightarrow> int \<Rightarrow> int \<Rightarrow> nat \<Rightarrow> cancel_result result \<times> nat" where
  "acked i br q p n = (Inr \<lparr>cr_order_number = None, cr_original_order_number = i, cr_status = ''cancel_requested'', cr_tr_id = ''TTTC0013U'',
     cr_raw = []\<rparr>, Suc n)"

definition eager :: om_config where
  "eager = \<lparr>omc_buy_ttl = Fin 0, omc_sell_ttl = Fin 0\<rparr>"

lemma iso_sample_time: "isoformat sample_time = ''2026-01-05T09:30:00+09:00''"
  by code_simp

lemma sample_stale:
  assumes "bo_side r = BUY" "bo_submitted_at r = None" "bo_updated_at r = isoformat sample_time"
  shows "is_stale None r sample_time eager = Inr (True, ''ttl_buy'')"
proof -
  have "lower (side_str BUY) = ''buy''" by code_simp
  moreover have "isoformat sample_time \<noteq> []" by (simp add: iso_sample_time)
  moreover have "fle (Fin 0) (fmax (Fin 0) x) = True" for x by (cases x) (simp_all add: fmax_def fle_def)
  ultimately show ?thesis
    using assms sample_open fromisoformat_isoformat_wf [OF valid_sample_time]
    by (simp add: is_stale_def age_seconds_def eager_def dt_sub_def tz_compatible_def str_or_def)
qed

lemmas sample_row_simps = sample_order_def still_working_def

lemma sample_pending: "pending_marker c sample_ledger = (Inr None, sample_ledger)"
  using pending_key_nonblank
  by (simp add: pending_marker_def get_runtime_metadata_def require_nonempty_def op_bind_def op_ret_def metadata_value_def
      sample_ledger_simps marker_of_def fetchone_def sample_ledger_def empty_db_def)

lemma sample_update:
  "\<exists>r d1. update_broker_order_status ''c1'' CANCEL_PENDING (Some ''b1'') (Some 4) None None sample_time None sample_ledger = (Inr r, d1)"
  by (auto simp: update_broker_order_status_def update_orders_def ledger_eval)

lemma sample_active:
  "manage_row None cancel eager None sample_time sample_time [still_working] sample_order (om_start, sample_ledger, n)
    = catching (request_cancel cancel sample_order still_working None ''ttl_buy'' sample_time)
        (\<lambda>e. give_up sample_order (''cancel_ambiguous:'' @ exc_name e) ''cancel_ambiguous'' sample_time sample_time) (om_start, sample_ledger, n)"
proof -
  have "is_stale None sample_order sample_time eager = Inr (True, ''ttl_buy'')"
    by (rule sample_stale) (simp_all add: sample_order_def iso_sample_time)
  moreover have "valid_cancel_fields still_working = None" "same_order sample_order still_working"
    "by_broker_id [still_working] (order_id_of sample_order) = Some still_working"
    "strip (order_id_of sample_order) \<noteq> []"
    by (simp_all add: valid_cancel_fields_def still_working_def same_order_def broker_side_def by_broker_id_def order_id_of_def sample_order_def string_eval str_or_def)
  moreover have "bo_status sample_order = ACKNOWLEDGED" "sr_status still_working = KS_PARTIALLY_FILLED" by (simp_all add: sample_row_simps)
  ultimately show ?thesis
    by (simp add: manage_row_def manage_active_def op_bind_def on_db_def sample_pending DO_NOT_RECALL_STATUSES_def ACTIVE_STATUSES_def)
qed


end
