(* ===== verification/OrderClient.thy ===== *)
theory OrderClient
  imports OrderStatus
begin

text \<open>
  The order client (\<open>KisOrderClient\<close> of \<open>broker/kis_order.py\<close>) on the paced session
  (\<open>broker/kis_rate_limit.py\<close>). Clock, sleep and the underlying session are parameters on an arbitrary world; the limiter's two
  tables are part of the state, and one call runs under its lock. Shown: a read is tried at most three times and a
  write exactly once, so one submission sends at most one order whatever the transport does.
\<close>

section \<open>Pacing\<close>

definition rest_interval :: "kis_env \<Rightarrow> pyfloat" where
  "rest_interval env = (if env = ENV_DEMO then fl (1 / 2) else fl (1 / 20))"

definition KIS_TRANSIENT_READ_CODES :: "string list" where
  "KIS_TRANSIENT_READ_CODES = [''EGW00201'', ''EGW00300'']"

definition KIS_READ_MAX_RETRIES :: nat where
  "KIS_READ_MAX_RETRIES = 2"

record limiter =
  rl_last_call :: "kis_env \<Rightarrow> pyfloat option"
  rl_not_before :: "kis_env \<Rightarrow> pyfloat option"

record 'w transport =
  tp_clock :: "'w \<Rightarrow> pyfloat \<times> 'w"
  tp_sleep :: "pyfloat \<Rightarrow> 'w \<Rightarrow> 'w"
  tp_get :: "http_request \<Rightarrow> 'w \<Rightarrow> response result \<times> 'w"
  tp_post :: "http_request \<Rightarrow> 'w \<Rightarrow> response result \<times> 'w"

definition limiter_wait :: "'w transport \<Rightarrow> kis_env \<Rightarrow> limiter \<times> 'w \<Rightarrow> limiter \<times> 'w" where
  "limiter_wait t env s = (case s of (l, w) \<Rightarrow>
     let (now, w1) = tp_clock t w;
         interval_remaining = (case rl_last_call l env of None \<Rightarrow> Fin 0
           | Some previous \<Rightarrow> fsub (rest_interval env) (fsub now previous));
         cooldown_remaining = fsub (case rl_not_before l env of None \<Rightarrow> Fin 0 | Some x \<Rightarrow> x) now;
         remaining = fmax (fmax (Fin 0) interval_remaining) cooldown_remaining;
         w2 = (if flt (Fin 0) remaining then tp_sleep t remaining w1 else w1);
         (started, w3) = tp_clock t w2
     in (l\<lparr>rl_last_call := (rl_last_call l)(env := Some started)\<rparr>, w3))"

definition limiter_penalize :: "'w transport \<Rightarrow> kis_env \<Rightarrow> pyfloat \<Rightarrow> limiter \<times> 'w \<Rightarrow> limiter \<times> 'w" where
  "limiter_penalize t env seconds s = (case s of (l, w) \<Rightarrow>
     let (now, w1) = tp_clock t w;
         current = (case rl_not_before l env of None \<Rightarrow> Fin 0 | Some x \<Rightarrow> x)
     in (l\<lparr>rl_not_before := (rl_not_before l)(env := Some (fmax current (fadd now seconds)))\<rparr>, w1))"

definition is_transient_read_response :: "response \<Rightarrow> bool" where
  "is_transient_read_response r =
     (let msg_cd = (case rs_body r of JsonObject p \<Rightarrow>
            (case map_of (pl_fields p) ''msg_cd'' of None \<Rightarrow> [] | Some v \<Rightarrow> py_str v) | _ \<Rightarrow> [])
      in 500 \<le> rs_status r \<or> msg_cd \<in> set KIS_TRANSIENT_READ_CODES)"

text \<open>\<open>requests.ConnectionError\<close>, \<open>requests.Timeout\<close> and the classes below them.\<close>

definition connection_failure :: "exc \<Rightarrow> bool" where
  "connection_failure e = (case e of BrokerError name _ \<Rightarrow>
     name \<in> {''ConnectionError'', ''Timeout'', ''ConnectTimeout'', ''ReadTimeout'', ''ProxyError'', ''SSLError''}
   | _ \<Rightarrow> False)"

text \<open>The rounds that are left: the last one answers or raises.\<close>

fun paced_get_loop :: "'w transport \<Rightarrow> kis_env \<Rightarrow> nat \<Rightarrow> http_request \<Rightarrow> limiter \<times> 'w \<Rightarrow> response result \<times> limiter \<times> 'w" where
  "paced_get_loop t env 0 rq s = (Inl (AssertionError ''unreachable''), s)"
| "paced_get_loop t env (Suc left) rq s = (case limiter_wait t env s of (l, w) \<Rightarrow>
     (case tp_get t rq w of
        (Inl e, w') \<Rightarrow>
          if \<not> connection_failure e \<or> left = 0 then (Inl e, l, w')
          else paced_get_loop t env left rq (limiter_penalize t env (Fin 1) (l, w'))
      | (Inr r, w') \<Rightarrow>
          if \<not> is_transient_read_response r \<or> left = 0 then (Inr r, l, w')
          else paced_get_loop t env left rq (limiter_penalize t env (Fin 1) (l, w'))))"

definition paced_get :: "'w transport \<Rightarrow> kis_env \<Rightarrow> (limiter \<times> 'w) session" where
  "paced_get t env rq = paced_get_loop t env (KIS_READ_MAX_RETRIES + 1) rq"

definition paced_post :: "'w transport \<Rightarrow> kis_env \<Rightarrow> (limiter \<times> 'w) session" where
  "paced_post t env rq s = (case limiter_wait t env s of (l, w) \<Rightarrow> (case tp_post t rq w of (r, w') \<Rightarrow> (r, l, w')))"

definition paced_request :: "('w \<Rightarrow> response result \<times> 'w) \<Rightarrow> 'w transport \<Rightarrow> kis_env \<Rightarrow> limiter \<times> 'w \<Rightarrow>
  response result \<times> limiter \<times> 'w" where
  "paced_request session_request t env s =
     (case limiter_wait t env s of (l, w) \<Rightarrow> (case session_request w of (r, w') \<Rightarrow> (r, l, w')))"

section \<open>Submitting an order\<close>

definition ORDER_CASH_PATH :: string where
  "ORDER_CASH_PATH = ''/uapi/domestic-stock/v1/trading/order-cash''"

definition HASHKEY_PATH :: string where
  "HASHKEY_PATH = ''/uapi/hashkey''"

record order_result =
  or_symbol :: string
  or_side :: side
  or_quantity :: int
  or_price :: pyfloat
  or_order_type :: kis_order_type
  or_tr_id :: string
  or_broker_order_id :: "string option"
  or_raw :: jrow

definition order_secrets :: "kis_client \<Rightarrow> string list" where
  "order_secrets c = [kc_app_key c, kc_app_secret c, kc_access_token c]"

definition build_headers :: "kis_client \<Rightarrow> kis_request \<Rightarrow> string option \<Rightarrow> (string \<times> string) list" where
  "build_headers c req hashkey = [(''content-type'', ''application/json; charset=utf-8''),
     (''authorization'', ''Bearer '' @ kc_access_token c), (''appkey'', kc_app_key c), (''appsecret'', kc_app_secret c),
     (''tr_id'', order_tr_id (kc_env c) (kr_side req)), (''custtype'', ''P'')]
     @ (case str_or hashkey None of None \<Rightarrow> [] | Some h \<Rightarrow> [(''hashkey'', h)])"

text \<open>\<open>response.json()\<close> followed by \<open>.get\<close>.\<close>

definition json_object :: "response \<Rightarrow> payload result" where
  "json_object r = (case rs_body r of JsonObject p \<Rightarrow> Inr p
     | NotJson \<Rightarrow> Inl (BrokerError ''JSONDecodeError'' []) | NotObject \<Rightarrow> Inl (BrokerError ''AttributeError'' []))"

definition issue_hashkey :: "kis_client \<Rightarrow> 'w session \<Rightarrow> (string \<times> string) list \<Rightarrow> 'w \<Rightarrow> string result \<times> 'w" where
  "issue_hashkey c session_post fs = op_bind (session_post \<lparr>rq_url = api_url (kc_env c) HASHKEY_PATH,
       rq_headers = [(''content-type'', ''application/json; charset=utf-8''), (''appkey'', kc_app_key c),
         (''appsecret'', kc_app_secret c)],
       rq_fields = fs\<rparr>)
     (\<lambda>r w. (rbind (raise_for_kis_response r (order_secrets c)) (\<lambda>_. rbind (json_object r) (\<lambda>p.
        let hashkey = str_or_empty (map_of (pl_fields p) ''HASH'') in
        guard_else (hashkey = []) (ValueError ''KIS hashkey response did not contain HASH'') (Inr hashkey))), w))"

definition order_answer :: "kis_client \<Rightarrow> kis_request \<Rightarrow> response \<Rightarrow> order_result result" where
  "order_answer c req r = rbind (raise_for_kis_response r (order_secrets c)) (\<lambda>_. rbind (json_object r) (\<lambda>p.
     let rt_cd = (case map_of (pl_fields p) ''rt_cd'' of None \<Rightarrow> ''0'' | Some v \<Rightarrow> py_str v);
         msg1 = (case map_of (pl_fields p) ''msg1'' of None \<Rightarrow> ''unknown error'' | Some v \<Rightarrow> py_str v);
         output = get_object p ''output'';
         upper_id = str_or_empty (map_of output ''ODNO'');
         order_id = (if upper_id \<noteq> [] then upper_id else str_or_empty (map_of output ''odno''))
     in guard_else (rt_cd \<noteq> ''0'') (RuntimeError (''KIS order request failed: '' @ msg1))
       (Inr \<lparr>or_symbol = kr_symbol req, or_side = kr_side req, or_quantity = kr_quantity req, or_price = kr_price req,
             or_order_type = kr_order_type req, or_tr_id = order_tr_id (kc_env c) (kr_side req),
             or_broker_order_id = (if order_id = [] then None else Some order_id), or_raw = output\<rparr>)))"

definition order_post :: "kis_client \<Rightarrow> kis_request \<Rightarrow> (string \<times> string) list \<Rightarrow> string option \<Rightarrow> http_request" where
  "order_post c req fs hashkey = \<lparr>rq_url = api_url (kc_env c) ORDER_CASH_PATH,
     rq_headers = build_headers c req hashkey, rq_fields = fs\<rparr>"

definition submit_order :: "kis_client \<Rightarrow> bool \<Rightarrow> 'w session \<Rightarrow> kis_request \<Rightarrow> 'w \<Rightarrow> order_result result \<times> 'w" where
  "submit_order c include_hashkey session_post req w =
     (case build_order_body (kc_account_no c) (kc_product_code c) req of
        Inl e \<Rightarrow> (Inl e, w)
      | Inr fs \<Rightarrow> op_bind (if include_hashkey then op_bind (issue_hashkey c session_post fs) (\<lambda>h. op_ret (Some h))
                          else op_ret None)
          (\<lambda>hashkey. op_bind (session_post (order_post c req fs hashkey))
             (\<lambda>r w. (order_answer c req r, w))) w)"

section \<open>At most one order leaves\<close>

text \<open>A transport that writes down what it sends; \<open>posts\<close> and \<open>gets\<close> are the two logs.\<close>

definition logged :: "'w transport \<Rightarrow> (http_request list \<times> http_request list \<times> 'w) transport" where
  "logged t = \<lparr>tp_clock = (\<lambda>(posts, gets, w). case tp_clock t w of (x, w') \<Rightarrow> (x, posts, gets, w')),
     tp_sleep = (\<lambda>x (posts, gets, w). (posts, gets, tp_sleep t x w)),
     tp_get = (\<lambda>rq (posts, gets, w). case tp_get t rq w of (r, w') \<Rightarrow> (r, posts, gets @ [rq], w')),
     tp_post = (\<lambda>rq (posts, gets, w). case tp_post t rq w of (r, w') \<Rightarrow> (r, posts @ [rq], gets, w'))\<rparr>"

definition posts_of :: "limiter \<times> http_request list \<times> http_request list \<times> 'w \<Rightarrow> http_request list" where
  "posts_of s = fst (snd s)"

definition gets_of :: "limiter \<times> http_request list \<times> http_request list \<times> 'w \<Rightarrow> http_request list" where
  "gets_of s = fst (snd (snd s))"

lemma wait_logs [simp]:
  "posts_of (limiter_wait (logged t) env s) = posts_of s" "gets_of (limiter_wait (logged t) env s) = gets_of s"
  by (cases s, simp add: limiter_wait_def logged_def posts_of_def gets_of_def Let_def split: prod.split)+

lemma penalize_logs [simp]:
  "posts_of (limiter_penalize (logged t) env x s) = posts_of s" "gets_of (limiter_penalize (logged t) env x s) = gets_of s"
  by (cases s, simp add: limiter_penalize_def logged_def posts_of_def gets_of_def Let_def split: prod.split)+

lemma transport_logs:
  "tp_get (logged t) rq w = (r, w') \<Longrightarrow> posts_of (l, w') = posts_of (l, w) \<and> gets_of (l, w') = gets_of (l, w) @ [rq]"
  "tp_post (logged t) rq w = (r, w') \<Longrightarrow> posts_of (l, w') = posts_of (l, w) @ [rq] \<and> gets_of (l, w') = gets_of (l, w)"
  by (cases w, auto simp: logged_def posts_of_def gets_of_def split: prod.splits)+

lemma post_logs:
  assumes "paced_post (logged t) env rq s = (r, s')"
  shows "posts_of s' = posts_of s @ [rq] \<and> gets_of s' = gets_of s"
proof -
  obtain l w where wt: "limiter_wait (logged t) env s = (l, w)" by (rule prod.exhaust)
  obtain a w1 where g: "tp_post (logged t) rq w = (a, w1)" by (rule prod.exhaust)
  from assms wt g have "s' = (l, w1)" by (simp add: paced_post_def)
  with transport_logs(2) [OF g, of l] wait_logs [of t env s] wt show ?thesis by simp
qed

lemma get_round:
  assumes "paced_get_loop (logged t) env (Suc n) rq s = (r, s')"
  obtains s1 where "posts_of s1 = posts_of s" "gets_of s1 = gets_of s @ [rq]"
    and "s' = s1 \<or> n \<noteq> 0 \<and> paced_get_loop (logged t) env n rq (limiter_penalize (logged t) env (Fin 1) s1) = (r, s')"
proof -
  obtain l w where wt: "limiter_wait (logged t) env s = (l, w)" by (rule prod.exhaust)
  obtain a w1 where g: "tp_get (logged t) rq w = (a, w1)" by (rule prod.exhaust)
  have "s' = (l, w1)
      \<or> n \<noteq> 0 \<and> paced_get_loop (logged t) env n rq (limiter_penalize (logged t) env (Fin 1) (l, w1)) = (r, s')"
    using assms wt g by (cases a) (auto split: if_splits)
  with transport_logs(1) [OF g, of l] wait_logs [of t env s] wt show thesis by (intro that [of "(l, w1)"]) simp_all
qed

lemma get_loop_logs:
  "paced_get_loop (logged t) env (Suc n) rq s = (r, s') \<Longrightarrow>
   posts_of s' = posts_of s \<and> (\<exists>k\<le>n. gets_of s' = gets_of s @ replicate (Suc k) rq)"
proof (induction n arbitrary: s)
  case 0
  then obtain s1 where "posts_of s1 = posts_of s" "gets_of s1 = gets_of s @ [rq]" "s' = s1"
    using get_round [OF 0] by metis
  then show ?case by simp
next
  case (Suc n)
  obtain s1 where s1: "posts_of s1 = posts_of s" "gets_of s1 = gets_of s @ [rq]"
    and "s' = s1 \<or> paced_get_loop (logged t) env (Suc n) rq (limiter_penalize (logged t) env (Fin 1) s1) = (r, s')"
    using get_round [OF Suc.prems] by metis
  then consider "s' = s1" | "paced_get_loop (logged t) env (Suc n) rq (limiter_penalize (logged t) env (Fin 1) s1) = (r, s')"
    by blast
  then show ?case
  proof cases
    case 1
    with s1 show ?thesis by (intro conjI exI [of _ 0]) simp_all
  next
    case 2
    from Suc.IH [OF this] s1 obtain k where "k \<le> n" "posts_of s' = posts_of s"
      "gets_of s' = (gets_of s @ [rq]) @ replicate (Suc k) rq" by auto
    then show ?thesis by (intro conjI exI [of _ "Suc k"]) simp_all
  qed
qed

lemma paced_get_logs:
  assumes "paced_get (logged t) env rq u = (x, u')"
  shows "posts_of u' = posts_of u \<and> (\<exists>k. 1 \<le> k \<and> k \<le> 3 \<and> gets_of u' = gets_of u @ replicate k rq)"
proof -
  have "paced_get_loop (logged t) env (Suc 2) rq u = (x, u')"
    using assms by (simp add: paced_get_def KIS_READ_MAX_RETRIES_def)
  from get_loop_logs [OF this] obtain k where "posts_of u' = posts_of u" "k \<le> 2"
    "gets_of u' = gets_of u @ replicate (Suc k) rq" by blast
  then show ?thesis by (intro conjI exI [of _ "Suc k"]) simp_all
qed

text \<open>The order requests in a log.\<close>

definition orders_in :: "kis_client \<Rightarrow> http_request list \<Rightarrow> http_request list" where
  "orders_in c rqs = filter (\<lambda>rq. rq_url rq = api_url (kc_env c) ORDER_CASH_PATH) rqs"

lemma other_url: "api_url env HASHKEY_PATH \<noteq> api_url env ORDER_CASH_PATH"
  by (simp add: api_url_def HASHKEY_PATH_def ORDER_CASH_PATH_def)

lemma hashkey_logs:
  assumes "issue_hashkey c (paced_post (logged t) env) fs u = (x, u')"
  shows "orders_in c (posts_of u') = orders_in c (posts_of u) \<and> gets_of u' = gets_of u"
proof -
  obtain a u1 where p: "paced_post (logged t) env \<lparr>rq_url = api_url (kc_env c) HASHKEY_PATH,
     rq_headers = [(''content-type'', ''application/json; charset=utf-8''), (''appkey'', kc_app_key c),
       (''appsecret'', kc_app_secret c)], rq_fields = fs\<rparr> u = (a, u1)" by (rule prod.exhaust)
  with assms have "u' = u1" by (cases a) (auto simp: issue_hashkey_def op_bind_def)
  with post_logs [OF p] other_url show ?thesis by (simp add: orders_in_def)
qed

lemma submit_logs:
  assumes "submit_order c hk (paced_post (logged t) (kc_env c)) req s = (r, s')"
    and fs: "build_order_body (kc_account_no c) (kc_product_code c) req = Inr fs"
  shows "gets_of s' = gets_of s
    \<and> ((\<exists>e. r = Inl e) \<and> orders_in c (posts_of s') = orders_in c (posts_of s)
       \<or> (\<exists>h. orders_in c (posts_of s') = orders_in c (posts_of s) @ [order_post c req fs h]))"
proof -
  let ?post = "paced_post (logged t) (kc_env c)"
  define issue where "issue = (if hk then op_bind (issue_hashkey c ?post fs) (\<lambda>h. op_ret (Some h)) else op_ret None)"
  obtain h s1 where i: "issue s = (h, s1)" by (rule prod.exhaust)
  have s1: "orders_in c (posts_of s1) = orders_in c (posts_of s)" "gets_of s1 = gets_of s"
    using i hashkey_logs [of c t "kc_env c" fs s]
    by (auto simp: issue_def op_bind_def op_ret_def split: if_splits prod.splits sum.splits)
  show ?thesis
  proof (cases h)
    case (Inl e)
    with assms i have "s' = s1" "r = Inl e" by (auto simp: submit_order_def issue_def [symmetric] op_bind_def)
    with s1 show ?thesis by simp
  next
    case (Inr hashkey)
    obtain a s2 where p: "?post (order_post c req fs hashkey) s1 = (a, s2)" by (rule prod.exhaust)
    with assms i Inr have "s' = s2"
      by (cases a) (auto simp: submit_order_def issue_def [symmetric] op_bind_def)
    with post_logs [OF p] s1 show ?thesis by (simp add: orders_in_def order_post_def exI [of _ hashkey])
  qed
qed

text \<open>
  (C38) An order leaves at most once. Whatever the transport answers, one \<open>submit_order\<close> posts at most one
  order-cash request; when it returns a result exactly one was posted, carrying the body built from the request and
  the transaction id of the client's environment and the request's side. A read through the paced session is sent once,
  twice or three times and posts nothing.
\<close>

theorem order_posted_at_most_once:
  assumes "submit_order c hk (paced_post (logged t) (kc_env c)) req s = (r, s')"
    and "paced_get (logged t) (kc_env c) rq u = (x, u')"
  shows "(\<exists>sent. orders_in c (posts_of s') = orders_in c (posts_of s) @ sent \<and> length sent \<le> 1
      \<and> (isl r \<or> (\<exists>fs h. build_order_body (kc_account_no c) (kc_product_code c) req = Inr fs
            \<and> sent = [order_post c req fs h]
            \<and> map_of (rq_headers (order_post c req fs h)) ''tr_id'' = Some (order_tr_id (kc_env c) (kr_side req)))))
    \<and> gets_of s' = gets_of s
    \<and> posts_of u' = posts_of u \<and> (\<exists>k. 1 \<le> k \<and> k \<le> 3 \<and> gets_of u' = gets_of u @ replicate k rq)"
proof (cases "build_order_body (kc_account_no c) (kc_product_code c) req")
  case (Inl e)
  with assms(1) have "s' = s" "r = Inl e" by (auto simp: submit_order_def)
  with paced_get_logs [OF assms(2)] show ?thesis by simp
next
  case (Inr fs)
  have tr: "map_of (rq_headers (order_post c req fs h)) ''tr_id'' = Some (order_tr_id (kc_env c) (kr_side req))" for h
    by (simp add: order_post_def build_headers_def)
  from submit_logs [OF assms(1) Inr] consider e where "gets_of s' = gets_of s" "r = Inl e"
      "orders_in c (posts_of s') = orders_in c (posts_of s)"
    | h where "gets_of s' = gets_of s" "orders_in c (posts_of s') = orders_in c (posts_of s) @ [order_post c req fs h]"
    by blast
  then show ?thesis
  proof cases
    case 1
    then show ?thesis using paced_get_logs [OF assms(2)] by simp
  next
    case 2
    then have "orders_in c (posts_of s') = orders_in c (posts_of s) @ [order_post c req fs h]
      \<and> length [order_post c req fs h] \<le> 1" by simp
    with 2 tr Inr paced_get_logs [OF assms(2)] show ?thesis by blast
  qed
qed

definition accepting :: "unit transport" where
  "accepting = \<lparr>tp_clock = (\<lambda>w. (Fin 0, w)), tp_sleep = (\<lambda>x w. w),
     tp_get = (\<lambda>rq w. (Inl (BrokerError ''Timeout'' []), w)),
     tp_post = (\<lambda>rq w. (Inr \<lparr>rs_status = 200, rs_headers = [], rs_body = JsonObject \<lparr>pl_fields = [(''HASH'', JStr ''h'')],
        pl_nested = [(''output'', JObject [(''ODNO'', JStr ''17'')])]\<rparr>\<rparr>, w))\<rparr>"

definition sample_client :: kis_client where
  "sample_client = \<lparr>kc_env = ENV_DEMO, kc_app_key = ''key'', kc_app_secret = ''secret'', kc_access_token = ''token'',
     kc_account_no = ''12345678'', kc_product_code = ''01''\<rparr>"

definition sample_buy :: kis_request where
  "sample_buy = \<lparr>kr_symbol = ''005930'', kr_side = BUY, kr_quantity = 3, kr_price = Fin 70100,
     kr_order_type = ORDER_LIMIT, kr_exchange_id = ''KRX'', kr_sell_type = [], kr_condition_price = []\<rparr>"

definition fresh_session :: "limiter \<times> http_request list \<times> http_request list \<times> unit" where
  "fresh_session = (\<lparr>rl_last_call = (\<lambda>_. None), rl_not_before = (\<lambda>_. None)\<rparr>, [], [], ())"

definition sample_read :: http_request where
  "sample_read = \<lparr>rq_url = [], rq_headers = [], rq_fields = []\<rparr>"

theorem order_posted_at_most_once_witness:
  "\<not> isl (fst (submit_order sample_client False (paced_post (logged accepting) ENV_DEMO) sample_buy fresh_session))
   \<and> length (orders_in sample_client (posts_of
       (snd (submit_order sample_client False (paced_post (logged accepting) ENV_DEMO) sample_buy fresh_session)))) = 1
   \<and> length (gets_of (snd (paced_get (logged accepting) ENV_DEMO sample_read fresh_session))) \<le> 3"
proof -
  let ?run = "submit_order sample_client False (paced_post (logged accepting) ENV_DEMO) sample_buy fresh_session"
  let ?get = "paced_get (logged accepting) ENV_DEMO sample_read fresh_session"
  have env: "kc_env sample_client = ENV_DEMO" by (simp add: sample_client_def)
  have start: "posts_of fresh_session = []" "gets_of fresh_session = []"
    by (simp_all add: posts_of_def gets_of_def fresh_session_def)
  obtain fs where "build_order_body ''12345678'' ''01'' sample_buy = Inr fs"
    by (simp add: build_order_body_def format_int_def string_eval guard_else_def sample_buy_def)
  then have ok: "\<not> isl (fst ?run)"
    by (simp add: submit_order_def sample_client_def op_bind_def op_ret_def paced_post_def limiter_wait_def logged_def
        accepting_def fresh_session_def Let_def order_answer_def raise_for_kis_response_def json_object_def split: prod.split)
  have "submit_order sample_client False (paced_post (logged accepting) (kc_env sample_client)) sample_buy fresh_session
      = (fst ?run, snd ?run)" "paced_get (logged accepting) (kc_env sample_client) sample_read fresh_session
      = (fst ?get, snd ?get)" by (simp_all add: env)
  note once = order_posted_at_most_once [OF this, unfolded start append_Nil]
  have "orders_in sample_client [] = []" by (simp add: orders_in_def)
  with once ok obtain x where "orders_in sample_client (posts_of (snd ?run)) = [x]" by (metis append_Nil)
  moreover obtain k where "k \<le> 3" "gets_of (snd ?get) = replicate k sample_read" using once by blast
  ultimately show ?thesis using ok by simp
qed

end
