(* ===== verification/Submission.thy ===== *)
theory Submission
  imports OrderClient SafetyGate MarketStore PaperStore
begin

text \<open>
  The write-ahead submission of an order (\<open>pipeline/auto_trade.py\<close>: \<open>_submit_with_ledger\<close>, \<open>_record_execution_audit\<close>). The database of the
  trading process has the order tables, the market tables and the paper tables; a call that leaves the process (the submitter, the AI, a quote, the
  clock, a message) is a function on database and world together, since other processes may write meanwhile. Shown: an order is
  in the ledger before the submitter is called, a client order id reaches the submitter at most once, and an order the
  safety gate refused stays unknown and blocks the exits of its symbol.
\<close>

section \<open>Database and calls\<close>

record store =
  st_db :: db
  st_market :: market_db
  st_paper :: paper_db

type_synonym 'w trading = "store \<times> 'w"
type_synonym ('a, 'w) sop = "'w trading \<Rightarrow> 'a result \<times> 'w trading"

definition db_op :: "'a dbop \<Rightarrow> ('a, 'w) sop" where
  "db_op m s = (case s of (t, w) \<Rightarrow> (case m (st_db t) of (r, d) \<Rightarrow> (r, t\<lparr>st_db := d\<rparr>, w)))"

definition db_read :: "(db \<Rightarrow> 'a) \<Rightarrow> ('a, 'w) sop" where
  "db_read f s = (Inr (f (st_db (fst s))), s)"

definition market_read :: "(market_db \<Rightarrow> 'a result) \<Rightarrow> ('a, 'w) sop" where
  "market_read f s = (f (st_market (fst s)), s)"

definition of_result :: "'a result \<Rightarrow> ('a, 'w) sop" where
  "of_result r s = (r, s)"

text \<open>\<open>try: ... except Exception\<close>, with the handler on the state the body left.\<close>

definition catch :: "('a, 'w) sop \<Rightarrow> (exc \<Rightarrow> ('a, 'w) sop) \<Rightarrow> ('a, 'w) sop" where
  "catch m h s = (case m s of (Inl e, s') \<Rightarrow> h e s' | (Inr x, s') \<Rightarrow> (Inr x, s'))"

section \<open>Submission\<close>

record submission =
  su_submitted :: bool
  su_reason :: string
  su_broker_order_id :: "string option"

definition client_order_id_of :: "side \<Rightarrow> string \<Rightarrow> string" where
  "client_order_id_of sd key = ''ai:'' @ lower (side_str sd) @ '':'' @ key"

definition record_execution_audit ::
  "kis_request \<Rightarrow> string \<Rightarrow> string \<Rightarrow> string \<Rightarrow> string option \<Rightarrow> datetime \<Rightarrow> string \<Rightarrow> bool dbop" where
  "record_execution_audit req signal_id reason status broker_order_id created_at client_order_id =
     (let c = (if client_order_id = [] then client_order_id_of (kr_side req) signal_id else client_order_id) in
      record_broker_order_audit (''broker-audit:'' @ c @ '':'' @ status) (Some signal_id) (kr_symbol req) (side_str (kr_side req))
        (kr_quantity req) (kr_price req) status reason broker_order_id created_at)"

text \<open>\<open>f"{type(exc).__name__}: {exc}"[:500]\<close>\<close>

definition error_text :: "exc \<Rightarrow> string" where
  "error_text e = take 500 (exc_name e @ '': '' @ exc_text e)"

definition not_acknowledged ::
  "kis_request \<Rightarrow> string \<Rightarrow> string \<Rightarrow> datetime \<Rightarrow> string \<Rightarrow> string \<Rightarrow> (submission, 'w) sop" where
  "not_acknowledged req signal_id reason created_at c why =
     op_bind (db_op (mark_order_unknown c (Some why) created_at)) (\<lambda>_.
     op_bind (db_op (record_execution_audit req signal_id reason ''UNKNOWN'' None created_at c)) (\<lambda>_.
       op_ret \<lparr>su_submitted = False, su_reason = ''order_unknown'', su_broker_order_id = None\<rparr>))"

definition acknowledged ::
  "kis_request \<Rightarrow> string \<Rightarrow> string \<Rightarrow> datetime \<Rightarrow> string \<Rightarrow> string \<Rightarrow> (submission, 'w) sop" where
  "acknowledged req signal_id reason created_at c broker_id =
     op_bind (db_op (record_order_submission c broker_id created_at)) (\<lambda>_.
     op_bind (db_op (record_execution_audit req signal_id reason ''ACKNOWLEDGED'' (Some broker_id) created_at c)) (\<lambda>_.
       op_ret \<lparr>su_submitted = True, su_reason = reason, su_broker_order_id = Some broker_id\<rparr>))"

text \<open>The call and its three outcomes: it raises, it answers without an order number, or it answers with one.\<close>

definition call_submitter ::
  "(kis_request \<Rightarrow> (order_result, 'w) sop) \<Rightarrow> kis_request \<Rightarrow> string \<Rightarrow> string \<Rightarrow> datetime \<Rightarrow> string \<Rightarrow> (submission, 'w) sop" where
  "call_submitter submit req signal_id reason created_at c s = (case submit req s of
      (Inl e, s1) \<Rightarrow> not_acknowledged req signal_id reason created_at c (error_text e) s1
    | (Inr broker, s1) \<Rightarrow> (case str_or (or_broker_order_id broker) None of
         None \<Rightarrow> not_acknowledged req signal_id reason created_at c ''missing broker_order_id'' s1
       | Some b \<Rightarrow> acknowledged req signal_id reason created_at c b s1))"

definition ledger_key :: "kis_request \<Rightarrow> string \<Rightarrow> string option \<Rightarrow> string" where
  "ledger_key req signal_id idempotency_key =
     client_order_id_of (kr_side req) (case str_or idempotency_key None of None \<Rightarrow> signal_id | Some k \<Rightarrow> k)"

definition claim_request :: "kis_request \<Rightarrow> string \<Rightarrow> string option \<Rightarrow> datetime \<Rightarrow> bool dbop" where
  "claim_request req signal_id idempotency_key created_at =
     claim_order_intent (ledger_key req signal_id idempotency_key) (Some signal_id) (kr_symbol req) (side_str (kr_side req))
       (kr_quantity req) (kr_price req) created_at"

definition submit_with_ledger ::
  "(kis_request \<Rightarrow> (order_result, 'w) sop) \<Rightarrow> kis_request \<Rightarrow> string \<Rightarrow> string option \<Rightarrow> string \<Rightarrow> datetime \<Rightarrow> (submission, 'w) sop" where
  "submit_with_ledger submit req signal_id idempotency_key reason created_at =
     (let c = ledger_key req signal_id idempotency_key in
      op_bind (db_op (claim_request req signal_id idempotency_key created_at)) (\<lambda>claimed.
        if \<not> claimed then op_ret \<lparr>su_submitted = False, su_reason = ''order_already_claimed'', su_broker_order_id = None\<rparr>
        else op_bind (db_op (mark_order_submitting c created_at)) (\<lambda>_. call_submitter submit req signal_id reason created_at c)))"

definition has_unresolved_order :: "string \<Rightarrow> side \<Rightarrow> db \<Rightarrow> bool" where
  "has_unresolved_order symbol sd d = exists_where (\<lambda>r. bo_symbol r = symbol \<and> bo_side r = sd
     \<and> bo_status r \<in> {INTENT, SUBMITTING, ACKNOWLEDGED, PARTIALLY_FILLED, CANCEL_PENDING, UNKNOWN}) (broker_orders d)"

section \<open>The claim\<close>

definition order_ids :: "db \<Rightarrow> string set" where
  "order_ids d = bo_client_order_id ` set (broker_orders d)"

text \<open>The ledger row of a request that is about to be sent.\<close>

definition row_of :: "string \<Rightarrow> kis_request \<Rightarrow> order_status \<Rightarrow> broker_order \<Rightarrow> bool" where
  "row_of c req status r = (bo_client_order_id r = c \<and> bo_symbol r = kr_symbol req \<and> bo_side r = kr_side req
     \<and> bo_requested_qty r = kr_quantity req \<and> bo_requested_price r = kr_price req \<and> bo_status r = status \<and> bo_broker_order_id r = None)"

definition sendable :: "kis_request \<Rightarrow> bool" where
  "sendable req = (strip (kr_symbol req) \<noteq> [] \<and> isdigit (kr_symbol req) \<and> length (kr_symbol req) = 6 \<and> 0 < kr_quantity req \<and> positive_number (kr_price req))"

lemma side_of_upper [simp]: "side_of (upper (side_str sd)) = Some sd"
proof (cases sd)
  case BUY
  have "side_of (upper ''BUY'') = Some BUY" by code_simp
  with BUY show ?thesis by simp
next
  case SELL
  have "side_of (upper ''SELL'') = Some SELL" by code_simp
  with SELL show ?thesis by simp
qed

lemma client_order_id_nonblank [simp]: "strip (client_order_id_of sd k) \<noteq> []"
  by (simp add: client_order_id_of_def string_eval)

lemma side_str_nonblank [simp]: "strip (side_str sd) \<noteq> []"
  by (cases sd) (simp_all add: string_eval)

lemma claim_request_cases:
  assumes run: "claim_request req sig key clk d = (r, d1)"
  obtains (refused) "r \<noteq> Inr True" "d1 = d"
    | (claimed) row where "r = Inr True" "ledger_key req sig key \<notin> order_ids d" "d1 = d\<lparr>broker_orders := broker_orders d @ [row]\<rparr>"
        "row_of (ledger_key req sig key) req INTENT row" "sendable req"
proof -
  let ?c = "ledger_key req sig key"
  define row where "row = \<lparr>bo_client_order_id = ?c, bo_signal_id = Some sig, bo_symbol = kr_symbol req,
    bo_side = kr_side req, bo_requested_qty = kr_quantity req, bo_requested_price = kr_price req, bo_status = INTENT,
    bo_broker_order_id = None, bo_filled_qty = 0, bo_avg_fill_price = None, bo_created_at = iso clk, bo_updated_at = iso clk,
    bo_submitted_at = None, bo_completed_at = None, bo_error = None\<rparr>"
  show thesis
  proof (cases "sendable req \<and> strip sig \<noteq> []")
    case False
    with run show thesis
      by (intro refused) (auto simp: claim_request_def claim_order_intent_def validation_defs op_guard_def sendable_def ledger_key_def
          split: if_splits)
  next
    case True
    then have "claim_request req sig key clk d = (let (b, t) = insert_or_ignore order_clash row (broker_orders d) in
        (Inr b, d\<lparr>broker_orders := t\<rparr>))"
      by (simp add: claim_request_def claim_order_intent_def validation_defs op_guard_def sendable_def ledger_key_def row_def Let_def)
    with run have run': "(case insert_or_ignore order_clash row (broker_orders d) of (b, t) \<Rightarrow> (Inr b, d\<lparr>broker_orders := t\<rparr>)) = (r, d1)"
      by simp
    have key: "bo_client_order_id row = ?c" and full: "row_of ?c req INTENT row" by (simp_all add: row_def row_of_def)
    show thesis
    proof (cases "?c \<in> order_ids d")
      case True
      then have "list_ex (order_clash row) (broker_orders d)" by (auto simp: order_ids_def order_clash_def list_ex_iff key)
      with run' show thesis by (intro refused) (auto simp: insert_or_ignore_def)
    next
      case fresh: False
      then have "\<not> list_ex (order_clash row) (broker_orders d)" by (force simp: order_ids_def order_clash_def list_ex_iff key)
      with run' fresh full True show thesis by (intro claimed) (auto simp: insert_or_ignore_def)
    qed
  qed
qed

section \<open>What a submission does\<close>

text \<open>The database at the moment of the call: the old one and the row of the request, marked as being submitted.\<close>

definition with_row :: "broker_order \<Rightarrow> store \<Rightarrow> store" where
  "with_row row t = t\<lparr>st_db := (st_db t)\<lparr>broker_orders := broker_orders (st_db t) @ [row]\<rparr>\<rparr>"

lemma mark_submitting_new:
  assumes "bo_client_order_id row = c" "c \<notin> order_ids d" "strip c \<noteq> []"
  shows "mark_order_submitting c clk (d\<lparr>broker_orders := broker_orders d @ [row]\<rparr>)
    = (Inr True, d\<lparr>broker_orders := broker_orders d @ [row\<lparr>bo_status := SUBMITTING, bo_updated_at := iso clk, bo_error := None\<rparr>]\<rparr>)"
proof -
  have "\<forall>r\<in>set (broker_orders d). bo_client_order_id r \<noteq> c" using assms(2) by (auto simp: order_ids_def)
  then show ?thesis using assms(1,3)
    by (simp add: mark_order_submitting_def validation_defs op_guard_def update_orders_def update_where_def rowcount_def map_idI)
qed

lemma submission_cases:
  assumes run: "submit_with_ledger submit req sig key reason clk (t, w) = (r, s')"
  obtains (not_called) "s' = (t, w)" "\<forall>x. r = Inr x \<longrightarrow> \<not> su_submitted x"
      "fst (claim_request req sig key clk (st_db t)) \<noteq> Inr True"
    | (called) row where "fst (claim_request req sig key clk (st_db t)) = Inr True" "ledger_key req sig key \<notin> order_ids (st_db t)"
        "row_of (ledger_key req sig key) req SUBMITTING row" "sendable req"
        "call_submitter submit req sig reason clk (ledger_key req sig key) (with_row row t, w) = (r, s')"
proof -
  let ?c = "ledger_key req sig key"
  obtain q d1 where cl: "claim_request req sig key clk (st_db t) = (q, d1)" by fastforce
  from cl show thesis
  proof (cases rule: claim_request_cases)
    case refused
    then have "t\<lparr>st_db := d1\<rparr> = t" by simp
    with run cl refused show thesis
      by (intro not_called) (auto simp: submit_with_ledger_def Let_def op_bind_def op_ret_def db_op_def split: sum.splits)
  next
    case (claimed row)
    let ?row = "row\<lparr>bo_status := SUBMITTING, bo_updated_at := iso clk, bo_error := None\<rparr>"
    have "mark_order_submitting ?c clk d1 = (Inr True, (st_db t)\<lparr>broker_orders := broker_orders (st_db t) @ [?row]\<rparr>)"
      using claimed by (simp add: mark_submitting_new row_of_def ledger_key_def)
    with run cl claimed have "call_submitter submit req sig reason clk ?c (with_row ?row t, w) = (r, s')"
      by (simp add: submit_with_ledger_def Let_def op_bind_def db_op_def with_row_def)
    with claimed cl show thesis by (intro called [of ?row]) (simp_all add: row_of_def)
  qed
qed

lemma order_ids_update: "(\<And>r. bo_client_order_id (f r) = bo_client_order_id r) \<Longrightarrow> order_ids (d\<lparr>broker_orders := update_where p f (broker_orders d)\<rparr>) = order_ids d"
  using map_update_where [of bo_client_order_id f p "broker_orders d"] by (simp add: order_ids_def flip: set_map)

lemma strip_nonblank: "c \<in> set t \<Longrightarrow> \<not> is_space_char c \<Longrightarrow> strip t \<noteq> []"
  by (auto simp: strip_def lstrip_def dropWhile_eq_Nil_conv)
    (metis dropWhile_eq_Nil_conv set_rev set_takeWhileD takeWhile_dropWhile_id Un_iff set_append)

lemma error_text_nonblank:
  assumes "length (exc_name e) < 500"
  shows "strip (error_text e) \<noteq> []"
proof (rule strip_nonblank)
  have "error_text e = exc_name e @ CHR '':'' # take (499 - length (exc_name e)) (CHR '' '' # exc_text e)"
    using assms by (simp add: error_text_def take_Cons' split: nat_diff_split)
  then show "CHR '':'' \<in> set (error_text e)" by simp
qed (simp add: string_eval)

text \<open>
  How the call is settled: \<open>q\<close> is what the submitter answered, \<open>d1\<close> the database it left, \<open>r\<close> the result of the submission and \<open>d\<close> the
  database after it. An order number of blanks only, and an exception whose text is blank, cannot be recorded: then the recording
  raises and every row is as the submitter left it.
\<close>

definition settled_as :: "string \<Rightarrow> order_result result \<Rightarrow> db \<Rightarrow> submission result \<Rightarrow> db \<Rightarrow> bool" where
  "settled_as c q d1 r d = (let unrecorded = ((\<exists>m. r = Inl (ValueError m)) \<and> broker_orders d = broker_orders d1);
       rows = (\<lambda>P. \<forall>row\<in>set (broker_orders d). bo_client_order_id row = c \<longrightarrow> P row) in
     case q of
       Inl e \<Rightarrow> if strip (error_text e) = [] then unrecorded
         else rows (\<lambda>row. bo_status row = UNKNOWN \<and> bo_error row = Some (error_text e))
     | Inr b \<Rightarrow> (case or_broker_order_id b of None \<Rightarrow> rows (\<lambda>row. bo_status row = UNKNOWN)
         | Some i \<Rightarrow> if i = [] then rows (\<lambda>row. bo_status row = UNKNOWN)
             else if strip i = [] then unrecorded
             else rows (\<lambda>row. bo_status row = ACKNOWLEDGED \<and> bo_broker_order_id row = Some i \<and> bo_error row = None)))"

text \<open>The text of an exception is blank only when the name of its class has 500 characters or more, see \<open>error_text_nonblank\<close>.\<close>

lemma audit_orders: "broker_orders (snd (record_execution_audit req sig reason status b clk c d)) = broker_orders d"
  by (simp add: record_execution_audit_def record_broker_order_audit_def Let_def validation_defs op_guard_def split: prod.split)

lemma not_acknowledged_rows:
  assumes "not_acknowledged req sig reason clk c why s = (r, s')" "strip c \<noteq> []"
  shows "broker_orders (st_db (fst s')) = (if strip why = [] then broker_orders (st_db (fst s))
      else update_where (\<lambda>r. bo_client_order_id r = c) (\<lambda>r. r\<lparr>bo_status := UNKNOWN, bo_updated_at := iso clk, bo_error := Some why\<rparr>)
        (broker_orders (st_db (fst s))))"
    "r = Inr x \<Longrightarrow> \<not> su_submitted x" "strip why = [] \<Longrightarrow> \<exists>m. r = Inl (ValueError m)"
proof -
  obtain t w where s: "s = (t, w)" by fastforce
  let ?d = "(st_db t)\<lparr>broker_orders := update_where (\<lambda>r. bo_client_order_id r = c)
      (\<lambda>r. r\<lparr>bo_status := UNKNOWN, bo_updated_at := iso clk, bo_error := Some why\<rparr>) (broker_orders (st_db t))\<rparr>"
  obtain q d where au: "record_execution_audit req sig reason ''UNKNOWN'' None clk c ?d = (q, d)" by fastforce
  have ord: "broker_orders d = broker_orders ?d" using audit_orders [of req sig reason "''UNKNOWN''" None clk c ?d] au by simp
  have mu: "mark_order_unknown c (Some why) clk (st_db t) = (if strip why = [] then (Inl (ValueError ''error must not be empty''), st_db t)
      else (Inr (0 < rowcount (\<lambda>r. bo_client_order_id r = c) (broker_orders (st_db t))), ?d))"
    using assms(2) by (simp add: mark_order_unknown_def validation_defs op_guard_def update_orders_def)
  show "broker_orders (st_db (fst s')) = (if strip why = [] then broker_orders (st_db (fst s))
      else update_where (\<lambda>r. bo_client_order_id r = c) (\<lambda>r. r\<lparr>bo_status := UNKNOWN, bo_updated_at := iso clk, bo_error := Some why\<rparr>)
        (broker_orders (st_db (fst s))))" "r = Inr x \<Longrightarrow> \<not> su_submitted x" "strip why = [] \<Longrightarrow> \<exists>m. r = Inl (ValueError m)"
    using assms(1) au ord by (auto simp: not_acknowledged_def op_bind_def op_ret_def db_op_def s mu split: sum.splits if_splits)
qed

lemma acknowledged_rows:
  assumes "acknowledged req sig reason clk c i s = (r, s')" "strip c \<noteq> []"
  shows "broker_orders (st_db (fst s')) = (if strip i = [] then broker_orders (st_db (fst s))
      else update_where (\<lambda>r. bo_client_order_id r = c) (\<lambda>r. r\<lparr>bo_status := ACKNOWLEDGED, bo_broker_order_id := Some i,
          bo_submitted_at := Some (iso clk), bo_updated_at := iso clk, bo_error := None\<rparr>) (broker_orders (st_db (fst s))))"
    "r = Inr x \<Longrightarrow> su_submitted x" "strip i = [] \<Longrightarrow> \<exists>m. r = Inl (ValueError m)"
proof -
  obtain t w where s: "s = (t, w)" by fastforce
  let ?d = "(st_db t)\<lparr>broker_orders := update_where (\<lambda>r. bo_client_order_id r = c)
      (\<lambda>r. r\<lparr>bo_status := ACKNOWLEDGED, bo_broker_order_id := Some i,
          bo_submitted_at := Some (iso clk), bo_updated_at := iso clk, bo_error := None\<rparr>) (broker_orders (st_db t))\<rparr>"
  obtain q d where au: "record_execution_audit req sig reason ''ACKNOWLEDGED'' (Some i) clk c ?d = (q, d)" by fastforce
  have ord: "broker_orders d = broker_orders ?d" using audit_orders [of req sig reason "''ACKNOWLEDGED''" "Some i" clk c ?d] au by simp
  have mu: "record_order_submission c i clk (st_db t) = (if strip i = [] then (Inl (ValueError ''broker_order_id must not be empty''), st_db t)
      else (Inr (0 < rowcount (\<lambda>r. bo_client_order_id r = c) (broker_orders (st_db t))), ?d))"
    using assms(2) by (simp add: record_order_submission_def validation_defs op_guard_def update_orders_def)
  show "broker_orders (st_db (fst s')) = (if strip i = [] then broker_orders (st_db (fst s))
      else update_where (\<lambda>r. bo_client_order_id r = c) (\<lambda>r. r\<lparr>bo_status := ACKNOWLEDGED, bo_broker_order_id := Some i,
          bo_submitted_at := Some (iso clk), bo_updated_at := iso clk, bo_error := None\<rparr>) (broker_orders (st_db (fst s))))"
    "r = Inr x \<Longrightarrow> su_submitted x" "strip i = [] \<Longrightarrow> \<exists>m. r = Inl (ValueError m)"
    using assms(1) au ord by (auto simp: acknowledged_def op_bind_def op_ret_def db_op_def s mu split: sum.splits if_splits)
qed

lemma updated_row:
  assumes "broker_orders d = update_where (\<lambda>r. bo_client_order_id r = c) f os" "r \<in> set (broker_orders d)" "bo_client_order_id r = c"
  shows "\<exists>r0. r = f r0"
  using assms by (auto simp: set_update_where)

lemma call_outcome:
  assumes "call_submitter submit req sig reason clk c s = (r, s')" "submit req s = (q, s1)" "strip c \<noteq> []"
  shows "settled_as c q (st_db (fst s1)) r (st_db (fst s'))" "order_ids (st_db (fst s')) = order_ids (st_db (fst s1))"
    "r = Inr x \<Longrightarrow> su_submitted x \<longleftrightarrow> (\<exists>b i. q = Inr b \<and> or_broker_order_id b = Some i \<and> i \<noteq> [])"
proof -
  have ids: "order_ids (st_db (fst s')) = order_ids (st_db (fst s1))" if "broker_orders (st_db (fst s')) = update_where p f (broker_orders (st_db (fst s1)))"
    "\<And>r. bo_client_order_id (f r) = bo_client_order_id r" for p f
    using order_ids_update [of f p "st_db (fst s1)"] that by (simp add: order_ids_def)
  have missing: "strip ''missing broker_order_id'' \<noteq> []" by (rule strip_nonblank [of "CHR ''m''"]) (simp_all add: string_eval)
  consider (raised) e where "q = Inl e" "not_acknowledged req sig reason clk c (error_text e) s1 = (r, s')"
    | (no_id) b where "q = Inr b" "str_or (or_broker_order_id b) None = None" "not_acknowledged req sig reason clk c ''missing broker_order_id'' s1 = (r, s')"
    | (ack) b i where "q = Inr b" "or_broker_order_id b = Some i" "i \<noteq> []" "str_or (or_broker_order_id b) None = Some i" "acknowledged req sig reason clk c i s1 = (r, s')"
    using assms(1,2) by (auto simp: call_submitter_def str_or_def split: sum.splits option.splits if_splits)
  then have all: "settled_as c q (st_db (fst s1)) r (st_db (fst s')) \<and> order_ids (st_db (fst s')) = order_ids (st_db (fst s1))
    \<and> (\<forall>x. r = Inr x \<longrightarrow> su_submitted x = (\<exists>b i. q = Inr b \<and> or_broker_order_id b = Some i \<and> i \<noteq> []))"
  proof cases
    case raised
    note rows = not_acknowledged_rows [OF raised(2) assms(3)]
    show ?thesis
    proof (cases "strip (error_text e) = []")
      case True
      with rows(1,3) raised(1) show ?thesis by (auto simp: settled_as_def order_ids_def)
    next
      case False
      then have "broker_orders (st_db (fst s')) = update_where (\<lambda>r. bo_client_order_id r = c)
          (\<lambda>r. r\<lparr>bo_status := UNKNOWN, bo_updated_at := iso clk, bo_error := Some (error_text e)\<rparr>) (broker_orders (st_db (fst s1)))"
        using rows(1) by simp
      note upd = ids [OF this] updated_row [OF this]
      have "\<forall>x. r = Inr x \<longrightarrow> \<not> su_submitted x" using rows(2) by blast
      moreover have "\<forall>row\<in>set (broker_orders (st_db (fst s'))). bo_client_order_id row = c \<longrightarrow> bo_status row = UNKNOWN \<and> bo_error row = Some (error_text e)"
        using upd(2) by fastforce
      ultimately show ?thesis using upd(1) False raised(1) by (simp add: settled_as_def Let_def)
    qed
  next
    case no_id
    note rows = not_acknowledged_rows [OF no_id(3) assms(3)]
    then have "broker_orders (st_db (fst s')) = update_where (\<lambda>r. bo_client_order_id r = c)
        (\<lambda>r. r\<lparr>bo_status := UNKNOWN, bo_updated_at := iso clk, bo_error := Some ''missing broker_order_id''\<rparr>) (broker_orders (st_db (fst s1)))"
      using missing by simp
    note upd = ids [OF this] updated_row [OF this]
    have "\<forall>x. r = Inr x \<longrightarrow> \<not> su_submitted x" using rows(2) by blast
    moreover have "\<forall>row\<in>set (broker_orders (st_db (fst s'))). bo_client_order_id row = c \<longrightarrow> bo_status row = UNKNOWN" using upd(2) by fastforce
    moreover have "or_broker_order_id b = None \<or> or_broker_order_id b = Some []"
      using no_id(2) by (auto simp: str_or_def split: option.splits if_splits)
    ultimately show ?thesis using upd(1) no_id(1) by (auto simp: settled_as_def Let_def)
  next
    case ack
    note rows = acknowledged_rows [OF ack(5) assms(3)]
    show ?thesis
    proof (cases "strip i = []")
      case True
      with rows(1,3) ack(1-3) show ?thesis by (auto simp: settled_as_def order_ids_def)
    next
      case False
      then have "broker_orders (st_db (fst s')) = update_where (\<lambda>r. bo_client_order_id r = c)
          (\<lambda>r. r\<lparr>bo_status := ACKNOWLEDGED, bo_broker_order_id := Some i, bo_submitted_at := Some (iso clk),
             bo_updated_at := iso clk, bo_error := None\<rparr>) (broker_orders (st_db (fst s1)))"
        using rows(1) by simp
      note upd = ids [OF this] updated_row [OF this]
      have "\<forall>x. r = Inr x \<longrightarrow> su_submitted x" using rows(2) by blast
      moreover have "\<forall>row\<in>set (broker_orders (st_db (fst s'))). bo_client_order_id row = c
          \<longrightarrow> bo_status row = ACKNOWLEDGED \<and> bo_broker_order_id row = Some i \<and> bo_error row = None"
        using upd(2) by fastforce
      ultimately show ?thesis using upd(1) False ack(1-3) by (simp add: settled_as_def Let_def)
    qed
  qed
  then show "settled_as c q (st_db (fst s1)) r (st_db (fst s'))" "order_ids (st_db (fst s')) = order_ids (st_db (fst s1))"
    "r = Inr x \<Longrightarrow> su_submitted x \<longleftrightarrow> (\<exists>b i. q = Inr b \<and> or_broker_order_id b = Some i \<and> i \<noteq> [])" by blast+
qed

section \<open>Properties\<close>

text \<open>
  (C5) Submission is write-ahead. Either the submitter is not called, and then database and world are untouched and nothing is reported as
  submitted; or the client order id was not in the ledger, the request is in the ledger as SUBMITTING, with its symbol, side, quantity
  and price, before the submitter sees it, and its answer settles the row: ACKNOWLEDGED with the broker's order number, or UNKNOWN after an
  exception or an answer without a number. There is one gap, stated as it is: a number of blanks only is not recorded, the submission raises
  ValueError and the row stays as it was, SUBMITTING unless the submitter changed it (so does an exception with a blank text, which no
  exception with a class name below 500 characters has). The order is reported as submitted exactly when the answer had a number.
\<close>

theorem submission_write_ahead:
  assumes "submit_with_ledger submit req sig key reason clk (t, w) = (r, s')"
  shows "s' = (t, w) \<and> (\<forall>x. r = Inr x \<longrightarrow> \<not> su_submitted x)
    \<or> (\<exists>row q s1. ledger_key req sig key \<notin> order_ids (st_db t) \<and> row_of (ledger_key req sig key) req SUBMITTING row
        \<and> submit req (with_row row t, w) = (q, s1) \<and> settled_as (ledger_key req sig key) q (st_db (fst s1)) r (st_db (fst s'))
        \<and> (\<forall>x. r = Inr x \<longrightarrow> su_submitted x = (\<exists>b i. q = Inr b \<and> or_broker_order_id b = Some i \<and> i \<noteq> [])))"
  using assms
proof (cases rule: submission_cases)
  case (called row)
  obtain q s1 where q: "submit req (with_row row t, w) = (q, s1)" by (rule prod.exhaust)
  have "strip (ledger_key req sig key) \<noteq> []" by (simp add: ledger_key_def)
  from call_outcome [OF called(5) q this] called(2,3) q show ?thesis by blast
qed blast

definition fresh_store :: store where
  "fresh_store = \<lparr>st_db = empty_db, st_market = \<lparr>market_ticks = [], bars_1m = []\<rparr>, st_paper = \<lparr>paper_orders = [], paper_fills = []\<rparr>\<rparr>"

text \<open>A broker that answers every request with the number B7 and counts the calls.\<close>

definition answering :: "kis_request \<Rightarrow> (order_result, nat) sop" where
  "answering req s = (case s of (t, n) \<Rightarrow> (Inr \<lparr>or_symbol = kr_symbol req, or_side = kr_side req, or_quantity = kr_quantity req,
     or_price = kr_price req, or_order_type = kr_order_type req, or_tr_id = [], or_broker_order_id = Some ''B7'', or_raw = []\<rparr>, t, Suc n))"

lemma db_op_world: "snd (snd (db_op m s)) = snd s"
  by (simp add: db_op_def split: prod.split)

lemma ledger_world: "snd (snd (acknowledged req sig reason clk c i s)) = snd s"
  "snd (snd (not_acknowledged req sig reason clk c why s)) = snd s"
  by (auto simp: acknowledged_def not_acknowledged_def op_bind_def op_ret_def split: prod.split sum.split) (metis db_op_world snd_conv)+

lemma claim_request_fresh:
  assumes "sendable req" "strip sig \<noteq> []" "ledger_key req sig key \<notin> order_ids d"
  shows "fst (claim_request req sig key clk d) = Inr True"
proof -
  have "bo_client_order_id r \<noteq> ledger_key req sig key" if "r \<in> set (broker_orders d)" for r
    using assms(3) that by (force simp: order_ids_def)
  then show ?thesis using assms(1,2)
    by (auto simp: claim_request_def claim_order_intent_def validation_defs op_guard_def sendable_def Let_def
        insert_or_ignore_def order_clash_def list_ex_iff ledger_key_def)
qed

lemma sample_claim: "fst (claim_request OrderClient.sample_buy ''s1'' None sample_time empty_db) = Inr True"
proof (rule claim_request_fresh)
  have "strip ''005930'' \<noteq> [] \<and> isdigit ''005930''" by (simp add: string_eval)
  then show "sendable OrderClient.sample_buy" by (simp add: sendable_def OrderClient.sample_buy_def positive_number_def fle_def)
qed (simp_all add: string_eval order_ids_def empty_db_def)

theorem submission_write_ahead_witness:
  "\<exists>r t' row q s1. submit_with_ledger answering OrderClient.sample_buy ''s1'' None ''ai'' sample_time (fresh_store, 0) = (r, t', 1)
     \<and> row_of (ledger_key OrderClient.sample_buy ''s1'' None) OrderClient.sample_buy SUBMITTING row
     \<and> answering OrderClient.sample_buy (with_row row fresh_store, 0) = (Inr q, s1)
     \<and> settled_as (ledger_key OrderClient.sample_buy ''s1'' None) (Inr q) (st_db (fst s1)) r (st_db t')"
proof -
  obtain r t' n where run: "submit_with_ledger answering OrderClient.sample_buy ''s1'' None ''ai'' sample_time (fresh_store, 0) = (r, t', n)"
    by (metis prod.exhaust)
  then have "n = 1"
  proof (cases rule: submission_cases)
    case not_called
    with sample_claim show ?thesis by (simp add: fresh_store_def)
  next
    case (called row)
    then show ?thesis
      using ledger_world(1) [of OrderClient.sample_buy "''s1''" "''ai''" sample_time "ledger_key OrderClient.sample_buy ''s1'' None" "''B7''" "(with_row row fresh_store, 1 :: nat)"]
      by (simp add: call_submitter_def answering_def str_or_def)
  qed
  with submission_write_ahead [OF run] run show ?thesis by (auto simp: answering_def)
qed

text \<open>
  Submissions of one or many cycles, in any order, with any other change to the database in between, also by the submitter, that
  does not delete orders. Next to the world stands the list of the calls that the submitter received: the submitter itself notes each call, under
  the client order id of the submission that makes it.
\<close>

definition noting :: "string \<Rightarrow> (kis_request \<Rightarrow> (order_result, 'w) sop) \<Rightarrow> kis_request \<Rightarrow> (order_result, 'w \<times> string list) sop" where
  "noting c submit req s = (case s of (t, w, calls) \<Rightarrow> (case submit req (t, w) of (r, t', w') \<Rightarrow> (r, t', w', calls @ [c])))"

definition keeps_orders :: "(kis_request \<Rightarrow> (order_result, 'w) sop) \<Rightarrow> bool" where
  "keeps_orders submit = (\<forall>req s. order_ids (st_db (fst s)) \<subseteq> order_ids (st_db (fst (snd (submit req s)))))"

inductive submissions :: "store \<times> 'w \<Rightarrow> store \<times> 'w \<times> string list \<Rightarrow> bool" for s0 where
  start: "submissions s0 (fst s0, snd s0, [])"
| submission: "submissions s0 s \<Longrightarrow> keeps_orders submit \<Longrightarrow>
    submit_with_ledger (noting (ledger_key req sig key) submit) req sig key reason clk s = (r, s') \<Longrightarrow> submissions s0 s'"
| other: "submissions s0 (t, w, calls) \<Longrightarrow> order_ids (st_db t) \<subseteq> order_ids (st_db t') \<Longrightarrow> submissions s0 (t', w', calls)"

lemma call_world:
  assumes "call_submitter submit req sig reason clk c s = (r, s')" "submit req s = (q, s1)"
  shows "snd s' = snd s1"
proof -
  have w: "acknowledged req sig reason clk c i s1 = (r, s') \<Longrightarrow> snd s' = snd s1" "not_acknowledged req sig reason clk c why s1 = (r, s') \<Longrightarrow> snd s' = snd s1"
    for i why using ledger_world [of req sig reason clk c _ s1] by (metis snd_conv)+
  show ?thesis using assms by (auto simp: call_submitter_def w split: sum.splits option.splits)
qed

lemma submissions_recorded: "submissions s0 s \<Longrightarrow> distinct (snd (snd s)) \<and> set (snd (snd s)) \<subseteq> order_ids (st_db (fst s))"
proof (induction rule: submissions.induct)
  case (submission s submit req sig key reason clk r s')
  let ?c = "ledger_key req sig key"
  obtain t w calls where s: "s = (t, w, calls)" by (rule prod_cases3)
  from submission.hyps(3) [unfolded s] show ?case
  proof (cases rule: submission_cases)
    case not_called
    with submission.IH show ?thesis by (simp add: s)
  next
    case (called row)
    obtain q t1 w1 where q: "submit req (with_row row t, w) = (q, t1, w1)" by (rule prod_cases3)
    then have n: "noting ?c submit req (with_row row t, w, calls) = (q, t1, w1, calls @ [?c])" by (simp add: noting_def)
    have "strip ?c \<noteq> []" by (simp add: ledger_key_def)
    from call_outcome(2) [OF called(5) n this] have "order_ids (st_db (fst s')) = order_ids (st_db t1)" by simp
    moreover have "order_ids (st_db (with_row row t)) \<subseteq> order_ids (st_db t1)"
      using submission.hyps(2) q unfolding keeps_orders_def by (metis fst_conv snd_conv)
    moreover have "order_ids (st_db (with_row row t)) = insert ?c (order_ids (st_db t))"
      using called(3) by (auto simp: order_ids_def with_row_def row_of_def)
    moreover have "snd (snd s') = calls @ [?c]" using call_world [OF called(5) n] by simp
    ultimately show ?thesis using submission.IH called(2) by (auto simp: s)
  qed
qed auto

text \<open>
  (C4) A client order id reaches the submitter at most once. Over every run of submissions, of any cycles and with any requests, clocks, submitters
  and failures, and whatever else happens to the database in between as long as orders are not deleted, the calls that the submitters received are
  for different client order ids, each of which is in the ledger; so no retry, restart or repeated cycle can duplicate an order.
\<close>

theorem order_id_submitted_once:
  assumes "submissions s0 (t, w, calls)"
  shows "distinct calls \<and> set calls \<subseteq> order_ids (st_db t)"
  using submissions_recorded [OF assms] by simp

theorem order_id_submitted_once_witness:
  "\<exists>t n. submissions (fresh_store, 0 :: nat) (t, n, [ledger_key OrderClient.sample_buy ''s1'' None])
     \<and> ledger_key OrderClient.sample_buy ''s1'' None \<in> order_ids (st_db t)"
proof -
  let ?c = "ledger_key OrderClient.sample_buy ''s1'' None"
  obtain r t n calls where run: "submit_with_ledger (noting ?c answering) OrderClient.sample_buy ''s1'' None ''ai'' sample_time (fresh_store, 0, [])
      = (r, t, n, calls)" by (metis prod_cases4)
  have "keeps_orders answering" by (simp add: keeps_orders_def answering_def split: prod.split)
  from submissions.submission [OF submissions.start [of "(fresh_store, 0)", simplified] this run]
  have step: "submissions (fresh_store, 0) (t, n, calls)" .
  from run have "calls = [?c]"
  proof (cases rule: submission_cases)
    case not_called
    with sample_claim show ?thesis by (simp add: fresh_store_def)
  next
    case (called row)
    obtain q s1 where q: "noting ?c answering OrderClient.sample_buy (with_row row fresh_store, 0, []) = (q, s1)" by (rule prod.exhaust)
    then have "snd (snd s1) = [?c]" by (auto simp: noting_def answering_def)
    with call_world [OF called(5) q] show ?thesis by (metis snd_conv)
  qed
  with step order_id_submitted_once [OF step] show ?thesis by (intro exI conjI) simp_all
qed

section \<open>Refusal by the safety gate\<close>

definition gated :: "guard_config \<Rightarrow> calendar \<Rightarrow> datetime \<Rightarrow> (db \<Rightarrow> db) \<Rightarrow> (kis_request \<Rightarrow> 'w \<Rightarrow> order_result result \<times> 'w) \<Rightarrow> kis_request \<Rightarrow>
    (order_result, 'w) sop" where
  "gated g cal now others submit req s = (case s of (t, w) \<Rightarrow>
     (case guarded_submit g cal now others submit req (st_db t, w) of (r, d, w') \<Rightarrow> (r, t\<lparr>st_db := d\<rparr>, w')))"

lemma init_schema_frame: "broker_orders (snd (init_schema d)) = broker_orders d"
  by (simp add: init_schema_def init_control_def split: sum.split)

lemma init_schema_paused: "rc_paused (get_runtime_control d) \<Longrightarrow> init_schema d = (Inr (), d') \<Longrightarrow> rc_paused (get_runtime_control d')"
  by (auto simp: init_schema_def init_control_def get_runtime_control_def default_control_def split: sum.splits option.splits)

lemma paused_refused:
  assumes "rc_paused (get_runtime_control (st_db t))"
  shows "\<exists>m t'. gated g cal now others submit req (t, w) = (Inl (OrderSafetyGateError m), t', w)
    \<and> broker_orders (st_db t') = broker_orders (st_db t)"
proof -
  obtain q d1 where i: "init_schema (st_db t) = (q, d1)" by fastforce
  have orders: "broker_orders d1 = broker_orders (st_db t)" using init_schema_frame [of "st_db t"] i by simp
  have "\<exists>e d2. safety_gate g cal (aware_now now) others req (st_db t) = (Inl e, d2) \<and> broker_orders d2 = broker_orders (st_db t)"
    using init_schema_paused [OF assms] i orders
    by (cases q) (auto simp: safety_gate_def op_guard_def op_bind_def check_runtime_state_def Let_def)
  then obtain e d2 where sg: "safety_gate g cal (aware_now now) others req (st_db t) = (Inl e, d2)" "broker_orders d2 = broker_orders (st_db t)"
    by blast
  obtain m where "wrap_gate_error e = OrderSafetyGateError m" using is_gate_error by blast
  with sg show ?thesis by (auto simp: gated_def guarded_submit_def)
qed

text \<open>
  A request that the gate refuses while the runtime is paused never leaves the process, but its row stays UNKNOWN without an
  order number, which counts as unresolved.
\<close>

lemma paused_order_unresolved:
  assumes paused: "rc_paused (get_runtime_control (st_db t))"
    and run: "submit_with_ledger (gated g cal now others submit) req sig key reason clk (t, w) = (r, t', w')"
    and fresh: "fst (claim_request req sig key clk (st_db t)) = Inr True"
  shows "w' = w \<and> has_unresolved_order (kr_symbol req) (kr_side req) (st_db t') \<and> (\<forall>x. r = Inr x \<longrightarrow> su_reason x = ''order_unknown'' \<and> su_broker_order_id x = None)"
  using run
proof (cases rule: submission_cases)
  case not_called
  with fresh show ?thesis by simp
next
  case (called row)
  let ?c = "ledger_key req sig key"
  have "rc_paused (get_runtime_control (st_db (with_row row t)))" using paused by (simp add: with_row_def get_runtime_control_def)
  from paused_refused [OF this, of g cal now others submit req w] obtain m t1 where ref: "gated g cal now others submit req (with_row row t, w) = (Inl (OrderSafetyGateError m), t1, w)"
    "broker_orders (st_db t1) = broker_orders (st_db (with_row row t))" by blast
  let ?why = "error_text (OrderSafetyGateError m)"
  from called(5) ref(1) have na: "not_acknowledged req sig reason clk ?c ?why (t1, w) = (r, t', w')" by (simp add: call_submitter_def)
  have "strip ?c \<noteq> []" "strip ?why \<noteq> []" by (simp add: ledger_key_def) (rule error_text_nonblank, simp)
  with not_acknowledged_rows(1) [OF na]
  have rows: "broker_orders (st_db t') = update_where (\<lambda>r. bo_client_order_id r = ?c) (\<lambda>r. r\<lparr>bo_status := UNKNOWN,
      bo_updated_at := iso clk, bo_error := Some ?why\<rparr>) (broker_orders (st_db t) @ [row])"
    using ref(2) by (simp add: with_row_def)
  have "row\<lparr>bo_status := UNKNOWN, bo_updated_at := iso clk, bo_error := Some ?why\<rparr> \<in> set (broker_orders (st_db t'))"
    unfolding rows using called(3) by (auto simp: update_where_def row_of_def)
  moreover have "w' = w" using ledger_world(2) [of req sig reason clk ?c ?why "(t1, w)"] na by simp
  moreover have "r = Inr x \<Longrightarrow> su_reason x = ''order_unknown'' \<and> su_broker_order_id x = None" for x
    using na by (auto simp: not_acknowledged_def op_bind_def op_ret_def split: prod.splits sum.splits)
  ultimately show ?thesis using called(3)
    unfolding has_unresolved_order_def exists_where_iff row_of_def by (intro conjI allI impI) (auto intro: rev_bexI)
qed

end
