(* ===== verification/AiBudget.thy ===== *)
theory AiBudget
  imports Schedule OrderStatus
begin

text \<open>
  The budget of AI calls (\<open>ai/reliable.py\<close>). A reservation is made before every request and settled or cancelled afterwards; the lock makes
  each method one step. The clock and the random token are arguments. Shown: over every run of the methods the granted calls
  stay within the process limit and, on a clock that does not run backwards, within the limit of every day.
\<close>

section \<open>State and operations\<close>

record ai_usage =
  au_prompt_tokens :: int
  au_completion_tokens :: int
  au_total_tokens :: int
  au_estimated_cost_usd :: pyfloat

definition no_usage :: ai_usage where
  "no_usage = \<lparr>au_prompt_tokens = 0, au_completion_tokens = 0, au_total_tokens = 0, au_estimated_cost_usd = Fin 0\<rparr>"

type_synonym date = "nat \<times> nat \<times> nat"

record reservation =
  rv_token :: string
  rv_day :: date
  rv_estimated_cost_usd :: pyfloat

record usage_budget =
  ub_max_process_calls :: int
  ub_max_daily_calls :: int
  ub_max_process_cost :: pyfloat
  ub_max_daily_cost :: pyfloat
  ub_day :: date
  ub_process_calls :: int
  ub_daily_calls :: int
  ub_process_cost :: pyfloat
  ub_daily_cost :: pyfloat
  ub_process_reserved :: pyfloat
  ub_daily_reserved :: pyfloat
  ub_reservations :: "reservation list"

record budget_snapshot =
  bs_process_calls :: int
  bs_daily_calls :: int
  bs_process_cost :: pyfloat
  bs_daily_cost :: pyfloat
  bs_process_reserved :: pyfloat
  bs_daily_reserved :: pyfloat

definition non_negative_int :: "int \<Rightarrow> string \<Rightarrow> int result" where
  "non_negative_int value name = guard_else (value < 0) (ValueError (name @ '' must be non-negative'')) (Inr value)"

definition non_negative_float :: "pyfloat \<Rightarrow> string \<Rightarrow> pyfloat result" where
  "non_negative_float value name = guard_else (flt value (Fin 0)) (ValueError (name @ '' must be non-negative'')) (Inr value)"

definition make_budget :: "int \<Rightarrow> int \<Rightarrow> pyfloat \<Rightarrow> pyfloat \<Rightarrow> datetime \<Rightarrow> usage_budget result" where
  "make_budget process_calls daily_calls process_cost daily_cost clk =
     rbind (non_negative_int process_calls ''max_process_calls'') (\<lambda>pc.
     rbind (non_negative_int daily_calls ''max_daily_calls'') (\<lambda>dc.
     rbind (non_negative_float process_cost ''max_process_cost_usd'') (\<lambda>pu.
     rbind (non_negative_float daily_cost ''max_daily_cost_usd'') (\<lambda>du.
       Inr \<lparr>ub_max_process_calls = pc, ub_max_daily_calls = dc, ub_max_process_cost = pu, ub_max_daily_cost = du,
         ub_day = date_key clk, ub_process_calls = 0, ub_daily_calls = 0, ub_process_cost = Fin 0, ub_daily_cost = Fin 0,
         ub_process_reserved = Fin 0, ub_daily_reserved = Fin 0, ub_reservations = []\<rparr>))))"

definition env_int :: "(string \<Rightarrow> string option) \<Rightarrow> string \<Rightarrow> int \<Rightarrow> int result" where
  "env_int getenv name fallback = (case str_or (getenv name) None of None \<Rightarrow> Inr fallback
     | Some v \<Rightarrow> (case int_of_str v of None \<Rightarrow> Inl (ValueError ''invalid literal for int() with base 10'') | Some n \<Rightarrow> Inr n))"

definition env_float :: "(string \<Rightarrow> string option) \<Rightarrow> string \<Rightarrow> pyfloat \<Rightarrow> pyfloat result" where
  "env_float getenv name fallback = (case str_or (getenv name) None of None \<Rightarrow> Inr fallback
     | Some v \<Rightarrow> (case float_of_str v of None \<Rightarrow> Inl (ValueError ''could not convert string to float'') | Some x \<Rightarrow> Inr x))"

definition budget_from_env :: "(string \<Rightarrow> string option) \<Rightarrow> datetime \<Rightarrow> usage_budget result" where
  "budget_from_env getenv clk =
     rbind (env_int getenv ''OPENAI_MAX_PROCESS_CALLS'' 500) (\<lambda>pc.
     rbind (env_int getenv ''OPENAI_MAX_DAILY_CALLS'' 1000) (\<lambda>dc.
     rbind (env_float getenv ''OPENAI_MAX_PROCESS_COST_USD'' (Fin 10)) (\<lambda>pu.
     rbind (env_float getenv ''OPENAI_MAX_DAILY_COST_USD'' (Fin 25)) (\<lambda>du.
       make_budget pc dc pu du clk))))"

text \<open>The generator sum starts at zero and adds from the left.\<close>

definition reserved_on :: "date \<Rightarrow> reservation list \<Rightarrow> pyfloat" where
  "reserved_on day rs = foldl fadd (Fin 0) (map rv_estimated_cost_usd (filter (\<lambda>r. rv_day r = day) rs))"

definition roll_day :: "datetime \<Rightarrow> usage_budget \<Rightarrow> usage_budget" where
  "roll_day clk b = (let today = date_key clk in if today = ub_day b then b
     else b\<lparr>ub_day := today, ub_daily_calls := 0, ub_daily_cost := Fin 0, ub_daily_reserved := reserved_on today (ub_reservations b)\<rparr>)"

definition budget_error :: "string \<Rightarrow> exc" where
  "budget_error m = BrokerError ''AIBudgetExceededError'' m"

definition grant :: "reservation \<Rightarrow> usage_budget \<Rightarrow> usage_budget" where
  "grant r b = b\<lparr>ub_reservations := filter (\<lambda>x. rv_token x \<noteq> rv_token r) (ub_reservations b) @ [r],
     ub_process_calls := ub_process_calls b + 1, ub_daily_calls := ub_daily_calls b + 1,
     ub_process_reserved := fadd (ub_process_reserved b) (rv_estimated_cost_usd r),
     ub_daily_reserved := fadd (ub_daily_reserved b) (rv_estimated_cost_usd r)\<rparr>"

definition reserve_rolled :: "string \<Rightarrow> pyfloat \<Rightarrow> usage_budget \<Rightarrow> reservation result \<times> usage_budget" where
  "reserve_rolled token cost b =
     (if ub_max_process_calls b \<le> ub_process_calls b then (Inl (budget_error ''process AI call limit exceeded''), b)
      else if ub_max_daily_calls b \<le> ub_daily_calls b then (Inl (budget_error ''daily AI call limit exceeded''), b)
      else if flt (ub_max_process_cost b) (fadd (fadd (ub_process_cost b) (ub_process_reserved b)) cost)
      then (Inl (budget_error ''process AI cost limit exceeded''), b)
      else if flt (ub_max_daily_cost b) (fadd (fadd (ub_daily_cost b) (ub_daily_reserved b)) cost)
      then (Inl (budget_error ''daily AI cost limit exceeded''), b)
      else let r = \<lparr>rv_token = token, rv_day = ub_day b, rv_estimated_cost_usd = cost\<rparr> in (Inr r, grant r b))"

definition reserve_call :: "datetime \<Rightarrow> string \<Rightarrow> pyfloat \<Rightarrow> usage_budget \<Rightarrow> reservation result \<times> usage_budget" where
  "reserve_call clk token estimated b = (case non_negative_float estimated ''estimated_cost_usd'' of Inl e \<Rightarrow> (Inl e, b)
     | Inr cost \<Rightarrow> reserve_rolled token cost (roll_day clk b))"

definition release :: "reservation \<Rightarrow> usage_budget \<Rightarrow> usage_budget" where
  "release current b = (let c = b\<lparr>ub_reservations := filter (\<lambda>x. rv_token x \<noteq> rv_token current) (ub_reservations b),
       ub_process_reserved := fsub (ub_process_reserved b) (rv_estimated_cost_usd current)\<rparr>
     in if rv_day current = ub_day b then c\<lparr>ub_daily_reserved := fsub (ub_daily_reserved b) (rv_estimated_cost_usd current)\<rparr> else c)"

definition charge :: "reservation \<Rightarrow> pyfloat \<Rightarrow> usage_budget \<Rightarrow> usage_budget" where
  "charge current actual b = (let c = b\<lparr>ub_process_cost := fadd (ub_process_cost b) actual\<rparr>
     in if rv_day current = ub_day b then c\<lparr>ub_daily_cost := fadd (ub_daily_cost b) actual\<rparr> else c)"

definition settle :: "reservation \<Rightarrow> pyfloat \<Rightarrow> usage_budget \<Rightarrow> unit result \<times> usage_budget" where
  "settle r actual b = (case non_negative_float actual ''actual_cost_usd'' of Inl e \<Rightarrow> (Inl e, b)
     | Inr cost \<Rightarrow> (case find (\<lambda>x. rv_token x = rv_token r) (ub_reservations b) of None \<Rightarrow> (Inr (), b)
         | Some current \<Rightarrow> (let c = charge current cost (release current b) in
             if flt (ub_max_process_cost c) (ub_process_cost c) then (Inl (budget_error ''process AI cost limit exceeded''), c)
             else if flt (ub_max_daily_cost c) (ub_daily_cost c) then (Inl (budget_error ''daily AI cost limit exceeded''), c)
             else (Inr (), c))))"

definition cancel_reservation :: "reservation \<Rightarrow> usage_budget \<Rightarrow> usage_budget" where
  "cancel_reservation r b = (case find (\<lambda>x. rv_token x = rv_token r) (ub_reservations b) of None \<Rightarrow> b | Some current \<Rightarrow> release current b)"

definition budget_snapshot_now :: "datetime \<Rightarrow> usage_budget \<Rightarrow> budget_snapshot \<times> usage_budget" where
  "budget_snapshot_now clk b = (let c = roll_day clk b in
     (\<lparr>bs_process_calls = ub_process_calls c, bs_daily_calls = ub_daily_calls c, bs_process_cost = ub_process_cost c,
       bs_daily_cost = ub_daily_cost c, bs_process_reserved = ub_process_reserved c, bs_daily_reserved = ub_daily_reserved c\<rparr>, c))"

section \<open>Runs\<close>

text \<open>
  Methods in any order, from any number of callers. The list collects the day of every granted reservation. The clock does
  not go back to an earlier day.
\<close>

inductive budget_run :: "usage_budget \<Rightarrow> date list \<Rightarrow> usage_budget \<Rightarrow> bool" for b0 where
  fresh: "budget_run b0 [] b0"
| granted: "budget_run b0 ds b \<Longrightarrow> ub_day b \<le> date_key clk \<Longrightarrow> reserve_call clk token cost b = (Inr r, b') \<Longrightarrow>
    budget_run b0 (rv_day r # ds) b'"
| refused: "budget_run b0 ds b \<Longrightarrow> ub_day b \<le> date_key clk \<Longrightarrow> reserve_call clk token cost b = (Inl e, b') \<Longrightarrow> budget_run b0 ds b'"
| settled: "budget_run b0 ds b \<Longrightarrow> settle r cost b = (q, b') \<Longrightarrow> budget_run b0 ds b'"
| cancelled: "budget_run b0 ds b \<Longrightarrow> budget_run b0 ds (cancel_reservation r b)"
| inspected: "budget_run b0 ds b \<Longrightarrow> ub_day b \<le> date_key clk \<Longrightarrow> budget_run b0 ds (snd (budget_snapshot_now clk b))"

text \<open>What a method may do to the counters and limits: nothing, unless it is a reservation.\<close>

definition same_counts :: "usage_budget \<Rightarrow> usage_budget \<Rightarrow> bool" where
  "same_counts b c = (ub_day c = ub_day b \<and> ub_process_calls c = ub_process_calls b \<and> ub_daily_calls c = ub_daily_calls b
     \<and> ub_max_process_calls c = ub_max_process_calls b \<and> ub_max_daily_calls c = ub_max_daily_calls b)"

lemma same_counts_release: "same_counts b (release r b)"
  by (simp add: same_counts_def release_def Let_def)

lemma same_counts_cancel: "same_counts b (cancel_reservation r b)"
  by (simp add: cancel_reservation_def same_counts_release split: option.split) (simp add: same_counts_def)

lemma same_counts_settle: "same_counts b (snd (settle r cost b))"
proof -
  have "same_counts b (charge x c (release x b))" for x c
    using same_counts_release [of b x] by (simp add: same_counts_def charge_def Let_def)
  then show ?thesis by (simp add: settle_def Let_def split: sum.split option.split) (simp add: same_counts_def)
qed

text \<open>The counters count the grants, all of them and the ones of the current day, and respect the limits.\<close>

definition counted :: "usage_budget \<Rightarrow> date list \<Rightarrow> usage_budget \<Rightarrow> bool" where
  "counted b0 ds b = (ub_max_process_calls b = ub_max_process_calls b0 \<and> ub_max_daily_calls b = ub_max_daily_calls b0
     \<and> ub_process_calls b = int (length ds) \<and> ub_daily_calls b = int (count_list ds (ub_day b))
     \<and> int (length ds) \<le> ub_max_process_calls b \<and> (\<forall>d\<in>set ds. d \<le> ub_day b)
     \<and> (\<forall>d. int (count_list ds d) \<le> ub_max_daily_calls b))"

lemma counted_same: "counted b0 ds b \<Longrightarrow> same_counts b c \<Longrightarrow> counted b0 ds c"
  unfolding counted_def same_counts_def by (elim conjE) (simp only: simp_thms ball_simps split_paired_All)

lemma counted_roll:
  assumes "counted b0 ds b" "ub_day b \<le> date_key clk"
  shows "counted b0 ds (roll_day clk b)"
proof -
  have "count_list ds (date_key clk) = 0" if "date_key clk \<noteq> ub_day b"
    using assms that by (intro count_notin) (auto simp: counted_def)
  with assms show ?thesis by (auto simp: counted_def roll_day_def Let_def)
qed

lemma counted_reserve:
  assumes "counted b0 ds b" "reserve_rolled token cost b = (r, b')"
  shows "case r of Inl e \<Rightarrow> b' = b | Inr x \<Rightarrow> rv_day x = ub_day b \<and> counted b0 (rv_day x # ds) b'"
  using assms by (auto simp: reserve_rolled_def Let_def counted_def grant_def split: if_splits)

lemma run_counted:
  assumes "budget_run b0 ds b" "counted b0 [] b0"
  shows "counted b0 ds b"
  using assms(1)
proof (induction rule: budget_run.induct)
  case fresh
  show ?case by (rule assms(2))
next
  case (granted ds b clk token cost r b')
  then show ?case
    using counted_reserve [OF counted_roll [OF granted.IH granted.hyps(2)], of token cost "Inr r" b']
    by (auto simp: reserve_call_def non_negative_float_def guard_else_def split: if_splits)
next
  case (refused ds b clk token cost e b')
  then show ?case
    using counted_reserve [OF counted_roll [OF refused.IH refused.hyps(2)], of token cost "Inl e" b'] counted_roll [OF refused.IH refused.hyps(2)]
    by (auto simp: reserve_call_def non_negative_float_def guard_else_def split: if_splits)
next
  case (settled ds b r cost q b')
  then show ?case using counted_same [OF settled.IH same_counts_settle [of b r cost]] by simp
next
  case (cancelled ds b r)
  then show ?case using counted_same same_counts_cancel by blast
next
  case (inspected ds b clk)
  then show ?case using counted_roll by (simp add: budget_snapshot_now_def Let_def)
qed

text \<open>
  The AI budget holds. For every budget the constructor accepts and every run of its methods, by any number of callers and with any
  costs, tokens and outcomes, at most \<open>max_process_calls\<close> calls are granted in all, and, when the
  clock does not return to an earlier day, at most \<open>max_daily_calls\<close> on any one day; a refused call
  is not counted.
\<close>

theorem ai_calls_bounded:
  assumes "make_budget pc dc pu du clk = Inr b0" "budget_run b0 grants b"
  shows "int (length grants) \<le> pc \<and> int (count_list grants day) \<le> dc \<and> ub_process_calls b = int (length grants)"
proof -
  from assms(1) have b0: "ub_max_process_calls b0 = pc" "ub_max_daily_calls b0 = dc" "counted b0 [] b0"
    by (auto simp: make_budget_def non_negative_int_def non_negative_float_def result_iffs counted_def)
  with run_counted [OF assms(2)] show ?thesis unfolding counted_def by metis
qed

theorem ai_calls_bounded_witness:
  "\<exists>b0 b. make_budget 2 1 (Fin 10) (Fin 25) sample_time = Inr b0 \<and> budget_run b0 [date_key sample_time] b
     \<and> ub_process_calls b = 1 \<and> int (count_list [date_key sample_time] (date_key sample_time)) \<le> 1"
proof -
  obtain b0 where b0: "make_budget 2 1 (Fin 10) (Fin 25) sample_time = Inr b0"
    by (simp add: make_budget_def non_negative_int_def non_negative_float_def)
  have "\<exists>r b. reserve_call sample_time ''t'' (Fin 0) b0 = (Inr r, b) \<and> rv_day r = date_key sample_time"
    using b0 by (auto simp: make_budget_def non_negative_int_def non_negative_float_def reserve_call_def reserve_rolled_def roll_day_def Let_def)
  then obtain r b where r: "reserve_call sample_time ''t'' (Fin 0) b0 = (Inr r, b)" "rv_day r = date_key sample_time" by blast
  have day: "ub_day b0 \<le> date_key sample_time"
    using b0 by (auto simp: make_budget_def non_negative_int_def non_negative_float_def)
  from budget_run.granted [OF budget_run.fresh day r(1)] r(2) have run: "budget_run b0 [date_key sample_time] b" by simp
  from ai_calls_bounded [OF b0 run, of "date_key sample_time"] run b0 show ?thesis by auto
qed

end
