(* ===== verification/AiDecision.thy ===== *)
theory AiDecision
  imports AiBudget Json MarketRules Features
begin

text \<open>
  Trading decisions of the AI (\<open>ai/decision.py\<close>): the decision and its declared constraints, the rule-based client and the client of the
  chat API. The HTTP session, the clock, sleep, random numbers and pydantic's parsing are parameters. Shown: whatever the model answers, a BUY leaves
  the client with a deterministic risk plan for the requested symbol, and every request is covered by a budget reservation.
\<close>

section \<open>Decisions\<close>

datatype ai_action = AI_HOLD | AI_BUY | AI_SELL

fun action_value :: "ai_action \<Rightarrow> string" where
  "action_value AI_HOLD = ''HOLD''"
| "action_value AI_BUY = ''BUY''"
| "action_value AI_SELL = ''SELL''"

datatype risk_level = RL_LOW | RL_NORMAL | RL_HIGH

fun risk_value :: "risk_level \<Rightarrow> string" where
  "risk_value RL_LOW = ''LOW''"
| "risk_value RL_NORMAL = ''NORMAL''"
| "risk_value RL_HIGH = ''HIGH''"

record decision =
  de_decision_id :: string
  de_symbol :: string
  de_action :: ai_action
  de_strategy :: "string option"
  de_model :: "string option"
  de_prompt_version :: "string option"
  de_confidence :: pyfloat
  de_entry_price :: "pyfloat option"
  de_take_profit_price :: "pyfloat option"
  de_stop_loss_price :: "pyfloat option"
  de_max_holding_seconds :: "int option"
  de_risk_level :: risk_level
  de_requires_operator_approval :: bool
  de_rationale :: string
  de_generated_at :: datetime

text \<open>The field declarations: pattern, lengths and ranges.\<close>

definition text_within :: "nat \<Rightarrow> string option \<Rightarrow> bool" where
  "text_within n t = (case t of None \<Rightarrow> True | Some s \<Rightarrow> s \<noteq> [] \<and> length s \<le> n)"

definition price_field_ok :: "pyfloat option \<Rightarrow> bool" where
  "price_field_ok p = (case p of None \<Rightarrow> True | Some x \<Rightarrow> flt (Fin 0) x)"

definition fields_ok :: "decision \<Rightarrow> bool" where
  "fields_ok d = (isdigit (de_symbol d) \<and> length (de_symbol d) = 6
     \<and> text_within 80 (de_strategy d) \<and> text_within 120 (de_model d) \<and> text_within 80 (de_prompt_version d)
     \<and> fle (Fin 0) (de_confidence d) \<and> fle (de_confidence d) (Fin 1)
     \<and> price_field_ok (de_entry_price d) \<and> price_field_ok (de_take_profit_price d) \<and> price_field_ok (de_stop_loss_price d)
     \<and> (case de_max_holding_seconds d of None \<Rightarrow> True | Some n \<Rightarrow> 30 \<le> n \<and> n \<le> 7200)
     \<and> text_within 1000 (Some (de_rationale d)))"

definition validate_price_ladder :: "decision \<Rightarrow> decision result" where
  "validate_price_ladder d = (if de_action d = AI_BUY
     then (case (de_entry_price d, de_take_profit_price d, de_stop_loss_price d) of
         (Some entry, Some take_profit, Some stop_loss) \<Rightarrow>
           guard_else (\<not> (flt stop_loss entry \<and> flt entry take_profit))
             (BrokerError ''ValidationError'' ''BUY prices must satisfy stop_loss < entry < take_profit'') (Inr d)
       | _ \<Rightarrow> Inl (BrokerError ''ValidationError'' ''BUY requires entry, take_profit, and stop_loss prices''))
     else Inr d)"

definition make_decision :: "decision \<Rightarrow> decision result" where
  "make_decision d = guard_else (\<not> fields_ok d) (BrokerError ''ValidationError'' ''field constraint'') (validate_price_ladder d)"

definition high_risk :: "decision \<Rightarrow> bool" where
  "high_risk d = (de_risk_level d = RL_HIGH \<or> de_requires_operator_approval d)"

definition AI_DECISION_PROMPT_VERSION :: string where
  "AI_DECISION_PROMPT_VERSION = ''trade-decision-v4''"

section \<open>Context\<close>

datatype feature_value = FV_none | FV_num pyfloat | FV_text string | FV_time datetime

record ai_context =
  cx_symbol :: string
  cx_features :: "(string \<times> feature_value) list"
  cx_candidates :: "candidate_signal list"
  cx_latest_price :: pyfloat
  cx_open_position :: "json option"
  cx_market_snapshot_at :: "datetime option"
  cx_trade_profile :: string

definition fv_of :: "pyfloat option \<Rightarrow> feature_value" where
  "fv_of v = (case v of None \<Rightarrow> FV_none | Some x \<Rightarrow> FV_num x)"

definition as_dict :: "feature_snapshot \<Rightarrow> (string \<times> feature_value) list" where
  "as_dict s = [(''symbol'', FV_text (fs_symbol s)), (''latest_close'', FV_num (fs_latest_close s)), (''ema5'', fv_of (fs_ema5 s)),
     (''ema10'', fv_of (fs_ema10 s)), (''ema20'', fv_of (fs_ema20 s)), (''ma60'', fv_of (fs_ma60 s)), (''vwap'', fv_of (fs_vwap s)),
     (''volume_ratio'', fv_of (fs_volume_ratio s)), (''high_n'', fv_of (fs_high_n s)), (''low_n'', fv_of (fs_low_n s)),
     (''distance_from_high_pct'', fv_of (fs_distance_from_high_pct s)), (''ema20_slope_pct'', fv_of (fs_ema20_slope_pct s))]"

definition context_from_snapshot ::
  "feature_snapshot \<Rightarrow> candidate_signal list \<Rightarrow> json option \<Rightarrow> datetime option \<Rightarrow> string \<Rightarrow> ai_context" where
  "context_from_snapshot snapshot candidates open_position market_snapshot_at trade_profile =
     \<lparr>cx_symbol = fs_symbol snapshot, cx_features = as_dict snapshot, cx_candidates = candidates,
      cx_latest_price = fs_latest_close snapshot, cx_open_position = open_position, cx_market_snapshot_at = market_snapshot_at,
      cx_trade_profile = trade_profile\<rparr>"

section \<open>Rule-based client\<close>

definition make_rule_client :: "pyfloat \<Rightarrow> pyfloat result" where
  "make_rule_client threshold = guard_else (\<not> (fle (Fin 0) threshold \<and> fle threshold (Fin 1)))
     (ValueError ''buy_threshold must be between 0 and 1'') (Inr threshold)"

text \<open>\<open>max(..., key=...)\<close> keeps the first of equal scores; \<open>round\<close> of a float is to the nearest integer, ties to even.\<close>

fun best_candidate :: "candidate_signal list \<Rightarrow> candidate_signal option" where
  "best_candidate [] = None"
| "best_candidate (c # cs) = Some (foldl (\<lambda>b x. if flt (cs_score b) (cs_score x) then x else b) c cs)"

fun py_round :: "pyfloat \<Rightarrow> int result" where
  "py_round (Fin x) = Inr (round_even x)"
| "py_round NaN = Inl (ValueError ''cannot convert float NaN to integer'')"
| "py_round _ = Inl (OverflowError ''cannot convert float infinity to integer'')"

definition rule_hold :: "string \<Rightarrow> datetime \<Rightarrow> string \<Rightarrow> rat \<Rightarrow> string \<Rightarrow> decision" where
  "rule_hold fresh_id now symbol confidence rationale = \<lparr>de_decision_id = fresh_id, de_symbol = symbol, de_action = AI_HOLD,
     de_strategy = None, de_model = Some ''rule'', de_prompt_version = Some AI_DECISION_PROMPT_VERSION, de_confidence = fl confidence,
     de_entry_price = None, de_take_profit_price = None, de_stop_loss_price = None, de_max_holding_seconds = Some 900,
     de_risk_level = RL_LOW, de_requires_operator_approval = False, de_rationale = rationale, de_generated_at = now\<rparr>"

definition rule_decide :: "pyfloat \<Rightarrow> string \<Rightarrow> datetime \<Rightarrow> ai_context \<Rightarrow> decision result" where
  "rule_decide threshold fresh_id now context =
     (let best = best_candidate (cx_candidates context);
          score = (case best of None \<Rightarrow> Fin 0 | Some c \<Rightarrow> cs_score c) in
      if cx_open_position context \<noteq> None
      then make_decision (rule_hold fresh_id now (cx_symbol context) (6 / 10) ''Existing position is managed by deterministic exits.'')
      else if fle threshold score
      then (let entry = cx_latest_price context in
        rbind (case best of None \<Rightarrow> Inl (BrokerError ''AttributeError'' ''strategy'') | Some c \<Rightarrow> Inr (if cs_strategy c = [] then ''UNKNOWN'' else cs_strategy c)) (\<lambda>strategy.
        rbind (py_round (fmul entry (fl (992 / 1000)))) (\<lambda>stop.
        rbind (py_round (fmul entry (fl (1015 / 1000)))) (\<lambda>take_profit.
        rbind (float_operand stop) (\<lambda>stop_price. rbind (float_operand take_profit) (\<lambda>take_price.
          make_decision \<lparr>de_decision_id = fresh_id, de_symbol = cx_symbol context, de_action = AI_BUY, de_strategy = Some strategy,
            de_model = Some ''rule'', de_prompt_version = Some AI_DECISION_PROMPT_VERSION, de_confidence = fmin (fl (95 / 100)) score,
            de_entry_price = Some entry, de_take_profit_price = Some take_price, de_stop_loss_price = Some stop_price,
            de_max_holding_seconds = Some 900, de_risk_level = RL_NORMAL, de_requires_operator_approval = False,
            de_rationale = ''Rule-based candidate score passed the entry threshold.'', de_generated_at = now\<rparr>))))))
      else make_decision (rule_hold fresh_id now (cx_symbol context) (5 / 10) ''No candidate passed the deterministic threshold.''))"

section \<open>Chat client\<close>

record openai_client =
  oc_api_key :: string
  oc_model :: string
  oc_timeout :: pyfloat
  oc_max_retries :: int
  oc_retry_base_delay :: pyfloat
  oc_retry_max_delay :: pyfloat
  oc_max_snapshot_age :: "pyfloat option"
  oc_require_snapshot_timestamp :: bool
  oc_estimated_cost :: pyfloat
  oc_input_cost :: pyfloat
  oc_output_cost :: pyfloat
  oc_on_budget_exceeded :: string

definition model_cost_rates :: "string \<Rightarrow> pyfloat \<times> pyfloat" where
  "model_cost_rates model = (if lower model = ''gpt-4o'' then (fl (5 / 2), Fin 10) else (fl (15 / 100), fl (60 / 100)))"

definition make_openai_client ::
  "(string \<Rightarrow> string option) \<Rightarrow> string \<Rightarrow> string option \<Rightarrow> pyfloat \<Rightarrow> int \<Rightarrow> pyfloat \<Rightarrow> pyfloat \<Rightarrow> pyfloat option \<Rightarrow> bool \<Rightarrow> pyfloat \<Rightarrow>
   pyfloat option \<Rightarrow> pyfloat option \<Rightarrow> string \<Rightarrow> openai_client result" where
  "make_openai_client getenv api_key model timeout retries base_delay max_delay max_age require_ts estimated in_cost out_cost on_exceeded =
     guard_else (api_key = []) (ValueError ''OPENAI_API_KEY is required'')
     (guard_else (fle timeout (Fin 0)) (ValueError ''timeout must be positive'')
     (guard_else (retries < 0) (ValueError ''max_retries must be non-negative'')
     (guard_else (flt base_delay (Fin 0) \<or> flt max_delay (Fin 0)) (ValueError ''retry delays must be non-negative'')
     (guard_else (flt max_delay base_delay) (ValueError ''retry_max_delay must be >= retry_base_delay'')
     (guard_else (case max_age of None \<Rightarrow> False | Some a \<Rightarrow> flt a (Fin 0)) (ValueError ''max_snapshot_age_seconds must be non-negative'')
     (guard_else (on_exceeded \<noteq> ''hold'' \<and> on_exceeded \<noteq> ''raise'') (ValueError ''on_budget_exceeded must be hold or raise'')
     (guard_else (flt estimated (Fin 0)) (ValueError ''estimated_cost_per_call_usd must be non-negative'')
     (let name = (case str_or model (str_or (getenv ''OPENAI_MODEL'') None) of None \<Rightarrow> ''gpt-4o-mini'' | Some m \<Rightarrow> m);
          rates = model_cost_rates name;
          input_cost = (case in_cost of None \<Rightarrow> fst rates | Some c \<Rightarrow> c);
          output_cost = (case out_cost of None \<Rightarrow> snd rates | Some c \<Rightarrow> c) in
      guard_else (flt input_cost (Fin 0) \<or> flt output_cost (Fin 0)) (ValueError ''token costs must be non-negative'')
      (Inr \<lparr>oc_api_key = api_key, oc_model = name, oc_timeout = timeout, oc_max_retries = retries, oc_retry_base_delay = base_delay,
         oc_retry_max_delay = max_delay, oc_max_snapshot_age = max_age, oc_require_snapshot_timestamp = require_ts,
         oc_estimated_cost = estimated, oc_input_cost = input_cost, oc_output_cost = output_cost, oc_on_budget_exceeded = on_exceeded\<rparr>)))))))))"

text \<open>What the client asks of its surroundings. The request is named by the client and the context it is built from.\<close>

record ai_response =
  ar_status :: int
  ar_json :: "json result"

record 'w ai_env =
  ae_post :: "openai_client \<Rightarrow> ai_context \<Rightarrow> 'w \<Rightarrow> ai_response result \<times> 'w"
  ae_clock :: "'w \<Rightarrow> datetime \<times> 'w"
  ae_sleep :: "pyfloat \<Rightarrow> 'w \<Rightarrow> 'w"
  ae_random :: "'w \<Rightarrow> pyfloat \<times> 'w"
  ae_token :: "'w \<Rightarrow> string \<times> 'w"
  ae_local_now :: "'w \<Rightarrow> datetime \<times> 'w"
  ae_validate :: "json \<Rightarrow> decision result"
  ae_validate_json :: "json \<Rightarrow> decision result"

record ai_state =
  as_budget :: usage_budget
  as_last_usage :: ai_usage
  as_total_usage :: ai_usage

subsection \<open>Reading the answer\<close>

definition get_member :: "json \<Rightarrow> string \<Rightarrow> json option result" where
  "get_member j k = (case j of J_obj ms \<Rightarrow> Inr (member ms k) | _ \<Rightarrow> Inl (BrokerError ''AttributeError'' ''get''))"

definition key_of :: "json \<Rightarrow> string \<Rightarrow> json result" where
  "key_of j k = (case j of J_obj ms \<Rightarrow> (case member ms k of None \<Rightarrow> Inl (KeyError k) | Some v \<Rightarrow> Inr v)
     | _ \<Rightarrow> Inl (TypeError ''indices must be integers''))"

fun first_of :: "json \<Rightarrow> json result" where
  "first_of (J_arr (v # vs)) = Inr v"
| "first_of (J_arr []) = Inl (BrokerError ''IndexError'' ''list index out of range'')"
| "first_of (J_str (c # s)) = Inr (J_str [c])"
| "first_of (J_str []) = Inl (BrokerError ''IndexError'' ''string index out of range'')"
| "first_of (J_obj ms) = Inl (KeyError ''0'')"
| "first_of _ = Inl (TypeError ''object is not subscriptable'')"

text \<open>\<open>int(value or 0)\<close>\<close>

definition int_or_zero :: "json \<Rightarrow> int result" where
  "int_or_zero v = (if \<not> json_truthy v then Inr 0 else case v of
      J_bool _ \<Rightarrow> Inr 1
    | J_num n \<Rightarrow> (case int_of_str n of Some i \<Rightarrow> Inr i
        | None \<Rightarrow> (case float_of_str n of Some x \<Rightarrow> py_int x | None \<Rightarrow> Inl (ValueError ''invalid literal'')))
    | J_str s \<Rightarrow> (case int_of_str s of Some i \<Rightarrow> Inr i | None \<Rightarrow> Inl (ValueError ''invalid literal for int() with base 10''))
    | _ \<Rightarrow> Inl (TypeError ''int() argument must be a string, a bytes-like object or a real number''))"

definition get_or :: "(string \<times> json) list \<Rightarrow> string \<Rightarrow> json \<Rightarrow> json" where
  "get_or ms k fallback = (case member ms k of None \<Rightarrow> fallback | Some v \<Rightarrow> v)"

definition extract_usage :: "openai_client \<Rightarrow> json \<Rightarrow> ai_usage result" where
  "extract_usage c payload = rbind (get_member payload ''usage'') (\<lambda>u.
     rbind (case u of None \<Rightarrow> Inr [] | Some v \<Rightarrow> if \<not> json_truthy v then Inr []
              else (case v of J_obj ms \<Rightarrow> Inr ms | _ \<Rightarrow> Inl (BrokerError ''AttributeError'' ''get''))) (\<lambda>raw.
     rbind (int_or_zero (get_or raw ''prompt_tokens'' (get_or raw ''input_tokens'' (J_num ''0'')))) (\<lambda>prompt.
     rbind (int_or_zero (get_or raw ''completion_tokens'' (get_or raw ''output_tokens'' (J_num ''0'')))) (\<lambda>completion.
     rbind (case member raw ''total_tokens'' of None \<Rightarrow> Inr (prompt + completion) | Some v \<Rightarrow> int_or_zero v) (\<lambda>total.
     rbind (float_operand prompt) (\<lambda>p. rbind (float_operand completion) (\<lambda>q.
       Inr \<lparr>au_prompt_tokens = prompt, au_completion_tokens = completion, au_total_tokens = total,
         au_estimated_cost_usd = fquot (fadd (fmul p (oc_input_cost c)) (fmul q (oc_output_cost c))) (Fin 1000000)\<rparr>)))))))"

definition add_usage :: "ai_usage \<Rightarrow> ai_usage \<Rightarrow> ai_usage" where
  "add_usage a b = \<lparr>au_prompt_tokens = au_prompt_tokens a + au_prompt_tokens b,
     au_completion_tokens = au_completion_tokens a + au_completion_tokens b, au_total_tokens = au_total_tokens a + au_total_tokens b,
     au_estimated_cost_usd = fadd (au_estimated_cost_usd a) (au_estimated_cost_usd b)\<rparr>"

definition normalize_buy_risk_plan :: "decision \<Rightarrow> decision result" where
  "normalize_buy_risk_plan d = (if de_action d \<noteq> AI_BUY then Inr d
     else case de_entry_price d of None \<Rightarrow> Inl (AssertionError [])
       | Some price \<Rightarrow>
         rbind (normalize_krx_limit_price (NFloat price) ''buy'') (\<lambda>entry.
         rbind (float_operand entry) (\<lambda>e.
         rbind (normalize_krx_limit_price (NFloat (fmul e (fl (992 / 1000)))) ''buy'') (\<lambda>stop.
         rbind (float_operand (entry - stop)) (\<lambda>risk_per_share.
         rbind (normalize_krx_limit_price (NFloat (fadd e (fmul risk_per_share (fl (16 / 10))))) ''sell'') (\<lambda>take_profit.
         rbind (validate_risk_reward (NInt entry) (NInt take_profit) (NInt stop) (fl (15 / 10)) (fl (5 / 1000))) (\<lambda>_.
         rbind (float_operand stop) (\<lambda>s. rbind (float_operand take_profit) (\<lambda>t.
           Inr (d\<lparr>de_entry_price := Some e, de_stop_loss_price := Some s, de_take_profit_price := Some t\<rparr>))))))))))"

definition read_decision :: "'w ai_env \<Rightarrow> openai_client \<Rightarrow> ai_context \<Rightarrow> json \<Rightarrow> decision result" where
  "read_decision env c context payload =
     rbind (key_of payload ''choices'') (\<lambda>choices. rbind (first_of choices) (\<lambda>choice.
     rbind (key_of choice ''message'') (\<lambda>message. rbind (key_of message ''content'') (\<lambda>content.
     rbind (case content of J_obj _ \<Rightarrow> ae_validate env content | _ \<Rightarrow> ae_validate_json env content) (\<lambda>d.
     rbind (normalize_buy_risk_plan (d\<lparr>de_model := str_or (de_model d) (Some (oc_model c)),
         de_prompt_version := str_or (de_prompt_version d) (Some AI_DECISION_PROMPT_VERSION)\<rparr>)) (\<lambda>plan.
     guard_else (de_symbol plan \<noteq> cx_symbol context) (BrokerError ''AIDecisionResponseError'' ''OpenAI response symbol mismatch'')
       (Inr plan)))))))"

subsection \<open>Freshness of the context\<close>

definition SNAPSHOT_KEYS :: "string list" where
  "SNAPSHOT_KEYS = [''market_snapshot_at'', ''snapshot_at'', ''timestamp'', ''bar_timestamp'', ''bar_start'', ''latest_bar_timestamp'']"

fun snapshot_timestamp :: "string list \<Rightarrow> (string \<times> feature_value) list \<Rightarrow> feature_value" where
  "snapshot_timestamp [] features = FV_none"
| "snapshot_timestamp (k # ks) features = (case map_of features k of None \<Rightarrow> snapshot_timestamp ks features
     | Some FV_none \<Rightarrow> snapshot_timestamp ks features | Some v \<Rightarrow> v)"

definition aware_utc :: "datetime \<Rightarrow> datetime" where
  "aware_utc v = (case dt_tz v of None \<Rightarrow> v\<lparr>dt_tz := Some 0\<rparr> | Some _ \<Rightarrow> of_local_us (utc_us v) (Some 0))"

definition response_error :: "string \<Rightarrow> exc" where
  "response_error m = BrokerError ''AIDecisionResponseError'' m"

definition check_age :: "openai_client \<Rightarrow> datetime \<Rightarrow> datetime \<Rightarrow> unit result" where
  "check_age c now snapshot_at = rbind (dt_sub now (aware_utc snapshot_at)) (\<lambda>us. let age = total_seconds us in
     guard_else (flt age (Fin (- 5))) (response_error ''market snapshot timestamp is in the future'')
     (guard_else (case oc_max_snapshot_age c of None \<Rightarrow> False | Some limit \<Rightarrow> flt limit age)
        (response_error ''market snapshot is stale'') (Inr ())))"

definition validate_snapshot :: "'w ai_env \<Rightarrow> openai_client \<Rightarrow> ai_context \<Rightarrow> 'w \<Rightarrow> unit result \<times> 'w" where
  "validate_snapshot env c context w =
     (let timed = (\<lambda>t. case ae_clock env w of (now, w') \<Rightarrow> (check_age c now t, w')) in
      case (case cx_market_snapshot_at context of Some t \<Rightarrow> FV_time t | None \<Rightarrow> snapshot_timestamp SNAPSHOT_KEYS (cx_features context)) of
        FV_none \<Rightarrow> (if oc_require_snapshot_timestamp c then Inl (response_error ''market snapshot timestamp is required'') else Inr (), w)
      | FV_time t \<Rightarrow> timed t
      | FV_text s \<Rightarrow> (case fromisoformat s of None \<Rightarrow> (Inl (response_error ''market snapshot timestamp is invalid''), w) | Some t \<Rightarrow> timed t)
      | FV_num x \<Rightarrow> (Inl (BrokerError ''AttributeError'' ''tzinfo''), w))"

text \<open>The features of a snapshot carry no timestamp, so their age is only checked when the caller passes one.\<close>

lemma as_dict_untimed: "snapshot_timestamp SNAPSHOT_KEYS (as_dict s) = FV_none"
  by (simp add: SNAPSHOT_KEYS_def as_dict_def)

subsection \<open>One attempt and the retry loop\<close>

definition with_budget :: "usage_budget \<Rightarrow> ai_state \<Rightarrow> ai_state" where
  "with_budget b st = st\<lparr>as_budget := b\<rparr>"

text \<open>The rest of the \<open>try\<close> after the request; the second component is the reservation that is still open.\<close>

definition take_answer :: "'w ai_env \<Rightarrow> openai_client \<Rightarrow> ai_context \<Rightarrow> reservation \<Rightarrow> ai_response \<Rightarrow> ai_state \<Rightarrow>
    decision result \<times> reservation option \<times> ai_state" where
  "take_answer env c context r response st =
     (if ar_status response = 429 \<or> (500 \<le> ar_status response \<and> ar_status response \<le> 599)
      then (Inl (BrokerError ''_RetryableHTTPError'' (''OpenAI transient HTTP status '' @ show_int (ar_status response))), Some r, st)
      else if 400 \<le> ar_status response \<and> ar_status response \<le> 499
      then (Inl (BrokerError ''AIDecisionRequestError'' (''OpenAI request rejected with HTTP '' @ show_int (ar_status response))), Some r,
            with_budget (cancel_reservation r (as_budget st)) st)
      else case ar_json response of Inl e \<Rightarrow> (Inl e, Some r, st)
        | Inr payload \<Rightarrow> (case extract_usage c payload of Inl e \<Rightarrow> (Inl e, Some r, st)
            | Inr usage \<Rightarrow> (let st1 = st\<lparr>as_last_usage := usage, as_total_usage := add_usage (as_total_usage st) usage\<rparr> in
                case settle r (au_estimated_cost_usd usage) (as_budget st1) of
                  (Inl e, b) \<Rightarrow> (Inl e, Some r, with_budget b st1)
                | (Inr _, b) \<Rightarrow> (read_decision env c context payload, None, with_budget b st1))))"

definition attempt :: "'w ai_env \<Rightarrow> openai_client \<Rightarrow> ai_context \<Rightarrow> ai_state \<Rightarrow> 'w \<Rightarrow>
    (decision result \<times> reservation option \<times> ai_state) \<times> 'w" where
  "attempt env c context st w = (case ae_clock env w of (now, w1) \<Rightarrow> (case ae_token env w1 of (token, w2) \<Rightarrow>
     (case reserve_call now token (oc_estimated_cost c) (as_budget st) of
        (Inl e, b) \<Rightarrow> ((Inl e, None, with_budget b st), w1)
      | (Inr r, b) \<Rightarrow> (case ae_post env c context w2 of
           (Inl e, w3) \<Rightarrow> ((Inl e, Some r, with_budget b st), w3)
         | (Inr response, w3) \<Rightarrow> (take_answer env c context r response (with_budget b st), w3)))))"

definition is_budget_error :: "exc \<Rightarrow> bool" where
  "is_budget_error e = (exc_name e = ''AIBudgetExceededError'')"

definition is_retryable :: "exc \<Rightarrow> bool" where
  "is_retryable e = (exc_name e \<in> {''Timeout'', ''ReadTimeout'', ''ConnectTimeout'', ''_RetryableHTTPError''})"

text \<open>\<open>KeyError\<close>, \<open>TypeError\<close>, \<open>ValueError\<close> and the subclasses of \<open>ValueError\<close> that the called libraries raise.\<close>

definition is_answer_error :: "exc \<Rightarrow> bool" where
  "is_answer_error e = (exc_name e \<in> {''KeyError'', ''TypeError'', ''ValueError'', ''ValidationError'', ''JSONDecodeError'', ''UnicodeDecodeError'',
     ''UnicodeEncodeError'', ''InvalidURL'', ''InvalidSchema'', ''MissingSchema'', ''InvalidHeader''})"

definition close_reservation :: "reservation option \<Rightarrow> ai_state \<Rightarrow> ai_state" where
  "close_reservation r st = (case r of None \<Rightarrow> st | Some x \<Rightarrow> with_budget (cancel_reservation x (as_budget st)) st)"

definition budget_fallback :: "'w ai_env \<Rightarrow> openai_client \<Rightarrow> ai_context \<Rightarrow> exc \<Rightarrow> 'w \<Rightarrow> decision result \<times> 'w" where
  "budget_fallback env c context error w =
     (if oc_on_budget_exceeded c = ''raise'' then (Inl error, w)
      else case ae_token env w of (token, w1) \<Rightarrow> (case ae_local_now env w1 of (now, w2) \<Rightarrow>
        (make_decision \<lparr>de_decision_id = ''ai-decision:'' @ token, de_symbol = cx_symbol context, de_action = AI_HOLD, de_strategy = None,
           de_model = None, de_prompt_version = None, de_confidence = Fin 0, de_entry_price = None, de_take_profit_price = None,
           de_stop_loss_price = None, de_max_holding_seconds = Some 900, de_risk_level = RL_HIGH, de_requires_operator_approval = True,
           de_rationale = ''AI call blocked by safety budget: '' @ exc_text error, de_generated_at = now\<rparr>, w2)))"

definition retry_delay :: "openai_client \<Rightarrow> nat \<Rightarrow> pyfloat result" where
  "retry_delay c k = rbind (float_operand (2 ^ k)) (\<lambda>p. Inr (fmin (oc_retry_max_delay c) (fmul (oc_retry_base_delay c) p)))"

text \<open>The loop over the attempts: \<open>left\<close> more after this one, which has index \<open>k\<close>.\<close>

fun decide_loop :: "'w ai_env \<Rightarrow> openai_client \<Rightarrow> ai_context \<Rightarrow> nat \<Rightarrow> nat \<Rightarrow> ai_state \<Rightarrow> 'w \<Rightarrow> decision result \<times> ai_state \<times> 'w" where
  "decide_loop env c context left k st w = (case attempt env c context st w of
      ((Inr d, r, st1), w1) \<Rightarrow> (Inr d, st1, w1)
    | ((Inl e, r, st1), w1) \<Rightarrow> (let st2 = close_reservation r st1 in
        if is_budget_error e then (case budget_fallback env c context e w1 of (q, w2) \<Rightarrow> (q, st2, w2))
        else if is_retryable e then
          (case left of 0 \<Rightarrow> (Inl (BrokerError ''AIDecisionTransportError'' (exc_text e)), st2, w1)
           | Suc m \<Rightarrow> (case retry_delay c k of Inl x \<Rightarrow> (Inl x, st2, w1)
               | Inr delay \<Rightarrow> (case ae_random env w1 of (u, w2) \<Rightarrow>
                   decide_loop env c context m (Suc k) st2 (ae_sleep env (fmul delay (fadd (fl (5 / 10)) u)) w2))))
        else if is_answer_error e
        then (Inl (response_error ''OpenAI response did not match the decision schema''), st2, w1)
        else (Inl e, st2, w1)))"

declare decide_loop.simps [simp del]

definition decide :: "'w ai_env \<Rightarrow> openai_client \<Rightarrow> ai_context \<Rightarrow> ai_state \<Rightarrow> 'w \<Rightarrow> decision result \<times> ai_state \<times> 'w" where
  "decide env c context st w = (case validate_snapshot env c context w of
      (Inl e, w1) \<Rightarrow> (Inl e, st, w1)
    | (Inr _, w1) \<Rightarrow> decide_loop env c context (nat (oc_max_retries c)) 0 st w1)"

section \<open>The risk plan of a BUY\<close>

text \<open>A BUY plan on the tick grid: entry, stop and target are whole won in order, and the risk and reward check accepted them.\<close>

definition planned_buy :: "decision \<Rightarrow> int \<Rightarrow> int \<Rightarrow> int \<Rightarrow> bool" where
  "planned_buy d entry stop take_profit = (de_entry_price d = Some (f_int entry) \<and> de_stop_loss_price d = Some (f_int stop)
     \<and> de_take_profit_price d = Some (f_int take_profit) \<and> 0 < stop \<and> stop < entry \<and> entry < take_profit)"

lemma float_operand_Inr: "float_operand n = Inr x \<longleftrightarrow> x = f_int n \<and> isfinite (f_int n)"
  by (auto simp: float_operand_def)

lemma mr_decimal_int: "mr_decimal (NInt n) s = Inr x \<longleftrightarrow> 0 < n \<and> x = of_int n"
  by (auto simp: mr_decimal_def guard_else_def)

lemma risk_reward_order:
  assumes "validate_risk_reward (NInt e) (NInt t) (NInt s) mr ms = Inr r"
  shows "0 < s \<and> s < e \<and> e < t"
  using assms by (auto simp: validate_risk_reward_def result_iffs mr_decimal_int)

text \<open>On whole won below \<open>10 ^ 24\<close> the 28-digit quotients decide the exact ratios.\<close>

lemma fl_exact_range: "0 \<le> x \<Longrightarrow> x \<le> of_int (2 ^ 53) \<Longrightarrow> fl x = Fin (rnd64 x)"
  using rnd64_mono [of x "of_int (2 ^ 53)"] rnd64_of_int [of "2 ^ 53"] rnd64_nonneg [of x] p2_53_1024 p2_pos [of 1024]
  by (auto simp: fl_def Let_def)

lemma plan_constants:
  "fl (15 / 10) = Fin (rnd64 (3 / 2))" "fl (5 / 1000) = Fin (rnd64 (1 / 200))"
  "repr_float (rnd64 (3 / 2)) = 3 / 2" "repr_float (rnd64 (1 / 200)) = 1 / 200"
  by (simp add: fl_exact_range, simp add: fl_exact_range, code_simp, code_simp)

lemma quotient_at_least:
  fixes p q :: int
  assumes "of_int m / of_int n \<le> ddiv (of_int p) (of_int q)" "0 < p" "0 < q" "0 < m" "0 < n" "m \<le> 10" "n \<le> 1000" "p < 10 ^ 24" "q < 10 ^ 24"
  shows "m * q \<le> n * p"
proof (rule ccontr)
  assume "\<not> m * q \<le> n * p"
  then have lt: "n * p + 1 \<le> m * q" by simp
  let ?x = "of_int p / of_int q :: rat"
  have "ddiv (of_int p) (of_int q) \<le> ?x * (1 + p10 (- 27))"
    using dec28_le [of ?x] assms(2,3) by (simp add: ddiv_def distrib_left)
  with assms(1) have "of_int m / of_int n \<le> ?x * (1 + p10 (- 27))" by simp
  then have "of_int m * of_int q \<le> of_int n * of_int p * (1 + p10 (- 27))"
    using assms(3,5) by (simp add: field_simps)
  also have "\<dots> = of_int n * of_int p + of_int (n * p) * p10 (- 27)" by (simp add: distrib_left)
  also have "of_int (n * p) * p10 (- 27) < 1"
  proof -
    have "n * p \<le> 1000 * p" using assms(2,7) by (simp add: mult_right_mono)
    also have "\<dots> < 10 ^ 27" using assms(8) by simp
    finally have "of_int (n * p) < (10 ^ 27 :: rat)" by (metis of_int_less_iff of_int_numeral of_int_power)
    then have "of_int (n * p) * p10 (- 27) < 10 ^ 27 * p10 (- 27)" by (rule mult_strict_right_mono) simp
    also have "\<dots> = 1" by (simp add: p10_def)
    finally show ?thesis .
  qed
  finally have "of_int (m * q) < (of_int (n * p + 1) :: rat)" by simp
  with lt show False by (simp only: of_int_less_iff)
qed

lemma risk_reward_ints:
  assumes run: "validate_risk_reward (NInt e) (NInt t) (NInt s) (fl (15 / 10)) (fl (5 / 1000)) = Inr r" and big: "t < 10 ^ 24"
  shows "3 * (e - s) \<le> 2 * (t - e) \<and> e \<le> 200 * (e - s)"
proof -
  note ord = risk_reward_order [OF run]
  have sub: "dsub (of_int a) (of_int b) = of_int (a - b)" if "0 < a" "0 < b" "a < 10 ^ 24" "b < 10 ^ 24" for a b
    using that dec28_of_int [of "a - b"] by (simp add: dsub_def)
  have ds: "dsub (of_int e) (of_int s) = of_int (e - s)" "dsub (of_int t) (of_int e) = of_int (t - e)"
    by (rule sub; use ord big in simp)+
  from run ord have "3 / 2 \<le> ddiv (of_int (t - e)) (of_int (e - s))" "1 / 200 \<le> ddiv (of_int (e - s)) (of_int e)"
    unfolding validate_risk_reward_def plan_constants
    by (auto simp: mr_decimal_int result_iffs Let_def plan_constants ds)
  with ord big show ?thesis
    using quotient_at_least [of 3 2 "t - e" "e - s"] quotient_at_least [of 1 200 "e - s" e] by simp
qed

lemma normalized_plan:
  assumes "normalize_buy_risk_plan d = Inr p"
  shows "de_symbol p = de_symbol d \<and> de_action p = de_action d
    \<and> (de_action p = AI_BUY \<longrightarrow> (\<exists>entry stop take_profit. planned_buy p entry stop take_profit
        \<and> (take_profit < 10 ^ 24 \<longrightarrow> 3 * (entry - stop) \<le> 2 * (take_profit - entry) \<and> entry \<le> 200 * (entry - stop))))"
proof (cases "de_action d = AI_BUY")
  case True
  with assms obtain entry stop take_profit r where p:
    "p = d\<lparr>de_entry_price := Some (f_int entry), de_stop_loss_price := Some (f_int stop), de_take_profit_price := Some (f_int take_profit)\<rparr>"
    and v: "validate_risk_reward (NInt entry) (NInt take_profit) (NInt stop) (fl (15 / 10)) (fl (5 / 1000)) = Inr r"
    by (auto simp: normalize_buy_risk_plan_def result_iffs float_operand_Inr simp del: divide_numeral_1 split: option.splits)
  then show ?thesis using risk_reward_order [OF v] risk_reward_ints [OF v] by (auto simp: planned_buy_def)
qed (use assms in \<open>simp add: normalize_buy_risk_plan_def\<close>)

lemma decision_read:
  assumes "read_decision env c context payload = Inr p"
  shows "\<exists>d. normalize_buy_risk_plan d = Inr p \<and> de_symbol p = cx_symbol context"
  using assms by (auto simp: read_decision_def result_iffs)

text \<open>Whatever an attempt returns was read from the answer.\<close>

lemma attempt_read:
  assumes "attempt env c context st w = ((Inr d, r, st1), w1)"
  shows "\<exists>payload. read_decision env c context payload = Inr d"
  using assms by (auto simp: attempt_def take_answer_def Let_def split: prod.splits sum.splits if_splits)

lemma fallback_holds:
  assumes "budget_fallback env c context e w = (Inr d, w1)"
  shows "de_symbol d = cx_symbol context \<and> de_action d = AI_HOLD"
  using assms
  by (auto simp: budget_fallback_def make_decision_def validate_price_ladder_def guard_else_def split: prod.splits if_splits)

lemma loop_result:
  assumes "decide_loop env c context left k st w = (Inr d, st1, w1)"
  shows "de_symbol d = cx_symbol context \<and> de_action d = AI_HOLD \<or> (\<exists>payload. read_decision env c context payload = Inr d)"
  using assms
proof (induction left arbitrary: k st w)
  case 0
  then show ?case
    by (subst (asm) decide_loop.simps) (auto simp: Let_def dest: attempt_read fallback_holds split: prod.splits sum.splits if_splits)
next
  case (Suc left)
  from Suc.prems show ?case
    by (subst (asm) decide_loop.simps) (auto simp: Let_def dest: attempt_read fallback_holds Suc.IH split: prod.splits sum.splits if_splits)
qed

section \<open>Requests and the budget\<close>

text \<open>
  A counter of requests in the world: a request adds one, everything else the client does leaves it alone.
\<close>

definition counts_posts :: "'w ai_env \<Rightarrow> ('w \<Rightarrow> nat) \<Rightarrow> bool" where
  "counts_posts env n = ((\<forall>c x w. n (snd (ae_post env c x w)) = Suc (n w)) \<and> (\<forall>w. n (snd (ae_clock env w)) = n w)
     \<and> (\<forall>t w. n (ae_sleep env t w) = n w) \<and> (\<forall>w. n (snd (ae_random env w)) = n w) \<and> (\<forall>w. n (snd (ae_token env w)) = n w)
     \<and> (\<forall>w. n (snd (ae_local_now env w)) = n w))"

lemma counts_run:
  assumes "counts_posts env n"
  shows "ae_post env c x w = (q, w') \<Longrightarrow> n w' = Suc (n w)" "ae_clock env w = (t, w') \<Longrightarrow> n w' = n w"
    "n (ae_sleep env f w) = n w" "ae_random env w = (u, w') \<Longrightarrow> n w' = n w" "ae_token env w = (s, w') \<Longrightarrow> n w' = n w"
    "ae_local_now env w = (t, w') \<Longrightarrow> n w' = n w"
  using assms by (auto simp: counts_posts_def) (metis snd_conv)+

abbreviation calls :: "ai_state \<Rightarrow> int" where
  "calls st \<equiv> ub_process_calls (as_budget st)"

lemma reserve_calls:
  assumes "reserve_call clk token cost b = (r, b')"
  shows "ub_process_calls b' = ub_process_calls b + (case r of Inl _ \<Rightarrow> 0 | Inr _ \<Rightarrow> 1)"
  using assms
  by (auto simp: reserve_call_def reserve_rolled_def Let_def grant_def roll_day_def split: sum.splits if_splits)

lemma settle_calls: "settle r cost b = (q, b') \<Longrightarrow> ub_process_calls b' = ub_process_calls b"
  using same_counts_settle [of b r cost] by (simp add: same_counts_def)

lemma cancel_calls [simp]: "ub_process_calls (cancel_reservation r b) = ub_process_calls b"
  using same_counts_cancel [of b r] by (simp add: same_counts_def)

lemma close_calls [simp]: "calls (close_reservation r st) = calls st"
  by (simp add: close_reservation_def with_budget_def split: option.split)

lemma answer_calls: "take_answer env c context r response st = (q, x, st1) \<Longrightarrow> calls st1 = calls st"
  by (auto simp: take_answer_def with_budget_def Let_def dest: settle_calls split: sum.splits prod.splits if_splits)

lemma attempt_calls:
  assumes "counts_posts env n" "attempt env c context st w = ((q, r, st1), w1)"
  shows "calls st1 = calls st + int (n w1 - n w) \<and> n w \<le> n w1 \<and> n w1 \<le> Suc (n w)"
  using assms(2) counts_run [OF assms(1)]
  by (auto simp: attempt_def with_budget_def dest!: reserve_calls answer_calls split: prod.splits sum.splits)

lemma fallback_counts: "counts_posts env n \<Longrightarrow> budget_fallback env c context e w = (q, w1) \<Longrightarrow> n w1 = n w"
  by (auto simp: budget_fallback_def counts_run split: prod.splits if_splits)

lemma loop_calls:
  assumes "counts_posts env n" "decide_loop env c context left k st w = (q, st1, w1)"
  shows "calls st1 = calls st + int (n w1 - n w) \<and> n w \<le> n w1 \<and> n w1 \<le> n w + Suc left"
  using assms(2)
proof (induction left arbitrary: k st w)
  case 0
  obtain q0 r st0 w0 where a: "attempt env c context st w = ((q0, r, st0), w0)" by (metis prod.exhaust)
  from 0 attempt_calls [OF assms(1) a] fallback_counts [OF assms(1)] show ?case
    by (subst (asm) decide_loop.simps) (auto simp: a Let_def split: sum.splits prod.splits if_splits)
next
  case (Suc left)
  obtain q0 r st0 w0 where a: "attempt env c context st w = ((q0, r, st0), w0)" by (metis prod.exhaust)
  show ?case
  proof (cases "\<exists>e. q0 = Inl e \<and> \<not> is_budget_error e \<and> is_retryable e \<and> (\<exists>t. retry_delay c k = Inr t)")
    case True
    then obtain e t where e: "q0 = Inl e" "\<not> is_budget_error e" "is_retryable e" "retry_delay c k = Inr t" by blast
    obtain u w2 where u: "ae_random env w0 = (u, w2)" by fastforce
    let ?w = "ae_sleep env (fmul t (fadd (fl (5 / 10)) u)) w2"
    have "decide_loop env c context left (Suc k) (close_reservation r st0) ?w = (q, st1, w1)"
      using Suc.prems a e u by (subst (asm) decide_loop.simps) (simp add: Let_def)
    from Suc.IH [OF this] attempt_calls [OF assms(1) a] counts_run [OF assms(1)] u show ?thesis by auto
  next
    case False
    with Suc.prems a attempt_calls [OF assms(1) a] fallback_counts [OF assms(1)] show ?thesis
      by (subst (asm) decide_loop.simps) (auto simp: Let_def split: sum.splits prod.splits if_splits)
  qed
qed

lemma snapshot_counts: "counts_posts env n \<Longrightarrow> validate_snapshot env c context w = (q, w1) \<Longrightarrow> n w1 = n w"
  by (auto simp: validate_snapshot_def Let_def counts_run split: prod.splits feature_value.splits option.splits)

section \<open>Properties\<close>

text \<open>
  (C26) Whatever the model answers, a decision of the chat client is for the requested symbol, and a BUY carries a deterministic risk
  plan: entry, stop and target are whole won in the order stop, entry, target, the reward is at least one and a half times
  the risk and the stop at least half a percent below the entry (exactly, for prices below \<open>10 ^ 24\<close>). No assumption is made on
  the parser, the session or the answer.
\<close>

theorem ai_buy_has_risk_plan:
  assumes "decide env c context st w = (Inr d, st', w')"
  shows "de_symbol d = cx_symbol context
    \<and> (de_action d = AI_BUY \<longrightarrow> (\<exists>entry stop take_profit. planned_buy d entry stop take_profit
        \<and> (take_profit < 10 ^ 24 \<longrightarrow> 3 * (entry - stop) \<le> 2 * (take_profit - entry) \<and> entry \<le> 200 * (entry - stop))))"
proof -
  obtain left st0 w0 where "decide_loop env c context left 0 st0 w0 = (Inr d, st', w')"
    using assms by (auto simp: decide_def split: prod.splits sum.splits)
  from loop_result [OF this] show ?thesis
  proof (elim disjE exE)
    fix payload assume "read_decision env c context payload = Inr d"
    from decision_read [OF this] show ?thesis using normalized_plan by blast
  qed simp
qed

text \<open>
  (C27) Every request of the chat client is covered by a budget reservation. One decision sends exactly as many requests as the budget
  granted calls meanwhile, and at most one more than the configured retries, on every path: answers, refusals, time-outs, malformed payloads and
  an exhausted budget.
\<close>

theorem ai_requests_budgeted:
  assumes "counts_posts env posts" "decide env c context st w = (r, st', w')" "0 \<le> oc_max_retries c"
  shows "ub_process_calls (as_budget st') - ub_process_calls (as_budget st) = int (posts w') - int (posts w)
    \<and> int (posts w') - int (posts w) \<le> oc_max_retries c + 1"
proof -
  obtain q w1 where v: "validate_snapshot env c context w = (q, w1)" by fastforce
  note same = snapshot_counts [OF assms(1) v]
  show ?thesis
  proof (cases q)
    case (Inl e)
    with assms(2,3) v same show ?thesis by (simp add: decide_def)
  next
    case (Inr u)
    with assms(2) v have "decide_loop env c context (nat (oc_max_retries c)) 0 st w1 = (r, st', w')" by (simp add: decide_def)
    from loop_calls [OF assms(1) this] same assms(3) show ?thesis by auto
  qed
qed

text \<open>A session that always times out, and a client with one retry.\<close>

definition dead_env :: "nat ai_env" where
  "dead_env = \<lparr>ae_post = (\<lambda>c x n. (Inl (BrokerError ''ReadTimeout'' []), Suc n)), ae_clock = Pair sample_time, ae_sleep = (\<lambda>_ n. n),
     ae_random = Pair (Fin 0), ae_token = Pair ''t'', ae_local_now = Pair sample_time, ae_validate = (\<lambda>_. Inl (KeyError [])),
     ae_validate_json = (\<lambda>_. Inl (KeyError []))\<rparr>"

definition one_retry :: openai_client where
  "one_retry = \<lparr>oc_api_key = ''k'', oc_model = ''m'', oc_timeout = Fin 20, oc_max_retries = 1, oc_retry_base_delay = Fin 0,
     oc_retry_max_delay = Fin 2, oc_max_snapshot_age = None, oc_require_snapshot_timestamp = False, oc_estimated_cost = Fin 0,
     oc_input_cost = Fin 0, oc_output_cost = Fin 0, oc_on_budget_exceeded = ''hold''\<rparr>"

definition roomy :: ai_state where
  "roomy = \<lparr>as_budget = \<lparr>ub_max_process_calls = 9, ub_max_daily_calls = 9, ub_max_process_cost = Fin 10, ub_max_daily_cost = Fin 25,
       ub_day = date_key sample_time, ub_process_calls = 0, ub_daily_calls = 0, ub_process_cost = Fin 0, ub_daily_cost = Fin 0,
       ub_process_reserved = Fin 0, ub_daily_reserved = Fin 0, ub_reservations = []\<rparr>,
     as_last_usage = no_usage, as_total_usage = no_usage\<rparr>"

theorem ai_requests_budgeted_witness:
  "\<exists>r st' w'. decide dead_env one_retry (context_from_snapshot sample_snapshot [] None None ''normal'') roomy 0 = (r, st', w')
     \<and> ub_process_calls (as_budget st') = int w' \<and> w' \<le> 2"
proof -
  obtain r st' w' where run: "decide dead_env one_retry (context_from_snapshot sample_snapshot [] None None ''normal'') roomy 0
      = (r, st', w')" by (metis prod.exhaust)
  have "counts_posts dead_env id" by (simp add: counts_posts_def dead_env_def)
  from ai_requests_budgeted [OF this run] run show ?thesis by (simp add: one_retry_def roomy_def)
qed

text \<open>An answer that buys at 500 won: the client replaces the model's stop and target by 496 and 507.\<close>

definition buy_payload :: json where
  "buy_payload = J_obj [(''choices'', J_arr [J_obj [(''message'', J_obj [(''content'', J_obj [])])]]),
     (''usage'', J_obj [(''prompt_tokens'', J_null), (''completion_tokens'', J_null)])]"

definition model_buy :: decision where
  "model_buy = (rule_hold ''d1'' sample_time ''005930'' (6 / 10) ''breakout'')\<lparr>de_action := AI_BUY, de_entry_price := Some (Fin 500),
     de_stop_loss_price := Some (Fin 1), de_take_profit_price := Some (Fin 501)\<rparr>"

definition buy_env :: "unit ai_env" where
  "buy_env = \<lparr>ae_post = (\<lambda>c x. Pair (Inr \<lparr>ar_status = 200, ar_json = Inr buy_payload\<rparr>)), ae_clock = Pair sample_time, ae_sleep = (\<lambda>_ w. w),
     ae_random = Pair (Fin 0), ae_token = Pair ''t'', ae_local_now = Pair sample_time,
     ae_validate = (\<lambda>_. Inr model_buy), ae_validate_json = (\<lambda>_. Inl (KeyError []))\<rparr>"

lemma normalize_float: "normalize_krx_limit_price (NFloat (Fin x)) sid = normalize_krx_limit_price (NDec (repr_float x)) sid"
  by (simp add: normalize_krx_limit_price_def mr_decimal_def)

lemma sample_prices:
  "repr_float 500 = 500" "rnd64 (500 * rnd64 (124 / 125)) = 496" "repr_float 496 = 496"
  "rnd64 (500 + rnd64 (4 * rnd64 (8 / 5))) = rnd64 (2532 / 5)" "repr_float (rnd64 (2532 / 5)) = 2532 / 5"
  by code_simp+

lemma sample_ticks:
  "normalize_krx_limit_price (NDec 500) ''buy'' = Inr 500" "normalize_krx_limit_price (NDec 496) ''buy'' = Inr 496"
  "normalize_krx_limit_price (NDec (2532 / 5)) ''sell'' = Inr 507"
  "dec28 4 = 4" "dec28 7 = 7" "dec28 (7 / 4) = 7 / 4" "dec28 (1 / 125) = 1 / 125"
  by code_simp+

lemmas sample_plan_simps = sample_prices sample_ticks

lemma rnd64_nonneg_fl: "0 \<le> x \<Longrightarrow> x \<le> 1000 \<Longrightarrow> fl x = Fin (rnd64 x)"
  by (rule fl_exact_range) simp_all

lemma sample_plan: "\<exists>p. normalize_buy_risk_plan (model_buy\<lparr>de_model := m, de_prompt_version := v\<rparr>) = Inr p \<and> de_symbol p = ''005930''
    \<and> de_action p = AI_BUY"
proof -
  have unit: "0 \<le> rnd64 (124 / 125)" "rnd64 (124 / 125) \<le> 1" "0 \<le> rnd64 (8 / 5)" "rnd64 (8 / 5) \<le> 2"
    using rnd64_nonneg [of "124 / 125"] rnd64_nonneg [of "8 / 5"] rnd64_mono [of "124 / 125" 1] rnd64_mono [of "8 / 5" 2]
      rnd64_of_int [of 1] rnd64_of_int [of 2] by simp_all
  have four: "0 \<le> rnd64 (4 * rnd64 (8 / 5))" "rnd64 (4 * rnd64 (8 / 5)) \<le> 8"
    using rnd64_nonneg [of "4 * rnd64 (8 / 5)"] rnd64_mono [of "4 * rnd64 (8 / 5)" 8] rnd64_of_int [of 8] unit by simp_all
  have ops: "float_operand 500 = Inr (Fin 500)" "float_operand 4 = Inr (Fin 4)" "float_operand 496 = Inr (Fin 496)" "float_operand 507 = Inr (Fin 507)"
    using fl_of_int [of 500] fl_of_int [of 4] fl_of_int [of 496] fl_of_int [of 507] by (simp_all add: float_operand_def f_int_def)
  have prod: "fmul (Fin 500) (fl (124 / 125)) = Fin 496" "fmul (Fin 4) (fl (8 / 5)) = Fin (rnd64 (4 * rnd64 (8 / 5)))"
    "fadd (Fin 500) (Fin (rnd64 (4 * rnd64 (8 / 5)))) = Fin (rnd64 (2532 / 5))"
    using unit four by (simp_all add: rnd64_nonneg_fl sample_plan_simps)
  have "\<exists>r. validate_risk_reward (NInt 500) (NInt 507) (NInt 496) (fl (15 / 10)) (fl (5 / 1000)) = Inr r"
    unfolding plan_constants(1,2) using rnd64_nonneg [of "1 / 200"] rnd64_mono [of 1 "3 / 2"] rnd64_of_int [of 1]
    by (auto simp: validate_risk_reward_def mr_decimal_def guard_else_def Let_def dsub_def ddiv_def plan_constants(3,4) sample_plan_simps)
  then show ?thesis
    by (auto simp: normalize_buy_risk_plan_def model_buy_def rule_hold_def prod ops normalize_float sample_plan_simps simp del: fmul.simps fadd.simps)
qed

theorem ai_buy_has_risk_plan_witness:
  "\<exists>d st'. decide buy_env one_retry (context_from_snapshot sample_snapshot [] None None ''normal'') roomy () = (Inr d, st', ())
     \<and> de_action d = AI_BUY \<and> (\<exists>entry stop take_profit. planned_buy d entry stop take_profit)"
proof -
  let ?x = "context_from_snapshot sample_snapshot [] None None ''normal''"
  obtain p where p: "normalize_buy_risk_plan (model_buy\<lparr>de_model := Some ''rule'', de_prompt_version := Some AI_DECISION_PROMPT_VERSION\<rparr>) = Inr p"
    "de_symbol p = ''005930''" "de_action p = AI_BUY" using sample_plan by blast
  have "str_or (de_model model_buy) (Some ''m'') = Some ''rule''"
    "str_or (de_prompt_version model_buy) (Some AI_DECISION_PROMPT_VERSION) = Some AI_DECISION_PROMPT_VERSION"
    by (simp_all add: model_buy_def rule_hold_def str_or_def AI_DECISION_PROMPT_VERSION_def)
  with p have read: "read_decision buy_env one_retry ?x buy_payload = Inr p"
    by (simp add: read_decision_def buy_payload_def key_of_def member_def buy_env_def one_retry_def context_from_snapshot_def sample_snapshot_def)
  have usage: "\<exists>u. extract_usage one_retry buy_payload = Inr u \<and> au_estimated_cost_usd u = Fin 0"
    by (simp add: extract_usage_def buy_payload_def get_member_def member_def get_or_def int_or_zero_def one_retry_def float_operand_def f_int_def)
  have fresh: "validate_snapshot buy_env one_retry ?x () = (Inr (), ())"
    by (simp add: validate_snapshot_def context_from_snapshot_def as_dict_untimed one_retry_def)
  have zero: "fsub (Fin 0) (Fin 0) = Fin 0" "fadd (Fin 0) (Fin 0) = Fin 0" by (simp_all add: fsub_def)
  have "\<exists>st'. attempt buy_env one_retry ?x roomy () = ((Inr p, None, st'), ())"
    using read usage
    by (auto simp: attempt_def buy_env_def one_retry_def roomy_def reserve_call_def non_negative_float_def reserve_rolled_def roll_day_def Let_def
        with_budget_def take_answer_def settle_def grant_def release_def charge_def zero simp del: fadd.simps)
  then obtain st' where "decide buy_env one_retry ?x roomy () = (Inr p, st', ())"
    by (auto simp: decide_def fresh decide_loop.simps [of buy_env])
  then obtain st' where run: "decide buy_env one_retry ?x roomy () = (Inr p, st', ())" by blast
  from ai_buy_has_risk_plan [OF run] run p(3) show ?thesis by auto
qed

end
