(* ===== verification/AutoTrade.thy ===== *)
theory AutoTrade
  imports Submission AiDecision Reconcile ExitPolicy
begin

text \<open>
  One auto-trading cycle (\<open>pipeline/auto_trade.py\<close>): per symbol the exit of an open position, the execution of an approved entry or a new
  entry decided by the AI. The AI, the submitter, the notifier, the clock and the price and budget checks are parameters on database and
  world; the text of a message is named by what it reports. Shown: a cycle reports every symbol exactly once, asks the AI about each at most once and raises only
  for its settings and clock; the submitter sees only recorded requests within the limits, and for an approved entry only
  the approved terms; a refused approval stays approved; an exit that the safety gate refused blocks the later exits of its symbol.
\<close>

section \<open>Settings, results and surroundings\<close>

record auto_config =
  ac_risk :: risk_config
  ac_max_quantity :: int
  ac_min_confidence :: pyfloat
  ac_candidate_profile :: string
  ac_max_entry_deviation_pct :: pyfloat
  ac_require_confirmation :: bool
  ac_enforce_market_hours :: bool
  ac_max_tick_age :: int
  ac_max_bar_age :: int
  ac_cycle_deadline :: "pyfloat option"
  ac_max_ai_response_age :: "pyfloat option"
  ac_max_exit_requotes :: int

record symbol_result =
  sy_symbol :: string
  sy_action :: string
  sy_submitted :: bool
  sy_blocked :: bool
  sy_reason :: string
  sy_quantity :: int
  sy_broker_order_id :: "string option"

record cycle_report =
  cy_results :: "symbol_result list"
  cy_ai_call_count :: nat

definition submitted_count :: "cycle_report \<Rightarrow> nat" where
  "submitted_count r = length (filter sy_submitted (cy_results r))"

definition blocked :: "string \<Rightarrow> string \<Rightarrow> symbol_result" where
  "blocked symbol reason = \<lparr>sy_symbol = symbol, sy_action = ''BLOCKED'', sy_submitted = False, sy_blocked = True, sy_reason = reason,
     sy_quantity = 0, sy_broker_order_id = None\<rparr>"

text \<open>What a price check may return, and what a message says.\<close>

datatype py_value = PV_bool bool | PV_num pyfloat | PV_other

datatype notice =
    N_cycle_error string string
  | N_sell_review string
  | N_sell_acknowledged string int string
  | N_buy_acknowledged string int pyfloat
  | N_approval string decision

record 'w notifier =
  nt_send :: "notice \<Rightarrow> (unit, 'w) sop"
  nt_send_approval :: "(string \<Rightarrow> notice \<Rightarrow> (unit, 'w) sop) option"

record 'w trade_env =
  te_calendar :: calendar
  te_real_sum :: "pyfloat list \<Rightarrow> pyfloat"
  te_kst_now :: "(datetime, 'w) sop"
  te_decide :: "ai_context \<Rightarrow> (decision, 'w) sop"
  te_network_client :: bool
  te_submit :: "kis_request \<Rightarrow> (order_result, 'w) sop"
  te_notifier :: "'w notifier option"
  te_budget :: "(string \<Rightarrow> pyfloat \<Rightarrow> int \<Rightarrow> (bool, 'w) sop) option"
  te_post_price :: "(string \<Rightarrow> (py_value, 'w) sop) option"
  te_exit_price :: "(string \<Rightarrow> (py_value, 'w) sop) option"

text \<open>The counter of AI calls is a local of the cycle, carried next to the world.\<close>

type_synonym ('a, 'w) cop = "('a, nat \<times> 'w) sop"

definition outside :: "('a, 'w) sop \<Rightarrow> ('a, 'w) cop" where
  "outside m s = (case s of (t, n, w) \<Rightarrow> (case m (t, w) of (r, t', w') \<Rightarrow> (r, t', n, w')))"

definition count_ai_call :: "(unit, 'w) cop" where
  "count_ai_call s = (case s of (t, n, w) \<Rightarrow> (Inr (), t, Suc n, w))"

definition clock_now :: "(datetime, 'w) sop \<Rightarrow> (datetime, 'w) cop" where
  "clock_now clk = op_bind (outside clk) (\<lambda>v. op_ret (as_kst v))"

definition deadline_reached :: "datetime \<Rightarrow> datetime option \<Rightarrow> bool" where
  "deadline_reached now deadline = (case deadline of None \<Rightarrow> False | Some d \<Rightarrow> utc_us (as_kst d) \<le> utc_us (as_kst now))"

definition notify :: "'w trade_env \<Rightarrow> notice \<Rightarrow> (unit, 'w) cop" where
  "notify env text = (case te_notifier env of None \<Rightarrow> op_ret () | Some n \<Rightarrow> catch (outside (nt_send n text)) (\<lambda>_. op_ret ()))"

definition notify_approval :: "'w trade_env \<Rightarrow> string \<Rightarrow> notice \<Rightarrow> (unit, 'w) cop" where
  "notify_approval env request_id text = (case te_notifier env of None \<Rightarrow> op_ret ()
     | Some n \<Rightarrow> catch (outside (case nt_send_approval n of Some f \<Rightarrow> f request_id text | None \<Rightarrow> nt_send n text)) (\<lambda>_. op_ret ()))"

section \<open>Checks\<close>

definition emergency_stop :: "db \<Rightarrow> bool" where
  "emergency_stop d = is_true (metadata_value d ''emergency_stop'')"

text \<open>A float compared with an int of the settings.\<close>

definition above_int :: "pyfloat \<Rightarrow> int \<Rightarrow> bool" where
  "above_int v n = (case v of Fin x \<Rightarrow> of_int n < x | PInf \<Rightarrow> True | _ \<Rightarrow> False)"

definition at_least_int :: "pyfloat \<Rightarrow> int \<Rightarrow> bool" where
  "at_least_int v n = (case v of Fin x \<Rightarrow> of_int n \<le> x | PInf \<Rightarrow> True | _ \<Rightarrow> False)"

definition seconds_between :: "datetime \<Rightarrow> datetime \<Rightarrow> pyfloat result" where
  "seconds_between later earlier = rbind (dt_sub later earlier) (\<lambda>us. Inr (total_seconds us))"

definition freshness_of :: "auto_config \<Rightarrow> datetime \<Rightarrow> market_tick option \<Rightarrow> minute_bar option \<Rightarrow> string option result" where
  "freshness_of cfg now tick bar = (case tick of None \<Rightarrow> Inr (Some ''stale_tick'')
     | Some t \<Rightarrow> (case bar of None \<Rightarrow> Inr (Some ''stale_bar'')
         | Some b \<Rightarrow> rbind (seconds_between (as_kst now) (as_kst (mt_timestamp t))) (\<lambda>tick_age.
             rbind (dt_plus (as_kst (mb_start b)) 60000000) (\<lambda>bar_end.
             rbind (seconds_between (as_kst now) bar_end) (\<lambda>bar_age.
               if flt tick_age (Fin 0) \<or> above_int tick_age (ac_max_tick_age cfg) then Inr (Some ''stale_tick'')
               else if utc_us (as_kst now) < utc_us (as_kst (mb_start b)) \<or> above_int bar_age (ac_max_bar_age cfg)
               then Inr (Some ''stale_bar'') else Inr None)))))"

definition freshness_reason :: "auto_config \<Rightarrow> string \<Rightarrow> datetime \<Rightarrow> (string option, 'w) sop" where
  "freshness_reason cfg symbol now =
     op_bind (market_read (latest_tick symbol)) (\<lambda>tick. op_bind (market_read (latest_bar symbol)) (\<lambda>bar.
       of_result (freshness_of cfg now tick bar)))"

text \<open>\<open>abs(a - b) / b * 100\<close> for a divisor that is not zero.\<close>

definition deviation_pct :: "pyfloat \<Rightarrow> pyfloat \<Rightarrow> pyfloat" where
  "deviation_pct a b = fmul (fquot (fabs (fsub a b)) b) (Fin 100)"

definition positive_finite :: "pyfloat \<Rightarrow> bool" where
  "positive_finite x = (isfinite x \<and> \<not> fle x (Fin 0))"

definition live_price_reason :: "pyfloat \<Rightarrow> pyfloat result \<Rightarrow> pyfloat \<Rightarrow> pyfloat \<Rightarrow> string option" where
  "live_price_reason snapshot entry_float max_deviation fresh =
     (if \<not> positive_finite fresh then Some ''post_ai_price_invalid''
      else case entry_float of Inl _ \<Rightarrow> Some ''market_snapshot_invalid''
        | Inr proposed \<Rightarrow>
          if \<not> positive_finite snapshot \<or> \<not> positive_finite proposed then Some ''market_snapshot_invalid''
          else if flt max_deviation (deviation_pct fresh snapshot) then Some ''post_ai_price_deviation_too_large''
          else if flt max_deviation (deviation_pct proposed fresh) then Some ''entry_deviation_from_live_too_large'' else None)"

definition post_ai_live_price_guard_reason ::
  "'w trade_env \<Rightarrow> string \<Rightarrow> pyfloat \<Rightarrow> pyfloat result \<Rightarrow> pyfloat \<Rightarrow> (string option, 'w) cop" where
  "post_ai_live_price_guard_reason env symbol snapshot entry_float max_deviation = (case te_post_price env of None \<Rightarrow> op_ret None
     | Some checker \<Rightarrow> catch (op_bind (outside (checker symbol)) (\<lambda>v. op_ret (case v of
           PV_num fresh \<Rightarrow> live_price_reason snapshot entry_float max_deviation fresh | _ \<Rightarrow> Some ''post_ai_price_invalid'')))
         (\<lambda>_. op_ret (Some ''post_ai_price_check_failed'')))"

definition response_guard :: "auto_config \<Rightarrow> market_tick \<Rightarrow> market_tick option \<Rightarrow> datetime \<Rightarrow> decision \<Rightarrow> string option result" where
  "response_guard cfg pre_tick post_tick response_now d = (case post_tick of None \<Rightarrow> Inr (Some ''stale_tick_after_ai'')
     | Some t \<Rightarrow> if fle (mt_price pre_tick) (Fin 0) then Inr (Some ''price_snapshot_invalid'')
         else if flt (ac_max_entry_deviation_pct cfg) (deviation_pct (mt_price t) (mt_price pre_tick)) then Inr (Some ''price_moved_during_ai'')
         else rbind (seconds_between (as_kst response_now) (as_kst (de_generated_at d))) (\<lambda>age.
           if flt age (Fin 0) then Inr (Some ''ai_response_from_future'')
           else if (case ac_max_ai_response_age cfg of None \<Rightarrow> False | Some limit \<Rightarrow> flt limit age) then Inr (Some ''ai_response_too_old'')
           else Inr None))"

definition ai_response_guard_reason :: "auto_config \<Rightarrow> string \<Rightarrow> market_tick \<Rightarrow> datetime \<Rightarrow> decision \<Rightarrow> (string option, 'w) sop" where
  "ai_response_guard_reason cfg symbol pre_tick response_now d =
     op_bind (freshness_reason cfg symbol response_now) (\<lambda>stale. case stale of
        Some reason \<Rightarrow> op_ret (Some (reason @ ''_after_ai''))
      | None \<Rightarrow> op_bind (market_read (latest_tick symbol)) (\<lambda>post_tick. of_result (response_guard cfg pre_tick post_tick response_now d)))"

definition entry_budget_ok :: "'w trade_env \<Rightarrow> string \<Rightarrow> pyfloat \<Rightarrow> int \<Rightarrow> (bool, 'w) cop" where
  "entry_budget_ok env symbol price quantity = (case te_budget env of None \<Rightarrow> op_ret True
     | Some checker \<Rightarrow> catch (outside (checker symbol price quantity)) (\<lambda>_. op_ret False))"

definition candidate_strategies :: "candidate_signal list \<Rightarrow> string list" where
  "candidate_strategies cs = filter (\<lambda>s. s \<noteq> []) (map (\<lambda>c. strip (cs_strategy c)) cs)"

section \<open>Identifiers\<close>

definition minute_text :: "datetime \<Rightarrow> string" where
  "minute_text v = take 16 (iso_head (as_kst v))"

definition entry_signal_id :: "string \<Rightarrow> datetime \<Rightarrow> string" where
  "entry_signal_id symbol bar_start = ''entry:'' @ symbol @ '':'' @ minute_text bar_start"

definition approval_request_id :: "string \<Rightarrow> datetime \<Rightarrow> string" where
  "approval_request_id symbol bar_start = ''approval:'' @ symbol @ '':'' @ filter is_digit_char (minute_text bar_start)"

definition exit_signal_id :: "live_position \<Rightarrow> string \<Rightarrow> datetime \<Rightarrow> string" where
  "exit_signal_id p reason now = (let current = as_kst now in
     ''exit:'' @ lp_position_id p @ '':'' @ reason @ '':''
       @ isoformat (current\<lparr>dt_second := dt_second current div 10 * 10, dt_micro := 0\<rparr>))"

definition exit_attempt_count :: "live_position \<Rightarrow> db \<Rightarrow> nat" where
  "exit_attempt_count p d = rowcount (\<lambda>r. bo_side r = SELL \<and> bo_signal_id r = Some (lp_signal_id p) \<and> bo_symbol r = lp_symbol p)
     (broker_orders d)"

section \<open>Exits\<close>

definition default_policy :: exit_policy where
  "default_policy = \<lparr>ep_config = \<lparr>ec_max_slippage_bps = Fin 50, ec_max_requotes = 3, ec_requote_interval_seconds = Fin 5,
       ec_close_urgency_seconds = Fin 30, ec_min_quantity = 1, ec_max_quantity = 1000000, ec_allow_market_order = False\<rparr>,
     ep_tick_size_fn = default_tick_size_fn\<rparr>"

definition exit_reason :: "calendar \<Rightarrow> live_position \<Rightarrow> pyfloat \<Rightarrow> datetime \<Rightarrow> string option result" where
  "exit_reason cal p price now = rbind (parse_time (lp_opened_at p)) (\<lambda>opened. let opened_at = as_kst opened in
     if is_forced_exit_window cal now then Inr (Some ''session_close'')
     else if is_previous_trading_day_position opened_at now then Inr (Some ''stale_previous_day_position'')
     else if fle price (lp_stop_loss_price p) then Inr (Some ''stop_loss'')
     else if fle (lp_take_profit_price p) price then Inr (Some ''take_profit'')
     else case lp_max_holding_seconds p of None \<Rightarrow> Inr None
       | Some limit \<Rightarrow> rbind (seconds_between now opened_at) (\<lambda>held. Inr (if at_least_int held limit then Some ''time_stop'' else None)))"

text \<open>The price the exit is quoted from: the checked one, or the latest stored one. None means that the exit is blocked with the given reason.\<close>

definition exit_price :: "'w trade_env \<Rightarrow> string \<Rightarrow> pyfloat \<Rightarrow> (string + pyfloat, 'w) cop" where
  "exit_price env symbol current = (case te_exit_price env of None \<Rightarrow> op_ret (Inr current)
     | Some checker \<Rightarrow> catch (op_bind (outside (checker symbol)) (\<lambda>v. op_ret (case v of
           PV_other \<Rightarrow> Inl ''exit_price_check_failed''
         | PV_bool b \<Rightarrow> if b then Inr (Fin 1) else Inl ''exit_price_invalid''
         | PV_num x \<Rightarrow> if positive_finite x then Inr x else Inl ''exit_price_invalid'')))
         (\<lambda>_. op_ret (Inl ''exit_price_check_failed'')))"

definition require_operator_review :: "datetime \<Rightarrow> string dbop" where
  "require_operator_review now = op_bind (set_runtime_metadata ''operator_review'' ''true'' now)
     (\<lambda>_. set_runtime_metadata ''block_new_entries'' ''true'' now)"

definition outcome :: "string \<Rightarrow> string \<Rightarrow> int \<Rightarrow> submission \<Rightarrow> symbol_result" where
  "outcome symbol action quantity r = \<lparr>sy_symbol = symbol, sy_action = action, sy_submitted = su_submitted r,
     sy_blocked = (\<not> su_submitted r), sy_reason = su_reason r, sy_quantity = quantity, sy_broker_order_id = su_broker_order_id r\<rparr>"

definition submit_exit :: "'w trade_env \<Rightarrow> string \<Rightarrow> datetime \<Rightarrow> live_position \<Rightarrow> string \<Rightarrow> pyfloat \<Rightarrow> (symbol_result, 'w) cop" where
  "submit_exit env symbol now p reason price =
     op_bind (of_result (make_kis_request symbol ''sell'' (lp_quantity p) price ''limit'' ''KRX'' [] [])) (\<lambda>req.
     op_bind (submit_with_ledger (\<lambda>q. outside (te_submit env q)) req (lp_signal_id p) (Some (exit_signal_id p reason now)) reason now) (\<lambda>r.
     op_bind (if su_broker_order_id r \<noteq> None then notify env (N_sell_acknowledged symbol (lp_quantity p) reason) else op_ret ()) (\<lambda>_.
       op_ret (outcome symbol ''SELL'' (lp_quantity p) r))))"

definition send_exit :: "'w trade_env \<Rightarrow> string \<Rightarrow> datetime \<Rightarrow> live_position \<Rightarrow> string \<Rightarrow> pyfloat \<Rightarrow> (symbol_result, 'w) cop" where
  "send_exit env symbol now p reason price =
     (case plan_sell_limit default_policy \<lparr>eq_bid = Some (NFloat price), eq_ask = None, eq_current_price = Some (NFloat price)\<rparr> None of
        Inl (ExitPolicyError m) \<Rightarrow> op_ret (blocked symbol ''exit_price_policy_blocked'')
      | Inl e \<Rightarrow> op_fail e
      | Inr plan \<Rightarrow> submit_exit env symbol now p reason (f_int (sp_price plan)))"

definition exit_position :: "'w trade_env \<Rightarrow> auto_config \<Rightarrow> string \<Rightarrow> datetime \<Rightarrow> live_position \<Rightarrow> pyfloat \<Rightarrow> (symbol_result, 'w) cop" where
  "exit_position env cfg symbol now p price =
     op_bind (of_result (exit_reason (te_calendar env) p price now)) (\<lambda>why. case why of
        None \<Rightarrow> op_ret (blocked symbol ''position_hold'')
      | Some reason \<Rightarrow>
        op_bind (db_read (has_unresolved_order symbol SELL)) (\<lambda>pending.
        if pending then op_ret (blocked symbol ''exit_order_pending'')
        else op_bind (db_read (exit_attempt_count p)) (\<lambda>attempts.
        if ac_max_exit_requotes cfg < int attempts
        then op_bind (db_op (require_operator_review now)) (\<lambda>_. op_bind (notify env (N_sell_review symbol)) (\<lambda>_.
          op_ret (blocked symbol ''max_exit_requotes_reached'')))
        else op_bind (exit_price env symbol price) (\<lambda>checked. case checked of
          Inl blocked_by \<Rightarrow> op_ret (blocked symbol blocked_by)
        | Inr quoted \<Rightarrow> send_exit env symbol now p reason quoted))))"

definition maybe_exit_position :: "'w trade_env \<Rightarrow> auto_config \<Rightarrow> string \<Rightarrow> datetime \<Rightarrow> (symbol_result option, 'w) cop" where
  "maybe_exit_position env cfg symbol now =
     op_bind (db_read (list_open_live_positions (Some symbol))) (\<lambda>positions. case positions of
        [] \<Rightarrow> op_ret None
      | p # _ \<Rightarrow>
        op_bind (market_read (latest_tick symbol)) (\<lambda>tick. op_bind (market_read (latest_bar symbol)) (\<lambda>bar.
          case (case tick of Some t \<Rightarrow> Some (mt_price t) | None \<Rightarrow> map_option mb_close bar) of
            None \<Rightarrow> op_ret (Some (blocked symbol ''missing_price_for_exit''))
          | Some price \<Rightarrow> op_bind (exit_position env cfg symbol now p price) (\<lambda>r. op_ret (Some r)))))"

section \<open>Entries\<close>

fun contiguous_back :: "nat \<times> nat \<times> nat \<Rightarrow> datetime \<Rightarrow> minute_bar list \<Rightarrow> minute_bar list result" where
  "contiguous_back day expected [] = Inr []"
| "contiguous_back day expected (b # bs) = (let start = as_kst (mb_start b) in
     if date_key start \<noteq> day \<or> utc_us start \<noteq> utc_us expected then Inr []
     else rbind (dt_plus expected (- 60000000)) (\<lambda>e. rbind (contiguous_back day e bs) (\<lambda>rest. Inr (b # rest))))"

definition latest_contiguous_session_bars :: "minute_bar list \<Rightarrow> minute_bar list result" where
  "latest_contiguous_session_bars bars = (if bars = [] then Inr []
     else let start = as_kst (mb_start (last bars)) in
       rbind (dt_plus start (- 60000000)) (\<lambda>expected.
       rbind (contiguous_back (date_key start) expected (rev (butlast bars))) (\<lambda>earlier. Inr (rev (last bars # earlier)))))"

definition entry_intent :: "string \<Rightarrow> string \<Rightarrow> pyfloat \<Rightarrow> pyfloat \<Rightarrow> pyfloat \<Rightarrow> order_intent" where
  "entry_intent symbol signal_id entry stop confidence = \<lparr>oi_symbol = symbol, oi_strategy = ''AI_INTRADAY'', oi_signal_id = signal_id,
     oi_entry_price = entry, oi_stop_loss = stop, oi_confidence = Some confidence\<rparr>"

definition portfolio_or_paper :: "'w trade_env \<Rightarrow> portfolio_state option \<Rightarrow> (portfolio_state, 'w) cop" where
  "portfolio_or_paper env portfolio s = (Inr (case portfolio of Some p \<Rightarrow> p
     | None \<Rightarrow> \<lparr>pf_current_exposure_krw = Fin 0, pf_open_positions = paper_positions (te_real_sum env) (st_paper (fst s)),
         pf_daily_pnl_krw = Fin 0, pf_consecutive_losses = 0, pf_trades_today = 0, pf_orders_by_symbol = []\<rparr>), s)"

definition sized :: "auto_config \<Rightarrow> risk_decision \<Rightarrow> int option" where
  "sized cfg d = (if \<not> rd_approved d then None
     else let quantity = min (ac_max_quantity cfg) (rd_quantity d) in if 0 < quantity then Some quantity else None)"

definition risk_quantity ::
  "'w trade_env \<Rightarrow> auto_config \<Rightarrow> portfolio_state option \<Rightarrow> string \<Rightarrow> string \<Rightarrow> pyfloat \<Rightarrow> pyfloat \<Rightarrow> pyfloat \<Rightarrow> (int option, 'w) cop" where
  "risk_quantity env cfg portfolio symbol signal_id confidence entry stop =
     op_bind (portfolio_or_paper env portfolio) (\<lambda>p.
     op_bind (of_result (evaluate_order_intent (ac_risk cfg) p (entry_intent symbol signal_id entry stop confidence))) (\<lambda>d.
       op_ret (sized cfg d)))"

definition is_value_error :: "exc \<Rightarrow> bool" where
  "is_value_error e = (case e of ValueError _ \<Rightarrow> True | _ \<Rightarrow> False)"

text \<open>\<open>try: validate_risk_reward(...) except ValueError\<close>: whether the plan is acceptable.\<close>

definition risk_reward_ok :: "py_num \<Rightarrow> py_num \<Rightarrow> py_num \<Rightarrow> (bool, 'w) cop" where
  "risk_reward_ok entry take_profit stop = (case validate_risk_reward entry take_profit stop (fl (15 / 10)) (fl (5 / 1000)) of
      Inr _ \<Rightarrow> op_ret True | Inl e \<Rightarrow> if is_value_error e then op_ret False else op_fail e)"

definition submit_entry ::
  "'w trade_env \<Rightarrow> string \<Rightarrow> string \<Rightarrow> string \<Rightarrow> string \<Rightarrow> datetime \<Rightarrow> int \<Rightarrow> pyfloat \<Rightarrow> (submission, 'w) cop" where
  "submit_entry env symbol decision_id signal_id reason now quantity price =
     op_bind (of_result (make_kis_request symbol ''buy'' quantity price ''limit'' ''KRX'' [] [])) (\<lambda>req.
       submit_with_ledger (\<lambda>q. outside (te_submit env q)) req decision_id (Some signal_id) reason now)"

definition announce_entry :: "'w trade_env \<Rightarrow> string \<Rightarrow> int \<Rightarrow> pyfloat \<Rightarrow> submission \<Rightarrow> (symbol_result, 'w) cop" where
  "announce_entry env symbol quantity price r =
     op_bind (if su_broker_order_id r \<noteq> None then notify env (N_buy_acknowledged symbol quantity price) else op_ret ()) (\<lambda>_.
       op_ret (outcome symbol ''BUY'' quantity r))"

subsection \<open>An approved entry\<close>

text \<open>\<open>finish_approval_request(success=False)\<close> and a blocked result.\<close>

definition refuse_approval :: "approval_request \<Rightarrow> datetime \<Rightarrow> string \<Rightarrow> string \<Rightarrow> (symbol_result, 'w) cop" where
  "refuse_approval ap now symbol reason =
     op_bind (db_op (finish_approval_request (ap_request_id ap) False now)) (\<lambda>_. op_ret (blocked symbol reason))"

definition equals_int :: "pyfloat \<Rightarrow> int \<Rightarrow> bool" where
  "equals_int v n = (v = Fin (of_int n))"

record approval_terms =
  at_entry :: pyfloat
  at_stop :: pyfloat
  at_take :: pyfloat
  at_quantity :: int

definition terms_of :: "approval_request \<Rightarrow> approval_terms option" where
  "terms_of ap = (case (ap_entry_price ap, ap_stop_loss_price ap, ap_take_profit_price ap, ap_quantity ap) of
      (Some e, Some s, Some t, Some q) \<Rightarrow> Some \<lparr>at_entry = e, at_stop = s, at_take = t, at_quantity = q\<rparr> | _ \<Rightarrow> None)"

definition audited_terms :: "ai_decision \<Rightarrow> (pyfloat \<times> pyfloat \<times> pyfloat) option" where
  "audited_terms a = (case (ad_entry_price a, ad_stop_loss_price a, ad_take_profit_price a) of
      (Some e, Some s, Some t) \<Rightarrow> Some (e, s, t) | _ \<Rightarrow> None)"

definition terms_unchanged :: "approval_terms \<Rightarrow> pyfloat \<times> pyfloat \<times> pyfloat \<Rightarrow> bool result" where
  "terms_unchanged terms audited = (case audited of (e, s, t) \<Rightarrow>
     rbind (normalize_krx_limit_price (NFloat e) ''buy'') (\<lambda>entry. rbind (normalize_krx_limit_price (NFloat s) ''buy'') (\<lambda>stop.
     rbind (normalize_krx_limit_price (NFloat t) ''sell'') (\<lambda>take_profit.
       Inr (equals_int (at_entry terms) entry \<and> equals_int (at_stop terms) stop \<and> equals_int (at_take terms) take_profit)))))"

text \<open>\<open>str(value or "")\<close>\<close>

definition or_empty :: "string option \<Rightarrow> string" where
  "or_empty v = (case v of None \<Rightarrow> [] | Some x \<Rightarrow> x)"

definition consume_and_submit ::
  "'w trade_env \<Rightarrow> string \<Rightarrow> string \<Rightarrow> approval_request \<Rightarrow> datetime \<Rightarrow> approval_terms \<Rightarrow> (symbol_result, 'w) cop" where
  "consume_and_submit env symbol signal_id ap now terms =
     op_bind (db_op (consume_approval_request (ap_request_id ap) now)) (\<lambda>consumed.
       if \<not> consumed then op_ret (blocked symbol ''approval_not_available'')
       else op_bind (submit_entry env symbol (or_empty (ap_decision_id ap)) signal_id ''approved_ai'' now (at_quantity terms) (at_entry terms)) (\<lambda>r.
         op_bind (db_op (finish_approval_request (ap_request_id ap) (su_submitted r) now)) (\<lambda>_.
           announce_entry env symbol (at_quantity terms) (at_entry terms) r)))"

definition check_approved_terms ::
  "'w trade_env \<Rightarrow> auto_config \<Rightarrow> portfolio_state option \<Rightarrow> string \<Rightarrow> string \<Rightarrow> approval_request \<Rightarrow> ai_decision \<Rightarrow> feature_snapshot \<Rightarrow> datetime \<Rightarrow>
   approval_terms \<Rightarrow> (symbol_result, 'w) cop" where
  "check_approved_terms env cfg portfolio symbol signal_id ap audit snapshot now terms =
     (let refuse = refuse_approval ap now symbol in
      op_bind (post_ai_live_price_guard_reason env symbol (fs_latest_close snapshot) (Inr (at_entry terms)) (ac_max_entry_deviation_pct cfg)) (\<lambda>live.
      case live of Some reason \<Rightarrow> refuse reason
      | None \<Rightarrow> op_bind (risk_reward_ok (NFloat (at_entry terms)) (NFloat (at_take terms)) (NFloat (at_stop terms))) (\<lambda>fine.
          if \<not> fine then refuse ''invalid_risk_reward''
          else op_bind (of_result (fdiv (fabs (fsub (at_entry terms) (fs_latest_close snapshot))) (fs_latest_close snapshot))) (\<lambda>ratio.
          if flt (ac_max_entry_deviation_pct cfg) (fmul ratio (Fin 100)) then refuse ''entry_deviation_too_large''
          else op_bind (risk_quantity env cfg portfolio symbol signal_id (ad_confidence audit) (at_entry terms) (at_stop terms)) (\<lambda>expected.
          if expected \<noteq> Some (at_quantity terms) then refuse ''approval_quantity_changed''
          else op_bind (entry_budget_ok env symbol (at_entry terms) (at_quantity terms)) (\<lambda>funded.
          if \<not> funded then refuse ''entry_budget_unavailable_or_insufficient''
          else consume_and_submit env symbol signal_id ap now terms))))))"

definition execute_approved_entry ::
  "'w trade_env \<Rightarrow> auto_config \<Rightarrow> portfolio_state option \<Rightarrow> string \<Rightarrow> string \<Rightarrow> approval_request \<Rightarrow> feature_snapshot \<Rightarrow> datetime \<Rightarrow> (symbol_result, 'w) cop" where
  "execute_approved_entry env cfg portfolio symbol signal_id ap snapshot now =
     (let refuse = refuse_approval ap now symbol in
      if ap_symbol ap \<noteq> symbol \<or> or_empty (ap_signal_id ap) \<noteq> signal_id then refuse ''approval_signal_mismatch''
      else op_bind (db_op (get_ai_decision_audit (or_empty (ap_decision_id ap)))) (\<lambda>found. case found of
          None \<Rightarrow> refuse ''approval_audit_unavailable''
        | Some audit \<Rightarrow>
          if ad_symbol audit \<noteq> symbol \<or> ad_action audit \<noteq> ''BUY'' then refuse ''approval_audit_unavailable''
          else (case terms_of ap of None \<Rightarrow> refuse ''approval_terms_unavailable''
            | Some terms \<Rightarrow> (case audited_terms audit of None \<Rightarrow> refuse ''approval_terms_unavailable''
                | Some audited \<Rightarrow> op_bind (of_result (terms_unchanged terms audited)) (\<lambda>same.
                    if \<not> same then refuse ''approval_terms_changed''
                    else check_approved_terms env cfg portfolio symbol signal_id ap audit snapshot now terms)))))"

subsection \<open>A new entry\<close>

definition record_decision :: "decision \<Rightarrow> datetime \<Rightarrow> bool dbop" where
  "record_decision d now = record_ai_decision (de_decision_id d) (de_symbol d) (action_value (de_action d)) (de_confidence d) (de_entry_price d)
     (de_take_profit_price d) (de_stop_loss_price d) (risk_value (de_risk_level d)) (de_requires_operator_approval d) (de_rationale d)
     (de_max_holding_seconds d) (de_strategy d) (de_model d) (de_prompt_version d) now"

text \<open>The constraints on the decision itself, in the order of the code.\<close>

definition decision_refused :: "'w trade_env \<Rightarrow> string \<Rightarrow> candidate_signal list \<Rightarrow> decision \<Rightarrow> string option" where
  "decision_refused env symbol candidates d =
     (if de_symbol d \<noteq> symbol then Some ''ai_symbol_mismatch''
      else if de_action d \<noteq> AI_BUY then Some (''ai_'' @ lower (action_value (de_action d)))
      else case de_strategy d of
        None \<Rightarrow> if te_network_client env then Some ''ai_strategy_required'' else None
      | Some g \<Rightarrow> if g \<notin> set (candidate_strategies candidates) then Some ''ai_strategy_not_in_candidates'' else None)"

definition snapshot_deviation :: "auto_config \<Rightarrow> int \<Rightarrow> pyfloat \<Rightarrow> string option" where
  "snapshot_deviation cfg entry close = (case rbind (float_operand entry) (\<lambda>e. fdiv (fabs (fsub e close)) close) of
      Inl _ \<Rightarrow> Some ''market_snapshot_invalid''
    | Inr ratio \<Rightarrow> (let deviation = fmul ratio (Fin 100) in
        if \<not> isfinite deviation \<or> flt (ac_max_entry_deviation_pct cfg) deviation then Some ''entry_deviation_too_large'' else None))"

definition ask_operator ::
  "'w trade_env \<Rightarrow> auto_config \<Rightarrow> portfolio_state option \<Rightarrow> string \<Rightarrow> string \<Rightarrow> string \<Rightarrow> datetime \<Rightarrow> decision \<Rightarrow> int \<Rightarrow> int \<Rightarrow> int \<Rightarrow>
   (symbol_result, 'w) cop" where
  "ask_operator env cfg portfolio symbol signal_id request_id now d entry stop take_profit =
     op_bind (risk_reward_ok (NInt entry) (NInt take_profit) (NInt stop)) (\<lambda>fine.
     if \<not> fine then op_ret (blocked symbol ''invalid_risk_reward'')
     else op_bind (risk_quantity env cfg portfolio symbol signal_id (de_confidence d) (f_int entry) (f_int stop)) (\<lambda>size. case size of
        None \<Rightarrow> op_ret (blocked symbol ''risk_gate_rejected'')
      | Some quantity \<Rightarrow>
        op_bind (db_op (record_approval_request request_id symbol (Some (de_decision_id d)) ''high_risk_ai_decision'' ''PENDING'' (Some signal_id)
          (Some quantity) (Some (f_int entry)) (Some (f_int take_profit)) (Some (f_int stop)) (de_max_holding_seconds d) None now)) (\<lambda>created.
        op_bind (if created then notify_approval env request_id (N_approval request_id d) else op_ret ()) (\<lambda>_.
          op_ret (blocked symbol ''operator_approval_required'')))))"

definition enter_now ::
  "'w trade_env \<Rightarrow> auto_config \<Rightarrow> portfolio_state option \<Rightarrow> (datetime, 'w) sop \<Rightarrow> datetime option \<Rightarrow> string \<Rightarrow> string \<Rightarrow> datetime \<Rightarrow> decision \<Rightarrow>
   int \<Rightarrow> int \<Rightarrow> int \<Rightarrow> (symbol_result, 'w) cop" where
  "enter_now env cfg portfolio clk deadline symbol signal_id now d entry stop take_profit =
     op_bind (risk_reward_ok (NInt entry) (NInt take_profit) (NInt stop)) (\<lambda>fine.
     if \<not> fine then op_ret (blocked symbol ''invalid_risk_reward'')
     else op_bind (portfolio_or_paper env portfolio) (\<lambda>p.
     op_bind (of_result (evaluate_order_intent (ac_risk cfg) p (entry_intent symbol signal_id (f_int entry) (f_int stop) (de_confidence d)))) (\<lambda>risk.
     if \<not> rd_approved risk then op_ret (blocked symbol (rd_reason risk))
     else let quantity = min (ac_max_quantity cfg) (rd_quantity risk) in
       if quantity \<le> 0 then op_ret (blocked symbol ''quantity_zero'')
       else op_bind (entry_budget_ok env symbol (f_int entry) quantity) (\<lambda>funded.
       if \<not> funded then op_ret (blocked symbol ''entry_budget_unavailable_or_insufficient'')
       else op_bind (clock_now clk) (\<lambda>t.
       if deadline_reached t deadline then op_ret (blocked symbol ''cycle_deadline_exceeded'')
       else op_bind (submit_entry env symbol (de_decision_id d) signal_id ''ai_approved'' now quantity (f_int entry)) (\<lambda>r.
         announce_entry env symbol quantity (f_int entry) r))))))"

definition act_on_decision ::
  "'w trade_env \<Rightarrow> auto_config \<Rightarrow> portfolio_state option \<Rightarrow> (datetime, 'w) sop \<Rightarrow> datetime option \<Rightarrow> string \<Rightarrow> string \<Rightarrow> string \<Rightarrow> datetime \<Rightarrow>
   feature_snapshot \<Rightarrow> decision \<Rightarrow> (symbol_result, 'w) cop" where
  "act_on_decision env cfg portfolio clk deadline symbol signal_id request_id now snapshot d =
     (case (de_entry_price d, de_stop_loss_price d, de_take_profit_price d) of
        (Some entry_price, Some stop_price, Some take_price) \<Rightarrow>
          op_bind (of_result (normalize_krx_limit_price (NFloat entry_price) ''buy'')) (\<lambda>entry.
          op_bind (post_ai_live_price_guard_reason env symbol (fs_latest_close snapshot) (float_operand entry) (ac_max_entry_deviation_pct cfg)) (\<lambda>live.
          case live of Some reason \<Rightarrow> op_ret (blocked symbol reason)
          | None \<Rightarrow> (case snapshot_deviation cfg entry (fs_latest_close snapshot) of Some reason \<Rightarrow> op_ret (blocked symbol reason)
            | None \<Rightarrow>
              if flt (de_confidence d) (ac_min_confidence cfg) then op_ret (blocked symbol ''confidence_below_minimum'')
              else op_bind (of_result (normalize_krx_limit_price (NFloat stop_price) ''buy'')) (\<lambda>stop.
                op_bind (of_result (normalize_krx_limit_price (NFloat take_price) ''sell'')) (\<lambda>take_profit.
                if high_risk d then ask_operator env cfg portfolio symbol signal_id request_id now d entry stop take_profit
                else enter_now env cfg portfolio clk deadline symbol signal_id now d entry stop take_profit)))))
      | _ \<Rightarrow> op_fail (AssertionError []))"

definition ask_ai ::
  "'w trade_env \<Rightarrow> auto_config \<Rightarrow> portfolio_state option \<Rightarrow> (datetime, 'w) sop \<Rightarrow> datetime option \<Rightarrow> string \<Rightarrow> string \<Rightarrow> string \<Rightarrow> datetime \<Rightarrow>
   feature_snapshot \<Rightarrow> candidate_signal list \<Rightarrow> market_tick \<Rightarrow> (symbol_result, 'w) cop" where
  "ask_ai env cfg portfolio clk deadline symbol signal_id request_id now snapshot candidates pre_tick =
     op_bind count_ai_call (\<lambda>_.
     op_bind (outside (te_decide env (context_from_snapshot snapshot candidates None None (ac_candidate_profile cfg)))) (\<lambda>d.
     op_bind (clock_now clk) (\<lambda>response_now.
     op_bind (db_op (record_decision d response_now)) (\<lambda>_.
     if deadline_reached response_now deadline then op_ret (blocked symbol ''cycle_deadline_exceeded'')
     else op_bind (ai_response_guard_reason cfg symbol pre_tick response_now d) (\<lambda>guard. case guard of
        Some reason \<Rightarrow> op_ret (blocked symbol reason)
      | None \<Rightarrow> (case decision_refused env symbol candidates d of Some reason \<Rightarrow> op_ret (blocked symbol reason)
          | None \<Rightarrow> act_on_decision env cfg portfolio clk deadline symbol signal_id request_id now snapshot d))))))"

definition decide_entry ::
  "'w trade_env \<Rightarrow> auto_config \<Rightarrow> portfolio_state option \<Rightarrow> (datetime, 'w) sop \<Rightarrow> datetime option \<Rightarrow> string \<Rightarrow> string \<Rightarrow> string \<Rightarrow> datetime \<Rightarrow>
   feature_snapshot \<Rightarrow> (symbol_result, 'w) cop" where
  "decide_entry env cfg portfolio clk deadline symbol signal_id request_id now snapshot =
     op_bind (db_op (get_broker_order (''ai:buy:'' @ signal_id))) (\<lambda>claimed.
     if claimed \<noteq> None then op_ret (blocked symbol ''order_already_claimed'')
     else op_bind (of_result (scan_candidates snapshot (ac_candidate_profile cfg))) (\<lambda>candidates.
     if candidates = [] \<and> te_network_client env then op_ret (blocked symbol ''no_deterministic_candidate'')
     else op_bind (clock_now clk) (\<lambda>pre_ai_now.
     if deadline_reached pre_ai_now deadline then op_ret (blocked symbol ''cycle_deadline_exceeded'')
     else op_bind (freshness_reason cfg symbol pre_ai_now) (\<lambda>stale. case stale of
        Some reason \<Rightarrow> op_ret (blocked symbol reason)
      | None \<Rightarrow> op_bind (market_read (latest_tick symbol)) (\<lambda>tick. case tick of
          None \<Rightarrow> op_ret (blocked symbol ''stale_tick'')
        | Some pre_tick \<Rightarrow> ask_ai env cfg portfolio clk deadline symbol signal_id request_id now snapshot candidates pre_tick)))))"

text \<open>What happens to an approval request of the same symbol and minute; the second read follows the expiry of pending ones.\<close>

definition consult_approval :: "string \<Rightarrow> datetime \<Rightarrow> (approval_request option, 'w) cop" where
  "consult_approval request_id now =
     op_bind (db_op (get_approval_request request_id)) (\<lambda>found. case found of
        Some ap \<Rightarrow> if ap_status ap = ''PENDING''
          then op_bind (db_op (expire_pending_approvals now)) (\<lambda>_. db_op (get_approval_request request_id)) else op_ret (Some ap)
      | None \<Rightarrow> op_ret None)"

definition maybe_enter_position ::
  "'w trade_env \<Rightarrow> auto_config \<Rightarrow> portfolio_state option \<Rightarrow> (datetime, 'w) sop \<Rightarrow> datetime option \<Rightarrow> string \<Rightarrow> datetime \<Rightarrow> (symbol_result, 'w) cop" where
  "maybe_enter_position env cfg portfolio clk deadline symbol now =
     op_bind (market_read (load_bars symbol (Some 120))) (\<lambda>loaded.
     op_bind (of_result (latest_contiguous_session_bars loaded)) (\<lambda>bars.
     op_bind (of_result (build_feature_snapshot bars 20)) (\<lambda>built. case built of
        None \<Rightarrow> op_ret (blocked symbol ''missing_bars'')
      | Some snapshot \<Rightarrow> (let signal_id = entry_signal_id symbol (mb_start (last bars));
            request_id = approval_request_id symbol (mb_start (last bars)) in
          op_bind (consult_approval request_id now) (\<lambda>approval. case approval of
             None \<Rightarrow> decide_entry env cfg portfolio clk deadline symbol signal_id request_id now snapshot
           | Some ap \<Rightarrow>
             if ap_status ap = ''PENDING'' then op_ret (blocked symbol ''operator_approval_required'')
             else if ap_status ap = ''APPROVED''
             then op_bind (clock_now clk) (\<lambda>t. if deadline_reached t deadline then op_ret (blocked symbol ''cycle_deadline_exceeded'')
               else execute_approved_entry env cfg portfolio symbol signal_id ap snapshot now)
             else op_ret (blocked symbol (''approval_'' @ lower (ap_status ap))))))))"

section \<open>The cycle\<close>

record cycle_inputs =
  ci_paused :: bool
  ci_confirmed :: bool
  ci_portfolio :: "portfolio_state option"

definition check_auto_config :: "auto_config \<Rightarrow> unit result" where
  "check_auto_config cfg =
     guard_else (ac_max_quantity cfg \<le> 0) (ValueError ''max_quantity must be positive'')
     (guard_else (ac_max_tick_age cfg \<le> 0 \<or> ac_max_bar_age cfg \<le> 0) (ValueError ''freshness limits must be positive'')
     (guard_else (case ac_cycle_deadline cfg of None \<Rightarrow> False | Some x \<Rightarrow> fle x (Fin 0)) (ValueError ''cycle_deadline_seconds must be positive'')
     (guard_else (case ac_max_ai_response_age cfg of None \<Rightarrow> False | Some x \<Rightarrow> fle x (Fin 0))
        (ValueError ''max_ai_response_age_seconds must be positive'')
     (guard_else (flt (ac_max_entry_deviation_pct cfg) (Fin 0)) (ValueError ''max_entry_deviation_pct must not be negative'')
     (guard_else (ac_max_exit_requotes cfg < 0) (ValueError ''max_exit_requotes must not be negative'') (Inr ()))))))"

text \<open>The entry part of an iteration, after the exit part found no position to manage.\<close>

definition enter_symbol ::
  "'w trade_env \<Rightarrow> auto_config \<Rightarrow> cycle_inputs \<Rightarrow> (datetime, 'w) sop \<Rightarrow> datetime option \<Rightarrow> string \<Rightarrow> datetime \<Rightarrow> (symbol_result, 'w) cop" where
  "enter_symbol env cfg inp clk deadline symbol now =
     op_bind (db_read (list_open_live_positions (Some symbol))) (\<lambda>positions.
     if positions \<noteq> [] then op_ret (blocked symbol ''existing_open_position'')
     else if ci_paused inp then op_ret (blocked symbol ''runtime_paused'')
     else if ac_require_confirmation cfg \<and> \<not> ci_confirmed inp then op_ret (blocked symbol ''confirmation_required'')
     else if \<not> is_new_entry_window (te_calendar env) now then op_ret (blocked symbol ''new_entry_window_closed'')
     else op_bind (clock_now clk) (\<lambda>t.
     if deadline_reached t deadline then op_ret (blocked symbol ''cycle_deadline_exceeded'')
     else maybe_enter_position env cfg (ci_portfolio inp) clk deadline symbol now))"

definition process_symbol ::
  "'w trade_env \<Rightarrow> auto_config \<Rightarrow> cycle_inputs \<Rightarrow> (datetime, 'w) sop \<Rightarrow> datetime option \<Rightarrow> string \<Rightarrow> (symbol_result, 'w) cop" where
  "process_symbol env cfg inp clk deadline symbol =
     op_bind (clock_now clk) (\<lambda>now.
     if deadline_reached now deadline then op_ret (blocked symbol ''cycle_deadline_exceeded'')
     else if ac_enforce_market_hours cfg \<and> \<not> is_regular_market_open (te_calendar env) now then op_ret (blocked symbol ''market_closed'')
     else op_bind (db_read emergency_stop) (\<lambda>stop.
     if stop then op_ret (blocked symbol ''emergency_stop'')
     else op_bind (freshness_reason cfg symbol now) (\<lambda>stale. case stale of
        Some reason \<Rightarrow> op_ret (blocked symbol reason)
      | None \<Rightarrow> op_bind (maybe_exit_position env cfg symbol now) (\<lambda>exited. case exited of
          Some r \<Rightarrow> op_ret r
        | None \<Rightarrow> enter_symbol env cfg inp clk deadline symbol now))))"

definition guarded_symbol ::
  "'w trade_env \<Rightarrow> auto_config \<Rightarrow> cycle_inputs \<Rightarrow> (datetime, 'w) sop \<Rightarrow> datetime option \<Rightarrow> string \<Rightarrow> (symbol_result, 'w) cop" where
  "guarded_symbol env cfg inp clk deadline symbol = catch (process_symbol env cfg inp clk deadline symbol)
     (\<lambda>e. op_bind (notify env (N_cycle_error symbol (exc_name e))) (\<lambda>_. op_ret (blocked symbol (''symbol_error:'' @ exc_name e))))"

fun process_symbols ::
  "'w trade_env \<Rightarrow> auto_config \<Rightarrow> cycle_inputs \<Rightarrow> (datetime, 'w) sop \<Rightarrow> datetime option \<Rightarrow> string list \<Rightarrow> (symbol_result list, 'w) cop" where
  "process_symbols env cfg inp clk deadline [] = op_ret []"
| "process_symbols env cfg inp clk deadline (s # ss) =
     op_bind (guarded_symbol env cfg inp clk deadline s) (\<lambda>r. op_bind (process_symbols env cfg inp clk deadline ss) (\<lambda>rs. op_ret (r # rs)))"

definition now_provider :: "'w trade_env \<Rightarrow> (datetime, 'w) sop option \<Rightarrow> datetime option \<Rightarrow> (datetime, 'w) sop" where
  "now_provider env clk current_time = (case clk of Some c \<Rightarrow> c
     | None \<Rightarrow> (case current_time of Some t \<Rightarrow> op_ret t | None \<Rightarrow> te_kst_now env))"

text \<open>Settings, clock and deadline, before the first symbol.\<close>

definition start_cycle :: "'w trade_env \<Rightarrow> auto_config \<Rightarrow> (datetime, 'w) sop option \<Rightarrow> datetime option \<Rightarrow> (datetime option, 'w) cop" where
  "start_cycle env cfg clk current_time =
     op_bind (of_result (check_auto_config cfg)) (\<lambda>_.
     op_bind (case current_time of Some t \<Rightarrow> op_ret (as_kst t) | None \<Rightarrow> clock_now (now_provider env clk current_time)) (\<lambda>started.
       of_result (case ac_cycle_deadline cfg of None \<Rightarrow> Inr None
        | Some x \<Rightarrow> rbind (timedelta_seconds x) (\<lambda>us. rbind (dt_plus started us) (\<lambda>d. Inr (Some d))))))"

definition run_cycle :: "'w trade_env \<Rightarrow> auto_config \<Rightarrow> cycle_inputs \<Rightarrow> (datetime, 'w) sop option \<Rightarrow> datetime option \<Rightarrow> string list \<Rightarrow>
    (symbol_result list, 'w) cop" where
  "run_cycle env cfg inp clk current_time symbols =
     op_bind (start_cycle env cfg clk current_time) (\<lambda>deadline.
     op_bind (db_read (list_open_live_positions None)) (\<lambda>held.
       process_symbols env cfg inp (now_provider env clk current_time) deadline (unique (symbols @ map lp_symbol held))))"

definition run_auto_trade_cycle :: "'w trade_env \<Rightarrow> auto_config \<Rightarrow> cycle_inputs \<Rightarrow> (datetime, 'w) sop option \<Rightarrow> datetime option \<Rightarrow> string list \<Rightarrow>
    (cycle_report, 'w) sop" where
  "run_auto_trade_cycle env cfg inp clk current_time symbols s = (case s of (t, w) \<Rightarrow>
     (case run_cycle env cfg inp clk current_time symbols (t, 0, w) of (r, t', n, w') \<Rightarrow>
       (case r of Inl e \<Rightarrow> Inl e | Inr results \<Rightarrow> Inr \<lparr>cy_results = results, cy_ai_call_count = n\<rparr>, t', w')))"

section \<open>Every symbol is reported\<close>

lemma catch_Inr: "(\<And>e s. \<exists>x s'. h e s = (Inr x, s')) \<Longrightarrow> \<exists>x s'. catch m h s = (Inr x, s')"
  by (simp add: catch_def split: prod.split sum.split)

lemma notify_returns: "\<exists>s'. notify env text s = (Inr (), s')"
proof (cases "te_notifier env")
  case (Some n)
  have "\<exists>x s'. catch (outside (nt_send n text)) (\<lambda>_. op_ret ()) s = (Inr x, s')" by (rule catch_Inr) (metis op_ret_def)
  with Some show ?thesis by (simp add: notify_def)
qed (metis notify_def op_ret_def option.case(1))

text \<open>\<open>returns P m\<close>: whenever \<open>m\<close> returns, its result satisfies \<open>P\<close>.\<close>

definition returns :: "('a \<Rightarrow> bool) \<Rightarrow> ('s \<Rightarrow> 'a result \<times> 's) \<Rightarrow> bool" where
  "returns P m = (\<forall>s x s'. m s = (Inr x, s') \<longrightarrow> P x)"

named_theorems returns_rules \<open>introduction rules for returns\<close>

lemma returnsD: "returns P m \<Longrightarrow> m s = (Inr x, s') \<Longrightarrow> P x"
  unfolding returns_def by blast

lemma returns_ret [returns_rules]: "P x \<Longrightarrow> returns P (op_ret x)"
  by (simp add: returns_def op_ret_def)

lemma returns_fail [returns_rules]: "returns P (op_fail e)"
  by (simp add: returns_def op_fail_def)

lemma returns_bind_with: "returns Q m \<Longrightarrow> (\<And>x. Q x \<Longrightarrow> returns P (f x)) \<Longrightarrow> returns P (op_bind m f)"
  unfolding returns_def op_bind_def by (auto split: prod.splits sum.splits) blast

lemma returns_bind [returns_rules]: "(\<And>x. returns P (f x)) \<Longrightarrow> returns P (op_bind m f)"
  by (rule returns_bind_with [of "\<lambda>_. True"]) (simp_all add: returns_def)

lemma returns_catch: "returns P m \<Longrightarrow> (\<And>e. returns P (h e)) \<Longrightarrow> returns P (catch m h)"
  unfolding returns_def catch_def by (auto split: prod.splits sum.splits) blast+

lemma returns_if [returns_rules]: "(b \<Longrightarrow> returns P m) \<Longrightarrow> (\<not> b \<Longrightarrow> returns P m') \<Longrightarrow> returns P (if b then m else m')"
  by simp

lemma returns_option [returns_rules]: "returns P m \<Longrightarrow> (\<And>x. returns P (f x)) \<Longrightarrow> returns P (case v of None \<Rightarrow> m | Some x \<Rightarrow> f x)"
  by (cases v) simp_all

lemma returns_sum [returns_rules]: "(\<And>e. returns P (f e)) \<Longrightarrow> (\<And>x. returns P (g x)) \<Longrightarrow> returns P (case v of Inl e \<Rightarrow> f e | Inr x \<Rightarrow> g x)"
  by (cases v) simp_all

lemma returns_list: "returns P m \<Longrightarrow> (\<And>x xs. returns P (f x xs)) \<Longrightarrow> returns P (case v of [] \<Rightarrow> m | x # xs \<Rightarrow> f x xs)"
  by (cases v) simp_all

lemma returns_of_result: "(\<And>x. r = Inr x \<Longrightarrow> P x) \<Longrightarrow> returns P (of_result r)"
  by (simp add: returns_def of_result_def)

abbreviation reports :: "string \<Rightarrow> (symbol_result, 'w) cop \<Rightarrow> bool" where
  "reports symbol \<equiv> returns (\<lambda>r. sy_symbol r = symbol)"

lemma sy_symbol_blocked [simp]: "sy_symbol (blocked symbol why) = symbol" "sy_symbol (outcome symbol action q r) = symbol"
  by (simp_all add: blocked_def outcome_def)

lemma reports_entry:
  "reports symbol (announce_entry env symbol q x r)" "reports symbol (refuse_approval ap now symbol why)"
  unfolding announce_entry_def refuse_approval_def by (intro returns_rules; simp)+

lemma reports_execute: "reports symbol (execute_approved_entry env cfg pf symbol g ap snap now)"
  unfolding execute_approved_entry_def check_approved_terms_def consume_and_submit_def Let_def
  by (intro returns_rules reports_entry; simp)

lemma reports_operator: "reports symbol (ask_operator env cfg pf symbol g i now d entry stop take_profit)"
  unfolding ask_operator_def by (intro returns_rules; simp)

lemma reports_enter_now: "reports symbol (enter_now env cfg pf clk dl symbol g now d entry stop take_profit)"
  unfolding enter_now_def Let_def by (intro returns_rules reports_entry; simp)

lemma reports_act: "reports symbol (act_on_decision env cfg pf clk dl symbol g i now snap d)"
  unfolding act_on_decision_def prod.case by (intro returns_rules reports_operator reports_enter_now; simp)

lemma reports_decide: "reports symbol (decide_entry env cfg pf clk dl symbol g i now snap)"
  unfolding decide_entry_def ask_ai_def by (intro returns_rules reports_act; simp)

lemma reports_enter: "reports symbol (enter_symbol env cfg inp clk dl symbol now)"
  unfolding enter_symbol_def maybe_enter_position_def Let_def by (intro returns_rules reports_decide reports_execute; simp)

lemma reports_send: "reports symbol (send_exit env symbol now p why price)"
  unfolding send_exit_def submit_exit_def by (auto intro!: returns_rules split: sum.split exc.split)

lemma reports_exit: "reports symbol (exit_position env cfg symbol now p price)"
  unfolding exit_position_def by (intro returns_rules reports_send; simp)

lemma reports_maybe_exit: "returns (\<lambda>v. \<forall>r. v = Some r \<longrightarrow> sy_symbol r = symbol) (maybe_exit_position env cfg symbol now)"
proof -
  have *: "returns (\<lambda>v. \<forall>r. v = Some r \<longrightarrow> sy_symbol r = symbol) (op_bind (exit_position env cfg symbol now p price) (\<lambda>r. op_ret (Some r)))" for p price
    by (rule returns_bind_with [OF reports_exit]) (simp add: returns_ret)
  show ?thesis unfolding maybe_exit_position_def by (intro * returns_list returns_rules) simp_all
qed

lemma reports_process: "reports symbol (process_symbol env cfg inp clk dl symbol)"
proof -
  have *: "reports symbol (op_bind (maybe_exit_position env cfg symbol now) (\<lambda>exited. case exited of Some r \<Rightarrow> op_ret r
        | None \<Rightarrow> enter_symbol env cfg inp clk dl symbol now))" for now
    by (rule returns_bind_with [OF reports_maybe_exit]) (auto intro: returns_ret reports_enter split: option.split)
  show ?thesis unfolding process_symbol_def by (intro * returns_rules) simp_all
qed

text \<open>
  The same surroundings with a list of the AI requests kept next to the world: the client notes every context it is asked about, nothing else
  touches the list, and everything behaves as before.
\<close>

definition aside :: "('a, 'w) sop \<Rightarrow> ('a, 'w \<times> 'l) sop" where
  "aside m s = (case s of (t, w, l) \<Rightarrow> (case m (t, w) of (r, t', w') \<Rightarrow> (r, t', w', l)))"

definition noting_notifier :: "'w notifier \<Rightarrow> ('w \<times> 'l) notifier" where
  "noting_notifier n = \<lparr>nt_send = (\<lambda>x. aside (nt_send n x)), nt_send_approval = map_option (\<lambda>f i x. aside (f i x)) (nt_send_approval n)\<rparr>"

definition noting_requests :: "'w trade_env \<Rightarrow> ('w \<times> ai_context list) trade_env" where
  "noting_requests env = \<lparr>te_calendar = te_calendar env, te_real_sum = te_real_sum env, te_kst_now = aside (te_kst_now env),
     te_decide = (\<lambda>c s. case s of (t, w, l) \<Rightarrow> aside (te_decide env c) (t, w, l @ [c])),
     te_network_client = te_network_client env, te_submit = (\<lambda>q. aside (te_submit env q)),
     te_notifier = map_option noting_notifier (te_notifier env), te_budget = map_option (\<lambda>f y x q. aside (f y x q)) (te_budget env),
     te_post_price = map_option (\<lambda>f y. aside (f y)) (te_post_price env), te_exit_price = map_option (\<lambda>f y. aside (f y)) (te_exit_price env)\<rparr>"

text \<open>
  \<open>mirrors x k m m'\<close>: with the list, \<open>m'\<close> does what \<open>m\<close> does without it, whether it returns or raises; it adds at most \<open>k\<close> requests, each about the
  symbol \<open>x\<close>, and the cycle's counter grows by their number.
\<close>

definition mirrors :: "string \<Rightarrow> nat \<Rightarrow> ('a, 'w) cop \<Rightarrow> ('a, 'w \<times> ai_context list) cop \<Rightarrow> bool" where
  "mirrors x k m m' = (\<forall>t n w l. \<exists>r t' n' w' cs. m (t, n, w) = (r, t', n', w') \<and> m' (t, n, w, l) = (r, t', n', w', l @ cs)
     \<and> n' = n + length cs \<and> length cs \<le> k \<and> (\<forall>c\<in>set cs. cx_symbol c = x))"

named_theorems mirror_rules \<open>introduction rules for mirrors\<close>

lemma mirrorsD:
  assumes "mirrors x k m m'"
  obtains r t' n' w' cs where "m (t, n, w) = (r, t', n', w')" "m' (t, n, w, l) = (r, t', n', w', l @ cs)"
    "n' = n + length cs" "length cs \<le> k" "\<forall>c\<in>set cs. cx_symbol c = x"
  using assms unfolding mirrors_def by blast

lemma mirrors_same:
  "(\<And>t n w l. \<exists>r t' w'. m (t, n, w) = (r, t', n, w') \<and> m' (t, n, w, l) = (r, t', n, w', l)) \<Longrightarrow> mirrors x k m m'"
  unfolding mirrors_def by (metis add.right_neutral append_Nil2 empty_iff list.set(1) list.size(3) zero_le)

lemma mirrors_leaf [mirror_rules]:
  "mirrors x k (op_ret v) (op_ret v)" "mirrors x k (op_fail e) (op_fail e)" "mirrors x k (db_op u) (db_op u)" "mirrors x k (db_read f) (db_read f)"
  "mirrors x k (market_read g) (market_read g)" "mirrors x k (of_result q) (of_result q)" "mirrors x k (outside p) (outside (aside p))"
  "mirrors x k (portfolio_or_paper env pf) (portfolio_or_paper (noting_requests env) pf)"
  by (intro mirrors_same; simp add: op_ret_def op_fail_def db_op_def db_read_def market_read_def of_result_def outside_def aside_def
      portfolio_or_paper_def noting_requests_def split: prod.split option.split)+

lemma mirrors_add:
  assumes m: "mirrors x j m m'" and f: "\<And>v. mirrors x k (f v) (f' v)"
  shows "mirrors x (j + k) (op_bind m f) (op_bind m' f')"
  unfolding mirrors_def
proof (intro allI)
  fix t n w l
  obtain r t1 n1 w1 cs where 1: "m (t, n, w) = (r, t1, n1, w1)" "m' (t, n, w, l) = (r, t1, n1, w1, l @ cs)" "n1 = n + length cs" "length cs \<le> j"
    "\<forall>c\<in>set cs. cx_symbol c = x" by (rule mirrorsD [OF m])
  show "\<exists>r t' n' w' cs. op_bind m f (t, n, w) = (r, t', n', w') \<and> op_bind m' f' (t, n, w, l) = (r, t', n', w', l @ cs)
      \<and> n' = n + length cs \<and> length cs \<le> j + k \<and> (\<forall>c\<in>set cs. cx_symbol c = x)"
  proof (cases r)
    case (Inl e)
    with 1 show ?thesis by (intro exI [of _ "Inl e"] exI [of _ t1] exI [of _ n1] exI [of _ w1] exI [of _ cs]) (simp add: op_bind_def)
  next
    case (Inr v)
    obtain q t2 n2 w2 ds where "f v (t1, n1, w1) = (q, t2, n2, w2)" "f' v (t1, n1, w1, l @ cs) = (q, t2, n2, w2, (l @ cs) @ ds)" "n2 = n1 + length ds"
      "length ds \<le> k" "\<forall>c\<in>set ds. cx_symbol c = x" by (rule mirrorsD [OF f])
    with 1 Inr show ?thesis
      by (intro exI [of _ q] exI [of _ t2] exI [of _ n2] exI [of _ w2] exI [of _ "cs @ ds"]) (auto simp: op_bind_def)
  qed
qed

lemma mirrors_bind [mirror_rules]: "mirrors x 0 m m' \<Longrightarrow> (\<And>v. mirrors x k (f v) (f' v)) \<Longrightarrow> mirrors x k (op_bind m f) (op_bind m' f')"
  by (rule mirrors_add [of x 0 m m' k f f', simplified])

lemma mirrors_bind_with:
  assumes "returns Q m" "mirrors x 0 m m'" "\<And>v. Q v \<Longrightarrow> mirrors x k (f v) (f' v)"
  shows "mirrors x k (op_bind m f) (op_bind m' f')"
proof -
  have "mirrors x k (op_bind m (\<lambda>v. if Q v then f v else op_fail undefined)) (op_bind m' (\<lambda>v. if Q v then f' v else op_fail undefined))"
    by (rule mirrors_bind [OF assms(2)]) (simp add: assms(3) mirrors_leaf)
  moreover have "op_bind m (\<lambda>v. if Q v then f v else op_fail undefined) = op_bind m f"
    by (rule ext) (auto simp: op_bind_def split: prod.split sum.split dest: returnsD [OF assms(1)])
  moreover have "op_bind m' (\<lambda>v. if Q v then f' v else op_fail undefined) (t, n, w, l) = op_bind m' f' (t, n, w, l)" for t n w l
    by (rule mirrorsD [OF assms(2), of t n w l]) (auto simp: op_bind_def split: sum.split dest: returnsD [OF assms(1)])
  ultimately show ?thesis unfolding mirrors_def by simp
qed

lemma mirrors_catch [mirror_rules]:
  assumes m: "mirrors x k m m'" and h: "\<And>e. mirrors x 0 (h e) (h' e)"
  shows "mirrors x k (catch m h) (catch m' h')"
  unfolding mirrors_def
proof (intro allI)
  fix t n w l
  obtain r t1 n1 w1 cs where 1: "m (t, n, w) = (r, t1, n1, w1)" "m' (t, n, w, l) = (r, t1, n1, w1, l @ cs)" "n1 = n + length cs" "length cs \<le> k"
    "\<forall>c\<in>set cs. cx_symbol c = x" by (rule mirrorsD [OF m])
  show "\<exists>r t' n' w' cs. catch m h (t, n, w) = (r, t', n', w') \<and> catch m' h' (t, n, w, l) = (r, t', n', w', l @ cs)
      \<and> n' = n + length cs \<and> length cs \<le> k \<and> (\<forall>c\<in>set cs. cx_symbol c = x)"
  proof (cases r)
    case (Inr v)
    with 1 show ?thesis by (intro exI [of _ "Inr v"] exI [of _ t1] exI [of _ n1] exI [of _ w1] exI [of _ cs]) (simp add: catch_def)
  next
    case (Inl e)
    obtain q t2 n2 w2 ds where "h e (t1, n1, w1) = (q, t2, n2, w2)" "h' e (t1, n1, w1, l @ cs) = (q, t2, n2, w2, (l @ cs) @ ds)" "n2 = n1 + length ds"
      "length ds \<le> 0" "\<forall>c\<in>set ds. cx_symbol c = x" by (rule mirrorsD [OF h])
    with 1 Inl show ?thesis
      by (intro exI [of _ q] exI [of _ t2] exI [of _ n2] exI [of _ w2] exI [of _ cs]) (auto simp: catch_def)
  qed
qed

lemma mirrors_if [mirror_rules]: "mirrors x k m m' \<Longrightarrow> mirrors x k p p' \<Longrightarrow> mirrors x k (if b then m else p) (if b then m' else p')"
  by simp

lemma mirrors_option [mirror_rules]:
  "mirrors x k m m' \<Longrightarrow> (\<And>v. mirrors x k (f v) (f' v)) \<Longrightarrow> mirrors x k (case u of None \<Rightarrow> m | Some v \<Rightarrow> f v) (case u of None \<Rightarrow> m' | Some v \<Rightarrow> f' v)"
  by (cases u) simp_all

lemma mirrors_sum [mirror_rules]:
  "(\<And>e. mirrors x k (f e) (f' e)) \<Longrightarrow> (\<And>v. mirrors x k (g v) (g' v)) \<Longrightarrow> mirrors x k (case u of Inl e \<Rightarrow> f e | Inr v \<Rightarrow> g v) (case u of Inl e \<Rightarrow> f' e | Inr v \<Rightarrow> g' v)"
  by (cases u) simp_all

lemma mirrors_list [mirror_rules]:
  "mirrors x k m m' \<Longrightarrow> (\<And>v vs. mirrors x k (f v vs) (f' v vs)) \<Longrightarrow> mirrors x k (case u of [] \<Rightarrow> m | v # vs \<Rightarrow> f v vs) (case u of [] \<Rightarrow> m' | v # vs \<Rightarrow> f' v vs)"
  by (cases u) simp_all

lemma noting_fields [simp]:
  "te_calendar (noting_requests env) = te_calendar env" "te_network_client (noting_requests env) = te_network_client env"
  "te_submit (noting_requests env) = (\<lambda>q. aside (te_submit env q))" "te_kst_now (noting_requests env) = aside (te_kst_now env)"
  "te_notifier (noting_requests env) = map_option noting_notifier (te_notifier env)"
  "te_budget (noting_requests env) = map_option (\<lambda>f y x q. aside (f y x q)) (te_budget env)"
  "te_post_price (noting_requests env) = map_option (\<lambda>f y. aside (f y)) (te_post_price env)"
  "te_exit_price (noting_requests env) = map_option (\<lambda>f y. aside (f y)) (te_exit_price env)"
  by (simp_all add: noting_requests_def)

lemma mirrors_surroundings [mirror_rules]:
  "mirrors x k (notify env text) (notify (noting_requests env) text)"
  "mirrors x k (notify_approval env i text) (notify_approval (noting_requests env) i text)"
  "mirrors x k (post_ai_live_price_guard_reason env y u v z) (post_ai_live_price_guard_reason (noting_requests env) y u v z)"
  "mirrors x k (entry_budget_ok env y u q) (entry_budget_ok (noting_requests env) y u q)"
  "mirrors x k (exit_price env y u) (exit_price (noting_requests env) y u)"
proof -
  show "mirrors x k (notify env text) (notify (noting_requests env) text)"
    by (cases "te_notifier env") (simp_all add: notify_def noting_notifier_def mirrors_leaf mirrors_catch)
  show "mirrors x k (notify_approval env i text) (notify_approval (noting_requests env) i text)"
  proof (cases "te_notifier env")
    case (Some n)
    then show ?thesis by (cases "nt_send_approval n") (simp_all add: notify_approval_def noting_notifier_def mirrors_leaf mirrors_catch)
  qed (simp add: notify_approval_def mirrors_leaf)
  show "mirrors x k (post_ai_live_price_guard_reason env y u v z) (post_ai_live_price_guard_reason (noting_requests env) y u v z)"
    by (cases "te_post_price env") (simp_all add: post_ai_live_price_guard_reason_def mirrors_leaf mirrors_catch mirrors_bind)
  show "mirrors x k (entry_budget_ok env y u q) (entry_budget_ok (noting_requests env) y u q)"
    by (cases "te_budget env") (simp_all add: entry_budget_ok_def mirrors_leaf mirrors_catch)
  show "mirrors x k (exit_price env y u) (exit_price (noting_requests env) y u)"
    by (cases "te_exit_price env") (simp_all add: exit_price_def mirrors_leaf mirrors_catch mirrors_bind)
qed

lemma mirrors_small [mirror_rules]:
  "mirrors x k (clock_now clk) (clock_now (aside clk))" "mirrors x k (freshness_reason cfg y now) (freshness_reason cfg y now)"
  "mirrors x k (risk_reward_ok a b c) (risk_reward_ok a b c)"
  "mirrors x k (ai_response_guard_reason cfg y tk now d) (ai_response_guard_reason cfg y tk now d)"
  "mirrors x k (risk_quantity env cfg pf y g u v z) (risk_quantity (noting_requests env) cfg pf y g u v z)"
  "mirrors x k (consult_approval i now) (consult_approval i now)"
  unfolding clock_now_def freshness_reason_def risk_reward_ok_def ai_response_guard_reason_def risk_quantity_def consult_approval_def
  by (intro mirror_rules)+

lemma mirrors_call_submitter [mirror_rules]:
  "mirrors x k (call_submitter (\<lambda>q. outside (u q)) req sig reason now c) (call_submitter (\<lambda>q. outside (aside (u q))) req sig reason now c)"
proof -
  let ?settle = "\<lambda>r. case str_or (or_broker_order_id r) None of None \<Rightarrow> not_acknowledged req sig reason now c ''missing broker_order_id''
      | Some b \<Rightarrow> acknowledged req sig reason now c b"
  have split: "call_submitter submit req sig reason now c s = (case submit req s of
      (Inl e, s1) \<Rightarrow> not_acknowledged req sig reason now c (error_text e) s1 | (Inr r, s1) \<Rightarrow> ?settle r s1)" for submit and s :: "'z trading"
    by (simp add: call_submitter_def split: prod.split sum.split option.split)
  have settle: "mirrors x 0 (not_acknowledged req sig reason now c why) (not_acknowledged req sig reason now c why)"
    "mirrors x 0 (acknowledged req sig reason now c b) (acknowledged req sig reason now c b)" for why b
    unfolding not_acknowledged_def acknowledged_def by (intro mirror_rules)+
  then have both: "mirrors x 0 (case q of Inl e \<Rightarrow> not_acknowledged req sig reason now c (error_text e) | Inr r \<Rightarrow> ?settle r)
      (case q of Inl e \<Rightarrow> not_acknowledged req sig reason now c (error_text e) | Inr r \<Rightarrow> ?settle r)" for q
    by (intro mirrors_sum mirrors_option)
  show ?thesis unfolding mirrors_def
  proof (intro allI)
    fix t n w and l :: "ai_context list"
    obtain q t1 w1 where q: "u req (t, w) = (q, t1, w1)" by (rule prod_cases3)
    have run: "outside (u req) (t, n, w) = (q, t1, n, w1)" "outside (aside (u req)) (t, n, w, l) = (q, t1, n, w1, l)"
      by (simp_all add: outside_def aside_def q)
    show "\<exists>r t' n' w' cs. call_submitter (\<lambda>q. outside (u q)) req sig reason now c (t, n, w) = (r, t', n', w')
       \<and> call_submitter (\<lambda>q. outside (aside (u q))) req sig reason now c (t, n, w, l) = (r, t', n', w', l @ cs)
       \<and> n' = n + length cs \<and> length cs \<le> k \<and> (\<forall>c\<in>set cs. cx_symbol c = x)"
      unfolding split run by (cases rule: mirrorsD [OF both, of q t1 n w1 l]) (cases q; auto)
  qed
qed

lemma mirrors_submit [mirror_rules]:
  "mirrors x k (submit_with_ledger (\<lambda>q. outside (te_submit env q)) req sig key reason now)
     (submit_with_ledger (\<lambda>q. outside (te_submit (noting_requests env) q)) req sig key reason now)"
  "mirrors x k (submit_with_ledger (\<lambda>q. outside (te_submit env q)) req sig key reason now)
     (submit_with_ledger (\<lambda>q. outside (aside (te_submit env q))) req sig key reason now)"
  unfolding submit_with_ledger_def Let_def noting_fields by (intro mirror_rules)+

lemma mirrors_entry [mirror_rules]:
  "mirrors x k (announce_entry env y q u r) (announce_entry (noting_requests env) y q u r)"
  "mirrors x k (submit_entry env y i g why now q u) (submit_entry (noting_requests env) y i g why now q u)"
  "mirrors x k (refuse_approval ap now y why) (refuse_approval ap now y why)"
  unfolding announce_entry_def submit_entry_def refuse_approval_def by (intro mirror_rules)+

lemma mirrors_execute [mirror_rules]:
  "mirrors x k (execute_approved_entry env cfg pf y g ap snap now) (execute_approved_entry (noting_requests env) cfg pf y g ap snap now)"
  unfolding execute_approved_entry_def check_approved_terms_def consume_and_submit_def Let_def by (intro mirror_rules)

lemma mirrors_act [mirror_rules]:
  "mirrors x k (act_on_decision env cfg pf clk dl y g i now snap d) (act_on_decision (noting_requests env) cfg pf (aside clk) dl y g i now snap d)"
  unfolding act_on_decision_def ask_operator_def enter_now_def Let_def prod.case by (intro mirror_rules)

text \<open>The one request: it is about the symbol of the snapshot.\<close>

lemma count_then: "op_bind (op_bind count_ai_call (\<lambda>_. m)) f = op_bind count_ai_call (\<lambda>_. op_bind m f)"
  by (rule ext) (simp add: op_bind_def count_ai_call_def split: prod.split)

lemma mirrors_request:
  assumes "cx_symbol c = x" "\<And>d. mirrors x 0 (f d) (f' d)"
  shows "mirrors x 1 (op_bind count_ai_call (\<lambda>_. op_bind (outside (te_decide env c)) f))
    (op_bind count_ai_call (\<lambda>_. op_bind (outside (te_decide (noting_requests env) c)) f'))"
proof -
  have "mirrors x 1 (op_bind count_ai_call (\<lambda>_. outside (te_decide env c))) (op_bind count_ai_call (\<lambda>_. outside (te_decide (noting_requests env) c)))"
    unfolding mirrors_def
  proof (intro allI)
    fix t n w l
    obtain r t1 w1 where "te_decide env c (t, w) = (r, t1, w1)" by (rule prod_cases3)
    then show "\<exists>r t' n' w' cs. op_bind count_ai_call (\<lambda>_. outside (te_decide env c)) (t, n, w) = (r, t', n', w')
       \<and> op_bind count_ai_call (\<lambda>_. outside (te_decide (noting_requests env) c)) (t, n, w, l) = (r, t', n', w', l @ cs)
       \<and> n' = n + length cs \<and> length cs \<le> 1 \<and> (\<forall>c\<in>set cs. cx_symbol c = x)"
      using assms(1) by (intro exI [of _ r] exI [of _ t1] exI [of _ "Suc n"] exI [of _ w1] exI [of _ "[c]"])
        (simp add: op_bind_def count_ai_call_def outside_def noting_requests_def aside_def)
  qed
  from mirrors_add [where f = f and f' = f' and k = 0, OF this assms(2)] show ?thesis by (simp only: count_then add_0_right)
qed

lemma mirrors_ask:
  assumes "fs_symbol snap = x"
  shows "mirrors x 1 (ask_ai env cfg pf clk dl y g i now snap cs tk) (ask_ai (noting_requests env) cfg pf (aside clk) dl y g i now snap cs tk)"
proof -
  have refused: "decision_refused (noting_requests env) y cs d = decision_refused env y cs d" for d by (simp add: decision_refused_def)
  show ?thesis unfolding ask_ai_def refused
    by (intro mirrors_request mirror_rules) (simp add: context_from_snapshot_def assms)
qed

lemma mirrors_exit [mirror_rules]: "mirrors x k (maybe_exit_position env cfg y now) (maybe_exit_position (noting_requests env) cfg y now)"
proof -
  have send: "mirrors x k (send_exit env y now p why u) (send_exit (noting_requests env) y now p why u)" for k p why u
    unfolding send_exit_def submit_exit_def by (auto intro!: mirror_rules split: sum.split exc.split)
  show ?thesis unfolding maybe_exit_position_def exit_position_def noting_fields by (intro mirror_rules send)
qed

text \<open>Bars, and so the snapshot, of a symbol carry that symbol.\<close>

lemma read_all_symbol: "read_all read_bar rs = Inr bs \<Longrightarrow> \<forall>r\<in>set rs. br_symbol r = y \<Longrightarrow> \<forall>b\<in>set bs. mb_symbol b = y"
  by (induction rs arbitrary: bs) (auto simp: rbind_eq_Inr read_bar_def)

lemma returns_load_bars: "returns (\<lambda>bs. \<forall>b\<in>set bs. mb_symbol b = y) (market_read (load_bars y (Some n)))"
proof -
  have "set (last_rows k (bars_of y d)) \<subseteq> {r. br_symbol r = y}" for k d
    using set_drop_subset [of _ "bars_of y d"] by (fastforce simp: last_rows_def set_bars_of)
  then show ?thesis
    by (auto simp: returns_def market_read_def load_bars_def guard_else_def split: if_splits dest!: read_all_symbol [where y = y])
qed

lemma contiguous_last: "latest_contiguous_session_bars bs = Inr cs \<Longrightarrow> cs = [] \<or> bs \<noteq> [] \<and> last cs = last bs"
  by (auto simp: latest_contiguous_session_bars_def rbind_eq_Inr Let_def split: if_splits)

lemma snapshot_symbol: "build_feature_snapshot bs n = Inr (Some snap) \<Longrightarrow> bs \<noteq> [] \<and> fs_symbol snap = mb_symbol (last bs)"
  by (auto simp: build_feature_snapshot_def rbind_eq_Inr Let_def guard_else_def split: if_splits)

lemma loaded_symbol:
  "\<forall>b\<in>set loaded. mb_symbol b = x \<Longrightarrow> latest_contiguous_session_bars loaded = Inr bars \<Longrightarrow> build_feature_snapshot bars n = Inr built \<Longrightarrow>
     built = Some snap \<Longrightarrow> fs_symbol snap = x"
  using snapshot_symbol [of bars n snap] contiguous_last [of loaded bars] by auto

lemma mirrors_result:
  "(\<And>v. r = Inr v \<Longrightarrow> mirrors x k (f v) (f' v)) \<Longrightarrow> mirrors x k (op_bind (of_result r) f) (op_bind (of_result r) f')"
  by (rule mirrors_bind_with [where Q = "\<lambda>v. r = Inr v"]) (auto intro: returns_of_result mirrors_leaf)

lemma mirrors_snapshot:
  "mirrors x k m m' \<Longrightarrow> (\<And>v. u = Some v \<Longrightarrow> mirrors x k (f v) (f' v)) \<Longrightarrow>
     mirrors x k (case u of None \<Rightarrow> m | Some v \<Rightarrow> f v) (case u of None \<Rightarrow> m' | Some v \<Rightarrow> f' v)"
  by (cases u) simp_all

lemma mirrors_decide:
  assumes "fs_symbol snap = x"
  shows "mirrors x 1 (decide_entry env cfg pf clk dl y g i now snap) (decide_entry (noting_requests env) cfg pf (aside clk) dl y g i now snap)"
  unfolding decide_entry_def noting_fields by (intro mirror_rules mirrors_ask [OF assms])

lemma mirrors_maybe_enter:
  "mirrors x 1 (maybe_enter_position env cfg pf clk dl x now) (maybe_enter_position (noting_requests env) cfg pf (aside clk) dl x now)"
  unfolding maybe_enter_position_def Let_def
  by (rule mirrors_bind_with [OF returns_load_bars mirrors_leaf(5)], (rule mirrors_result)+, rule mirrors_snapshot)
    (intro mirror_rules mirrors_decide; (rule loaded_symbol; assumption)?)+

lemma mirrors_guarded: "mirrors x 1 (guarded_symbol env cfg inp clk dl x) (guarded_symbol (noting_requests env) cfg inp (aside clk) dl x)"
  unfolding guarded_symbol_def process_symbol_def enter_symbol_def noting_fields by (intro mirror_rules mirrors_maybe_enter)

lemma guarded_returns:
  "\<exists>r t' n' w' cs. guarded_symbol env cfg inp clk dl x (t, n, w) = (Inr r, t', n', w')
     \<and> guarded_symbol (noting_requests env) cfg inp (aside clk) dl x (t, n, w, l) = (Inr r, t', n', w', l @ cs)
     \<and> sy_symbol r = x \<and> n' = n + length cs \<and> length cs \<le> 1 \<and> (\<forall>c\<in>set cs. cx_symbol c = x)"
proof -
  let ?h = "\<lambda>e. op_bind (notify env (N_cycle_error x (exc_name e))) (\<lambda>_. op_ret (blocked x (''symbol_error:'' @ exc_name e)))"
  have "\<exists>x s'. ?h e s = (Inr x, s')" for e s
    using notify_returns [of env "N_cycle_error x (exc_name e)" s] by (auto simp: op_bind_def op_ret_def)
  then obtain r s' where run: "guarded_symbol env cfg inp clk dl x (t, n, w) = (Inr r, s')"
    using catch_Inr [of ?h] unfolding guarded_symbol_def by blast
  have "reports x (guarded_symbol env cfg inp clk dl x)"
    unfolding guarded_symbol_def by (intro returns_catch reports_process returns_rules) simp
  then have sym: "sy_symbol r = x" using run by (rule returnsD)
  obtain q t' n' w' cs where "guarded_symbol env cfg inp clk dl x (t, n, w) = (q, t', n', w')"
    "guarded_symbol (noting_requests env) cfg inp (aside clk) dl x (t, n, w, l) = (q, t', n', w', l @ cs)"
    "n' = n + length cs" "length cs \<le> 1" "\<forall>c\<in>set cs. cx_symbol c = x"
    by (rule mirrorsD [OF mirrors_guarded])
  with run sym show ?thesis by (intro exI [of _ r] exI [of _ t'] exI [of _ n'] exI [of _ w'] exI [of _ cs]) simp
qed

lemma process_symbols_returns:
  "\<exists>rs t' n' w' cs. process_symbols env cfg inp clk dl symbols (t, n, w) = (Inr rs, t', n', w')
     \<and> process_symbols (noting_requests env) cfg inp (aside clk) dl symbols (t, n, w, l) = (Inr rs, t', n', w', l @ cs)
     \<and> map sy_symbol rs = symbols \<and> n' = n + length cs \<and> set (map cx_symbol cs) \<subseteq> set symbols
     \<and> (distinct symbols \<longrightarrow> distinct (map cx_symbol cs))"
proof (induction symbols arbitrary: t n w l)
  case (Cons x xs)
  obtain r t1 n1 w1 cs where 1: "guarded_symbol env cfg inp clk dl x (t, n, w) = (Inr r, t1, n1, w1)"
    "guarded_symbol (noting_requests env) cfg inp (aside clk) dl x (t, n, w, l) = (Inr r, t1, n1, w1, l @ cs)"
    "sy_symbol r = x" "n1 = n + length cs" "length cs \<le> 1" "\<forall>c\<in>set cs. cx_symbol c = x"
    using guarded_returns [of env cfg inp clk dl x t n w l] by blast
  obtain rs t2 n2 w2 ds where 2: "process_symbols env cfg inp clk dl xs (t1, n1, w1) = (Inr rs, t2, n2, w2)"
    "process_symbols (noting_requests env) cfg inp (aside clk) dl xs (t1, n1, w1, l @ cs) = (Inr rs, t2, n2, w2, (l @ cs) @ ds)"
    "map sy_symbol rs = xs" "n2 = n1 + length ds" "set (map cx_symbol ds) \<subseteq> set xs" "distinct xs \<longrightarrow> distinct (map cx_symbol ds)"
    using Cons.IH [of t1 n1 w1 "l @ cs"] by blast
  have "distinct (map cx_symbol cs)" using 1(5) by (cases cs) auto
  with 1 2 show ?case
    by (intro exI [of _ "r # rs"] exI [of _ t2] exI [of _ n2] exI [of _ w2] exI [of _ "cs @ ds"]) (auto simp: op_bind_def op_ret_def)
qed (simp add: op_ret_def)

lemma mirrors_start: "mirrors x 0 (start_cycle env cfg clk ct) (start_cycle (noting_requests env) cfg (map_option aside clk) ct)"
proof -
  have ret: "aside (op_ret v) = op_ret v" for v :: datetime by (auto simp: aside_def op_ret_def)
  have now: "now_provider (noting_requests env) (map_option aside clk) ct = aside (now_provider env clk ct)"
    by (simp add: now_provider_def ret split: option.split)
  show ?thesis unfolding start_cycle_def now by (intro mirror_rules)
qed

text \<open>
  (C11) Once settings, clock and deadline are accepted, a cycle returns, whatever the AI, the submitter, the price checks and the notifier do or
  raise: its report lists every given symbol and every symbol with an open position exactly once, in that order. With a client that notes its requests
  the cycle runs the same, and the requests it made are about different symbols of the report, so at most one per symbol; the count in
  the report is their number. A cycle raises only what the start raised, before anything was submitted.
\<close>

theorem cycle_reports_every_symbol:
  "case start_cycle env cfg clk current_time (t, 0, w) of (q, t1, n1, w1) \<Rightarrow> case q of
      Inl e \<Rightarrow> run_auto_trade_cycle env cfg inp clk current_time symbols (t, w) = (Inl e, t1, w1)
    | Inr deadline \<Rightarrow> \<exists>report t' w' asked. run_auto_trade_cycle env cfg inp clk current_time symbols (t, w) = (Inr report, t', w')
        \<and> run_auto_trade_cycle (noting_requests env) cfg inp (map_option aside clk) current_time symbols (t, w, []) = (Inr report, t', w', asked)
        \<and> map sy_symbol (cy_results report) = unique (symbols @ map lp_symbol (list_open_live_positions None (st_db t1)))
        \<and> distinct (map sy_symbol (cy_results report))
        \<and> distinct (map cx_symbol asked) \<and> set (map cx_symbol asked) \<subseteq> set (map sy_symbol (cy_results report))
        \<and> cy_ai_call_count report = length asked"
proof -
  obtain q t1 n1 w1 cs where start: "start_cycle env cfg clk current_time (t, 0, w) = (q, t1, n1, w1)"
    and mirror: "start_cycle (noting_requests env) cfg (map_option aside clk) current_time (t, 0, w, []) = (q, t1, n1, w1, [])" and n1: "n1 = 0"
    by (rule mirrorsD [OF mirrors_start [of _ env cfg clk current_time], of t 0 w "[]"]) auto
  show ?thesis
  proof (cases q)
    case (Inl e)
    with start show ?thesis by (simp add: run_auto_trade_cycle_def run_cycle_def op_bind_def)
  next
    case (Inr dl)
    let ?syms = "unique (symbols @ map lp_symbol (list_open_live_positions None (st_db t1)))"
    have now: "now_provider (noting_requests env) (map_option aside clk) current_time = aside (now_provider env clk current_time)"
      by (auto simp: now_provider_def aside_def op_ret_def split: option.split)
    have dist: "distinct ?syms" by (simp add: unique_def)
    obtain rs t' n' w' cs where "process_symbols env cfg inp (now_provider env clk current_time) dl ?syms (t1, n1, w1) = (Inr rs, t', n', w')"
      "process_symbols (noting_requests env) cfg inp (aside (now_provider env clk current_time)) dl ?syms (t1, n1, w1, []) = (Inr rs, t', n', w', cs)"
      "map sy_symbol rs = ?syms" "n' = length cs" "set (map cx_symbol cs) \<subseteq> set ?syms" "distinct (map cx_symbol cs)"
      using process_symbols_returns [of env cfg inp "now_provider env clk current_time" dl ?syms t1 n1 w1 "[]"] dist n1 by auto
    moreover from this(3) have "set ?syms = sy_symbol ` set rs" by (metis set_map)
    ultimately show ?thesis using Inr start mirror dist
      by (simp add: run_auto_trade_cycle_def run_cycle_def op_bind_def db_read_def now)
  qed
qed

section \<open>What reaches the submitter\<close>

text \<open>
  \<open>screened\<close> replaces the answer of a submitter to every request that \<open>permitted\<close> does not allow by an arbitrary one. A cycle that behaves
  the same with both submitters never makes such a request.
\<close>

definition recorded :: "kis_request \<Rightarrow> db \<Rightarrow> bool" where
  "recorded q d = (\<exists>c row. row \<in> set (broker_orders d) \<and> row_of c q SUBMITTING row)"

definition permitted :: "auto_config \<Rightarrow> cycle_inputs \<Rightarrow> kis_request \<Rightarrow> store \<Rightarrow> bool" where
  "permitted cfg inp q t = (recorded q (st_db t) \<and> sendable q \<and> (kr_side q = BUY \<longrightarrow>
     kr_quantity q \<le> ac_max_quantity cfg \<and> \<not> ci_paused inp \<and> (ac_require_confirmation cfg \<longrightarrow> ci_confirmed inp)))"

definition screened :: "(kis_request \<Rightarrow> store \<Rightarrow> bool) \<Rightarrow> (kis_request \<Rightarrow> (order_result, 'w) sop) \<Rightarrow> (kis_request \<Rightarrow> (order_result, 'w) sop) \<Rightarrow>
    kis_request \<Rightarrow> (order_result, 'w) sop" where
  "screened P other submit q s = (if P q (fst s) then submit q s else other q s)"

definition screen :: "(kis_request \<Rightarrow> store \<Rightarrow> bool) \<Rightarrow> (kis_request \<Rightarrow> (order_result, 'w) sop) \<Rightarrow> 'w trade_env \<Rightarrow> 'w trade_env" where
  "screen P other env = env\<lparr>te_submit := screened P other (te_submit env)\<rparr>"

lemma bind_cong: "(\<And>x s'. m s = (Inr x, s') \<Longrightarrow> f x s' = g x s') \<Longrightarrow> op_bind m f s = op_bind m g s"
  by (simp add: op_bind_def split: prod.split sum.split)

lemma bind_returns_cong: "returns Q m \<Longrightarrow> (\<And>x. Q x \<Longrightarrow> f x = g x) \<Longrightarrow> op_bind m f = op_bind m g"
  by (rule ext, rule bind_cong) (metis returnsD)

text \<open>Rules that take an equation of two operations apart along their common structure.\<close>

lemma same_bind: "(\<And>x. f x = g x) \<Longrightarrow> op_bind m f = op_bind m g"
  by presburger

lemma same_if: "(b \<Longrightarrow> m = m1) \<Longrightarrow> (\<not> b \<Longrightarrow> m' = m1') \<Longrightarrow> (if b then m else m') = (if b then m1 else m1')"
  by simp

lemma same_option: "m = m1 \<Longrightarrow> (\<And>x. v = Some x \<Longrightarrow> f x = g x) \<Longrightarrow> (case v of None \<Rightarrow> m | Some x \<Rightarrow> f x) = (case v of None \<Rightarrow> m1 | Some x \<Rightarrow> g x)"
  by (cases v) simp_all

lemmas same_rules = same_bind same_if same_option

lemma submit_with_ledger_cong_at:
  assumes same: "\<And>row. row_of (ledger_key req sig key) req SUBMITTING row \<Longrightarrow> sendable req \<Longrightarrow> u req (with_row row t, w) = u' req (with_row row t, w)"
  shows "submit_with_ledger u req sig key reason now (t, w) = submit_with_ledger u' req sig key reason now (t, w)"
proof -
  let ?c = "ledger_key req sig key"
  have call: "call_submitter u req sig reason now ?c s2 = call_submitter u' req sig reason now ?c s2"
    if claim: "db_op (claim_request req sig key now) (t, w) = (Inr True, s1)" and mark: "db_op (mark_order_submitting ?c now) s1 = (x, s2)" for s1 x s2
  proof -
    obtain d1 where cl: "claim_request req sig key now (st_db t) = (Inr True, d1)" and s1: "s1 = (t\<lparr>st_db := d1\<rparr>, w)"
      using claim by (auto simp: db_op_def split: prod.splits)
    from cl show ?thesis
    proof (cases rule: claim_request_cases)
      case (claimed row)
      let ?row = "row\<lparr>bo_status := SUBMITTING, bo_updated_at := iso now, bo_error := None\<rparr>"
      have "mark_order_submitting ?c now d1 = (Inr True, (st_db t)\<lparr>broker_orders := broker_orders (st_db t) @ [?row]\<rparr>)"
        using claimed by (simp add: mark_submitting_new row_of_def ledger_key_def)
      with mark s1 have "s2 = (with_row ?row t, w)" by (auto simp: db_op_def with_row_def)
      moreover have "row_of ?c req SUBMITTING ?row" using claimed by (simp add: row_of_def)
      ultimately show ?thesis using same claimed by (simp add: call_submitter_def)
    qed simp
  qed
  show ?thesis unfolding submit_with_ledger_def Let_def by (rule bind_cong) (auto intro!: bind_cong call)
qed

lemma submit_with_ledger_cong:
  assumes "\<And>s. recorded req (st_db (fst s)) \<Longrightarrow> sendable req \<Longrightarrow> u req s = u' req s"
  shows "submit_with_ledger u req sig key reason now = submit_with_ledger u' req sig key reason now"
proof
  fix s
  have "recorded req (st_db (with_row row t))" if "row_of c req SUBMITTING row" for row t c
    using that by (auto simp: recorded_def with_row_def)
  then show "submit_with_ledger u req sig key reason now s = submit_with_ledger u' req sig key reason now s"
    using assms by (cases s) (auto intro!: submit_with_ledger_cong_at)
qed

lemma screen_fields [simp]:
  "te_calendar (screen P other env) = te_calendar env" "te_real_sum (screen P other env) = te_real_sum env"
  "te_kst_now (screen P other env) = te_kst_now env" "te_decide (screen P other env) = te_decide env"
  "te_network_client (screen P other env) = te_network_client env" "te_notifier (screen P other env) = te_notifier env"
  "te_budget (screen P other env) = te_budget env" "te_post_price (screen P other env) = te_post_price env"
  "te_exit_price (screen P other env) = te_exit_price env"
  by (simp_all add: screen_def)

lemma screen_small [simp]:
  "notify (screen P other env) text = notify env text"
  "notify_approval (screen P other env) i text = notify_approval env i text"
  "post_ai_live_price_guard_reason (screen P other env) symbol x v z = post_ai_live_price_guard_reason env symbol x v z"
  "entry_budget_ok (screen P other env) symbol x q = entry_budget_ok env symbol x q"
  "exit_price (screen P other env) symbol x = exit_price env symbol x"
  "portfolio_or_paper (screen P other env) pf = portfolio_or_paper env pf"
  "risk_quantity (screen P other env) cfg' pf symbol g x y z = risk_quantity env cfg' pf symbol g x y z"
  "announce_entry (screen P other env) symbol q x r = announce_entry env symbol q x r"
  "decision_refused (screen P other env) symbol cs d = decision_refused env symbol cs d"
  "ask_operator (screen P other env) cfg' pf symbol g i now d q1 q2 q3 = ask_operator env cfg' pf symbol g i now d q1 q2 q3"
  "now_provider (screen P other env) clk ct = now_provider env clk ct"
  "start_cycle (screen P other env) cfg' clk ct = start_cycle env cfg' clk ct"
  unfolding notify_def notify_approval_def post_ai_live_price_guard_reason_def entry_budget_ok_def exit_price_def portfolio_or_paper_def [abs_def]
    risk_quantity_def announce_entry_def decision_refused_def ask_operator_def now_provider_def start_cycle_def screen_fields
  by (rule refl)+

text \<open>The settings under which an entry may be submitted at all.\<close>

definition entries_open :: "auto_config \<Rightarrow> cycle_inputs \<Rightarrow> bool" where
  "entries_open cfg inp = (\<not> ci_paused inp \<and> (ac_require_confirmation cfg \<longrightarrow> ci_confirmed inp))"

lemma screen_submit:
  assumes "kr_side req = BUY \<longrightarrow> kr_quantity req \<le> ac_max_quantity cfg \<and> entries_open cfg inp"
  shows "submit_with_ledger (\<lambda>q. outside (te_submit (screen (permitted cfg inp) other env) q)) req sig key reason now
    = submit_with_ledger (\<lambda>q. outside (te_submit env q)) req sig key reason now"
  by (rule submit_with_ledger_cong)
    (use assms in \<open>auto simp: outside_def screen_def screened_def permitted_def entries_open_def split: prod.splits\<close>)

lemma make_kis_request_fields: "make_kis_request symbol sid q x ot ex st cp = Inr req \<Longrightarrow> kr_quantity req = q \<and> kis_side_of sid = Inr (kr_side req)"
  by (auto simp: make_kis_request_def guard_else_def rbind_def split: sum.splits if_splits)

lemma screen_submit_entry:
  assumes "q \<le> ac_max_quantity cfg" "entries_open cfg inp"
  shows "submit_entry (screen (permitted cfg inp) other env) symbol i g why now q x = submit_entry env symbol i g why now q x"
  unfolding submit_entry_def using assms
  by (intro bind_returns_cong [OF returns_of_result [where P = "\<lambda>req. kr_quantity req = q"]] screen_submit)
    (auto dest: make_kis_request_fields)

lemma screen_send_exit: "send_exit (screen (permitted cfg inp) other env) symbol now p why x = send_exit env symbol now p why x"
proof -
  have sell: "kis_side_of ''sell'' = Inr SELL" by code_simp
  have "submit_exit (screen (permitted cfg inp) other env) symbol now p why y = submit_exit env symbol now p why y" for y
    unfolding submit_exit_def screen_small
    by (intro bind_returns_cong [OF returns_of_result [where P = "\<lambda>req. kr_side req = SELL"]])
      (auto simp: screen_submit sell dest: make_kis_request_fields)
  then show ?thesis unfolding send_exit_def by (simp only:)
qed

lemma screen_maybe_exit: "maybe_exit_position (screen (permitted cfg inp) other env) cfg' symbol now = maybe_exit_position env cfg' symbol now"
  unfolding maybe_exit_position_def exit_position_def screen_send_exit screen_fields screen_small by (rule refl)

lemma sized_bounds: "sized cfg d = Some q \<Longrightarrow> 0 < q \<and> q \<le> ac_max_quantity cfg"
  by (auto simp: sized_def Let_def split: if_splits)

lemma returns_risk_quantity: "returns (\<lambda>v. \<forall>q. v = Some q \<longrightarrow> q \<le> ac_max_quantity cfg) (risk_quantity env cfg pf symbol g x y z)"
  unfolding risk_quantity_def by (intro returns_rules) (auto dest: sized_bounds)

lemma screen_enter_now:
  assumes "entries_open cfg inp"
  shows "enter_now (screen (permitted cfg inp) other env) cfg pf clk dl symbol g now d e s t = enter_now env cfg pf clk dl symbol g now d e s t"
  unfolding enter_now_def screen_small Let_def by (intro same_rules) (simp_all add: screen_submit_entry assms)

lemma screen_execute:
  assumes "entries_open cfg inp"
  shows "execute_approved_entry (screen (permitted cfg inp) other env) cfg pf symbol g ap snap now = execute_approved_entry env cfg pf symbol g ap snap now"
proof -
  have "check_approved_terms (screen (permitted cfg inp) other env) cfg pf symbol g ap audit snap now terms
      = check_approved_terms env cfg pf symbol g ap audit snap now terms" for audit terms
    unfolding check_approved_terms_def consume_and_submit_def Let_def screen_small
    by (intro bind_returns_cong [OF returns_risk_quantity] same_rules) (simp_all add: screen_submit_entry assms)
  then show ?thesis unfolding execute_approved_entry_def by (simp only:)
qed

lemma screen_act:
  assumes "entries_open cfg inp"
  shows "act_on_decision (screen (permitted cfg inp) other env) cfg pf clk dl symbol g i now snap d = act_on_decision env cfg pf clk dl symbol g i now snap d"
  unfolding act_on_decision_def screen_small screen_enter_now [OF assms] by (rule refl)

lemma screen_decide:
  assumes "entries_open cfg inp"
  shows "decide_entry (screen (permitted cfg inp) other env) cfg pf clk dl symbol g i now snap = decide_entry env cfg pf clk dl symbol g i now snap"
  unfolding decide_entry_def ask_ai_def screen_small screen_fields screen_act [OF assms] by (rule refl)

lemma screen_enter: "enter_symbol (screen (permitted cfg inp) other env) cfg inp clk dl symbol now = enter_symbol env cfg inp clk dl symbol now"
proof -
  have "maybe_enter_position (screen (permitted cfg inp) other env) cfg pf clk dl symbol now = maybe_enter_position env cfg pf clk dl symbol now"
    if "entries_open cfg inp" for pf
    unfolding maybe_enter_position_def screen_decide [OF that] screen_execute [OF that] by (rule refl)
  then show ?thesis unfolding enter_symbol_def screen_fields by (intro same_rules) (simp_all add: entries_open_def)
qed

lemma screen_guarded: "guarded_symbol (screen (permitted cfg inp) other env) cfg inp clk dl symbol = guarded_symbol env cfg inp clk dl symbol"
  unfolding guarded_symbol_def process_symbol_def screen_small screen_fields screen_maybe_exit screen_enter by (rule refl)

lemma screen_symbols: "process_symbols (screen (permitted cfg inp) other env) cfg inp clk dl symbols = process_symbols env cfg inp clk dl symbols"
  by (induction symbols) (simp_all add: screen_guarded)

text \<open>
  (C2) The submitter is called only with requests that are already in the ledger as being submitted and are well formed, and with a BUY
  only while trading is neither paused nor unconfirmed and for at most the configured quantity: a cycle does not depend on how the submitter answers
  any other request.
\<close>

theorem cycle_submits_permitted_only:
  "run_auto_trade_cycle (env\<lparr>te_submit := screened (permitted cfg inp) other (te_submit env)\<rparr>) cfg inp clk current_time symbols
     = run_auto_trade_cycle env cfg inp clk current_time symbols"
proof -
  have "run_cycle (screen (permitted cfg inp) other env) cfg inp clk current_time symbols = run_cycle env cfg inp clk current_time symbols"
    unfolding run_cycle_def screen_small screen_symbols by (rule refl)
  then show ?thesis unfolding screen_def by (simp add: run_auto_trade_cycle_def fun_eq_iff)
qed

section \<open>Approved entries\<close>

text \<open>What the submitter may see of an approved entry: the approved terms, and only while the request is marked as being consumed.\<close>

definition as_approved :: "approval_request \<Rightarrow> kis_request \<Rightarrow> store \<Rightarrow> bool" where
  "as_approved ap q t = (kr_symbol q = ap_symbol ap \<and> kr_side q = BUY \<and> ap_quantity ap = Some (kr_quantity q) \<and> ap_entry_price ap = Some (kr_price q)
     \<and> (\<exists>r \<in> set (approval_requests (st_db t)). ap_request_id r = ap_request_id ap \<and> ap_status r = ''CONSUMING''))"

lemma consumed_row:
  assumes "consume_approval_request i now d = (Inr True, d')"
  shows "\<exists>r \<in> set (approval_requests d'). ap_request_id r = i \<and> ap_status r = ''CONSUMING''"
  using assms by (auto simp: consume_approval_request_def require_nonempty_def op_guard_def expire_or_move_def Let_def rowcount_pos bex_update_where
      split: if_splits)

lemma make_buy_fields:
  "make_kis_request symbol ''buy'' q x ot ex st cp = Inr req \<Longrightarrow> kr_symbol req = symbol \<and> kr_side req = BUY \<and> kr_quantity req = q \<and> kr_price req = x"
proof -
  have "kis_side_of ''buy'' = Inr BUY" by code_simp
  then show "make_kis_request symbol ''buy'' q x ot ex st cp = Inr req \<Longrightarrow> ?thesis"
    by (auto simp: make_kis_request_def guard_else_def rbind_def split: sum.splits if_splits)
qed

lemma consume_and_submit_cong:
  assumes same: "\<And>q s. as_approved ap q (fst s) \<Longrightarrow> te_submit env' q s = te_submit env q s" and notify: "te_notifier env' = te_notifier env"
    and terms: "terms_of ap = Some terms" "ap_symbol ap = symbol"
  shows "consume_and_submit env' symbol g ap now terms = consume_and_submit env symbol g ap now terms"
proof
  fix s :: "store \<times> nat \<times> 'a"
  have fields: "ap_quantity ap = Some (at_quantity terms)" "ap_entry_price ap = Some (at_entry terms)"
    using terms(1) by (auto simp: terms_of_def split: option.splits)
  have "submit_entry env' symbol i g why now (at_quantity terms) (at_entry terms) s1
      = submit_entry env symbol i g why now (at_quantity terms) (at_entry terms) s1"
    if consumed: "db_op (consume_approval_request (ap_request_id ap) now) s = (Inr True, s1)" for i why s1
    unfolding submit_entry_def
  proof (rule bind_cong)
    fix req s2
    assume "of_result (make_kis_request symbol ''buy'' (at_quantity terms) (at_entry terms) ''limit'' ''KRX'' [] []) s1 = (Inr req, s2)"
    then have mk: "make_kis_request symbol ''buy'' (at_quantity terms) (at_entry terms) ''limit'' ''KRX'' [] [] = Inr req" and "s2 = s1"
      by (simp_all add: of_result_def)
    obtain t n w where s1: "s1 = (t, n, w)" by (metis prod.exhaust)
    obtain r where "r \<in> set (approval_requests (st_db t))" "ap_request_id r = ap_request_id ap" "ap_status r = ''CONSUMING''"
      using consumed s1 consumed_row [of "ap_request_id ap" now] by (fastforce simp: db_op_def split: prod.splits)
    then have "as_approved ap req (with_row row t)" for row
      using make_buy_fields [OF mk] fields terms(2) by (auto simp: as_approved_def with_row_def)
    then show "submit_with_ledger (\<lambda>q. outside (te_submit env' q)) req i (Some g) why now s2
        = submit_with_ledger (\<lambda>q. outside (te_submit env q)) req i (Some g) why now s2"
      unfolding \<open>s2 = s1\<close> s1 by (intro submit_with_ledger_cong_at) (simp add: outside_def same)
  qed
  moreover have "announce_entry env' = announce_entry env" by (simp add: fun_eq_iff announce_entry_def notify_def notify)
  ultimately show "consume_and_submit env' symbol g ap now terms s = consume_and_submit env symbol g ap now terms s"
    unfolding consume_and_submit_def by (intro bind_cong) (auto simp: op_bind_def)
qed

text \<open>
  (C9) An approved entry is submitted only with the approved symbol, quantity and entry price, as a BUY, and only after the approval was taken
  (its row is CONSUMING at the moment of the call): executing an approval does not depend on how the submitter answers anything else.
\<close>

theorem approved_entry_as_approved:
  "execute_approved_entry (env\<lparr>te_submit := screened (as_approved ap) other (te_submit env)\<rparr>) cfg portfolio symbol signal_id ap snapshot now
     = execute_approved_entry env cfg portfolio symbol signal_id ap snapshot now"
proof -
  let ?env = "screen (as_approved ap) other env"
  have "consume_and_submit ?env symbol signal_id ap now terms = consume_and_submit env symbol signal_id ap now terms"
    if "terms_of ap = Some terms" "ap_symbol ap = symbol" for terms
    using that by (intro consume_and_submit_cong) (simp_all add: screen_def screened_def)
  then have "check_approved_terms ?env cfg portfolio symbol signal_id ap audit snapshot now terms
      = check_approved_terms env cfg portfolio symbol signal_id ap audit snapshot now terms"
    if "terms_of ap = Some terms" "ap_symbol ap = symbol" for audit terms
    using that unfolding check_approved_terms_def screen_small by (simp only:)
  then have "execute_approved_entry ?env cfg portfolio symbol signal_id ap snapshot now = execute_approved_entry env cfg portfolio symbol signal_id ap snapshot now"
    unfolding execute_approved_entry_def Let_def by (intro same_rules) simp_all
  then show ?thesis by (simp add: screen_def)
qed

text \<open>
  A refused approval is meant to be closed as FAILED, but \<open>finish_approval_request\<close> touches only requests that are being consumed: while the
  request is APPROVED, as it is in every refusal before the consumption, the refusal changes nothing and the next cycle finds the same
  approval again.
\<close>

theorem refused_approval_stays_approved:
  assumes "\<And>r. r \<in> set (approval_requests (st_db t)) \<Longrightarrow> ap_request_id r = ap_request_id ap \<Longrightarrow> ap_status r = ''APPROVED''"
    and "strip (ap_request_id ap) \<noteq> []"
  shows "refuse_approval ap now symbol reason (t, n, w) = (Inr (blocked symbol reason), t, n, w)"
proof -
  have "finish_approval_request (ap_request_id ap) False now (st_db t) = (Inr False, st_db t)"
  proof -
    have "update_where (\<lambda>r. ap_request_id r = ap_request_id ap \<and> ap_status r = ''CONSUMING'') f (approval_requests (st_db t)) = approval_requests (st_db t)" for f
      unfolding update_where_def by (rule map_idI) (use assms(1) in auto)
    then show ?thesis using assms by (auto simp: finish_approval_request_def require_nonempty_def op_guard_def Let_def rowcount_pos)
  qed
  then show ?thesis by (simp add: refuse_approval_def op_bind_def db_op_def op_ret_def)
qed

theorem refused_approval_stays_approved_witness:
  "refuse_approval sample_request sample_time ''005930'' ''approval_terms_changed'' (fresh_store\<lparr>st_db := sample_approvals\<rparr>, 0, ())
     = (Inr (blocked ''005930'' ''approval_terms_changed''), fresh_store\<lparr>st_db := sample_approvals\<rparr>, 0, ())"
  by (rule refused_approval_stays_approved) (simp_all add: sample_approvals_def sample_request_def string_eval)

section \<open>An exit refused by the safety gate\<close>

lemma outside_gated: "outside (gated g cal now others submit q) = gated g cal now others (\<lambda>q v. case v of (n, w) \<Rightarrow> (case submit q w of (r, w') \<Rightarrow> (r, n, w'))) q"
  by (simp add: fun_eq_iff outside_def gated_def guarded_submit_def split: prod.split sum.split)

lemma exit_position_unresolved:
  assumes "has_unresolved_order symbol SELL (st_db t)"
  shows "exit_position env cfg symbol now p price (t, s) = (case exit_reason (te_calendar env) p price now of Inl e \<Rightarrow> Inl e
      | Inr why \<Rightarrow> Inr (blocked symbol (if why = None then ''position_hold'' else ''exit_order_pending'')), t, s)"
  using assms by (simp add: exit_position_def op_bind_def of_result_def db_read_def op_ret_def split: sum.split option.split)

text \<open>
  A SELL that is due while the runtime is paused is refused by the safety gate and never leaves the process, but its ledger row becomes UNKNOWN
  without an order number. From then on every exit of the symbol, for whatever reason and price, is blocked with \<open>exit_order_pending\<close>
  and nothing is changed.
\<close>

theorem refused_exit_blocks_exits:
  assumes gate: "te_submit env = gated g cal clock others submit" and paused: "rc_paused (get_runtime_control (st_db t))"
    and req: "make_kis_request symbol ''sell'' (lp_quantity p) price ''limit'' ''KRX'' [] [] = Inr req"
    and fresh: "fst (claim_request req (lp_signal_id p) (Some (exit_signal_id p reason now)) now (st_db t)) = Inr True"
    and run: "submit_exit env symbol now p reason price (t, n, w) = (r, t', n', w')"
  shows "(n', w') = (n, w) \<and> exit_position env cfg symbol now' p' price' (t', n', w')
    = (case exit_reason (te_calendar env) p' price' now' of Inl e \<Rightarrow> Inl e
      | Inr why \<Rightarrow> Inr (blocked symbol (if why = None then ''position_hold'' else ''exit_order_pending'')), t', n, w)"
proof -
  let ?submit = "\<lambda>q v. case v of (n, w) \<Rightarrow> (case submit q w of (r, w') \<Rightarrow> (r, n, w'))"
  obtain q t1 v1 where sub: "submit_with_ledger (gated g cal clock others ?submit) req (lp_signal_id p) (Some (exit_signal_id p reason now)) reason now
      (t, n, w) = (q, t1, v1)" by (metis prod.exhaust)
  have sides: "kr_symbol req = symbol" "kr_side req = SELL"
  proof -
    have "kis_side_of ''sell'' = Inr SELL" by code_simp
    with req show "kr_symbol req = symbol" "kr_side req = SELL"
      by (auto simp: make_kis_request_def guard_else_def rbind_def split: sum.splits if_splits)
  qed
  from paused_order_unresolved [OF paused sub fresh]
  have v1: "v1 = (n, w)" and open_order: "has_unresolved_order symbol SELL (st_db t1)"
    and "\<And>x. q = Inr x \<Longrightarrow> su_broker_order_id x = None" by (auto simp: sides)
  then have "(t', n', w') = (t1, n, w)"
    using run by (auto simp: submit_exit_def gate outside_gated req of_result_def op_bind_def sub v1 op_ret_def split: sum.splits)
  then show ?thesis using exit_position_unresolved [OF open_order] by simp
qed

definition held_position :: live_position where
  "held_position = \<lparr>lp_position_id = ''p1'', lp_signal_id = ''s1'', lp_symbol = ''005930'', lp_quantity = 3, lp_entry_price = Fin 70000,
     lp_stop_loss_price = Fin 69000, lp_take_profit_price = Fin 72000, lp_opened_at = iso sample_time, lp_status = POS_OPEN,
     lp_entry_broker_order_id = None, lp_exit_broker_order_id = None, lp_closed_at = None, lp_close_reason = None, lp_max_holding_seconds = None\<rparr>"

definition paused_env :: "unit trade_env" where
  "paused_env = \<lparr>te_calendar = None, te_real_sum = (\<lambda>_. Fin 0), te_kst_now = op_ret sample_time, te_decide = (\<lambda>_. op_fail (RuntimeError [])),
     te_network_client = False,
     te_submit = gated \<lparr>gc_db_path = ''db'', gc_environment = ENV_DEMO, gc_owner = ''o'', gc_lease = ''l''\<rparr> None sample_time (\<lambda>d. d)
       (\<lambda>_ w. (Inl (RuntimeError []), w)),
     te_notifier = None, te_budget = None, te_post_price = None, te_exit_price = None\<rparr>"

theorem refused_exit_blocks_exits_witness:
  "\<exists>r t'. submit_exit paused_env ''005930'' sample_time held_position ''stop_loss'' (Fin 69000) (fresh_store, 0, ()) = (r, t', 0, ())
     \<and> (\<forall>cfg now' p' price'. exit_position paused_env cfg ''005930'' now' p' price' (t', 0, ())
       = (case exit_reason None p' price' now' of Inl e \<Rightarrow> Inl e
         | Inr why \<Rightarrow> Inr (blocked ''005930'' (if why = None then ''position_hold'' else ''exit_order_pending'')), t', 0, ()))"
proof -
  let ?req = "\<lparr>kr_symbol = ''005930'', kr_side = SELL, kr_quantity = 3, kr_price = Fin 69000, kr_order_type = ORDER_LIMIT, kr_exchange_id = ''KRX'',
    kr_sell_type = [], kr_condition_price = []\<rparr>"
  let ?g = "\<lparr>gc_db_path = ''db'', gc_environment = ENV_DEMO, gc_owner = ''o'', gc_lease = ''l''\<rparr>"
  obtain r t' n' w' where run: "submit_exit paused_env ''005930'' sample_time held_position ''stop_loss'' (Fin 69000) (fresh_store, 0, ()) = (r, t', n', w')"
    by (metis prod.exhaust)
  have digits: "strip ''005930'' \<noteq> [] \<and> isdigit ''005930''" by (simp add: string_eval)
  have "kis_side_of ''sell'' = Inr SELL" "kis_type_of ''limit'' = Inr ORDER_LIMIT" by code_simp+
  with digits have req: "make_kis_request ''005930'' ''sell'' (lp_quantity held_position) (Fin 69000) ''limit'' ''KRX'' [] [] = Inr ?req"
    by (simp add: make_kis_request_def rbind_def guard_else_def held_position_def fle_def)
  have "sendable ?req" using digits by (simp add: sendable_def positive_number_def fle_def)
  then have fresh: "fst (claim_request ?req (lp_signal_id held_position) (Some (exit_signal_id held_position ''stop_loss'' sample_time)) sample_time
      (st_db fresh_store)) = Inr True"
    by (rule claim_request_fresh) (simp_all add: held_position_def string_eval order_ids_def fresh_store_def empty_db_def)
  have gate: "te_submit paused_env = gated ?g None sample_time (\<lambda>d. d) (\<lambda>_ w. (Inl (RuntimeError []), w))" by (simp add: paused_env_def)
  have paused: "rc_paused (get_runtime_control (st_db fresh_store))"
    by (simp add: fresh_store_def empty_db_def get_runtime_control_def default_control_def)
  note blocks = refused_exit_blocks_exits [OF gate paused req fresh run]
  moreover have "te_calendar paused_env = None" by (simp add: paused_env_def)
  ultimately show ?thesis using run by auto
qed

end
