(* ===== verification/Sha256.thy ===== *)
theory Sha256
  imports Json "HOL-Library.Word"
begin

text \<open>
  The SHA-256 digest of the Python standard library (\<open>hashlib.sha256(...).hexdigest()\<close>) on byte strings, as FIPS 180-4 defines it. The fill
  identifier of a broker notice (\<open>pipeline/fill_notice_reconciliation.py\<close>) is such a digest.
\<close>

unbundle bit_operations_syntax

type_synonym w32 = "32 word"

definition sha_k :: "w32 list" where
  "sha_k = [1116352408, 1899447441, 3049323471, 3921009573, 961987163, 1508970993, 2453635748, 2870763221,
     3624381080, 310598401, 607225278, 1426881987, 1925078388, 2162078206, 2614888103, 3248222580,
     3835390401, 4022224774, 264347078, 604807628, 770255983, 1249150122, 1555081692, 1996064986,
     2554220882, 2821834349, 2952996808, 3210313671, 3336571891, 3584528711, 113926993, 338241895,
     666307205, 773529912, 1294757372, 1396182291, 1695183700, 1986661051, 2177026350, 2456956037,
     2730485921, 2820302411, 3259730800, 3345764771, 3516065817, 3600352804, 4094571909, 275423344,
     430227734, 506948616, 659060556, 883997877, 958139571, 1322822218, 1537002063, 1747873779,
     1955562222, 2024104815, 2227730452, 2361852424, 2428436474, 2756734187, 3204031479, 3329325298]"

definition sha_h0 :: "w32 list" where
  "sha_h0 = [1779033703, 3144134277, 1013904242, 2773480762, 1359893119, 2600822924, 528734635, 1541459225]"

section \<open>Padding\<close>

text \<open>A number as \<open>n\<close> bytes, most significant first.\<close>

fun big_endian :: "nat \<Rightarrow> int \<Rightarrow> int list" where
  "big_endian 0 v = []"
| "big_endian (Suc n) v = big_endian n (v div 256) @ [v mod 256]"

definition zero_bytes :: "nat \<Rightarrow> nat" where
  "zero_bytes len = (119 - len mod 64) mod 64"

definition sha_pad :: "int list \<Rightarrow> int list" where
  "sha_pad bytes = bytes @ [128] @ replicate (zero_bytes (length bytes)) 0 @ big_endian 8 (8 * int (length bytes))"

fun words_of :: "int list \<Rightarrow> w32 list" where
  "words_of (a # b # c # d # bytes) = of_int (((a * 256 + b) * 256 + c) * 256 + d) # words_of bytes"
| "words_of _ = []"

fun blocks_of :: "nat \<Rightarrow> w32 list \<Rightarrow> w32 list list" where
  "blocks_of 0 ws = []"
| "blocks_of (Suc n) ws = (if ws = [] then [] else take 16 ws # blocks_of n (drop 16 ws))"

section \<open>Compression\<close>

definition ssig0 :: "w32 \<Rightarrow> w32" where
  "ssig0 x = (word_rotr 7 x XOR word_rotr 18 x) XOR drop_bit 3 x"

definition ssig1 :: "w32 \<Rightarrow> w32" where
  "ssig1 x = (word_rotr 17 x XOR word_rotr 19 x) XOR drop_bit 10 x"

definition bsig0 :: "w32 \<Rightarrow> w32" where
  "bsig0 x = (word_rotr 2 x XOR word_rotr 13 x) XOR word_rotr 22 x"

definition bsig1 :: "w32 \<Rightarrow> w32" where
  "bsig1 x = (word_rotr 6 x XOR word_rotr 11 x) XOR word_rotr 25 x"

definition choose_bits :: "w32 \<Rightarrow> w32 \<Rightarrow> w32 \<Rightarrow> w32" where
  "choose_bits x y z = (x AND y) XOR (NOT x AND z)"

definition majority :: "w32 \<Rightarrow> w32 \<Rightarrow> w32 \<Rightarrow> w32" where
  "majority x y z = ((x AND y) XOR (x AND z)) XOR (y AND z)"

text \<open>The message schedule, extended word by word from the 16 of a block.\<close>

fun extend_schedule :: "nat \<Rightarrow> w32 list \<Rightarrow> w32 list" where
  "extend_schedule 0 ws = ws"
| "extend_schedule (Suc n) ws = (let t = length ws in
     extend_schedule n (ws @ [ssig1 (ws ! (t - 2)) + ws ! (t - 7) + ssig0 (ws ! (t - 15)) + ws ! (t - 16)]))"

record sha_state =
  sh_a :: w32
  sh_b :: w32
  sh_c :: w32
  sh_d :: w32
  sh_e :: w32
  sh_f :: w32
  sh_g :: w32
  sh_h :: w32

definition sha_round :: "sha_state \<Rightarrow> w32 \<times> w32 \<Rightarrow> sha_state" where
  "sha_round s kw = (let
       t1 = sh_h s + bsig1 (sh_e s) + choose_bits (sh_e s) (sh_f s) (sh_g s) + fst kw + snd kw;
       t2 = bsig0 (sh_a s) + majority (sh_a s) (sh_b s) (sh_c s)
     in \<lparr>sh_a = t1 + t2, sh_b = sh_a s, sh_c = sh_b s, sh_d = sh_c s, sh_e = sh_d s + t1, sh_f = sh_e s, sh_g = sh_f s, sh_h = sh_g s\<rparr>)"

definition state_of :: "w32 list \<Rightarrow> sha_state" where
  "state_of hs = \<lparr>sh_a = hs ! 0, sh_b = hs ! 1, sh_c = hs ! 2, sh_d = hs ! 3, sh_e = hs ! 4, sh_f = hs ! 5, sh_g = hs ! 6, sh_h = hs ! 7\<rparr>"

definition words_of_state :: "sha_state \<Rightarrow> w32 list" where
  "words_of_state s = [sh_a s, sh_b s, sh_c s, sh_d s, sh_e s, sh_f s, sh_g s, sh_h s]"

definition compress :: "w32 list \<Rightarrow> w32 list \<Rightarrow> w32 list" where
  "compress hs block = map2 (+) hs (words_of_state (foldl sha_round (state_of hs) (zip sha_k (extend_schedule 48 block))))"

section \<open>Digest\<close>

definition sha256_words :: "int list \<Rightarrow> w32 list" where
  "sha256_words bytes = (let padded = sha_pad bytes in foldl compress sha_h0 (blocks_of (length padded) (words_of padded)))"

definition word_hex :: "w32 \<Rightarrow> string" where
  "word_hex x = concat (map (\<lambda>b. [hex_digit (nat (b div 16)), hex_digit (nat (b mod 16))]) (big_endian 4 (uint x)))"

definition sha256_hexdigest :: "string \<Rightarrow> string" where
  "sha256_hexdigest text = concat (map word_hex (sha256_words (map (\<lambda>c. int (ch_code c)) text)))"

section \<open>Shape of a digest\<close>

lemma length_big_endian [simp]: "length (big_endian n v) = n"
  by (induction n arbitrary: v) simp_all

lemma sha_pad_blocks: "64 dvd length (sha_pad bytes)"
proof -
  obtain q r where n: "length bytes = 64 * q + r" "r < 64" by (metis mod_less_divisor mult_div_mod_eq zero_less_numeral)
  then have "zero_bytes (length bytes) = (if r \<le> 55 then 55 - r else 119 - r)"
    using le_mod_geq [of 64 "119 - r"] by (simp add: zero_bytes_def)
  with n have "length (sha_pad bytes) = (if r \<le> 55 then 64 * (q + 1) else 64 * (q + 2))" by (simp add: sha_pad_def)
  then show ?thesis by (metis dvd_triv_left)
qed

lemma length_compress: "length hs = 8 \<Longrightarrow> length (compress hs block) = 8"
  by (simp add: compress_def words_of_state_def)

lemma length_sha256_words: "length (sha256_words bytes) = 8"
proof -
  have "length hs = 8 \<Longrightarrow> length (foldl compress hs bs) = 8" for hs bs
    by (induction bs arbitrary: hs) (simp_all add: length_compress)
  then show ?thesis by (simp add: sha256_words_def Let_def sha_h0_def)
qed

lemma length_word_hex: "length (word_hex x) = 8"
  by (simp add: word_hex_def length_concat comp_def sum_list_triv)

lemma length_sha256_hexdigest: "length (sha256_hexdigest text) = 64"
  by (simp add: sha256_hexdigest_def length_concat comp_def length_word_hex sum_list_triv length_sha256_words)

end
