(* ===== verification/FillNotices.thy ===== *)
theory FillNotices
  imports Reconcile Sha256
begin

text \<open>
  Realtime fill notices: the frames of \<open>broker/kis_fill_notice.py\<close> and their application to the ledger
  (\<open>pipeline/fill_notice_reconciliation.py\<close>). The cipher and the base64 codec are parameters; everything around them, from the frame to
  the fields of a notice, is modelled on bytes. Shown: parsing returns only well-formed notices, and all of a frame or none; applying a notice
  never raises, keeps the books, raises the review flags whenever it refuses, and counts equal notices once.
\<close>

section \<open>Notices\<close>

datatype notice_kind = NK_FILLED | NK_ACCEPTED | NK_REJECTED

fun kind_value :: "notice_kind \<Rightarrow> string" where
  "kind_value NK_FILLED = ''filled''"
| "kind_value NK_ACCEPTED = ''accepted''"
| "kind_value NK_REJECTED = ''rejected''"

record fill_notice =
  fn_kind :: notice_kind
  fn_order_no :: string
  fn_original_order_no :: string
  fn_order_qty :: int
  fn_side :: string
  fn_symbol :: string
  fn_fill_qty :: int
  fn_fill_price :: int
  fn_fill_time :: string
  fn_customer_id :: string
  fn_account_no :: string
  fn_receipt_type :: string
  fn_order_kind :: string
  fn_reject_flag :: string
  fn_accepted_flag :: string
  fn_order_price :: int
  fn_exchange_id :: string

record notice_ack =
  na_tr_id :: string
  na_success :: bool
  na_message :: string
  na_hts_id :: string
  na_aes_key :: "string option"
  na_aes_iv :: "string option"

definition ready_for_data :: "notice_ack \<Rightarrow> bool" where
  "ready_for_data a = (na_success a \<and> na_aes_key a \<noteq> None \<and> na_aes_iv a \<noteq> None)"

fun fill_notice_tr_id :: "kis_env \<Rightarrow> string" where
  "fill_notice_tr_id ENV_REAL = ''H0STCNI0''"
| "fill_notice_tr_id ENV_DEMO = ''H0STCNI9''"

definition FILL_NOTICE_TR_IDS :: "string list" where
  "FILL_NOTICE_TR_IDS = [fill_notice_tr_id ENV_REAL, fill_notice_tr_id ENV_DEMO]"

text \<open>The number of \<open>FILL_NOTICE_COLUMNS\<close>.\<close>

definition notice_columns :: nat where
  "notice_columns = 26"

definition is_control_char :: "char \<Rightarrow> bool" where
  "is_control_char c = (ch_code c < 32 \<or> ch_code c = 127)"

definition public_text :: "string \<Rightarrow> string \<Rightarrow> string result" where
  "public_text value name = (let v = strip value in
     if v = [] \<or> list_ex is_control_char v then Inl (ValueError (''invalid '' @ name)) else Inr v)"

text \<open>\<open>int()\<close> refuses more than 4300 digits.\<close>

definition int_field :: "string \<Rightarrow> string \<Rightarrow> bool \<Rightarrow> int result" where
  "int_field value name positive =
     guard_else (value = [] \<or> hd value = CHR ''+'' \<or> \<not> isdigit value) (ValueError (''invalid '' @ name))
     (guard_else (4300 < length value) (ValueError ''Exceeds the limit (4300 digits) for integer string conversion'')
     (let n = int (read_nat value) in
       guard_else (positive \<and> n \<le> 0) (ValueError (''invalid '' @ name)) (Inr n)))"

section \<open>Frames\<close>

definition kind_of_event :: "string \<Rightarrow> string \<Rightarrow> string \<Rightarrow> int \<Rightarrow> int \<Rightarrow> notice_kind result" where
  "kind_of_event reject_flag event_code accepted_flag fill_qty fill_price =
     (if event_code = ''2''
      then guard_else (reject_flag = ''Y'' \<or> fill_qty \<le> 0 \<or> fill_price \<le> 0) (ValueError ''invalid fill event'') (Inr NK_FILLED)
      else if reject_flag = ''Y'' then guard_else (fill_qty \<noteq> 0) (ValueError ''invalid rejected event'') (Inr NK_REJECTED)
      else guard_else (accepted_flag \<noteq> ''Y'' \<or> fill_qty \<noteq> 0) (ValueError ''invalid accepted event'') (Inr NK_ACCEPTED))"

definition valid_time_text :: "string \<Rightarrow> bool" where
  "valid_time_text t = (length t = 6 \<and> isdigit t \<and> read_nat (take 2 t) \<le> 23 \<and> read_nat (take 2 (drop 2 t)) \<le> 59 \<and> read_nat (drop 4 t) \<le> 59)"

definition build_notice :: "string list \<Rightarrow> notice_kind \<Rightarrow> int \<Rightarrow> int \<Rightarrow> int \<Rightarrow> int \<Rightarrow> fill_notice result" where
  "build_notice fs kind order_qty fill_qty fill_price order_price =
     rbind (public_text (fs ! 2) ''order_no'') (\<lambda>order_no.
     rbind (if fs ! 3 = [] then Inr [] else public_text (fs ! 3) ''original_order_no'') (\<lambda>original.
     rbind (public_text (fs ! 0) ''customer_id'') (\<lambda>customer.
     rbind (public_text (fs ! 1) ''account_no'') (\<lambda>account.
       Inr \<lparr>fn_kind = kind, fn_order_no = order_no, fn_original_order_no = original, fn_order_qty = order_qty, fn_side = fs ! 4,
         fn_symbol = fs ! 8, fn_fill_qty = fill_qty, fn_fill_price = fill_price, fn_fill_time = fs ! 11, fn_customer_id = customer,
         fn_account_no = account, fn_receipt_type = fs ! 5, fn_order_kind = fs ! 6,
         fn_reject_flag = (let r = upper (fs ! 12) in if r = [] then ''N'' else r), fn_accepted_flag = upper (fs ! 14),
         fn_order_price = order_price, fn_exchange_id = fs ! 19\<rparr>))))"

definition parse_fields :: "string list \<Rightarrow> fill_notice result" where
  "parse_fields fs =
     guard_else (length fs \<noteq> notice_columns) (ValueError ''invalid fill-notice field count'')
     (rbind (int_field (fs ! 16) ''order_qty'' True) (\<lambda>order_qty.
      guard_else (fs ! 4 \<notin> {''01'', ''02''}) (ValueError ''unknown order side'')
     (guard_else (length (fs ! 8) \<noteq> 6 \<or> \<not> isdigit (fs ! 8)) (ValueError ''invalid symbol'')
     (rbind (int_field (fs ! 9) ''fill_qty'' False) (\<lambda>fill_qty. rbind (int_field (fs ! 10) ''fill_price'' False) (\<lambda>fill_price.
      guard_else (\<not> valid_time_text (fs ! 11)) (ValueError ''invalid fill time'')
     (guard_else (upper (fs ! 12) \<notin> {''Y'', ''N'', []} \<or> fs ! 13 \<notin> {''1'', ''2''}) (ValueError ''unknown fill-notice status'')
     (guard_else (upper (fs ! 14) \<notin> {''Y'', ''N'', []}) (ValueError ''unknown acceptance status'')
     (rbind (kind_of_event (upper (fs ! 12)) (fs ! 13) (upper (fs ! 14)) fill_qty fill_price) (\<lambda>kind.
      rbind (if fs ! 25 = [] then Inr 0 else int_field (fs ! 25) ''order_price'' False) (\<lambda>order_price.
        build_notice fs kind order_qty fill_qty fill_price order_price)))))))))))"

text \<open>Strict UTF-8, as \<open>decode("utf-8")\<close> checks it.\<close>

definition tail_byte :: "char \<Rightarrow> bool" where
  "tail_byte c = (128 \<le> ch_code c \<and> ch_code c < 192)"

definition second_byte :: "nat \<Rightarrow> char \<Rightarrow> bool" where
  "second_byte lead c = (tail_byte c \<and> (lead = 224 \<longrightarrow> 160 \<le> ch_code c) \<and> (lead = 237 \<longrightarrow> ch_code c < 160)
     \<and> (lead = 240 \<longrightarrow> 144 \<le> ch_code c) \<and> (lead = 244 \<longrightarrow> ch_code c < 144))"

fun utf8_ok :: "string \<Rightarrow> bool" where
  "utf8_ok [] = True"
| "utf8_ok (c # s) = (let n = ch_code c in
     if n < 128 then utf8_ok s
     else case s of [] \<Rightarrow> False
       | c1 # s1 \<Rightarrow> second_byte n c1 \<and>
          (if 194 \<le> n \<and> n < 224 then utf8_ok s1
           else case s1 of [] \<Rightarrow> False
             | c2 # s2 \<Rightarrow> tail_byte c2 \<and>
                (if 224 \<le> n \<and> n < 240 then utf8_ok s2
                 else case s2 of [] \<Rightarrow> False | c3 # s3 \<Rightarrow> tail_byte c3 \<and> 240 \<le> n \<and> n < 245 \<and> utf8_ok s3)))"

text \<open>The codec and the cipher: \<open>base64.b64decode(validate=True)\<close>, AES-CBC decryption under key and vector, removal of the padding.\<close>

record cipher =
  ci_b64decode :: "string \<Rightarrow> string option"
  ci_aes_cbc :: "string \<Rightarrow> string \<Rightarrow> string \<Rightarrow> string"
  ci_unpad :: "string \<Rightarrow> string option"

definition payload_error :: exc where
  "payload_error = ValueError ''invalid encrypted fill-notice payload''"

definition decrypt_aes_cbc_base64 :: "cipher \<Rightarrow> string \<Rightarrow> string \<Rightarrow> string \<Rightarrow> string result" where
  "decrypt_aes_cbc_base64 ci ciphertext aes_key aes_iv =
     (case (public_text aes_key ''aes_key'', public_text aes_iv ''aes_iv'', public_text ciphertext ''ciphertext'') of
        (Inr key, Inr iv, Inr encoded) \<Rightarrow>
          if \<not> (ascii key \<and> ascii iv \<and> ascii encoded) \<or> length key \<noteq> 32 \<or> length iv \<noteq> 16 then Inl payload_error
          else (case ci_b64decode ci encoded of None \<Rightarrow> Inl payload_error
            | Some encrypted \<Rightarrow>
              if encrypted = [] \<or> length encrypted mod 16 \<noteq> 0 then Inl payload_error
              else (case ci_unpad ci (ci_aes_cbc ci key iv encrypted) of None \<Rightarrow> Inl payload_error
                | Some text \<Rightarrow> if utf8_ok text then Inr text else Inl payload_error))
      | _ \<Rightarrow> Inl payload_error)"

text \<open>\<open>str.split(c)\<close>, and \<open>split(c, n)\<close> with at most \<open>n\<close> splits.\<close>

definition split_first :: "char \<Rightarrow> string \<Rightarrow> string \<times> string option" where
  "split_first c s = split_at (\<lambda>x. x = c) s"

fun split_max :: "nat \<Rightarrow> char \<Rightarrow> string \<Rightarrow> string list" where
  "split_max 0 c s = [s]"
| "split_max (Suc n) c s = (case split_first c s of (a, None) \<Rightarrow> [a] | (a, Some r) \<Rightarrow> a # split_max n c r)"

text \<open>A text has at most as many separators as characters.\<close>

definition split_all :: "char \<Rightarrow> string \<Rightarrow> string list" where
  "split_all c s = split_max (length s) c s"

fun parse_records :: "nat \<Rightarrow> string list \<Rightarrow> fill_notice list result" where
  "parse_records 0 fs = Inr []"
| "parse_records (Suc n) fs = rbind (parse_fields (take notice_columns fs)) (\<lambda>x.
     rbind (parse_records n (drop notice_columns fs)) (\<lambda>xs. Inr (x # xs)))"

text \<open>A malformed frame gives no events, as the empty tuple.\<close>

definition frame_events :: "cipher \<Rightarrow> string list \<Rightarrow> string \<Rightarrow> string \<Rightarrow> fill_notice list result" where
  "frame_events ci parts aes_key aes_iv =
     rbind (int_field (parts ! 2) ''record count'' True) (\<lambda>count.
     if 100 < count then Inr []
     else rbind (decrypt_aes_cbc_base64 ci (parts ! 3) aes_key aes_iv) (\<lambda>plaintext.
       let fs = split_all (CHR ''^'') plaintext in
       if int (length fs) \<noteq> count * int notice_columns then Inr [] else parse_records (nat count) fs))"

definition parse_fill_notice_events :: "cipher \<Rightarrow> string \<Rightarrow> string \<Rightarrow> string \<Rightarrow> kis_env option \<Rightarrow> fill_notice list" where
  "parse_fill_notice_events ci raw aes_key aes_iv env =
     (let parts = split_max 3 (CHR ''|'') raw in
      if \<not> utf8_ok raw \<or> length parts \<noteq> 4 \<or> parts ! 0 \<noteq> ''1'' then []
      else if parts ! 1 \<notin> set FILL_NOTICE_TR_IDS then []
      else if (case env of None \<Rightarrow> False | Some e \<Rightarrow> parts ! 1 \<noteq> fill_notice_tr_id e) then []
      else case frame_events ci parts aes_key aes_iv of Inl _ \<Rightarrow> [] | Inr events \<Rightarrow> events)"

definition parse_fill_notice :: "cipher \<Rightarrow> string \<Rightarrow> string \<Rightarrow> string \<Rightarrow> kis_env option \<Rightarrow> fill_notice option" where
  "parse_fill_notice ci raw aes_key aes_iv env = (case parse_fill_notice_events ci raw aes_key aes_iv env of [x] \<Rightarrow> Some x | _ \<Rightarrow> None)"

section \<open>Subscription\<close>

text \<open>\<open>json.dumps(..., ensure_ascii=False, separators=(",", ":"))\<close> on strings without control characters and objects of them.\<close>

definition raw_quote :: "string \<Rightarrow> string" where
  "raw_quote s = ''\"'' @ concat (map (\<lambda>c. if c = CHR ''\"'' \<or> c = CHR 0x5C then [CHR 0x5C, c] else [c]) s) @ ''\"''"

fun join_members :: "string list \<Rightarrow> string" where
  "join_members [] = []"
| "join_members [x] = x"
| "join_members (x # xs) = x @ '','' @ join_members xs"

definition raw_object :: "(string \<times> string) list \<Rightarrow> string" where
  "raw_object ms = ''{'' @ join_members (map (\<lambda>(k, v). raw_quote k @ '':'' @ v) ms) @ ''}''"

definition build_fill_notice_subscription :: "string \<Rightarrow> string \<Rightarrow> kis_env \<Rightarrow> string \<Rightarrow> string result" where
  "build_fill_notice_subscription approval_key hts_id env tr_type =
     rbind (public_text approval_key ''approval_key'') (\<lambda>key. rbind (public_text hts_id ''hts_id'') (\<lambda>hts.
     guard_else (tr_type \<notin> {''0'', ''1'', ''2''}) (ValueError (''tr_type must be '' @ [CHR 0x27] @ ''1'' @ [CHR 0x27] @ '', '' @ [CHR 0x27] @ ''0''
       @ [CHR 0x27] @ '', or '' @ [CHR 0x27] @ ''2'' @ [CHR 0x27]))
     (Inr (raw_object
       [(''header'', raw_object [(''approval_key'', raw_quote key), (''custtype'', raw_quote ''P''), (''tr_type'', raw_quote tr_type),
          (''content-type'', raw_quote ''utf-8'')]),
        (''body'', raw_object [(''input'', raw_object [(''tr_id'', raw_quote (fill_notice_tr_id env)), (''tr_key'', raw_quote hts)])])]))))"

definition frame_object :: "string \<Rightarrow> (string \<times> json) list option" where
  "frame_object raw = (if \<not> utf8_ok raw \<or> strip raw = [] then None else case loads raw of Some (J_obj ms) \<Rightarrow> Some ms | _ \<Rightarrow> None)"

definition ack_keys :: "string \<Rightarrow> string \<Rightarrow> string \<Rightarrow> (string \<times> json) list \<Rightarrow> notice_ack option" where
  "ack_keys tr_id message hts_id body = (case member body ''output'' of
      Some (J_obj output) \<Rightarrow> (case (member output ''key'', member output ''iv'') of
          (Some (J_str key), Some (J_str iv)) \<Rightarrow>
            if ascii key \<and> ascii iv \<and> length key = 32 \<and> length iv = 16
            then Some \<lparr>na_tr_id = tr_id, na_success = True, na_message = message, na_hts_id = hts_id, na_aes_key = Some key, na_aes_iv = Some iv\<rparr>
            else None
        | _ \<Rightarrow> None)
    | _ \<Rightarrow> None)"

definition ack_of :: "(string \<times> json) list \<Rightarrow> (string \<times> json) list \<Rightarrow> kis_env option \<Rightarrow> string \<Rightarrow> notice_ack option" where
  "ack_of header body env hts_id = (case member header ''tr_id'' of
      Some (J_str tr_id) \<Rightarrow>
        if tr_id \<notin> set FILL_NOTICE_TR_IDS then None
        else if hts_id \<noteq> [] \<and> member header ''tr_key'' \<noteq> Some (J_str hts_id) then None
        else if (case env of None \<Rightarrow> False | Some e \<Rightarrow> tr_id \<noteq> fill_notice_tr_id e) then None
        else (case (member body ''msg1'', member body ''rt_cd'') of
            (Some (J_str message), Some (J_str rt_cd)) \<Rightarrow>
              if rt_cd = ''0'' then ack_keys tr_id message hts_id body
              else if rt_cd = ''1''
              then Some \<lparr>na_tr_id = tr_id, na_success = False, na_message = message, na_hts_id = hts_id, na_aes_key = None, na_aes_iv = None\<rparr>
              else None
          | _ \<Rightarrow> None)
    | _ \<Rightarrow> None)"

definition parse_fill_notice_ack :: "string \<Rightarrow> kis_env option \<Rightarrow> string \<Rightarrow> notice_ack option" where
  "parse_fill_notice_ack raw env hts_id = (case frame_object raw of None \<Rightarrow> None
     | Some payload \<Rightarrow> (case (member payload ''header'', member payload ''body'') of
         (Some (J_obj header), Some (J_obj body)) \<Rightarrow> ack_of header body env hts_id | _ \<Rightarrow> None))"

section \<open>The client\<close>

record notice_client =
  nc_environment :: kis_env
  nc_approval_key :: string
  nc_hts_id :: string
  nc_ack :: "notice_ack option"

definition make_notice_client :: "kis_env \<Rightarrow> string \<Rightarrow> string \<Rightarrow> notice_client result" where
  "make_notice_client env approval_key hts_id =
     rbind (public_text approval_key ''approval_key'') (\<lambda>key. rbind (public_text hts_id ''hts_id'') (\<lambda>hts.
       Inr \<lparr>nc_environment = env, nc_approval_key = key, nc_hts_id = hts, nc_ack = None\<rparr>))"

definition subscription_message :: "notice_client \<Rightarrow> string result" where
  "subscription_message c = build_fill_notice_subscription (nc_approval_key c) (nc_hts_id c) (nc_environment c) ''1''"

datatype handled = H_ack notice_ack | H_events "fill_notice list" | H_nothing

text \<open>\<open>on_notice\<close> for each event in turn, on an arbitrary world; the first one that raises ends the loop.\<close>

fun deliver :: "(fill_notice \<Rightarrow> 'w \<Rightarrow> unit result \<times> 'w) \<Rightarrow> fill_notice list \<Rightarrow> 'w \<Rightarrow> unit result \<times> 'w" where
  "deliver f [] w = (Inr (), w)"
| "deliver f (x # xs) w = (case f x w of (Inl e, w') \<Rightarrow> (Inl e, w') | (Inr _, w') \<Rightarrow> deliver f xs w')"

definition notices_in :: "cipher \<Rightarrow> notice_client \<Rightarrow> string \<Rightarrow> fill_notice list" where
  "notices_in ci c raw = (case nc_ack c of None \<Rightarrow> []
     | Some a \<Rightarrow> (case (ready_for_data a, na_aes_key a, na_aes_iv a) of
         (True, Some key, Some iv) \<Rightarrow> parse_fill_notice_events ci raw key iv (Some (nc_environment c)) | _ \<Rightarrow> []))"

definition handle_message :: "cipher \<Rightarrow> (fill_notice \<Rightarrow> 'w \<Rightarrow> unit result \<times> 'w) option \<Rightarrow> string \<Rightarrow> notice_client \<times> 'w \<Rightarrow>
    handled result \<times> notice_client \<times> 'w" where
  "handle_message ci on_notice raw s = (case s of (c, w) \<Rightarrow>
     (case parse_fill_notice_ack raw (Some (nc_environment c)) (nc_hts_id c) of
        Some ack \<Rightarrow> (Inr (H_ack ack), c\<lparr>nc_ack := (if ready_for_data ack then Some ack else None)\<rparr>, w)
      | None \<Rightarrow> (let events = notices_in ci c raw in
          if events = [] then (Inr H_nothing, c, w)
          else (case (case on_notice of None \<Rightarrow> (Inr (), w) | Some f \<Rightarrow> deliver f events w) of
              (Inl e, w') \<Rightarrow> (Inl e, c, w') | (Inr _, w') \<Rightarrow> (Inr (H_events events), c, w')))))"

section \<open>Application to the ledger\<close>

record apply_result =
  fa_outcome :: string
  fa_blocked :: bool
  fa_order :: "string option"
  fa_fill :: "string option"
  fa_materialized :: nat
  fa_reason :: "string option"

definition received_at :: "datetime option \<Rightarrow> datetime \<Rightarrow> datetime" where
  "received_at value clk = (case value of None \<Rightarrow> clk | Some v \<Rightarrow> if dt_tz v = None then v\<lparr>dt_tz := Some KST\<rparr> else v)"

definition time_of_fill :: "string \<Rightarrow> nat \<times> nat \<times> nat \<Rightarrow> datetime" where
  "time_of_fill t day = (case day of (y, m, d) \<Rightarrow> \<lparr>dt_year = y, dt_month = m, dt_day = d, dt_hour = read_nat (take 2 t),
     dt_minute = read_nat (take 2 (drop 2 t)), dt_second = read_nat (drop 4 t), dt_micro = 0, dt_tz = Some KST\<rparr>)"

text \<open>The instant of the fill, or the reason why there is none.\<close>

definition filled_at :: "string \<Rightarrow> (nat \<times> nat \<times> nat) option \<Rightarrow> datetime \<Rightarrow> string + datetime" where
  "filled_at fill_time trading_date received = (let today = date_key (astimezone_kst received);
       day = (case trading_date of None \<Rightarrow> today | Some d \<Rightarrow> d) in
     if today < day then Inl ''future_trading_date''
     else if length fill_time \<noteq> 6 \<or> \<not> isdigit fill_time then Inl ''invalid_fill_time''
     else let value = time_of_fill fill_time day in
       if 23 < dt_hour value \<or> 59 < dt_minute value \<or> 59 < dt_second value then Inl ''invalid_fill_time''
       else if utc_us received < utc_us value then Inl ''future_fill_time'' else Inr value)"

definition side_of_code :: "string \<Rightarrow> side option" where
  "side_of_code code = (if code = ''02'' then Some BUY else if code = ''01'' then Some SELL else None)"

definition public_identifier :: "string \<Rightarrow> string option" where
  "public_identifier value = (if value = [] \<or> 64 < length value \<or> list_ex is_control_char value then None else Some value)"

definition notice_fields :: "fill_notice \<Rightarrow> string list" where
  "notice_fields n = [kind_value (fn_kind n), fn_order_no n, fn_original_order_no n, show_int (fn_order_qty n), fn_side n, fn_symbol n,
     show_int (fn_fill_qty n), show_int (fn_fill_price n), fn_fill_time n, fn_receipt_type n, fn_order_kind n, fn_reject_flag n, fn_accepted_flag n,
     show_int (fn_order_price n), fn_exchange_id n]"

fun join_bar :: "string list \<Rightarrow> string" where
  "join_bar [] = []"
| "join_bar [x] = x"
| "join_bar (x # xs) = x @ ''|'' @ join_bar xs"

definition fill_id_of :: "fill_notice \<Rightarrow> string" where
  "fill_id_of n = ''kis:fill:'' @ sha256_hexdigest (join_bar (notice_fields n))"

definition safe_code :: "string \<Rightarrow> bool" where
  "safe_code s = (s \<noteq> [] \<and> list_all (\<lambda>c. is_lower_char c \<or> is_digit_char c \<or> c = CHR ''_'') s)"

definition safe_reason :: "exc \<Rightarrow> string" where
  "safe_reason e = (let text = ''fill_apply_'' @ lower (exc_name e) in if safe_code text then text else ''fill_apply_failed'')"

definition notice_blocked :: "string \<Rightarrow> datetime \<Rightarrow> string option \<Rightarrow> string option \<Rightarrow> apply_result dbop" where
  "notice_blocked reason now c f = (let code = (if safe_code reason then reason else ''fill_notice_blocked'') in
     op_bind (set_runtime_metadata ''operator_review'' ''true'' now) (\<lambda>_.
     op_bind (set_runtime_metadata ''block_new_entries'' ''true'' now) (\<lambda>_.
     op_bind (set_runtime_metadata ''fill_notice.last_reason'' code now) (\<lambda>_.
       op_ret \<lparr>fa_outcome = ''blocked'', fa_blocked = True, fa_order = c, fa_fill = f, fa_materialized = 0, fa_reason = Some code\<rparr>))))"

definition notice_done :: "string \<Rightarrow> string \<Rightarrow> string option \<Rightarrow> nat \<Rightarrow> apply_result dbop" where
  "notice_done outcome c f k = op_ret \<lparr>fa_outcome = outcome, fa_blocked = False, fa_order = Some c, fa_fill = f, fa_materialized = k, fa_reason = None\<rparr>"

text \<open>\<open>try: ... except Exception\<close> around operations.\<close>

definition trying :: "('s \<Rightarrow> 'a result \<times> 's) \<Rightarrow> (exc \<Rightarrow> 's \<Rightarrow> 'b result \<times> 's) \<Rightarrow> ('a \<Rightarrow> 's \<Rightarrow> 'b result \<times> 's) \<Rightarrow> 's \<Rightarrow> 'b result \<times> 's" where
  "trying m h k d = (case m d of (Inl e, d') \<Rightarrow> h e d' | (Inr x, d') \<Rightarrow> k x d')"

definition apply_accepted :: "broker_order \<Rightarrow> int \<Rightarrow> datetime \<Rightarrow> apply_result dbop" where
  "apply_accepted r existing_fills now = (let c = bo_client_order_id r; refuse = (\<lambda>reason. notice_blocked reason now (Some c) None) in
     if bo_filled_qty r < 0 \<or> existing_fills < 0 \<or> bo_filled_qty r < existing_fills then refuse ''fill_ledger_inconsistent''
     else if bo_status r = CANCEL_PENDING then notice_done ''ignored'' c None 0
     else if bo_status r \<in> {PARTIALLY_FILLED, FILLED} \<and> 0 < bo_filled_qty r then notice_done ''ignored'' c None 0
     else if bo_status r = UNKNOWN then refuse ''accepted_after_unknown_order''
     else if bo_status r \<in> {FILLED, CANCELLED, REJECTED} then refuse ''accepted_after_terminal_order''
     else if bo_filled_qty r \<noteq> 0 then refuse ''accepted_fill_regression''
     else if bo_status r \<noteq> ACKNOWLEDGED
     then trying (update_broker_order_status c ACKNOWLEDGED None None None None now None) (\<lambda>_. refuse ''accepted_status_update_failed'')
       (\<lambda>_. notice_done ''acknowledged'' c None 0)
     else notice_done ''acknowledged'' c None 0)"

definition apply_rejected :: "broker_order \<Rightarrow> int \<Rightarrow> datetime \<Rightarrow> apply_result dbop" where
  "apply_rejected r existing_fills now = (let c = bo_client_order_id r; refuse = (\<lambda>reason. notice_blocked reason now (Some c) None) in
     if bo_filled_qty r \<noteq> 0 \<or> existing_fills \<noteq> 0 then refuse ''rejected_order_has_fills''
     else if bo_status r = REJECTED then notice_done ''rejected'' c None 0
     else if bo_status r \<in> {FILLED, CANCELLED, REJECTED, UNKNOWN} then refuse ''rejected_after_terminal_order''
     else trying (update_broker_order_status c REJECTED None None None None now None) (\<lambda>_. refuse ''rejected_status_update_failed'')
       (\<lambda>_. notice_done ''rejected'' c None 0))"

definition identity_mismatch :: "broker_order \<Rightarrow> fill_notice \<Rightarrow> side \<Rightarrow> string option" where
  "identity_mismatch r n sd =
     (if bo_symbol r \<noteq> fn_symbol n then Some ''symbol_mismatch''
      else if bo_side r \<noteq> sd then Some ''side_mismatch''
      else if bo_requested_qty r \<noteq> fn_order_qty n then Some ''order_quantity_mismatch''
      else if fn_fill_qty n < 0 \<or> fn_kind n \<noteq> NK_FILLED \<and> fn_fill_qty n \<noteq> 0 then Some ''invalid_notice_quantity'' else None)"

definition no_terms :: mat_terms where
  "no_terms = \<lparr>mt_stop = None, mt_take = None, mt_hold = None, mt_close_reason = ''broker_fill''\<rparr>"

definition entry_risk :: "broker_order \<Rightarrow> db \<Rightarrow> mat_terms option" where
  "entry_risk r d = (case str_or (bo_signal_id r) None of None \<Rightarrow> None
     | Some signal_id \<Rightarrow> (case fetchone (\<lambda>a. ad_decision_id a = signal_id) (ai_decision_audits d) of None \<Rightarrow> None
         | Some a \<Rightarrow> (case (ad_stop_loss_price a, ad_take_profit_price a, ad_max_holding_seconds a) of
             (Some stop, Some target, Some holding) \<Rightarrow>
               if flt (Fin 0) stop \<and> flt (Fin 0) target \<and> flt stop target \<and> 0 < holding
               then Some \<lparr>mt_stop = Some stop, mt_take = Some target, mt_hold = Some holding, mt_close_reason = ''broker_fill''\<rparr> else None
           | _ \<Rightarrow> None)))"

text \<open>The risk terms of an order: a SELL needs none.\<close>

definition risk_terms :: "broker_order \<Rightarrow> side \<Rightarrow> db \<Rightarrow> mat_terms option" where
  "risk_terms r sd d = (if sd = BUY then entry_risk r d else Some no_terms)"

text \<open>A query followed by what is done with its answer.\<close>

definition reading :: "('s \<Rightarrow> 'x) \<Rightarrow> ('x \<Rightarrow> 's \<Rightarrow> 'a result \<times> 's) \<Rightarrow> 's \<Rightarrow> 'a result \<times> 's" where
  "reading q k d = k (q d) d"

definition materialize_if_needed :: "broker_order \<Rightarrow> side \<Rightarrow> string \<Rightarrow> datetime \<Rightarrow> nat option dbop" where
  "materialize_if_needed r sd fill_id clk =
     reading (\<lambda>d. exists_where (\<lambda>a. fa_fill_id a = fill_id) (fill_applications d)) (\<lambda>applied.
     if applied then op_ret (Some 0)
     else reading (risk_terms r sd) (\<lambda>risk. case risk of None \<Rightarrow> op_ret None
        | Some mt \<Rightarrow> trying (materialize_order_fills (bo_client_order_id r) mt clk) (\<lambda>_. op_ret None) (\<lambda>k. op_ret (Some k))))"

definition store_notice :: "fill_notice \<Rightarrow> broker_order \<Rightarrow> side \<Rightarrow> string \<Rightarrow> datetime \<Rightarrow> datetime \<Rightarrow> bool dbop" where
  "store_notice n r sd order_no filled received = (case float_operand (fn_fill_price n) of Inl e \<Rightarrow> op_fail e
     | Inr price \<Rightarrow> apply_broker_fill (fill_id_of n) (bo_client_order_id r) (fn_fill_qty n) price filled (Some order_no) (Some (fn_symbol n))
         (Some (side_str sd)) received)"

definition apply_new_fill :: "fill_notice \<Rightarrow> broker_order \<Rightarrow> side \<Rightarrow> string \<Rightarrow> datetime \<Rightarrow> datetime \<Rightarrow> datetime \<Rightarrow> apply_result dbop" where
  "apply_new_fill n r sd order_no filled received clk = (let c = bo_client_order_id r; f = fill_id_of n in
     if fn_fill_qty n \<le> 0 \<or> fn_fill_price n \<le> 0 then notice_blocked ''invalid_fill_values'' received (Some c) None
     else if bo_requested_qty r < bo_filled_qty r + fn_fill_qty n then notice_blocked ''fill_quantity_overflow'' received (Some c) None
     else if bo_status r \<in> {CANCELLED, REJECTED} then notice_blocked ''fill_after_terminal_order'' received (Some c) None
     else reading (risk_terms r sd) (\<lambda>risk. case risk of
         None \<Rightarrow> notice_blocked ''missing_entry_risk_metadata'' received (Some c) (Some f)
       | Some mt \<Rightarrow> trying (store_notice n r sd order_no filled received) (\<lambda>e. notice_blocked (safe_reason e) received (Some c) (Some f)) (\<lambda>inserted.
           if \<not> inserted then notice_done ''duplicate'' c (Some f) 0
           else trying (materialize_order_fills c mt clk) (\<lambda>e. notice_blocked (safe_reason e) received (Some c) (Some f))
             (\<lambda>k. notice_done ''applied'' c (Some f) k))))"

definition apply_filled :: "fill_notice \<Rightarrow> broker_order \<Rightarrow> side \<Rightarrow> string \<Rightarrow> datetime \<Rightarrow> datetime \<Rightarrow> datetime \<Rightarrow> apply_result dbop" where
  "apply_filled n r sd order_no filled received clk = (let c = bo_client_order_id r; f = fill_id_of n in
     reading (\<lambda>d. exists_where (\<lambda>x. bf_fill_id x = f) (broker_fills d)) (\<lambda>existing.
     if existing
     then op_bind (materialize_if_needed r sd f clk) (\<lambda>m. case m of
         None \<Rightarrow> notice_blocked ''missing_entry_risk_metadata'' received (Some c) (Some f)
       | Some k \<Rightarrow> notice_done ''duplicate'' c (Some f) k)
     else apply_new_fill n r sd order_no filled received clk))"

definition fills_total :: "string \<Rightarrow> db \<Rightarrow> int" where
  "fills_total c d = sum_list (map bf_quantity (select_where (\<lambda>f. bf_client_order_id f = c) (broker_fills d)))"

definition apply_to_order :: "fill_notice \<Rightarrow> broker_order \<Rightarrow> side \<Rightarrow> string \<Rightarrow> datetime \<Rightarrow> datetime \<Rightarrow> datetime \<Rightarrow> apply_result dbop" where
  "apply_to_order n r sd order_no filled received clk = (case identity_mismatch r n sd of
      Some reason \<Rightarrow> notice_blocked reason received (Some (bo_client_order_id r)) None
    | None \<Rightarrow> reading (fills_total (bo_client_order_id r)) (\<lambda>existing.
        if fn_kind n = NK_ACCEPTED then apply_accepted r existing received
        else if fn_kind n = NK_REJECTED then apply_rejected r existing received
        else apply_filled n r sd order_no filled received clk))"

definition apply_fill_notice :: "fill_notice \<Rightarrow> (nat \<times> nat \<times> nat) option \<Rightarrow> datetime option \<Rightarrow> datetime \<Rightarrow> apply_result dbop" where
  "apply_fill_notice n trading_date received_value clk = (let received = received_at received_value clk in
     case filled_at (fn_fill_time n) trading_date received of
       Inl reason \<Rightarrow> notice_blocked reason received None None
     | Inr filled \<Rightarrow> (case side_of_code (fn_side n) of None \<Rightarrow> notice_blocked ''invalid_side_code'' received None None
         | Some sd \<Rightarrow> (case public_identifier (fn_order_no n) of None \<Rightarrow> notice_blocked ''invalid_broker_order_id'' received None None
             | Some order_no \<Rightarrow> reading (\<lambda>d. select_where (\<lambda>r. bo_broker_order_id r = Some order_no) (broker_orders d)) (\<lambda>rows.
                 if rows = [] then notice_blocked ''broker_order_not_found'' received None None
                 else if length rows \<noteq> 1 then notice_blocked ''broker_order_ambiguous'' received None None
                 else apply_to_order n (hd rows) sd order_no filled received clk))))"

section \<open>Two invariants of an application\<close>

lemma preserves_reading [preserves_rules]: "(\<And>x. preserves I (k x)) \<Longrightarrow> preserves I (reading q k)"
  by (simp add: preserves_def reading_def)

lemma preserves_trying [preserves_rules]:
  assumes "preserves I m" "\<And>e. preserves I (h e)" "\<And>x. preserves I (k x)"
  shows "preserves I (trying m h k)"
  using assms by (fastforce simp: preserves_def trying_def split: prod.split sum.split)

lemma preserves_either [preserves_rules]:
  "(\<And>e. preserves I (f e)) \<Longrightarrow> (\<And>x. preserves I (g x)) \<Longrightarrow> preserves I (case v of Inl e \<Rightarrow> f e | Inr x \<Rightarrow> g x)"
  by (cases v) simp_all

context ledger_client
begin

lemma keeps_blocked: "key_ok ''fill_notice.last_reason'' \<Longrightarrow> preserves I (notice_blocked reason now c f)"
  unfolding notice_blocked_def Let_def by (intro preserves_bind keeps_metadata review_keys preserves_ret)

lemma keeps_done: "preserves I (notice_done outcome c f k)"
  unfolding notice_done_def by (rule preserves_ret)

lemma keeps_notice:
  assumes "key_ok ''fill_notice.last_reason''"
  shows "preserves I (apply_fill_notice n trading_date received_value clk)"
  unfolding apply_fill_notice_def apply_to_order_def apply_accepted_def apply_rejected_def apply_filled_def apply_new_fill_def
    materialize_if_needed_def store_notice_def Let_def
  by (intro preserves_if preserves_option preserves_either preserves_reading preserves_trying preserves_bind preserves_ret preserves_fail
      keeps_blocked [OF assms] keeps_done keeps_status keeps_fill keeps_materialize)

end

section \<open>Refusals\<close>

text \<open>An answer and what it says of the flags: a refusal sets them, anything else leaves the metadata alone.\<close>

definition answered :: "db \<Rightarrow> apply_result result \<times> db \<Rightarrow> bool" where
  "answered d q = (\<exists>x d'. q = (Inr x, d') \<and> (if fa_blocked x then flag ''operator_review'' d' \<and> flag ''block_new_entries'' d'
      \<and> fa_outcome x = ''blocked'' else runtime_metadata d' = runtime_metadata d))"

lemma metadata_bind:
  "strip k \<noteq> [] \<Longrightarrow> op_bind (set_runtime_metadata k v now) f d = f (iso now) (snd (set_runtime_metadata k v now d))"
  by (simp add: set_runtime_metadata_def require_nonempty_def op_bind_def)

lemma blocked_run:
  "\<exists>x d'. notice_blocked reason now c f d = (Inr x, d') \<and> fa_blocked x \<and> fa_outcome x = ''blocked'' \<and> flag ''operator_review'' d' \<and> flag ''block_new_entries'' d'
     \<and> broker_fills d' = broker_fills d \<and> broker_orders d' = broker_orders d"
proof -
  have keys: "strip ''operator_review'' \<noteq> []" "strip ''block_new_entries'' \<noteq> []" "strip ''fill_notice.last_reason'' \<noteq> []"
    by (simp_all add: string_eval)
  have t: "is_true (Some ''true'')" by code_simp
  note vals = metadata_value_set [OF keys(1)] metadata_value_set [OF keys(2)] metadata_value_set [OF keys(3)]
  have frame: "broker_fills (snd (set_runtime_metadata k v now e)) = broker_fills e" "broker_orders (snd (set_runtime_metadata k v now e)) = broker_orders e" for k v e
    by (simp_all add: set_runtime_metadata_def require_nonempty_def op_guard_def)
  show ?thesis
    unfolding notice_blocked_def Let_def metadata_bind [OF keys(1)] metadata_bind [OF keys(2)] metadata_bind [OF keys(3)]
    by (simp add: op_ret_def flag_def vals t frame)
qed

lemma answered_blocked: "answered d0 (notice_blocked reason now c f d)"
  using blocked_run [of reason now c f d] by (fastforce simp: answered_def)

lemma answered_done: "runtime_metadata d = runtime_metadata d0 \<Longrightarrow> answered d0 (notice_done outcome c f k d)"
  by (simp add: answered_def notice_done_def op_ret_def)

text \<open>\<open>answering_op d0 m\<close>: \<open>m\<close> answers on every database with the metadata of \<open>d0\<close>.\<close>

definition answering_op :: "db \<Rightarrow> apply_result dbop \<Rightarrow> bool" where
  "answering_op d0 m = (\<forall>d. runtime_metadata d = runtime_metadata d0 \<longrightarrow> answered d0 (m d))"

definition keeps_meta :: "db \<Rightarrow> 'a dbop \<Rightarrow> bool" where
  "keeps_meta d0 m = preserves (\<lambda>d. runtime_metadata d = runtime_metadata d0) m"

lemma answering_leaf: "answering_op d0 (notice_blocked reason now c f)" "answering_op d0 (notice_done outcome i f k)"
  by (simp_all add: answering_op_def answered_blocked answered_done)

lemma answering_if: "answering_op d0 m \<Longrightarrow> answering_op d0 m' \<Longrightarrow> answering_op d0 (if b then m else m')"
  by simp

lemma answering_option: "answering_op d0 m \<Longrightarrow> (\<And>x. answering_op d0 (f x)) \<Longrightarrow> answering_op d0 (case v of None \<Rightarrow> m | Some x \<Rightarrow> f x)"
  by (cases v) simp_all

lemma answering_sum: "(\<And>e. answering_op d0 (f e)) \<Longrightarrow> (\<And>x. answering_op d0 (g x)) \<Longrightarrow> answering_op d0 (case v of Inl e \<Rightarrow> f e | Inr x \<Rightarrow> g x)"
  by (cases v) simp_all

lemma answering_reading: "(\<And>x. answering_op d0 (k x)) \<Longrightarrow> answering_op d0 (reading q k)"
  by (simp add: answering_op_def reading_def)

lemma answering_trying:
  assumes "keeps_meta d0 m" "\<And>e. answering_op d0 (h e)" "\<And>x. answering_op d0 (k x)"
  shows "answering_op d0 (trying m h k)"
  using assms by (fastforce simp: answering_op_def keeps_meta_def preserves_def trying_def split: prod.split sum.split)

lemmas answering_rules = answering_leaf answering_if answering_option answering_sum answering_reading answering_trying

lemma meta_ops:
  "keeps_meta d0 (update_broker_order_status c st ob oq av e clk cm)" "keeps_meta d0 (apply_broker_fill fid c q pr fat ob sy sd clk)"
  "keeps_meta d0 (materialize_order_fills c mt clk)"
proof -
  have orders: "preserves (\<lambda>d. runtime_metadata d = m) (update_orders p f)" for m p f
    by (rule preservesI) (simp add: update_orders_def)
  show "keeps_meta d0 (update_broker_order_status c st ob oq av e clk cm)"
    unfolding keeps_meta_def update_broker_order_status_def Let_def by (intro preserves_rules orders)
  have "runtime_metadata (snd (store_fill row d)) = runtime_metadata d" for row d
    by (auto simp: store_fill_def Let_def split: prod.split)
  then show "keeps_meta d0 (apply_broker_fill fid c q pr fat ob sy sd clk)"
    unfolding keeps_meta_def by (intro preservesI) (simp add: frame_fill [where view = runtime_metadata])
  show "keeps_meta d0 (materialize_order_fills c mt clk)"
    unfolding keeps_meta_def materialize_order_fills_def by (intro preserves_rules preservesI) (auto split: option.split sum.split)
qed

lemma meta_store: "keeps_meta d0 (store_notice n r sd order_no filled received)"
  unfolding store_notice_def by (auto simp: meta_ops keeps_meta_def [of _ "op_fail _"] preserves_fail split: sum.split)

lemma materialize_if_needed_answers:
  assumes "runtime_metadata d = runtime_metadata (d0 :: db)"
  shows "\<exists>m d'. materialize_if_needed r sd f clk d = (Inr m, d') \<and> runtime_metadata d' = runtime_metadata d0"
proof -
  obtain q d' where run: "materialize_if_needed r sd f clk d = (q, d')" by (rule prod.exhaust)
  have "preserves (\<lambda>d. runtime_metadata d = runtime_metadata d0) (materialize_if_needed r sd f clk)"
    unfolding materialize_if_needed_def
    by (intro preserves_reading preserves_if preserves_option preserves_ret preserves_trying meta_ops(3) [unfolded keeps_meta_def])
  from preserves_run [OF this assms run] have "runtime_metadata d' = runtime_metadata d0" .
  moreover have "\<exists>m. q = Inr m"
    using run by (auto simp: materialize_if_needed_def reading_def trying_def op_ret_def split: if_splits option.splits prod.splits sum.splits)
  ultimately show ?thesis using run by blast
qed

lemma answering_filled: "answering_op d0 (apply_filled n r sd order_no filled received clk)"
proof -
  have known: "answering_op d0 (op_bind (materialize_if_needed r sd f clk) g)" if "\<And>m. answering_op d0 (g m)" for f g
    using that materialize_if_needed_answers [of _ d0 r sd f clk] by (fastforce simp: answering_op_def op_bind_def)
  show ?thesis unfolding apply_filled_def apply_new_fill_def Let_def
    by (intro answering_reading answering_if known answering_rules meta_ops meta_store)
qed

text \<open>
  (C19) The application of a notice never raises, whatever the notice and the database hold. A refused notice leaves the review and the entry
  block flags set, so that the safety gate refuses every BUY until they are cleared; a notice that is not refused changes no metadata.
\<close>

theorem fill_notice_fail_closed:
  "\<exists>x d'. apply_fill_notice n trading_date received_value clk d = (Inr x, d')
     \<and> (if fa_blocked x then flag ''operator_review'' d' \<and> (\<forall>g cal t others submit req w. kr_side req = BUY \<longrightarrow>
           (\<exists>m d''. guarded_submit g cal t others submit req (d', w) = (Inl (OrderSafetyGateError m), d'', w)))
        else runtime_metadata d' = runtime_metadata d)"
proof -
  have "answering_op d (apply_fill_notice n trading_date received_value clk)"
    unfolding apply_fill_notice_def apply_to_order_def apply_accepted_def apply_rejected_def Let_def
    by (intro answering_rules answering_filled meta_ops)
  then obtain x d' where "apply_fill_notice n trading_date received_value clk d = (Inr x, d')"
    "if fa_blocked x then flag ''operator_review'' d' \<and> flag ''block_new_entries'' d' else runtime_metadata d' = runtime_metadata d"
    by (fastforce simp: answering_op_def answered_def split: if_splits)
  then show ?thesis using blocked_buy by (intro exI conjI) (auto split: if_splits)
qed

definition sample_fill_notice :: fill_notice where
  "sample_fill_notice = \<lparr>fn_kind = NK_FILLED, fn_order_no = ''b1'', fn_original_order_no = [], fn_order_qty = 10, fn_side = ''02'',
     fn_symbol = ''005930'', fn_fill_qty = 6, fn_fill_price = 70000, fn_fill_time = ''093000'', fn_customer_id = ''u'', fn_account_no = ''a'',
     fn_receipt_type = [], fn_order_kind = [], fn_reject_flag = ''N'', fn_accepted_flag = [], fn_order_price = 0, fn_exchange_id = []\<rparr>"

theorem fill_notice_fail_closed_witness:
  "\<exists>x d'. apply_fill_notice (sample_fill_notice\<lparr>fn_fill_time := ''9''\<rparr>) None None sample_time sample_ledger = (Inr x, d')
     \<and> fa_reason x = Some ''invalid_fill_time'' \<and> flag ''operator_review'' d'"
proof -
  let ?n = "sample_fill_notice\<lparr>fn_fill_time := ''9''\<rparr>"
  have "filled_at ''9'' None (received_at None sample_time) = Inl ''invalid_fill_time''" by (simp add: filled_at_def Let_def)
  moreover have "fn_fill_time ?n = ''9''" by simp
  moreover have "safe_code ''invalid_fill_time''" by code_simp
  ultimately have refused: "fa_blocked x \<and> fa_reason x = Some ''invalid_fill_time''" if "apply_fill_notice ?n None None sample_time sample_ledger = (Inr x, d')" for x d'
    using that by (auto simp: apply_fill_notice_def Let_def notice_blocked_def op_bind_def op_ret_def split: prod.splits sum.splits)
  from fill_notice_fail_closed [of ?n None None sample_time sample_ledger] obtain x d' where
    run: "apply_fill_notice ?n None None sample_time sample_ledger = (Inr x, d')" and "if fa_blocked x then flag ''operator_review'' d' else True"
    by (auto split: if_splits)
  with refused [OF run] show ?thesis by auto
qed

text \<open>
  Applying a notice keeps the books: for every notice and on every branch the ledger invariant and the balance of positions and applied fills survive,
  and leases, the pause switch, approvals, audits and the watch list are as before.
\<close>

theorem fill_notice_keeps_books:
  assumes "ledger_ok d" "balanced d" "apply_fill_notice n trading_date received_value clk d = (r, d')"
  shows "ledger_ok d' \<and> balanced d' \<and> controls_of d' = controls_of d"
  using preserves_run [OF books.keeps_notice _ assms(3)] preserves_run [OF controls.keeps_notice [of d] _ assms(3)] assms(1,2)
  by (simp add: books_ok_def same_controls_def)

theorem fill_notice_keeps_books_witness:
  "ledger_ok sample_ledger \<and> balanced sample_ledger
     \<and> ledger_ok (snd (apply_fill_notice sample_fill_notice None None sample_time sample_ledger))"
proof -
  have bal: "balanced sample_ledger"
    by (simp add: balanced_def applied_qty_def is_applied_def [abs_def] open_qty_def sample_ledger_simps exists_where_def)
  from fill_notice_keeps_books [OF sample_ledger_ok bal surjective_pairing [of "apply_fill_notice sample_fill_notice None None sample_time sample_ledger"]]
  show ?thesis using sample_ledger_ok bal by simp
qed

section \<open>Counting\<close>

lemma blocked_not_applied: "notice_blocked reason now c f d = (Inr x, d') \<Longrightarrow> fa_outcome x \<noteq> ''applied''"
  using blocked_run [of reason now c f d] by auto

lemma done_result: "notice_done outcome c f k d = (Inr x, d') \<Longrightarrow> fa_outcome x = outcome \<and> d' = d"
  by (auto simp: notice_done_def op_ret_def)

lemma rejected_accepted_not_applied:
  "apply_accepted r existing now d = (Inr x, d') \<Longrightarrow> fa_outcome x \<noteq> ''applied''"
  "apply_rejected r existing now d = (Inr x, d') \<Longrightarrow> fa_outcome x \<noteq> ''applied''"
  by (auto simp: apply_accepted_def apply_rejected_def Let_def trying_def split: if_splits prod.splits sum.splits
      dest!: blocked_not_applied done_result)

lemma new_fill_applied:
  assumes "apply_new_fill n r sd order_no filled received clk d = (Inr x, d')" "fa_outcome x = ''applied''"
  obtains price mt k d1 where "float_operand (fn_fill_price n) = Inr price"
    "apply_broker_fill (fill_id_of n) (bo_client_order_id r) (fn_fill_qty n) price filled (Some order_no) (Some (fn_symbol n)) (Some (side_str sd)) received d
       = (Inr True, d1)" "materialize_order_fills (bo_client_order_id r) mt clk d1 = (Inr k, d')"
  using assms
  by (auto simp: apply_new_fill_def Let_def reading_def trying_def store_notice_def op_fail_def
      split: if_splits option.splits prod.splits sum.splits dest!: done_result blocked_not_applied)

lemma filled_applied:
  assumes "apply_filled n r sd order_no filled received clk d = (Inr x, d')" "fa_outcome x = ''applied''"
  shows "apply_new_fill n r sd order_no filled received clk d = (Inr x, d')"
  using assms
  by (auto simp: apply_filled_def Let_def reading_def op_bind_def split: if_splits prod.splits sum.splits option.splits
      dest!: done_result blocked_not_applied)

lemma notice_applied:
  assumes "apply_fill_notice n trading_date received_value clk d = (Inr x, d')" "fa_outcome x = ''applied''"
  obtains r sd filled received where "r \<in> set (broker_orders d)" "bo_broker_order_id r = Some (fn_order_no n)" "identity_mismatch r n sd = None"
    "fn_kind n = NK_FILLED" "apply_new_fill n r sd (fn_order_no n) filled received clk d = (Inr x, d')"
proof -
  obtain r sd filled order_no where r: "select_where (\<lambda>r. bo_broker_order_id r = Some order_no) (broker_orders d) = [r]"
    and i: "public_identifier (fn_order_no n) = Some order_no"
    and run: "apply_to_order n r sd order_no filled (received_at received_value clk) clk d = (Inr x, d')"
    using assms
    by (auto simp: apply_fill_notice_def Let_def reading_def length_Suc_conv split: if_splits option.splits sum.splits dest!: blocked_not_applied)
  have no: "order_no = fn_order_no n" using i by (auto simp: public_identifier_def split: if_splits)
  have "r \<in> set (select_where (\<lambda>r. bo_broker_order_id r = Some order_no) (broker_orders d))" using r by simp
  then have row: "r \<in> set (broker_orders d)" "bo_broker_order_id r = Some (fn_order_no n)" using no by (auto simp: select_where_def)
  from run assms(2) have "identity_mismatch r n sd = None" "fn_kind n = NK_FILLED"
    "apply_filled n r sd order_no filled (received_at received_value clk) clk d = (Inr x, d')"
    by (auto simp: apply_to_order_def reading_def split: option.splits if_splits dest!: blocked_not_applied rejected_accepted_not_applied
        intro: notice_kind.exhaust [of "fn_kind n"])
  then show thesis using that [OF row] filled_applied [OF _ assms(2)] no by blast
qed

text \<open>A fill that is already stored is not stored again.\<close>

lemma known_fill_unmoved:
  assumes known: "\<exists>f\<in>set (broker_fills d). bf_fill_id f = fill_id_of n" and kind: "fn_kind n = NK_FILLED"
    and run: "apply_fill_notice n trading_date received_value clk d = (r, d')"
  shows "broker_fills d' = broker_fills d \<and> broker_orders d' = broker_orders d \<and> (\<forall>x. r = Inr x \<longrightarrow> fa_outcome x \<noteq> ''applied'')"
proof -
  define same where "same q \<longleftrightarrow> (broker_fills (snd q) = broker_fills d \<and> broker_orders (snd q) = broker_orders d
      \<and> (\<forall>x. fst q = Inr x \<longrightarrow> fa_outcome x \<noteq> ''applied''))" for q :: "apply_result result \<times> db"
  have blocked: "same (notice_blocked reason now c f e)" if "broker_fills e = broker_fills d" "broker_orders e = broker_orders d" for reason now c f e
    using blocked_run [of reason now c f e] that by (auto simp: same_def)
  have dup: "same (notice_done ''duplicate'' c f k e)" if "broker_fills e = broker_fills d" "broker_orders e = broker_orders d" for c f k e
    using that by (simp add: same_def notice_done_def op_ret_def)
  have raised: "same (Inl e, e1)" if "broker_fills e1 = broker_fills d" "broker_orders e1 = broker_orders d" for e e1
    using that by (simp add: same_def)
  have mat: "broker_fills (snd (materialize_if_needed o1 sd f clk e)) = broker_fills e \<and> broker_orders (snd (materialize_if_needed o1 sd f clk e)) = broker_orders e"
    for o1 sd f e
    by (auto simp: materialize_if_needed_def reading_def trying_def op_ret_def materialize_order_fills_def validation_defs op_guard_def
        split: option.split sum.split prod.split)
  have "same (apply_filled n o1 sd order_no filled received clk d)" for o1 sd order_no filled received
    using known mat [of o1 sd "fill_id_of n" d] blocked dup raised
    by (auto simp: apply_filled_def Let_def reading_def exists_where_def list_ex_iff op_bind_def split: prod.split sum.split option.split)
  then have "same (apply_fill_notice n trading_date received_value clk d)"
    using blocked kind
    by (auto simp: apply_fill_notice_def apply_to_order_def Let_def reading_def split: sum.split option.split)
  with run show ?thesis by (auto simp: same_def)
qed

text \<open>
  (C18) A notice that is applied is counted exactly once: it adds one fill with its own quantity to the order that carries its order number, never beyond the
  requested quantity, and on every later database that still has this fill an equal notice changes neither fills nor orders. The
  identity of a notice is the digest of its fields, so two executions with equal fields count as one.
\<close>

theorem fill_notice_counted_once:
  assumes "ledger_ok d" "apply_fill_notice n trading_date received_value clk d = (Inr x, d')" "fa_outcome x = ''applied''"
  shows "(\<exists>r1 r2 row. r1 \<in> set (broker_orders d) \<and> bo_broker_order_id r1 = Some (fn_order_no n)
      \<and> fetchone (\<lambda>r. bo_client_order_id r = bo_client_order_id r1) (broker_orders d') = Some r2
      \<and> bo_filled_qty r2 = bo_filled_qty r1 + fn_fill_qty n \<and> bo_filled_qty r2 \<le> bo_requested_qty r2
      \<and> broker_fills d' = broker_fills d @ [row] \<and> bf_fill_id row = fill_id_of n \<and> bf_quantity row = fn_fill_qty n)
    \<and> (\<forall>e day t now r e'. set (broker_fills d') \<subseteq> set (broker_fills e) \<longrightarrow> apply_fill_notice n day t now e = (r, e') \<longrightarrow>
        broker_fills e' = broker_fills e \<and> broker_orders e' = broker_orders e \<and> (\<forall>y. r = Inr y \<longrightarrow> fa_outcome y \<noteq> ''applied''))"
proof -
  from notice_applied [OF assms(2,3)] obtain r1 sd filled received where r1: "r1 \<in> set (broker_orders d)" "bo_broker_order_id r1 = Some (fn_order_no n)"
    "fn_kind n = NK_FILLED" "apply_new_fill n r1 sd (fn_order_no n) filled received clk d = (Inr x, d')" by metis
  let ?c = "bo_client_order_id r1"
  from new_fill_applied [OF r1(4) assms(3)] obtain price mt k d1 where
    fill: "apply_broker_fill (fill_id_of n) ?c (fn_fill_qty n) price filled (Some (fn_order_no n)) (Some (fn_symbol n)) (Some (side_str sd)) received d
      = (Inr True, d1)" and mat: "materialize_order_fills ?c mt clk d1 = (Inr k, d')" by metis
  from apply_broker_fill_run [OF fill] obtain o1 where o1: "fetchone (\<lambda>r. bo_client_order_id r = ?c) (broker_orders d) = Some o1"
    and st: "store_fill (fill_row (fill_id_of n) (fn_fill_qty n) price filled (Some (fn_order_no n)) received o1) d = (Inr True, d1)" by metis
  have "o1 = r1" using o1 assms(1) r1(1) fetchone_SomeD [OF o1] by (auto simp: ledger_ok_def keyed_def distinct_map inj_on_def)
  have "ledger_ok d1" using preserves_run [OF apply_broker_fill_ok assms(1) fill] .
  from materialize_order_fills_effect(5) [OF this mat] have frame: "broker_fills d' = broker_fills d1" "broker_orders d' = broker_orders d1"
    by (metis (no_types, lifting) db.select_convs db.surjective db.update_convs)+
  note rolls = store_fill_rolls [OF assms(1) o1 st] and ins = store_fill_inserts(1) [OF st]
  have "\<exists>r1 r2 row. r1 \<in> set (broker_orders d) \<and> bo_broker_order_id r1 = Some (fn_order_no n)
      \<and> fetchone (\<lambda>r. bo_client_order_id r = bo_client_order_id r1) (broker_orders d') = Some r2
      \<and> bo_filled_qty r2 = bo_filled_qty r1 + fn_fill_qty n \<and> bo_filled_qty r2 \<le> bo_requested_qty r2
      \<and> broker_fills d' = broker_fills d @ [row] \<and> bf_fill_id row = fill_id_of n \<and> bf_quantity row = fn_fill_qty n"
    using r1(1,2) rolls(1,2) ins frame \<open>o1 = r1\<close> by (intro exI [of _ r1] exI conjI) (auto simp: roll_fill_def Let_def fill_row_def fill_fits_def)
  moreover have "\<exists>f\<in>set (broker_fills d'). bf_fill_id f = fill_id_of n" using ins frame by (auto simp: fill_row_def)
  ultimately show ?thesis using known_fill_unmoved [OF _ r1(3)] by (intro conjI allI impI) (blast, metis subsetD)+
qed

definition notice_ledger :: db where
  "notice_ledger = empty_db\<lparr>broker_orders := [sample_order\<lparr>bo_filled_qty := 0, bo_avg_fill_price := None\<rparr>],
     ai_decision_audits := [\<lparr>ad_decision_id = ''s1'', ad_symbol = ''005930'', ad_action = ''BUY'', ad_confidence = Fin 1, ad_entry_price = Some (Fin 70000),
       ad_take_profit_price = Some (Fin 72000), ad_stop_loss_price = Some (Fin 69000), ad_risk_level = ''LOW'', ad_requires_operator_approval = False,
       ad_rationale = ''r'', ad_created_at = [], ad_strategy = ''s'', ad_model = ''m'', ad_prompt_version = ''v'', ad_max_holding_seconds = Some 900\<rparr>]\<rparr>"

lemma notice_ledger_ok: "ledger_ok notice_ledger"
  by (simp add: ledger_ok_def notice_ledger_def empty_db_def sample_order_def keyed_def order_ok_def positions_ok_def positive_number_def)

lemma sample_filled_at: "filled_at ''093000'' None (received_at None sample_time) = Inr sample_time"
proof -
  have "astimezone_kst sample_time = sample_time"
    using of_local_us_local_us [OF valid_sample_time] by (simp add: astimezone_kst_def utc_us_def tz_us_def KST_def) (simp add: sample_time_def tz_us_def)
  moreover have "time_of_fill ''093000'' (2026, 1, 5) = sample_time" by code_simp
  moreover have "isdigit ''093000''" by code_simp
  ultimately show ?thesis by (simp add: filled_at_def received_at_def Let_def) (simp add: date_key_def sample_time_def)
qed

lemma sample_notice_applied: "\<exists>x d'. apply_fill_notice sample_fill_notice None None sample_time notice_ledger = (Inr x, d') \<and> fa_outcome x = ''applied''"
proof -
  let ?n = sample_fill_notice
  let ?r = "sample_order\<lparr>bo_filled_qty := 0, bo_avg_fill_price := None\<rparr>"
  let ?mt = "\<lparr>mt_stop = Some (Fin 69000), mt_take = Some (Fin 72000), mt_hold = Some 900, mt_close_reason = ''broker_fill''\<rparr>"
  have ids: "public_identifier ''b1'' = Some ''b1''" "side_of_code ''02'' = Some BUY" by code_simp+
  have fs: "fn_fill_time ?n = ''093000''" "fn_side ?n = ''02''" "fn_order_no ?n = ''b1''" "broker_fills notice_ledger = []"
    by (simp_all add: sample_fill_notice_def notice_ledger_def empty_db_def)
  have rows: "select_where (\<lambda>r. bo_broker_order_id r = Some ''b1'') (broker_orders notice_ledger) = [?r]"
    by (simp add: notice_ledger_def select_where_def sample_order_def)
  have none: "identity_mismatch ?r ?n BUY = None" "fn_kind ?n = NK_FILLED" by (simp_all add: identity_mismatch_def sample_order_def sample_fill_notice_def)
  have risk: "risk_terms ?r BUY notice_ledger = Some ?mt"
    by (simp add: risk_terms_def entry_risk_def notice_ledger_def str_or_def sample_order_def fetchone_def)
  have price: "float_operand (fn_fill_price ?n) = Inr (Fin 70000)"
    using f_int_exact [of 70000] by (simp add: float_operand_def sample_fill_notice_def)
  have fid: "strip (fill_id_of ?n) \<noteq> []" by (simp add: fill_id_of_def string_eval)
  let ?row = "fill_row (fill_id_of ?n) 6 (Fin 70000) sample_time (Some ''b1'') sample_time ?r"
  have sides: "side_of (upper ''BUY'') = Some BUY" by code_simp
  have digits: "isdigit ''005930''" by code_simp
  obtain d1 where fill: "store_notice ?n ?r BUY ''b1'' sample_time sample_time notice_ledger = (Inr True, d1)"
    and d1: "broker_fills d1 = [?row]" "live_positions d1 = []" "fill_applications d1 = []"
      "fetchone (\<lambda>r. bo_client_order_id r = ''c1'') (broker_orders d1) = Some (roll_fill 6 (Fin 70000) (Some ''b1'') (iso sample_time) ?r)"
  proof -
    have "store_notice ?n ?r BUY ''b1'' sample_time sample_time notice_ledger = store_fill ?row notice_ledger"
    proof -
      have "store_fill ?row notice_ledger = (Inr True, snd (store_fill ?row notice_ledger))"
        by (simp add: store_fill_def Let_def insert_or_ignore_def notice_ledger_def empty_db_def rowcount_def fill_fits_def fill_row_def sample_order_def)
      then have "transaction (store_fill ?row) notice_ledger = store_fill ?row notice_ledger" by (metis transaction_Inr)
      then show ?thesis using price fid sides digits
        by (simp add: store_notice_def apply_broker_fill_def validation_defs op_guard_def positive_number_def transaction_def fetchone_def
            notice_ledger_def sample_order_def fill_row_def sample_fill_notice_def string_eval)
    qed
    then show thesis
      by (intro that [of "snd (store_fill ?row notice_ledger)"])
        (simp_all add: store_fill_def Let_def insert_or_ignore_def notice_ledger_def empty_db_def rowcount_def fill_fits_def fill_row_def sample_order_def
          update_where_def fetchone_def roll_fill_def)
  qed
  obtain k d2 where mat: "materialize_order_fills ''c1'' ?mt sample_time d1 = (Inr k, d2)"
  proof -
    have iso: "fromisoformat (iso sample_time) = Some sample_time"
      using fromisoformat_isoformat_wf [of sample_time] valid_sample_time by (simp add: iso_def)
    have "unapplied_fills d1 ''c1'' = [?row]"
      by (simp add: unapplied_fills_def d1 select_where_def fill_row_def sample_order_def exists_where_def)
    then show thesis
      by (intro that) (simp add: materialize_order_fills_def validation_defs op_guard_def positive_number_def d1 fill_position_def iso open_position_for_def
          select_where_def first_by_def buy_into_def ladder_ok_def fill_row_def roll_fill_def sample_order_def string_eval rbind_def Let_def fle_def)
  qed
  have "apply_new_fill ?n ?r BUY ''b1'' sample_time sample_time sample_time notice_ledger
      = notice_done ''applied'' ''c1'' (Some (fill_id_of ?n)) k d2"
    using risk fill mat by (simp add: apply_new_fill_def Let_def reading_def trying_def sample_order_def sample_fill_notice_def)
  moreover have "received_at None sample_time = sample_time" by (simp add: received_at_def)
  ultimately have "apply_fill_notice ?n None None sample_time notice_ledger = notice_done ''applied'' ''c1'' (Some (fill_id_of ?n)) k d2"
    using ids rows none sample_filled_at fs
    by (simp add: apply_fill_notice_def Let_def reading_def apply_to_order_def apply_filled_def exists_where_def)
  then show ?thesis by (simp add: notice_done_def op_ret_def)
qed

theorem fill_notice_counted_once_witness:
  "\<exists>x d'. ledger_ok notice_ledger \<and> apply_fill_notice sample_fill_notice None None sample_time notice_ledger = (Inr x, d') \<and> fa_outcome x = ''applied''
     \<and> broker_fills (snd (apply_fill_notice sample_fill_notice None None sample_time d')) = broker_fills d'"
proof -
  obtain x d' where run: "apply_fill_notice sample_fill_notice None None sample_time notice_ledger = (Inr x, d')" "fa_outcome x = ''applied''"
    using sample_notice_applied by blast
  obtain r e' where again: "apply_fill_notice sample_fill_notice None None sample_time d' = (r, e')" by (rule prod.exhaust)
  from fill_notice_counted_once [OF notice_ledger_ok run] again have "broker_fills e' = broker_fills d'" by blast
  with notice_ledger_ok run again show ?thesis by auto
qed

section \<open>Well-formed notices\<close>

definition notice_wf :: "fill_notice \<Rightarrow> bool" where
  "notice_wf n = (0 < fn_order_qty n \<and> side_of_code (fn_side n) \<noteq> None \<and> length (fn_symbol n) = 6 \<and> isdigit (fn_symbol n) \<and> valid_time_text (fn_fill_time n)
     \<and> 0 \<le> fn_fill_qty n \<and> 0 \<le> fn_fill_price n \<and> 0 \<le> fn_order_price n \<and> fn_order_no n \<noteq> [] \<and> \<not> list_ex is_control_char (fn_order_no n)
     \<and> (if fn_kind n = NK_FILLED then 0 < fn_fill_qty n \<and> 0 < fn_fill_price n else fn_fill_qty n = 0))"

lemma int_field_bounds: "int_field v name positive = Inr k \<Longrightarrow> 0 \<le> k \<and> (positive \<longrightarrow> 0 < k)"
  by (auto simp: int_field_def guard_else_def Let_def split: if_splits)

lemma public_text_wf: "public_text v name = Inr t \<Longrightarrow> t \<noteq> [] \<and> \<not> list_ex is_control_char t"
  by (auto simp: public_text_def Let_def split: if_splits)

lemma kind_of_event_wf:
  "kind_of_event rj ev ac q p = Inr k \<Longrightarrow> 0 \<le> q \<Longrightarrow> (if k = NK_FILLED then 0 < q \<and> 0 < p else q = 0)"
  by (auto simp: kind_of_event_def guard_else_def split: if_splits)

lemma build_notice_fields:
  assumes "build_notice fs kind oq fq fp op = Inr n"
  shows "fn_kind n = kind \<and> fn_order_qty n = oq \<and> fn_fill_qty n = fq \<and> fn_fill_price n = fp \<and> fn_order_price n = op \<and> fn_side n = fs ! 4
    \<and> fn_symbol n = fs ! 8 \<and> fn_fill_time n = fs ! 11 \<and> public_text (fs ! 2) ''order_no'' = Inr (fn_order_no n)"
  using assms unfolding build_notice_def rbind_eq_Inr by auto

lemma parse_fields_wf:
  assumes "parse_fields fs = Inr n"
  shows "notice_wf n"
proof -
  obtain oq fq fp kind op where p: "int_field (fs ! 16) ''order_qty'' True = Inr oq" "fs ! 4 \<in> {''01'', ''02''}" "length (fs ! 8) = 6" "isdigit (fs ! 8)"
    "int_field (fs ! 9) ''fill_qty'' False = Inr fq" "int_field (fs ! 10) ''fill_price'' False = Inr fp" "valid_time_text (fs ! 11)"
    "kind_of_event (upper (fs ! 12)) (fs ! 13) (upper (fs ! 14)) fq fp = Inr kind"
    "(if fs ! 25 = [] then Inr 0 else int_field (fs ! 25) ''order_price'' False) = Inr op" "build_notice fs kind oq fq fp op = Inr n"
    using assms unfolding parse_fields_def guard_else_eq_Inr rbind_eq_Inr by blast
  from p(9) have "0 \<le> op" by (auto dest: int_field_bounds split: if_splits)
  moreover have "side_of_code (fs ! 4) \<noteq> None" using p(2) by (auto simp: side_of_code_def)
  ultimately show ?thesis
    using build_notice_fields [OF p(10)] p(3,4,7) int_field_bounds [OF p(1)] int_field_bounds [OF p(5)] int_field_bounds [OF p(6)]
      kind_of_event_wf [OF p(8)] public_text_wf [of "fs ! 2" "''order_no''"]
    by (simp add: notice_wf_def)
qed

lemma parse_records_wf: "parse_records k fs = Inr ns \<Longrightarrow> list_all notice_wf ns \<and> length ns = k"
  by (induction k arbitrary: fs ns) (auto simp: rbind_eq_Inr dest: parse_fields_wf)

text \<open>
  A realtime frame yields well-formed notices only, at most a hundred, and all of the records it carries or none: positive order quantities,
  known sides, six-digit symbols, a time of day, a fill with positive quantity and price, and no quantity on an acceptance or a
  rejection. This holds for every text, every cipher and every key.
\<close>

theorem frame_notices_wellformed:
  "list_all notice_wf (parse_fill_notice_events ci raw aes_key aes_iv env) \<and> length (parse_fill_notice_events ci raw aes_key aes_iv env) \<le> 100
   \<and> (parse_fill_notice_events ci raw aes_key aes_iv env = []
      \<or> (\<exists>text. decrypt_aes_cbc_base64 ci (split_max 3 (CHR ''|'') raw ! 3) aes_key aes_iv = Inr text
          \<and> length (split_all (CHR ''^'') text) = notice_columns * length (parse_fill_notice_events ci raw aes_key aes_iv env)))"
proof (cases "frame_events ci (split_max 3 (CHR ''|'') raw) aes_key aes_iv")
  case (Inr ns)
  let ?ns = "parse_fill_notice_events ci raw aes_key aes_iv env"
  have "ns = [] \<or> (\<exists>text k. decrypt_aes_cbc_base64 ci (split_max 3 (CHR ''|'') raw ! 3) aes_key aes_iv = Inr text \<and> k \<le> 100
      \<and> length (split_all (CHR ''^'') text) = notice_columns * k \<and> parse_records k (split_all (CHR ''^'') text) = Inr ns)"
  proof (rule disjCI)
    assume none: "\<not> (\<exists>text k. decrypt_aes_cbc_base64 ci (split_max 3 (CHR ''|'') raw ! 3) aes_key aes_iv = Inr text \<and> k \<le> 100
      \<and> length (split_all (CHR ''^'') text) = notice_columns * k \<and> parse_records k (split_all (CHR ''^'') text) = Inr ns)"
    obtain count where count: "0 < count" "(if 100 < count then Inr []
        else rbind (decrypt_aes_cbc_base64 ci (split_max 3 (CHR ''|'') raw ! 3) aes_key aes_iv) (\<lambda>plaintext.
          let fs = split_all (CHR ''^'') plaintext in
          if int (length fs) \<noteq> count * int notice_columns then Inr [] else parse_records (nat count) fs)) = Inr ns"
      using Inr unfolding frame_events_def rbind_eq_Inr by (auto dest: int_field_bounds)
    show "ns = []"
    proof (rule ccontr)
      assume ns: "ns \<noteq> []"
      with count(2) have small: "count \<le> 100" by (auto split: if_splits)
      with count(2) obtain msg where "decrypt_aes_cbc_base64 ci (split_max 3 (CHR ''|'') raw ! 3) aes_key aes_iv = Inr msg"
        "(if int (length (split_all (CHR ''^'') msg)) \<noteq> count * int notice_columns then Inr []
          else parse_records (nat count) (split_all (CHR ''^'') msg)) = Inr ns"
        by (auto simp: Let_def rbind_eq_Inr)
      moreover from this(2) ns have "int (length (split_all (CHR ''^'') msg)) = count * int notice_columns"
        "parse_records (nat count) (split_all (CHR ''^'') msg) = Inr ns" by (auto split: if_splits)
      moreover from this(1) count(1) have "length (split_all (CHR ''^'') msg) = notice_columns * nat count"
        by (metis int_nat_eq mult.commute nat_int of_nat_mult order_less_imp_le)
      moreover have "nat count \<le> 100" using small by simp
      ultimately show False using none by blast
    qed
  qed
  moreover have "?ns = [] \<or> ?ns = ns" using Inr by (simp add: parse_fill_notice_events_def Let_def)
  ultimately show ?thesis using parse_records_wf by (auto dest: parse_records_wf)
qed (simp add: parse_fill_notice_events_def Let_def)

end
