(* ===== verification/OrderSupervisor.thy ===== *)
theory OrderSupervisor
  imports OrderManagement FillNotices
begin

text \<open>
  The order supervisor (\<open>ops/order_supervisor.py\<close>): one pass reads the broker once, reconciles, serves the operator's request to cancel the open
  BUY orders, manages stale orders and publishes flags and status; a daemon repeats the pass. The client factory, the notifier, the pauses and the clocks
  are parameters on an arbitrary world. Shown: a pass with well-formed settings never raises, keeps the books, and blocks every BUY whenever its
  result says so; entries are released only when both sides agree; an operator request is served at most once, and every cancel call names
  an open BUY order of the ledger that the broker still works on.
\<close>

section \<open>Names and reasons\<close>

definition SUPERVISOR_COMPONENT :: string where
  "SUPERVISOR_COMPONENT = ''order-supervisor''"

definition STATUS_KEY :: string where
  "STATUS_KEY = ''order-supervisor.status''"

definition LAST_ERROR_KEY :: string where
  "LAST_ERROR_KEY = ''order-supervisor.last_error''"

definition CANCEL_REQUEST_KEY :: string where
  "CANCEL_REQUEST_KEY = ''operator.cancel_open_buys_requested''"

definition CANCEL_STATUS_KEY :: string where
  "CANCEL_STATUS_KEY = ''operator.cancel_open_buys_status''"

definition DEFAULT_NOTIFY_THROTTLE_SECONDS :: pyfloat where
  "DEFAULT_NOTIFY_THROTTLE_SECONDS = Fin 300"

definition RECOVERY_HEALTHY_ITERATIONS :: nat where
  "RECOVERY_HEALTHY_ITERATIONS = 3"

definition KIS_AUTH_ERROR_MSG_CODES :: "string list" where
  "KIS_AUTH_ERROR_MSG_CODES = [''EGW00123'']"

definition KIS_RATE_LIMIT_MSG_CODES :: "string list" where
  "KIS_RATE_LIMIT_MSG_CODES = [''EGW00201'']"

definition SAFE_DEPENDENCY_ERROR_TYPES :: "string list" where
  "SAFE_DEPENDENCY_ERROR_TYPES = [''ChunkedEncodingError'', ''ConnectionError'', ''ConnectTimeout'', ''KisHttpError'', ''ReadTimeout'', ''SSLError'',
     ''Timeout'', ''TimeoutError'', ''TypeError'', ''ValueError'']"

definition starts_with :: "string \<Rightarrow> string \<Rightarrow> bool" where
  "starts_with p s = (take (length p) s = p)"

definition safe_detail :: "string \<Rightarrow> bool" where
  "safe_detail part = ((starts_with ''http_'' part \<or> starts_with ''rt_cd_'' part \<or> starts_with ''msg_cd_'' part \<or> part = ''KisHttpError'')
     \<and> list_all (\<lambda>c. is_alnum_char c \<or> c = CHR ''-'' \<or> c = CHR ''_'') part)"

text \<open>The reason code without identifiers of orders and symbols.\<close>

definition public_reason :: "string \<Rightarrow> string" where
  "public_reason value = (let text = strip value in
     if text = [] then ''unknown''
     else if text \<in> set SAFE_DEPENDENCY_ERROR_TYPES then text
     else let parts = split_all (CHR '':'') text; head = lower (strip (hd parts)); code = (if head = [] then ''unknown'' else head);
              safe_details = filter safe_detail (tl parts)
          in if safe_details \<noteq> [] then join_colon (code # safe_details)
             else (case find (\<lambda>detail. detail \<in> set SAFE_DEPENDENCY_ERROR_TYPES) (map strip (tl parts)) of
                 Some detail \<Rightarrow> code @ '':'' @ detail | None \<Rightarrow> code))"

record cancel_report =
  cp_requested :: nat
  cp_errors :: nat
  cp_skipped :: nat
  cp_error_type :: "string option"

definition no_cancel :: cancel_report where
  "no_cancel = \<lparr>cp_requested = 0, cp_errors = 0, cp_skipped = 0, cp_error_type = None\<rparr>"

definition status_reasons :: "reconciliation_report \<Rightarrow> om_report \<Rightarrow> cancel_report \<Rightarrow> string list" where
  "status_reasons rec mg cr = unique (map (\<lambda>r. ''reconciliation:'' @ public_reason r) (rr_reasons rec)
     @ map (\<lambda>r. ''stale_order:'' @ r) (filter (\<lambda>r. r \<notin> {[], ''unknown''}) (map (\<lambda>a. public_reason (oa_reason a)) (omr_actions mg)))
     @ (case str_or (cp_error_type cr) None of None \<Rightarrow> [] | Some e \<Rightarrow> [''cancel:'' @ public_reason e]))"

definition is_dependency_reason :: "string \<Rightarrow> bool" where
  "is_dependency_reason reason = list_ex (\<lambda>marker. sublist marker reason)
     [''order_status_unavailable'', ''account_snapshot_unavailable'', ''dependency_unavailable'']"

text \<open>
  The dictionary of a KIS error: the last part with a prefix wins. It is only read by key and printed with sorted keys, so the members are kept in
  that order.
\<close>

definition last_part :: "string \<Rightarrow> string list \<Rightarrow> string option" where
  "last_part p parts = (case rev (filter (starts_with p) parts) of [] \<Rightarrow> None | x # _ \<Rightarrow> Some (drop (length p) x))"

definition kis_members :: "string list \<Rightarrow> (string \<times> string) list" where
  "kis_members parts = concat (map (\<lambda>(k, p). case last_part p parts of None \<Rightarrow> [] | Some v \<Rightarrow> [(k, v)])
     [(''http_status'', ''http_''), (''msg_cd'', ''msg_cd_''), (''rt_cd'', ''rt_cd_'')])"

fun safe_kis_error_from_reasons :: "string list \<Rightarrow> (string \<times> string) list option" where
  "safe_kis_error_from_reasons [] = None"
| "safe_kis_error_from_reasons (reason # rs) = (let parts = split_all (CHR '':'') reason in
     if ''KisHttpError'' \<notin> set parts then safe_kis_error_from_reasons rs
     else if kis_members parts \<noteq> [] then Some (kis_members parts) else safe_kis_error_from_reasons rs)"

definition rate_limited :: "(string \<times> string) list option \<Rightarrow> bool" where
  "rate_limited err = (case err of None \<Rightarrow> False
     | Some m \<Rightarrow> (case map_of m ''msg_cd'' of None \<Rightarrow> False | Some c \<Rightarrow> c \<in> set KIS_RATE_LIMIT_MSG_CODES))"

definition dependency_backoff_seconds :: "nat \<Rightarrow> (string \<times> string) list option \<Rightarrow> nat" where
  "dependency_backoff_seconds failure_streak err = (if failure_streak = 0 then 0
     else min 60 ((if rate_limited err then 15 else 5) * 2 ^ (failure_streak - 1)))"

section \<open>The lease, accounts and errors\<close>

definition to_utc :: "datetime \<Rightarrow> datetime" where
  "to_utc v = of_local_us (utc_us v) (Some 0)"

definition lease_timestamp :: "string \<Rightarrow> datetime option" where
  "lease_timestamp value = map_option to_utc (fromisoformat value)"

definition expected_owner :: "string option \<Rightarrow> string option \<Rightarrow> string option \<Rightarrow> string option result" where
  "expected_owner expected_owner_id owner_id service_owner =
     (case (str_or expected_owner_id None, str_or owner_id None) of
        (Some a, Some b) \<Rightarrow> guard_else (a \<noteq> b) (ValueError ''expected_owner_id and owner_id disagree'') (Inr (Some a))
      | (a, b) \<Rightarrow> Inr (str_or a (str_or b (str_or service_owner None))))"

definition lease_is_valid :: "string option \<Rightarrow> datetime \<Rightarrow> bool dbop" where
  "lease_is_valid expected now = op_bind (get_service_lease SERVICE_LEASE_NAME) (\<lambda>lease. op_ret (case lease of
      None \<Rightarrow> False
    | Some r \<Rightarrow> (case expected of Some owner \<Rightarrow> sl_owner_id r = owner | None \<Rightarrow> True)
        \<and> (case lease_timestamp (sl_expires_at r) of None \<Rightarrow> False | Some expires_at \<Rightarrow> utc_us (to_utc now) < utc_us expires_at)))"

definition account_components :: "string \<Rightarrow> string \<Rightarrow> (string \<times> string) result" where
  "account_components account_no product_code = (let raw = strip account_no;
     (number, product) = (case split_first (CHR ''-'') raw of (r, Some t) \<Rightarrow> (r, if strip t \<noteq> [] then strip t else product_code)
       | (r, None) \<Rightarrow> (r, product_code));
     digits = filter is_digit_char number
     in if length digits = 10 \<and> product = ''01'' then Inr (take 8 digits, drop 8 digits)
        else guard_else (length digits \<noteq> 8) (ValueError ''KIS account number must contain eight account digits'') (Inr (digits, product)))"

definition sanitized_error :: "exc \<Rightarrow> string" where
  "sanitized_error e = (case e of KisHttpError _ _ \<Rightarrow> ''KisHttpError: '' @ exc_text e | _ \<Rightarrow> exc_name e)"

text \<open>The Korean word for "expired", in UTF-8.\<close>

definition expired_korean :: string where
  "expired_korean = map char_of [0xEB, 0xA7, 0x8C, 0xEB, 0xA3, 0x8C :: nat]"

definition auth_error_text :: "string \<Rightarrow> bool" where
  "auth_error_text value = (let text = lower value in
     list_ex (\<lambda>code. sublist (''msg_cd='' @ lower code) text \<or> sublist (''msg_cd_'' @ lower code) text) KIS_AUTH_ERROR_MSG_CODES
     \<or> list_ex (\<lambda>token. sublist token text) [''401'', ''unauthorized'', ''token expired'', ''expired token'', expired_korean])"

definition auth_error :: "exc \<Rightarrow> bool" where
  "auth_error e = (case e of
      KisHttpError code details \<Rightarrow>
        (let msg_cd = upper (case map_of details ''msg_cd'' of None \<Rightarrow> [] | Some v \<Rightarrow> v); text = lower (join_space (map snd details))
         in code = 401 \<or> msg_cd \<in> set KIS_AUTH_ERROR_MSG_CODES
            \<or> list_ex (\<lambda>marker. sublist marker text) [''token expired'', ''expired token'', expired_korean])
    | _ \<Rightarrow> auth_error_text (exc_text e))"

definition report_needs_refresh :: "reconciliation_report \<Rightarrow> bool" where
  "report_needs_refresh report = list_ex auth_error_text (rr_reasons report)"

section \<open>Clients and state\<close>

record 'w kis_clients =
  kc_orders :: "'w \<Rightarrow> status_record list result \<times> 'w"
  kc_cancel :: "string \<Rightarrow> string \<Rightarrow> int \<Rightarrow> int \<Rightarrow> 'w \<Rightarrow> cancel_result result \<times> 'w"
  kc_snapshot :: "'w \<Rightarrow> account_snapshot result \<times> 'w"

record 'w supervisor_state =
  ss_environment :: "kis_env option"
  ss_clients :: "'w kis_clients option"
  ss_force_refresh :: bool
  ss_last_notification_state :: "string option"
  ss_last_notification_at :: pyfloat
  ss_healthy_iterations :: nat
  ss_failure_streak :: nat
  ss_healthy_streak :: nat

definition new_supervisor_state :: "'w supervisor_state" where
  "new_supervisor_state = \<lparr>ss_environment = None, ss_clients = None, ss_force_refresh = False, ss_last_notification_state = None,
     ss_last_notification_at = Fin 0, ss_healthy_iterations = 0, ss_failure_streak = 0, ss_healthy_streak = 0\<rparr>"

record supervisor_result =
  su_outcome :: string
  su_environment :: "string option"
  su_paused :: "bool option"
  su_review :: bool
  su_block :: bool
  su_cancel_requested :: nat
  su_cancel_errors :: nat
  su_error :: "string option"
  su_auth_refresh :: bool
  su_next_retry :: nat

definition plain_result :: "string \<Rightarrow> supervisor_result" where
  "plain_result outcome = \<lparr>su_outcome = outcome, su_environment = None, su_paused = None, su_review = False, su_block = False,
     su_cancel_requested = 0, su_cancel_errors = 0, su_error = None, su_auth_refresh = False, su_next_retry = 0\<rparr>"

definition result_ok :: "supervisor_result \<Rightarrow> bool" where
  "result_ok r = (su_outcome r \<in> {''reconciled'', ''reconciled_operator_review''})"

text \<open>Steps on database and world, and on the state of the supervisor next to them.\<close>

definition at_db :: "'a dbop \<Rightarrow> db \<times> 'w \<Rightarrow> 'a result \<times> db \<times> 'w" where
  "at_db m s = (case s of (d, w) \<Rightarrow> (case m d of (r, d') \<Rightarrow> (r, d', w)))"

definition at_world :: "('w \<Rightarrow> 'a result \<times> 'w) \<Rightarrow> db \<times> 'w \<Rightarrow> 'a result \<times> db \<times> 'w" where
  "at_world m s = (case s of (d, w) \<Rightarrow> (case m w of (r, w') \<Rightarrow> (r, d, w')))"

type_synonym ('a, 'w) supop = "'w supervisor_state \<times> db \<times> 'w \<Rightarrow> 'a result \<times> 'w supervisor_state \<times> db \<times> 'w"

definition on_books_and_broker :: "(db \<times> 'w \<Rightarrow> 'a result \<times> db \<times> 'w) \<Rightarrow> ('a, 'w) supop" where
  "on_books_and_broker m s = (case s of (st, x) \<Rightarrow> (case m x of (r, x') \<Rightarrow> (r, st, x')))"

definition on_state :: "('w supervisor_state \<Rightarrow> 'w supervisor_state) \<Rightarrow> (unit, 'w) supop" where
  "on_state f s = (case s of (st, x) \<Rightarrow> (Inr (), f st, x))"

abbreviation sup_db :: "'a dbop \<Rightarrow> ('a, 'w) supop" where
  "sup_db m \<equiv> on_books_and_broker (at_db m)"

abbreviation sup_world :: "('w \<Rightarrow> 'a result \<times> 'w) \<Rightarrow> ('a, 'w) supop" where
  "sup_world m \<equiv> on_books_and_broker (at_world m)"

section \<open>The operator's cancel request\<close>

definition set_cancel_status :: "string \<Rightarrow> cancel_report \<Rightarrow> datetime \<Rightarrow> string dbop" where
  "set_cancel_status status report now = set_runtime_metadata CANCEL_STATUS_KEY
     (dumps (J_obj [(''error'', J_str (case str_or (cp_error_type report) None of None \<Rightarrow> ''none'' | Some e \<Rightarrow> e)),
        (''errors'', J_num (show_nat (cp_errors report))), (''requested'', J_num (show_nat (cp_requested report))),
        (''skipped'', J_num (show_nat (cp_skipped report))), (''status'', J_str status), (''updated_at'', J_str (isoformat now))])) now"

definition raise_flags :: "datetime \<Rightarrow> string dbop" where
  "raise_flags now = op_bind (set_runtime_metadata ''operator_review'' ''true'' now) (\<lambda>_. set_runtime_metadata ''block_new_entries'' ''true'' now)"

definition open_buys :: "db \<Rightarrow> broker_order list" where
  "open_buys d = sort_key (\<lambda>r. (bo_created_at r, bo_client_order_id r))
     (select_where (\<lambda>r. bo_side r = BUY \<and> bo_status r \<in> {ACKNOWLEDGED, PARTIALLY_FILLED}) (broker_orders d))"

definition count_error :: "string \<Rightarrow> cancel_report \<Rightarrow> cancel_report" where
  "count_error e n = n\<lparr>cp_errors := Suc (cp_errors n), cp_error_type := Some e\<rparr>"

text \<open>An order whose cancel failed or could not be asked for becomes UNKNOWN, with \<open>why\<close> as its error.\<close>

definition lose_order :: "datetime \<Rightarrow> broker_order \<Rightarrow> string \<Rightarrow> string \<Rightarrow> cancel_report \<Rightarrow> cancel_report dbop" where
  "lose_order now r why e n = op_bind (mark_order_unknown (bo_client_order_id r) (Some why) now) (\<lambda>_.
     op_bind (raise_flags now) (\<lambda>_. op_ret (count_error e n)))"

definition operator_marker :: "string \<Rightarrow> datetime \<Rightarrow> string dbop" where
  "operator_marker c now = set_runtime_metadata (pending_key c)
     (dumps (J_obj [(''reason'', J_str ''operator_cancel_open_buys''), (''requested_at'', J_str (isoformat now))])) now"

definition call_cancel ::
  "(string \<Rightarrow> string \<Rightarrow> int \<Rightarrow> int \<Rightarrow> 'w \<Rightarrow> cancel_result result \<times> 'w) \<Rightarrow> broker_order \<Rightarrow> status_record \<Rightarrow> string \<Rightarrow>
   db \<times> 'w \<Rightarrow> cancel_result result \<times> db \<times> 'w" where
  "call_cancel cancel r b branch = (case cancel_price r b of Inl e \<Rightarrow> op_fail e
     | Inr price \<Rightarrow> at_world (cancel (sr_order_number b) branch (sr_remaining_quantity b) price))"

definition cancel_buy ::
  "(string \<Rightarrow> string \<Rightarrow> int \<Rightarrow> int \<Rightarrow> 'w \<Rightarrow> cancel_result result \<times> 'w) \<Rightarrow> datetime \<Rightarrow> broker_order \<Rightarrow> status_record \<Rightarrow> string \<Rightarrow> cancel_report \<Rightarrow>
   db \<times> 'w \<Rightarrow> cancel_report result \<times> db \<times> 'w" where
  "cancel_buy cancel now r b branch n =
     op_bind (at_db (update_broker_order_status (bo_client_order_id r) CANCEL_PENDING (Some (sr_order_number b)) (Some (sr_filled_quantity b))
         (sr_average_fill_price b) None now None)) (\<lambda>_.
     trying (call_cancel cancel r b branch)
       (\<lambda>e. at_db (lose_order now r (''cancel_ambiguous:'' @ sanitized_error e) (sanitized_error e) n))
       (\<lambda>_. op_bind (at_db (operator_marker (bo_client_order_id r) now)) (\<lambda>_. op_ret (n\<lparr>cp_requested := Suc (cp_requested n)\<rparr>))))"

definition cancel_row ::
  "(string \<Rightarrow> string \<Rightarrow> int \<Rightarrow> int \<Rightarrow> 'w \<Rightarrow> cancel_result result \<times> 'w) \<Rightarrow> datetime \<Rightarrow> status_record list \<Rightarrow> broker_order \<Rightarrow> cancel_report \<Rightarrow>
   db \<times> 'w \<Rightarrow> cancel_report result \<times> db \<times> 'w" where
  "cancel_row cancel now bs r n = (case by_broker_id bs (order_id_of r) of
      None \<Rightarrow> at_db (lose_order now r ''order_identity_mismatch'' ''order_identity_mismatch'' n)
    | Some b \<Rightarrow>
      if sr_side b \<noteq> Some BUY then at_db (lose_order now r ''order_identity_mismatch'' ''order_identity_mismatch'' n)
      else if sr_status b \<notin> {KS_UNFILLED, KS_PARTIALLY_FILLED} then op_ret (n\<lparr>cp_skipped := Suc (cp_skipped n)\<rparr>)
      else case str_or (sr_order_branch b) None of
          None \<Rightarrow> at_db (lose_order now r ''missing_cancel_fields'' ''missing_cancel_fields'' n)
        | Some branch \<Rightarrow>
          if sr_remaining_quantity b \<le> 0 then at_db (lose_order now r ''missing_cancel_fields'' ''missing_cancel_fields'' n)
          else cancel_buy cancel now r b branch n)"

fun cancel_rows ::
  "(string \<Rightarrow> string \<Rightarrow> int \<Rightarrow> int \<Rightarrow> 'w \<Rightarrow> cancel_result result \<times> 'w) \<Rightarrow> datetime \<Rightarrow> status_record list \<Rightarrow> broker_order list \<Rightarrow> cancel_report \<Rightarrow>
   db \<times> 'w \<Rightarrow> cancel_report result \<times> db \<times> 'w" where
  "cancel_rows cancel now bs [] n = op_ret n"
| "cancel_rows cancel now bs (r # rs) n = op_bind (cancel_row cancel now bs r n) (cancel_rows cancel now bs rs)"

definition refuse_request :: "datetime \<Rightarrow> exc \<Rightarrow> cancel_report dbop" where
  "refuse_request now e = (let report = count_error (sanitized_error e) no_cancel in
     op_bind (raise_flags now) (\<lambda>_. op_bind (set_cancel_status ''error'' report now) (\<lambda>_. op_ret report)))"

definition serve_request ::
  "'w kis_clients \<Rightarrow> datetime \<Rightarrow> broker_order list \<Rightarrow> status_record list \<Rightarrow> db \<times> 'w \<Rightarrow> cancel_report result \<times> db \<times> 'w" where
  "serve_request k now rows bs = op_bind (cancel_rows (kc_cancel k) now bs rows no_cancel) (\<lambda>n.
     op_bind (at_db (set_cancel_status (if cp_errors n = 0 then ''completed'' else ''error'') n now)) (\<lambda>_. op_ret n))"

definition cancel_requested :: "string option \<Rightarrow> bool" where
  "cancel_requested value = (lower (strip (case value of None \<Rightarrow> [] | Some v \<Rightarrow> v)) = ''true'')"

definition cancel_requested_buys ::
  "'w kis_clients \<Rightarrow> datetime \<Rightarrow> status_record list option \<Rightarrow> exc option \<Rightarrow> db \<times> 'w \<Rightarrow> cancel_report result \<times> db \<times> 'w" where
  "cancel_requested_buys k now given_orders given_error =
     op_bind (at_db (get_runtime_metadata CANCEL_REQUEST_KEY)) (\<lambda>value.
     if \<not> cancel_requested value then op_ret no_cancel
     else op_bind (at_db (set_runtime_metadata CANCEL_REQUEST_KEY ''false'' now)) (\<lambda>_.
       reading (open_buys \<circ> fst) (\<lambda>rows.
       if rows = [] then serve_request k now [] []
       else case given_error of Some e \<Rightarrow> at_db (refuse_request now e)
         | None \<Rightarrow> (case given_orders of Some bs \<Rightarrow> serve_request k now rows bs
             | None \<Rightarrow> trying (at_world (kc_orders k)) (\<lambda>e. at_db (refuse_request now e)) (serve_request k now rows)))))"

section \<open>Status and notification\<close>

definition json_flag :: "bool option \<Rightarrow> json" where
  "json_flag v = (case v of None \<Rightarrow> J_null | Some b \<Rightarrow> J_bool b)"

text \<open>The published status; the members are printed in the order of their keys.\<close>

definition write_status ::
  "string \<Rightarrow> string option \<Rightarrow> bool option \<Rightarrow> bool \<Rightarrow> bool \<Rightarrow> string option \<Rightarrow> string list \<Rightarrow> nat \<Rightarrow> nat \<Rightarrow> nat \<Rightarrow> (string \<times> string) list option \<Rightarrow>
   datetime \<Rightarrow> string dbop" where
  "write_status status environment paused review block error reasons failure_streak healthy_streak next_retry kis_error now =
     op_bind (set_runtime_metadata STATUS_KEY (dumps (J_obj ([(''block_new_entries'', J_bool block), (''environment'', json_text environment),
         (''failure_streak'', J_num (show_nat failure_streak)), (''healthy_streak'', J_num (show_nat healthy_streak)),
         (''next_retry_seconds'', J_num (show_nat next_retry)), (''operator_review'', J_bool review), (''paused'', json_flag paused),
         (''reasons'', J_arr (map J_str (unique reasons)))]
       @ (case kis_error of None \<Rightarrow> [] | Some ms \<Rightarrow> if ms = [] then [] else [(''safe_kis_error'', J_obj (map (\<lambda>(k, v). (k, J_str v)) ms))])
       @ [(''status'', J_str status), (''updated_at'', J_str (isoformat now))]))) now) (\<lambda>_.
     op_bind (set_runtime_metadata LAST_ERROR_KEY (case str_or error None of None \<Rightarrow> ''none'' | Some e \<Rightarrow> e) now) (\<lambda>_.
     record_heartbeat SUPERVISOR_COMPONENT now))"

definition mark_exception :: "exc \<Rightarrow> datetime \<Rightarrow> string dbop" where
  "mark_exception e now = op_bind (raise_flags now) (\<lambda>_.
     write_status ''error'' None None True True (Some (sanitized_error e)) [''error:'' @ public_reason (sanitized_error e)] 0 0 0 None now)"

text \<open>A notifier that raises is ignored; a repeated state is reported again after the throttle only.\<close>

definition notify_throttled ::
  "(string \<Rightarrow> 'w \<Rightarrow> unit result \<times> 'w) option \<Rightarrow> pyfloat \<Rightarrow> string \<Rightarrow> string \<Rightarrow> (unit, 'w) supop" where
  "notify_throttled notifier monotonic message_state message s = (case notifier of None \<Rightarrow> (Inr (), s)
     | Some send \<Rightarrow> (case s of (st, d, w) \<Rightarrow>
         if ss_last_notification_state st = Some message_state
            \<and> \<not> fle DEFAULT_NOTIFY_THROTTLE_SECONDS (fsub monotonic (ss_last_notification_at st)) then (Inr (), s)
         else (Inr (), st\<lparr>ss_last_notification_state := Some message_state, ss_last_notification_at := monotonic\<rparr>, d, snd (send message w))))"

section \<open>One pass\<close>

text \<open>The arguments of the daemon, and the readings of the clocks during one pass.\<close>

record 'w supervisor_args =
  sa_buy_ttl :: pyfloat
  sa_sell_ttl :: pyfloat
  sa_throttle :: pyfloat
  sa_expected_owner :: "string option"
  sa_owner :: "string option"
  sa_service_owner :: "string option"
  sa_calendar :: calendar
  sa_factory :: "kis_env \<Rightarrow> bool \<Rightarrow> 'w \<Rightarrow> 'w kis_clients result \<times> 'w"
  sa_notifier :: "(string \<Rightarrow> 'w \<Rightarrow> unit result \<times> 'w) option"
  sa_sleeper :: "pyfloat \<Rightarrow> 'w \<Rightarrow> unit result \<times> 'w"

record pass_times =
  pt_now :: datetime
  pt_database :: datetime
  pt_after_error :: datetime
  pt_monotonic :: pyfloat

record broker_read =
  br_orders :: "status_record list option"
  br_orders_error :: "exc option"
  br_account :: "account_snapshot option"
  br_account_error :: "exc option"

definition read_account :: "'w kis_clients \<Rightarrow> status_record list \<Rightarrow> 'w \<Rightarrow> broker_read result \<times> 'w" where
  "read_account k bs w = (case kc_snapshot k w of
      (Inl e, w') \<Rightarrow> (Inr \<lparr>br_orders = Some bs, br_orders_error = None, br_account = None, br_account_error = Some e\<rparr>, w')
    | (Inr x, w') \<Rightarrow> (Inr \<lparr>br_orders = Some bs, br_orders_error = None, br_account = Some x, br_account_error = None\<rparr>, w'))"

definition read_broker :: "'w supervisor_args \<Rightarrow> 'w kis_clients \<Rightarrow> 'w \<Rightarrow> broker_read result \<times> 'w" where
  "read_broker a k = trying (kc_orders k)
     (\<lambda>e. op_ret \<lparr>br_orders = None, br_orders_error = Some e, br_account = None, br_account_error = None\<rparr>)
     (\<lambda>bs. op_bind (if flt (Fin 0) (sa_throttle a) then sa_sleeper a (sa_throttle a) else op_ret ()) (\<lambda>_. read_account k bs))"

definition ensure_clients :: "'w supervisor_args \<Rightarrow> bool \<Rightarrow> kis_env \<Rightarrow> ('w kis_clients, 'w) supop" where
  "ensure_clients a refresh_token env = reading fst (\<lambda>st.
     let build = op_bind (sup_world (sa_factory a env (refresh_token \<or> ss_force_refresh st))) (\<lambda>k.
           op_bind (on_state (\<lambda>st. st\<lparr>ss_clients := Some k, ss_environment := Some env, ss_force_refresh := False\<rparr>)) (\<lambda>_. op_ret k))
     in case ss_clients st of None \<Rightarrow> build
        | Some k \<Rightarrow> if ss_environment st \<noteq> Some env \<or> ss_force_refresh st then build else op_ret k)"

definition manage_orders ::
  "'w supervisor_args \<Rightarrow> 'w kis_clients \<Rightarrow> pass_times \<Rightarrow> datetime \<Rightarrow> broker_read \<Rightarrow> db \<times> 'w \<Rightarrow> om_report result \<times> db \<times> 'w" where
  "manage_orders a k t now v s = (case make_om_config (sa_buy_ttl a) (sa_sell_ttl a) of Inl e \<Rightarrow> (Inl e, s)
     | Inr cfg \<Rightarrow> (case manage_stale_orders (sa_calendar a) (kc_orders k) (kc_cancel k) cfg None now (pt_database t) (br_orders v) (br_orders_error v) s of
         (r, l, d', w') \<Rightarrow> (r, d', w')))"

definition force_refresh_if :: "bool \<Rightarrow> (unit, 'w) supop" where
  "force_refresh_if b = (if b then on_state (\<lambda>st. st\<lparr>ss_force_refresh := True\<rparr>) else op_ret ())"

definition count_streaks :: "bool \<Rightarrow> 'w supervisor_state \<Rightarrow> 'w supervisor_state" where
  "count_streaks unavailable st = (if unavailable
     then st\<lparr>ss_failure_streak := Suc (ss_failure_streak st), ss_healthy_streak := 0\<rparr>
     else st\<lparr>ss_failure_streak := 0, ss_healthy_streak := Suc (ss_healthy_streak st)\<rparr>)"

definition message_head :: "string \<Rightarrow> kis_env \<Rightarrow> bool \<Rightarrow> string" where
  "message_head what env paused = ''order-supervisor: '' @ what @ '' environment='' @ env_value env @ '' paused='' @ flag_text paused"

definition announce :: "'w supervisor_args \<Rightarrow> pass_times \<Rightarrow> string \<Rightarrow> kis_env \<Rightarrow> bool \<Rightarrow> string list \<Rightarrow> (unit, 'w) supop" where
  "announce a t status env paused reasons =
     (if status \<in> {''reconciled_operator_review'', ''dependency_unavailable''}
      then op_bind (on_state (\<lambda>st. st\<lparr>ss_healthy_iterations := 0\<rparr>)) (\<lambda>_.
        notify_throttled (sa_notifier a) (pt_monotonic t) status
          (message_head status env paused @ '' reasons='' @ (if reasons = [] then ''operator_review'' else join_comma reasons)))
      else op_bind (on_state (\<lambda>st. st\<lparr>ss_healthy_iterations := Suc (ss_healthy_iterations st)\<rparr>)) (\<lambda>_.
        reading fst (\<lambda>st.
        if RECOVERY_HEALTHY_ITERATIONS \<le> ss_healthy_iterations st \<and> RECOVERY_HEALTHY_ITERATIONS \<le> ss_healthy_streak st
           \<and> ss_last_notification_state st \<in> {Some ''reconciled_operator_review'', Some ''dependency_unavailable'', Some ''error'', Some ''lease_invalid''}
        then notify_throttled (sa_notifier a) (pt_monotonic t) ''recovered'' (message_head ''recovered'' env paused) else op_ret ())))"

definition pass_outcome :: "bool \<Rightarrow> bool \<Rightarrow> string" where
  "pass_outcome unavailable review = (if unavailable then ''dependency_unavailable''
     else if review then ''reconciled_operator_review'' else ''reconciled'')"

definition publish ::
  "'w supervisor_args \<Rightarrow> pass_times \<Rightarrow> datetime \<Rightarrow> kis_env \<Rightarrow> bool \<Rightarrow> bool \<Rightarrow> bool \<Rightarrow> string list \<Rightarrow> cancel_report \<Rightarrow> (supervisor_result, 'w) supop" where
  "publish a t now env paused review blocked reasons cr =
     (let unavailable = (review \<and> list_ex is_dependency_reason reasons); status = pass_outcome unavailable review;
          kis_error = safe_kis_error_from_reasons reasons in
      op_bind (on_state (count_streaks unavailable)) (\<lambda>_.
      reading fst (\<lambda>st. let next_retry = (if unavailable then dependency_backoff_seconds (ss_failure_streak st) kis_error else 0) in
      op_bind (sup_db (set_runtime_metadata ''operator_review'' (flag_text review) now)) (\<lambda>_.
      op_bind (sup_db (set_runtime_metadata ''block_new_entries'' (flag_text blocked) now)) (\<lambda>_.
      op_bind (sup_db (write_status status (Some (env_value env)) (Some paused) review blocked None reasons (ss_failure_streak st) (ss_healthy_streak st)
          next_retry kis_error now)) (\<lambda>_.
      op_bind (announce a t status env paused reasons) (\<lambda>_.
      reading fst (\<lambda>st'. op_ret \<lparr>su_outcome = status, su_environment = Some (env_value env), su_paused = Some paused, su_review = review,
        su_block = blocked, su_cancel_requested = cp_requested cr, su_cancel_errors = cp_errors cr, su_error = None,
        su_auth_refresh = ss_force_refresh st', su_next_retry = next_retry\<rparr>))))))))"

definition lease_refused :: "'w supervisor_args \<Rightarrow> pass_times \<Rightarrow> datetime \<Rightarrow> (supervisor_result, 'w) supop" where
  "lease_refused a t now =
     op_bind (on_state (\<lambda>st. st\<lparr>ss_healthy_iterations := 0\<rparr>)) (\<lambda>_.
     op_bind (sup_db (write_status ''lease_invalid'' None None True True (Some ''invalid_service_lease'') [''lease_invalid''] 0 0 0 None now)) (\<lambda>_.
     op_bind (notify_throttled (sa_notifier a) (pt_monotonic t) ''lease_invalid'' ''order-supervisor: service lease invalid'') (\<lambda>_.
       op_ret ((plain_result ''lease_invalid'')\<lparr>su_error := Some ''invalid_service_lease''\<rparr>))))"

text \<open>The three stages on the ledger, with the same view of the broker.\<close>

definition work_with_broker ::
  "'w supervisor_args \<Rightarrow> 'w kis_clients \<Rightarrow> pass_times \<Rightarrow> datetime \<Rightarrow> kis_env \<Rightarrow> bool \<Rightarrow> broker_read \<Rightarrow> (supervisor_result, 'w) supop" where
  "work_with_broker a k t now env paused v =
     op_bind (on_books_and_broker (reconcile_broker_state (kc_orders k) (kc_snapshot k) now (pt_database t) (br_orders v) (br_orders_error v)
         (br_account v) (br_account_error v))) (\<lambda>rec.
     op_bind (force_refresh_if (report_needs_refresh rec)) (\<lambda>_.
     op_bind (on_books_and_broker (cancel_requested_buys k now (br_orders v) (br_orders_error v))) (\<lambda>cr.
     op_bind (force_refresh_if (case cp_error_type cr of None \<Rightarrow> False | Some e \<Rightarrow> auth_error_text e)) (\<lambda>_.
     op_bind (on_books_and_broker (manage_orders a k t now v)) (\<lambda>mg.
       publish a t now env paused (rr_operator_review rec \<or> omr_operator_review mg \<or> cp_errors cr \<noteq> 0)
         (rr_block_new_entries rec \<or> omr_block_new_entries mg \<or> cp_errors cr \<noteq> 0) (status_reasons rec mg cr) cr)))))"

definition supervise ::
  "'w supervisor_args \<Rightarrow> bool \<Rightarrow> pass_times \<Rightarrow> datetime \<Rightarrow> string option \<Rightarrow> (supervisor_result, 'w) supop" where
  "supervise a refresh_token t now owner =
     op_bind (sup_db init_schema) (\<lambda>_.
     op_bind (sup_db (lease_is_valid owner now)) (\<lambda>valid.
     if \<not> valid then lease_refused a t now
     else reading (get_runtime_control \<circ> fst \<circ> snd) (\<lambda>control.
       case parse_environment (rc_environment control) of Inl e \<Rightarrow> op_fail e
       | Inr env \<Rightarrow> op_bind (ensure_clients a refresh_token env) (\<lambda>k.
           op_bind (sup_world (read_broker a k)) (work_with_broker a k t now env (rc_paused control))))))"

text \<open>The exception branch: it reports on a connection of its own, and what that raises is ignored.\<close>

definition supervision_failed :: "datetime \<Rightarrow> exc \<Rightarrow> (unit, 'w) supop" where
  "supervision_failed now e =
     op_bind (on_state (\<lambda>st. st\<lparr>ss_healthy_iterations := 0\<rparr>)) (\<lambda>_.
     trying (sup_db (op_bind init_schema (\<lambda>_. mark_exception e now))) (\<lambda>_. op_ret ()) (\<lambda>_. op_ret ()))"

definition report_failure :: "'w supervisor_args \<Rightarrow> pass_times \<Rightarrow> datetime \<Rightarrow> exc \<Rightarrow> (supervisor_result, 'w) supop" where
  "report_failure a t now e =
     op_bind (supervision_failed now e) (\<lambda>_.
     op_bind (force_refresh_if (auth_error e)) (\<lambda>_.
     op_bind (notify_throttled (sa_notifier a) (pt_monotonic t) (''error:'' @ sanitized_error e) (''order-supervisor: error='' @ sanitized_error e)) (\<lambda>_.
     reading fst (\<lambda>st. op_ret ((plain_result ''error'')\<lparr>su_error := Some (sanitized_error e), su_review := True, su_block := True,
       su_auth_refresh := ss_force_refresh st\<rparr>)))))"

definition one_iteration ::
  "'w supervisor_args \<Rightarrow> bool \<Rightarrow> datetime option \<Rightarrow> pass_times \<Rightarrow> (supervisor_result, 'w) supop" where
  "one_iteration a refresh_token now_value t =
     op_guard (flt (sa_buy_ttl a) (Fin 0) \<or> flt (sa_sell_ttl a) (Fin 0)) (ValueError ''order TTLs must be non-negative'')
     (op_guard (flt (sa_throttle a) (Fin 0)) (ValueError ''broker read throttle must be non-negative'')
     (case expected_owner (sa_expected_owner a) (sa_owner a) (sa_service_owner a) of Inl e \<Rightarrow> op_fail e
      | Inr owner \<Rightarrow> trying (supervise a refresh_token t (to_utc (case now_value of None \<Rightarrow> pt_now t | Some v \<Rightarrow> v)) owner)
          (report_failure a t (to_utc (case now_value of None \<Rightarrow> pt_after_error t | Some v \<Rightarrow> v))) op_ret))"

section \<open>The daemon\<close>

text \<open>The stop event and the clocks.\<close>

record 'w daemon =
  dm_stopped :: "'w \<Rightarrow> bool \<times> 'w"
  dm_wait :: "pyfloat \<Rightarrow> 'w \<Rightarrow> bool \<times> 'w"
  dm_monotonic :: "'w \<Rightarrow> pyfloat \<times> 'w"
  dm_times :: "'w \<Rightarrow> pass_times \<times> 'w"

text \<open>The pause after a failed pass, and the next value of the local backoff.\<close>

definition retry_pause :: "supervisor_result \<Rightarrow> pyfloat \<Rightarrow> pyfloat" where
  "retry_pause r backoff = fmin (if su_next_retry r = 0 then backoff else f_int (int (su_next_retry r))) (Fin 60)"

definition next_backoff :: "supervisor_result \<Rightarrow> pyfloat \<Rightarrow> pyfloat" where
  "next_backoff r backoff = (if su_next_retry r = 0 then fmin (fmul backoff (Fin 2)) (Fin 60) else backoff)"

definition pass_failed :: "supervisor_result \<Rightarrow> bool" where
  "pass_failed r = (su_outcome r \<in> {''error'', ''dependency_unavailable''})"

definition retry_refresh :: "supervisor_result \<Rightarrow> 'w supervisor_state \<Rightarrow> 'w supervisor_state" where
  "retry_refresh r st = (if su_auth_refresh r then st\<lparr>ss_force_refresh := True\<rparr> else st)"

text \<open>How long to wait after a pass, and the backoff from then on.\<close>

definition pause_after ::
  "'w daemon \<Rightarrow> pyfloat \<Rightarrow> pyfloat \<Rightarrow> pyfloat \<Rightarrow> supervisor_result \<Rightarrow> 'w \<Rightarrow> (pyfloat \<times> pyfloat) \<times> 'w" where
  "pause_after dm interval backoff started r w =
     (if pass_failed r then ((retry_pause r backoff, next_backoff r backoff), w)
      else case dm_monotonic dm w of (ended, w') \<Rightarrow> ((fmax (Fin 0) (fsub interval (fsub ended started)), Fin 5), w'))"

text \<open>The loop with \<open>fuel\<close> passes; None when it is still running.\<close>

fun daemon_loop ::
  "nat \<Rightarrow> 'w supervisor_args \<Rightarrow> 'w daemon \<Rightarrow> pyfloat \<Rightarrow> bool \<Rightarrow> pyfloat \<Rightarrow> supervisor_result option \<Rightarrow> 'w supervisor_state \<times> db \<times> 'w \<Rightarrow>
   (supervisor_result option result \<times> 'w supervisor_state \<times> db \<times> 'w) option" where
  "daemon_loop 0 a dm interval refresh_token backoff previous s = None"
| "daemon_loop (Suc fuel) a dm interval refresh_token backoff previous s =
     (case s of (st, d, w) \<Rightarrow> case dm_stopped dm w of (stop, w1) \<Rightarrow>
      if stop then Some (Inr previous, st, d, w1)
      else case dm_monotonic dm w1 of (started, w2) \<Rightarrow> case dm_times dm w2 of (t, w3) \<Rightarrow>
        (case one_iteration a refresh_token None t (st, d, w3) of
           (Inl e, s') \<Rightarrow> Some (Inl e, s')
         | (Inr r, st', d', w4) \<Rightarrow>
             if su_outcome r = ''lease_invalid'' then Some (Inr (Some r), st', d', w4)
             else let st2 = (if pass_failed r then retry_refresh r st' else st') in
               case pause_after dm interval backoff started r w4 of ((pause, backoff'), w5) \<Rightarrow>
               case dm_wait dm pause w5 of (stop2, w6) \<Rightarrow>
                 if stop2 then Some (Inr (Some r), st2, d', w6)
                 else daemon_loop fuel a dm interval False backoff' (Some r) (st2, d', w6)))"

definition run_order_supervisor ::
  "nat \<Rightarrow> 'w supervisor_args \<Rightarrow> 'w daemon \<Rightarrow> pyfloat \<Rightarrow> bool \<Rightarrow> db \<times> 'w \<Rightarrow>
   (supervisor_result option result \<times> 'w supervisor_state \<times> db \<times> 'w) option" where
  "run_order_supervisor fuel a dm interval refresh_token x =
     (if fle interval (Fin 0) \<or> flt (sa_buy_ttl a) (Fin 0) \<or> flt (sa_sell_ttl a) (Fin 0) \<or> flt (sa_throttle a) (Fin 0)
      then Some (Inl (ValueError ''interval must be positive and TTLs must be non-negative''), new_supervisor_state, x)
      else daemon_loop fuel a dm interval refresh_token (Fin 5) None (new_supervisor_state, x))"

section \<open>What a pass keeps\<close>

text \<open>Predicates read off the parts of a state.\<close>

definition in_db :: "(db \<Rightarrow> bool) \<Rightarrow> db \<times> 'w \<Rightarrow> bool" where
  "in_db I s = I (fst s)"

definition in_world :: "('w \<Rightarrow> bool) \<Rightarrow> db \<times> 'w \<Rightarrow> bool" where
  "in_world P s = P (snd s)"

definition below :: "(db \<times> 'w \<Rightarrow> bool) \<Rightarrow> 'w supervisor_state \<times> db \<times> 'w \<Rightarrow> bool" where
  "below J s = J (snd s)"

lemma keeps_at_db: "preserves I m \<Longrightarrow> preserves (in_db I) (at_db m)"
  by (auto simp: preserves_def in_db_def at_db_def split: prod.split)

lemma keeps_at_world: "preserves (in_db I) (at_world m)"
  by (auto simp: preserves_def in_db_def at_world_def split: prod.split)

lemma keeps_below: "preserves J m \<Longrightarrow> preserves (below J) (on_books_and_broker m)"
  by (auto simp: preserves_def below_def on_books_and_broker_def split: prod.split) (metis snd_conv)

lemma keeps_on_state: "preserves (below J) (on_state f)"
  by (auto simp: preserves_def below_def on_state_def split: prod.split)

lemma keeps_notify: "preserves (below (in_db I)) (notify_throttled n t s m)"
  by (auto simp: preserves_def below_def in_db_def notify_throttled_def split: option.split prod.split)

lemma keeps_force: "preserves (below J) (force_refresh_if b)"
  unfolding force_refresh_if_def by (intro preserves_if keeps_on_state preserves_ret)

lemma keeps_announce: "preserves (below (in_db I)) (announce a t status env paused reasons)"
  unfolding announce_def by (intro preserves_if preserves_bind preserves_reading keeps_on_state keeps_notify preserves_ret)

lemmas cancel_keeps = preserves_bind preserves_ret preserves_fail preserves_if preserves_option preserves_either preserves_reading preserves_trying
  keeps_at_db keeps_at_world

lemma keeps_ensure: "preserves (below (in_db I)) (ensure_clients a refresh env)"
  unfolding ensure_clients_def Let_def by (intro cancel_keeps keeps_on_state keeps_below)

lemma lease_reads: "snd (lease_is_valid owner now d) = d"
  by (simp add: lease_is_valid_def get_service_lease_def require_nonempty_def op_guard_def op_bind_def op_ret_def)

lemma metadata_reads: "snd (get_runtime_metadata k d) = d"
  by (simp add: get_runtime_metadata_def require_nonempty_def op_guard_def)

context marker_client
begin

lemma keeps_flags: "preserves I (raise_flags now)"
  unfolding raise_flags_def by (intro preserves_bind keeps_key)

lemma keeps_lose: "preserves I (lose_order now r why e n)"
  unfolding lose_order_def by (intro preserves_bind preserves_ret keeps_lost keeps_flags)

lemma keeps_cancel_row: "preserves (in_db I) (cancel_row cancel now bs r n)"
  unfolding cancel_row_def cancel_buy_def call_cancel_def operator_marker_def
  by (intro cancel_keeps keeps_lose keeps_move keeps_key)

lemma keeps_cancel_rows: "preserves (in_db I) (cancel_rows cancel now bs rs n)"
  by (induction rs arbitrary: n) (auto intro: preserves_ret preserves_bind keeps_cancel_row)

lemma keeps_refuse: "preserves I (refuse_request now e)"
  unfolding refuse_request_def set_cancel_status_def Let_def by (intro preserves_bind preserves_ret keeps_flags keeps_key)

lemma keeps_serve: "preserves (in_db I) (serve_request k now rows bs)"
  unfolding serve_request_def set_cancel_status_def by (intro cancel_keeps keeps_cancel_rows keeps_key)

lemma keeps_cancel_requested: "preserves (in_db I) (cancel_requested_buys k now bo be)"
  unfolding cancel_requested_buys_def
  by (intro cancel_keeps keeps_serve keeps_refuse keeps_key preserves_read [OF metadata_reads])

lemma keeps_write_status: "preserves I (write_status st env p rv b e rs f h n k now)"
  unfolding write_status_def record_heartbeat_def set_heartbeat_def by (intro preserves_rules keeps_key)

lemma keeps_manage_orders: "preserves (in_db I) (manage_orders a k t now v)"
proof (rule preservesI)
  fix s :: "db \<times> 'a"
  assume "in_db I s"
  then have "on_books I (snd (manage_stale_orders (sa_calendar a) (kc_orders k) (kc_cancel k) cfg None now (pt_database t)
      (br_orders v) (br_orders_error v) s))" for cfg
    using keeps_manage [of "fst s"] by (cases s) (simp add: in_db_def)
  with \<open>in_db I s\<close> show "in_db I (snd (manage_orders a k t now v s))"
    by (auto simp: manage_orders_def in_db_def on_books_def split: sum.split prod.split) (metis fst_conv snd_conv)
qed

lemma keeps_publish: "preserves (below (in_db I)) (publish a t now env paused review blocked reasons cr)"
  unfolding publish_def Let_def
  by (intro preserves_bind preserves_reading preserves_ret keeps_on_state keeps_below keeps_at_db keeps_key keeps_write_status keeps_announce)

lemma keeps_lease_refused: "preserves (below (in_db I)) (lease_refused a t now)"
  unfolding lease_refused_def by (intro preserves_bind preserves_ret keeps_on_state keeps_below keeps_at_db keeps_write_status keeps_notify)

end

text \<open>A program that runs whole passes: it also opens the database.\<close>

locale supervisor_client = ledger_client I "\<lambda>_. True" for I +
  assumes keeps_schema: "preserves I init_schema"

sublocale supervisor_client \<subseteq> marker_client I
  by unfold_locales (rule keeps_status keeps_unknown keeps_metadata TrueI)+

context supervisor_client
begin

lemma keeps_reconcile_op: "preserves (in_db I) (reconcile_broker_state orders snapshot now clk bo be ac ae)"
  by (auto simp: preserves_def in_db_def intro: keeps_reconcile)

lemma keeps_work: "preserves (below (in_db I)) (work_with_broker a k t now env paused v)"
  unfolding work_with_broker_def
  by (intro preserves_bind keeps_below keeps_reconcile_op keeps_force keeps_cancel_requested keeps_manage_orders keeps_publish)

lemma keeps_supervise: "preserves (below (in_db I)) (supervise a refresh t now owner)"
  unfolding supervise_def
  by (intro cancel_keeps keeps_below keeps_schema keeps_lease_refused keeps_ensure keeps_work preserves_read [OF lease_reads])

lemma keeps_iteration: "preserves (below (in_db I)) (one_iteration a refresh v t)"
  unfolding one_iteration_def report_failure_def supervision_failed_def mark_exception_def
  by (intro cancel_keeps preserves_guard keeps_supervise keeps_on_state keeps_below keeps_schema keeps_flags keeps_write_status keeps_force keeps_notify)

end

text \<open>Two instances: the books, and the tables that a pass only reads.\<close>

interpretation watched_books: supervisor_client books_ok
  by unfold_locales
    (auto simp: preserves_def init_schema_def init_control_def books_ok_def ledger_ok_def balanced_def applied_qty_def is_applied_def [abs_def] split: sum.split)

definition read_only_of :: "db \<Rightarrow> service_lease table \<times> order_audit table \<times> ai_decision table \<times> watch_row table" where
  "read_only_of d = (service_leases d, broker_order_audits d, ai_decision_audits d, watchlist d)"

lemma keeps_read_only:
  assumes "\<And>d0. preserves (same_controls d0) m"
  shows "preserves (\<lambda>d. read_only_of d = x) m"
proof (rule preservesI)
  fix d assume "read_only_of d = x"
  with preservesD [OF assms, of d d] show "read_only_of (snd (m d)) = x"
    by (simp add: same_controls_def controls_of_def read_only_of_def)
qed

interpretation read_only: supervisor_client "\<lambda>d. read_only_of d = x" for x
proof unfold_locales
  show "preserves (\<lambda>d. read_only_of d = x) init_schema"
    by (auto simp: preserves_def init_schema_def init_control_def read_only_of_def split: sum.split)
qed (rule keeps_read_only, rule controls.keeps_fill controls.keeps_status controls.keeps_unknown controls.keeps_materialize controls.keeps_metadata TrueI | simp)+

section \<open>Answers\<close>

definition answers :: "('s \<Rightarrow> 'a result \<times> 's) \<Rightarrow> bool" where
  "answers m = (\<forall>s. \<not> isl (fst (m s)))"

lemma answersD: "answers m \<Longrightarrow> \<exists>x s'. m s = (Inr x, s')"
  by (cases "m s"; cases "fst (m s)") (auto simp: answers_def dest: spec [of _ s])

lemma answers_ret: "answers (op_ret x)"
  by (simp add: answers_def op_ret_def)

lemma answers_bind: "answers m \<Longrightarrow> (\<And>x. answers (f x)) \<Longrightarrow> answers (op_bind m f)"
  unfolding answers_def op_bind_def by (auto split: prod.split sum.split) (metis fst_conv sum.disc(1))

lemma answers_reading: "(\<And>x. answers (k x)) \<Longrightarrow> answers (reading q k)"
  by (simp add: answers_def reading_def)

lemma answers_trying: "(\<And>e. answers (h e)) \<Longrightarrow> (\<And>x. answers (k x)) \<Longrightarrow> answers (trying m h k)"
  by (auto simp: answers_def trying_def split: prod.split sum.split)

lemma answers_if: "answers m \<Longrightarrow> answers m' \<Longrightarrow> answers (if b then m else m')"
  by simp

lemma answers_state: "answers (on_state f)"
  by (simp add: answers_def on_state_def split: prod.split)

lemma answers_notify: "answers (notify_throttled n t st m)"
  by (auto simp: answers_def notify_throttled_def split: option.split prod.split)

lemma answers_db: "answers m \<Longrightarrow> answers (sup_db m)"
  unfolding answers_def on_books_and_broker_def at_db_def by (auto split: prod.split) (metis fst_conv)

lemma answers_metadata: "strip k \<noteq> [] \<Longrightarrow> answers (set_runtime_metadata k v now)"
  by (simp add: answers_def set_runtime_metadata_def require_nonempty_def)

lemmas answers_intros = answers_ret answers_bind answers_reading answers_trying answers_if answers_state answers_notify answers_db answers_metadata

lemma report_keys:
  "strip STATUS_KEY \<noteq> []" "strip LAST_ERROR_KEY \<noteq> []" "strip ''operator_review'' \<noteq> []" "strip ''block_new_entries'' \<noteq> []"
  "strip CANCEL_STATUS_KEY \<noteq> []" "strip CANCEL_REQUEST_KEY \<noteq> []" "strip SUPERVISOR_COMPONENT \<noteq> []" "strip (''heartbeat:'' @ SUPERVISOR_COMPONENT) \<noteq> []"
  by (simp_all add: string_eval STATUS_KEY_def LAST_ERROR_KEY_def CANCEL_STATUS_KEY_def CANCEL_REQUEST_KEY_def SUPERVISOR_COMPONENT_def)

lemma answers_flags: "answers (raise_flags now)"
  unfolding raise_flags_def by (intro answers_intros report_keys)

lemma record_heartbeat_sets: "record_heartbeat SUPERVISOR_COMPONENT now = set_heartbeat (''heartbeat:'' @ SUPERVISOR_COMPONENT) now"
  using report_keys by (simp add: record_heartbeat_def require_nonempty_def)

lemma answers_write_status: "answers (write_status st env p rv b e rs f h n k now)"
  unfolding write_status_def record_heartbeat_sets set_heartbeat_def by (intro answers_intros report_keys)

lemma answers_mark_exception: "answers (mark_exception e now)"
  unfolding mark_exception_def by (intro answers_intros answers_flags answers_write_status)

lemma answers_force: "answers (force_refresh_if b)"
  unfolding force_refresh_if_def by (intro answers_intros)

lemma answers_failure: "answers (report_failure a t now e)"
  unfolding report_failure_def supervision_failed_def by (intro answers_intros answers_force)

section \<open>Flags\<close>

lemma flag_frame: "key \<noteq> k \<Longrightarrow> preserves (\<lambda>d. flag k d = b) (set_runtime_metadata key v now)"
  by (rule preservesI, cases "strip key = []") (simp_all add: flag_def metadata_value_set set_runtime_metadata_blank)

text \<open>What the safety gate reads of the flags.\<close>

definition flags_are :: "bool \<Rightarrow> bool \<Rightarrow> db \<Rightarrow> bool" where
  "flags_are review blocked d = (flag ''operator_review'' d = review \<and> flag ''block_new_entries'' d = blocked)"

lemma flags_frame:
  assumes "key \<notin> {''operator_review'', ''block_new_entries''}"
  shows "preserves (flags_are rv bl) (set_runtime_metadata key v now)"
  using assms flag_frame [of key "''operator_review''" rv v now] flag_frame [of key "''block_new_entries''" bl v now]
  by (auto simp: preserves_def flags_are_def)

lemma write_status_flags: "preserves (flags_are rv bl) (write_status st env p r b e rs f h n k now)"
  unfolding write_status_def record_heartbeat_sets set_heartbeat_def
  by (intro preserves_bind preserves_ret flags_frame) (simp_all add: STATUS_KEY_def LAST_ERROR_KEY_def)

lemma is_true_flag_text: "is_true (Some (flag_text b)) = b"
  by (cases b) (simp_all add: flag_text_def is_true_def, code_simp+)

lemma set_flags:
  "\<exists>x y e. set_runtime_metadata ''operator_review'' (flag_text rv) now d = (Inr x, e)
     \<and> set_runtime_metadata ''block_new_entries'' (flag_text bl) now e = (Inr y, snd (set_runtime_metadata ''block_new_entries'' (flag_text bl) now e))
     \<and> flags_are rv bl (snd (set_runtime_metadata ''block_new_entries'' (flag_text bl) now e))"
proof -
  obtain x e where s1: "set_runtime_metadata ''operator_review'' (flag_text rv) now d = (Inr x, e)"
    using answersD [OF answers_metadata [OF report_keys(3)]] by blast
  obtain y e' where s2: "set_runtime_metadata ''block_new_entries'' (flag_text bl) now e = (Inr y, e')"
    using answersD [OF answers_metadata [OF report_keys(4)]] by blast
  have "flags_are rv bl e'"
    using metadata_value_set [OF report_keys(4), of "flag_text bl" now e] metadata_value_set [OF report_keys(3), of "flag_text rv" now d] s1 s2
    by (simp add: flags_are_def flag_def is_true_flag_text)
  with s1 s2 show ?thesis by auto
qed

text \<open>Running one step of a sequence.\<close>

lemma run_state: "op_bind (on_state f) k (st, x) = k () (f st, x)"
  by (simp add: op_bind_def on_state_def)

lemma run_reading: "reading fst k (st, x) = k st (st, x)"
  by (simp add: reading_def)

lemma run_db: "m d = (Inr y, d') \<Longrightarrow> op_bind (sup_db m) k (st, d, w) = k y (st, d', w)"
  by (simp add: op_bind_def on_books_and_broker_def at_db_def)

lemma run_step: "m s = (Inr y, s') \<Longrightarrow> op_bind m k s = k y s'"
  by (simp add: op_bind_def)

lemma publish_run:
  assumes "publish a t now env paused review blocked reasons cr s = (r, s')"
  shows "\<exists>res. r = Inr res \<and> su_block res = blocked \<and> su_review res = review
      \<and> su_outcome res = pass_outcome (review \<and> list_ex is_dependency_reason reasons) review"
    and "flags_are review blocked (fst (snd s'))"
proof -
  obtain st d w where s: "s = (st, d, w)" by (rule prod_cases3)
  let ?un = "review \<and> list_ex is_dependency_reason reasons"
  let ?st = "count_streaks ?un st"
  let ?e = "safe_kis_error_from_reasons reasons"
  let ?n = "if ?un then dependency_backoff_seconds (ss_failure_streak ?st) ?e else 0"
  let ?put = "write_status (pass_outcome ?un review) (Some (env_value env)) (Some paused) review blocked None reasons
      (ss_failure_streak ?st) (ss_healthy_streak ?st) ?n ?e now"
  obtain x y e where f: "set_runtime_metadata ''operator_review'' (flag_text review) now d = (Inr x, e)"
      "set_runtime_metadata ''block_new_entries'' (flag_text blocked) now e = (Inr y, snd (set_runtime_metadata ''block_new_entries'' (flag_text blocked) now e))"
      "flags_are review blocked (snd (set_runtime_metadata ''block_new_entries'' (flag_text blocked) now e))"
    using set_flags by blast
  obtain z d2 where wr: "?put (snd (set_runtime_metadata ''block_new_entries'' (flag_text blocked) now e)) = (Inr z, d2)"
    using answersD [OF answers_write_status] by blast
  have fl: "flags_are review blocked d2" by (rule preserves_run [OF write_status_flags f(3) wr])
  have ann: "answers (announce a t (pass_outcome ?un review) env paused reasons)"
    unfolding announce_def by (intro answers_intros)
  obtain st3 d3 w3 where an: "announce a t (pass_outcome ?un review) env paused reasons (?st, d2, w) = (Inr (), st3, d3, w3)"
    using answersD [OF ann] by (metis prod_cases3 unit.exhaust)
  have d3: "d3 = d2" using preserves_run [OF keeps_announce [of "\<lambda>d. d = d2"] _ an] by (simp add: below_def in_db_def)
  note r1 = run_db [where m = "set_runtime_metadata ''operator_review'' (flag_text review) now", OF f(1)]
    and r2 = run_db [where m = "set_runtime_metadata ''block_new_entries'' (flag_text blocked) now", OF f(2)]
    and r3 = run_db [where m = ?put, OF wr] and r4 = run_step [where m = "announce a t (pass_outcome ?un review) env paused reasons", OF an]
  from assms [unfolded s publish_def Let_def run_state run_reading r1 r2 r3 r4] fl d3
  show "\<exists>res. r = Inr res \<and> su_block res = blocked \<and> su_review res = review
      \<and> su_outcome res = pass_outcome (review \<and> list_ex is_dependency_reason reasons) review" "flags_are review blocked (fst (snd s'))"
    by (auto simp: op_ret_def)
qed

lemma keeps_failed: "answers (supervision_failed now e)"
  unfolding supervision_failed_def by (intro answers_intros)

text \<open>After the exception branch the flags are set, or the database cannot be opened for the safety gate either.\<close>

lemma failed_flags:
  assumes "supervision_failed now e (st, d, w) = (r, st', d', w')"
  shows "fst (init_schema d') \<noteq> Inr () \<or> flags_are True True d'"
proof (cases "init_schema d")
  case (Pair q d1)
  show ?thesis
  proof (cases q)
    case (Inl x)
    with Pair have "d1 = d" by (auto simp: init_schema_def init_control_def split: sum.splits)
    with Pair Inl assms [unfolded supervision_failed_def run_state] have "d' = d"
      by (simp add: trying_def on_books_and_broker_def at_db_def op_bind_def op_ret_def)
    with Pair Inl show ?thesis by simp
  next
    case (Inr x)
    obtain y d2 where m: "mark_exception e now d1 = (Inr y, d2)" using answersD [OF answers_mark_exception] by blast
    have t: "flag_text True = ''true''" by (simp add: flag_text_def)
    from m have "flags_are True True d2"
      using set_flags [of True now d1 True] preserves_run [OF write_status_flags]
      by (auto simp: mark_exception_def raise_flags_def op_bind_Inr t)
    moreover from Pair Inr m assms [unfolded supervision_failed_def run_state] have "d' = d2"
      by (simp add: trying_def on_books_and_broker_def at_db_def op_bind_def op_ret_def)
    ultimately show ?thesis by simp
  qed
qed

lemma failure_run:
  assumes "report_failure a t now e (st, d, w) = (r, st', d', w')"
  shows "fst (init_schema d') \<noteq> Inr () \<or> flags_are True True d'"
    and "\<exists>res. r = Inr res \<and> su_outcome res = ''error'' \<and> su_block res"
proof -
  obtain st2 d2 w2 where f: "supervision_failed now e (st, d, w) = (Inr (), st2, d2, w2)"
    using answersD [OF keeps_failed] by (metis prod_cases3 unit.exhaust)
  let ?rest = "op_bind (force_refresh_if (auth_error e)) (\<lambda>_.
     op_bind (notify_throttled (sa_notifier a) (pt_monotonic t) (''error:'' @ sanitized_error e) (''order-supervisor: error='' @ sanitized_error e)) (\<lambda>_.
     reading fst (\<lambda>st. op_ret ((plain_result ''error'')\<lparr>su_error := Some (sanitized_error e), su_review := True, su_block := True,
       su_auth_refresh := ss_force_refresh st\<rparr>))))"
  have run: "?rest (st2, d2, w2) = (r, st', d', w')" using assms unfolding report_failure_def run_step [where m = "supervision_failed now e", OF f] .
  have "preserves (below (in_db (\<lambda>d. d = d2))) ?rest" by (intro cancel_keeps keeps_force keeps_notify)
  from preserves_run [OF this _ run] have "d' = d2" by (simp add: below_def in_db_def)
  with failed_flags [OF f] show "fst (init_schema d') \<noteq> Inr () \<or> flags_are True True d'" by simp
  let ?notify_throttled = "notify_throttled (sa_notifier a) (pt_monotonic t) (''error:'' @ sanitized_error e) (''order-supervisor: error='' @ sanitized_error e)"
  obtain u s3 where fo: "force_refresh_if (auth_error e) (st2, d2, w2) = (Inr u, s3)" using answersD [OF answers_force] by blast
  obtain u' s4 where no: "?notify_throttled s3 = (Inr u', s4)" using answersD [OF answers_notify] by blast
  obtain st4 x4 where s4: "s4 = (st4, x4)" by (rule prod.exhaust)
  have outcome: "su_outcome ((plain_result ''error'')\<lparr>su_error := x, su_review := True, su_block := True, su_auth_refresh := y\<rparr>) = ''error''"
    "su_block ((plain_result ''error'')\<lparr>su_error := x, su_review := True, su_block := True, su_auth_refresh := y\<rparr>)" for x y
    by (simp_all add: plain_result_def)
  from run [unfolded run_step [where m = "force_refresh_if (auth_error e)", OF fo] run_step [where m = ?notify_throttled, OF no] s4 run_reading op_ret_def]
  have "Inr ((plain_result ''error'')\<lparr>su_error := Some (sanitized_error e), su_review := True, su_block := True,
       su_auth_refresh := ss_force_refresh st4\<rparr>) = r" by (rule Pair_inject)
  with outcome show "\<exists>res. r = Inr res \<and> su_outcome res = ''error'' \<and> su_block res" by blast
qed

text \<open>A pass that worked through its stages: what it says of the flags, and when it released the entries.\<close>

definition both_agree :: "status_record list \<Rightarrow> account_snapshot \<Rightarrow> db \<Rightarrow> db \<Rightarrow> bool" where
  "both_agree bs account d d' = (list_all (agrees bs) (local_rows d)
     \<and> (\<forall>b\<in>set bs. still_open b \<longrightarrow> sr_order_number b \<in> order_id_of ` set (local_rows d))
     \<and> (\<forall>s. open_qty s (live_positions d') = quantity_in (broker_position_quantities account) s))"

lemma positions_later: "live_positions d = live_positions e \<Longrightarrow> both_agree bs acc d0 d = both_agree bs acc d0 e"
  by (simp add: both_agree_def)

lemma reconciled_agree:
  assumes "reconcile_broker_state orders snapshot now clk bo be ac ae (d, w) = (Inr rec, d', w')" "\<not> rr_operator_review rec"
  shows "\<exists>bs account w1. supplied bo be orders w = (Inr bs, w1) \<and> supplied ac ae snapshot w1 = (Inr account, w') \<and> both_agree bs account d d'"
proof -
  obtain n e where fin: "finish now n e = (Inr rec, d')"
    and agree: "rn_reasons n = [] \<longrightarrow> (\<exists>bs a w1. supplied bo be orders w = (Inr bs, w1)
         \<and> supplied ac ae snapshot w1 = (Inr a, w') \<and> list_all (agrees bs) (local_rows d)
         \<and> (\<forall>b\<in>set bs. still_open b \<longrightarrow> sr_order_number b \<in> order_id_of ` set (local_rows d))
         \<and> (\<forall>s. open_qty s (live_positions e) = quantity_in (broker_position_quantities a) s))"
    using reconcile_ends [OF assms(1)] by blast
  have "live_positions d' = live_positions e" "rn_reasons n = []" using finish_run [OF fin] assms(2) by auto
  with agree show ?thesis unfolding both_agree_def by fastforce
qed

lemma work_run:
  assumes "work_with_broker a k t now env paused v (st, d, w) = (Inr res, st', d', w')"
  shows "flags_are (su_review res) (su_block res) d'"
    and "su_outcome res = ''reconciled'' \<Longrightarrow> \<not> su_review res \<and> (\<exists>bs account w1 w2. supplied (br_orders v) (br_orders_error v) (kc_orders k) w = (Inr bs, w1)
      \<and> supplied (br_account v) (br_account_error v) (kc_snapshot k) w1 = (Inr account, w2) \<and> both_agree bs account d d')"
    and "su_outcome res \<in> {''reconciled'', ''reconciled_operator_review'', ''dependency_unavailable''}"
proof -
  from assms obtain rec x1 x2 cr x3 x4 mg x5 where
    rec: "on_books_and_broker (reconcile_broker_state (kc_orders k) (kc_snapshot k) now (pt_database t) (br_orders v) (br_orders_error v)
         (br_account v) (br_account_error v)) (st, d, w) = (Inr rec, x1)"
    and f1: "force_refresh_if (report_needs_refresh rec) x1 = (Inr (), x2)"
    and cr: "on_books_and_broker (cancel_requested_buys k now (br_orders v) (br_orders_error v)) x2 = (Inr cr, x3)"
    and f2: "force_refresh_if (case cp_error_type cr of None \<Rightarrow> False | Some e \<Rightarrow> auth_error_text e) x3 = (Inr (), x4)"
    and mg: "on_books_and_broker (manage_orders a k t now v) x4 = (Inr mg, x5)"
    and pub: "publish a t now env paused (rr_operator_review rec \<or> omr_operator_review mg \<or> cp_errors cr \<noteq> 0)
         (rr_block_new_entries rec \<or> omr_block_new_entries mg \<or> cp_errors cr \<noteq> 0) (status_reasons rec mg cr) cr x5 = (Inr res, st', d', w')"
    by (auto simp: work_with_broker_def op_bind_Inr)
  let ?same = "below (in_db (\<lambda>e. live_positions e = live_positions (fst (snd x1))))"
  have "?same x1" by (simp add: below_def in_db_def)
  from preserves_run [OF keeps_force this f1] have "?same x2" .
  from preserves_run [OF keeps_below [OF managed_positions.keeps_cancel_requested] this cr] have "?same x3" .
  from preserves_run [OF keeps_force this f2] have "?same x4" .
  from preserves_run [OF keeps_below [OF managed_positions.keeps_manage_orders] this mg] have "?same x5" .
  from preserves_run [OF managed_positions.keeps_publish this pub] have pos: "live_positions d' = live_positions (fst (snd x1))"
    by (simp add: below_def in_db_def)
  show "flags_are (su_review res) (su_block res) d'" using publish_run [OF pub] by auto
  show "su_outcome res \<in> {''reconciled'', ''reconciled_operator_review'', ''dependency_unavailable''}"
    using publish_run(1) [OF pub] by (auto simp: pass_outcome_def)
  assume "su_outcome res = ''reconciled''"
  with publish_run(1) [OF pub] have "\<not> rr_operator_review rec" "\<not> su_review res" by (auto simp: pass_outcome_def split: if_splits)
  moreover obtain q e w1 where q: "reconcile_broker_state (kc_orders k) (kc_snapshot k) now (pt_database t) (br_orders v) (br_orders_error v)
         (br_account v) (br_account_error v) (d, w) = (q, e, w1)" by (rule prod_cases3)
  ultimately have x1: "snd x1 = (e, w1)" and rr: "reconcile_broker_state (kc_orders k) (kc_snapshot k) now (pt_database t) (br_orders v) (br_orders_error v)
         (br_account v) (br_account_error v) (d, w) = (Inr rec, e, w1)" and review: "\<not> rr_operator_review rec" "\<not> su_review res"
    using rec by (auto simp: on_books_and_broker_def)
  from reconciled_agree [OF rr review(1)] positions_later [of d' e] pos x1 review(2) show "\<not> su_review res \<and> (\<exists>bs account w1 w2. supplied (br_orders v) (br_orders_error v) (kc_orders k) w = (Inr bs, w1)
      \<and> supplied (br_account v) (br_account_error v) (kc_snapshot k) w1 = (Inr account, w2) \<and> both_agree bs account d d')" by fastforce
qed

lemma lease_refused_run:
  assumes "lease_refused a t now s = (Inr res, s')"
  shows "su_outcome res = ''lease_invalid'' \<and> \<not> su_block res"
  using assms by (auto simp: lease_refused_def op_bind_Inr op_ret_def plain_result_def)

text \<open>Opening the database and building clients leaves what both sides are compared by.\<close>

definition compared_of :: "db \<Rightarrow> broker_order table \<times> broker_fill table \<times> fill_application table" where
  "compared_of d = (broker_orders d, broker_fills d, fill_applications d)"

lemma both_agree_compared: "compared_of d = compared_of e \<Longrightarrow> both_agree bs acc d d' = both_agree bs acc e d'"
  by (simp add: both_agree_def local_rows_def compared_of_def)

lemma compared_schema: "preserves (\<lambda>d. compared_of d = x) init_schema"
  by (auto simp: preserves_def init_schema_def init_control_def compared_of_def split: sum.split)

text \<open>
  What the broker answered in a pass: the order list that the clients of this pass returned, and the account they returned after the pause.
  The clients are the ones of the environment in the database, kept or built in this pass.
\<close>

definition broker_answers :: "'w supervisor_args \<Rightarrow> bool \<Rightarrow> 'w supervisor_state \<times> db \<times> 'w \<Rightarrow> status_record list \<Rightarrow> account_snapshot \<Rightarrow> bool" where
  "broker_answers a refresh s bs account = (case s of (st, d, w) \<Rightarrow> let d1 = snd (init_schema d) in
     (\<exists>env k st1 w0 w1 w2. parse_environment (rc_environment (get_runtime_control d1)) = Inr env
        \<and> ensure_clients a refresh env (st, d1, w) = (Inr k, st1, d1, w0)
        \<and> kc_orders k w0 = (Inr bs, w1)
        \<and> kc_snapshot k (if flt (Fin 0) (sa_throttle a) then snd (sa_sleeper a (sa_throttle a) w1) else w1) = (Inr account, w2)))"

lemma read_broker_answers:
  assumes "read_broker a k w0 = (Inr v, w4)" "supplied (br_orders v) (br_orders_error v) (kc_orders k) x = (Inr bs, x1)"
    and "supplied (br_account v) (br_account_error v) (kc_snapshot k) x1 = (Inr account, x2)"
  shows "\<exists>w1 w2. kc_orders k w0 = (Inr bs, w1)
    \<and> kc_snapshot k (if flt (Fin 0) (sa_throttle a) then snd (sa_sleeper a (sa_throttle a) w1) else w1) = (Inr account, w2)"
  using assms by (auto simp: read_broker_def trying_def op_ret_def op_bind_def read_account_def supplied_def split: prod.splits sum.splits if_splits)

lemma opened_run:
  assumes "op_bind (sup_db init_schema) (\<lambda>_. sup_db (lease_is_valid owner now)) (st, d, w) = (Inr valid, s2)"
  shows "s2 = (st, snd (init_schema d), w)"
  using assms lease_reads [of owner now] by (auto simp: op_bind_def on_books_and_broker_def at_db_def split: prod.splits sum.splits) (metis snd_conv)

lemma supervise_run:
  assumes "supervise a refresh t now owner (st, d, w) = (Inr res, st', d', w')"
  shows "su_outcome res = ''lease_invalid'' \<and> \<not> su_block res
    \<or> flags_are (su_review res) (su_block res) d' \<and> (su_outcome res = ''reconciled'' \<longrightarrow> \<not> su_review res
        \<and> (\<exists>bs account. broker_answers a refresh (st, d, w) bs account \<and> both_agree bs account d d'))"
proof -
  let ?d = "snd (init_schema d)"
  obtain valid s2 where open_db: "op_bind (sup_db init_schema) (\<lambda>_. sup_db (lease_is_valid owner now)) (st, d, w) = (Inr valid, s2)"
    and rest: "(if \<not> valid then lease_refused a t now
     else reading (get_runtime_control \<circ> fst \<circ> snd) (\<lambda>control.
       case parse_environment (rc_environment control) of Inl e \<Rightarrow> op_fail e
       | Inr env \<Rightarrow> op_bind (ensure_clients a refresh env) (\<lambda>k.
           op_bind (sup_world (read_broker a k)) (work_with_broker a k t now env (rc_paused control))))) s2 = (Inr res, st', d', w')"
    using assms by (auto simp: supervise_def op_bind_Inr)
  note s2 = opened_run [OF open_db]
  show ?thesis
  proof (cases valid)
    case False
    with rest lease_refused_run [of a t now s2 res] show ?thesis by simp
  next
    case True
    with rest obtain env k s3 v s4 where
      env: "parse_environment (rc_environment (get_runtime_control ?d)) = Inr env" and
      k: "ensure_clients a refresh env (st, ?d, w) = (Inr k, s3)" and v: "sup_world (read_broker a k) s3 = (Inr v, s4)"
      and work: "work_with_broker a k t now env (rc_paused (get_runtime_control ?d)) v s4 = (Inr res, st', d', w')"
      by (auto simp: s2 reading_def op_bind_Inr op_fail_def split: sum.splits)
    obtain st3 d3 w3 where s3: "s3 = (st3, d3, w3)" by (rule prod_cases3)
    have "below (in_db (\<lambda>e. e = ?d)) s3" by (rule preserves_run [OF keeps_ensure _ k]) (simp add: below_def in_db_def)
    then have d3: "d3 = ?d" by (simp add: s3 below_def in_db_def)
    obtain w4 where r: "read_broker a k w3 = (Inr v, w4)" and s4: "s4 = (st3, ?d, w4)"
      using v by (auto simp: s3 d3 on_books_and_broker_def at_world_def split: prod.splits)
    have "compared_of ?d = compared_of d" using compared_schema [of "compared_of d"] by (simp add: preserves_def)
    then have agree: "both_agree bs account ?d d' = both_agree bs account d d'" for bs account by (rule both_agree_compared)
    note wr = work_run [OF work [unfolded s4]]
    have "\<exists>bs account. broker_answers a refresh (st, d, w) bs account \<and> both_agree bs account d d'" if out: "su_outcome res = ''reconciled''"
    proof -
      obtain bs account x1 x2 where su: "supplied (br_orders v) (br_orders_error v) (kc_orders k) w4 = (Inr bs, x1)"
        "supplied (br_account v) (br_account_error v) (kc_snapshot k) x1 = (Inr account, x2)" "both_agree bs account ?d d'"
        using wr(2) [OF out] by blast
      from read_broker_answers [OF r su(1,2)] env k s3 d3 have "broker_answers a refresh (st, d, w) bs account"
        by (auto simp: broker_answers_def Let_def)
      with su(3) agree show ?thesis by blast
    qed
    with wr(1,2) show ?thesis by blast
  qed
qed

text \<open>Settings with which a pass starts at all.\<close>

definition settings_ok :: "'w supervisor_args \<Rightarrow> bool" where
  "settings_ok a = (\<not> flt (sa_buy_ttl a) (Fin 0) \<and> \<not> flt (sa_sell_ttl a) (Fin 0) \<and> \<not> flt (sa_throttle a) (Fin 0)
     \<and> \<not> isl (expected_owner (sa_expected_owner a) (sa_owner a) (sa_service_owner a)))"

text \<open>
  (C16) A supervisor pass is fail-closed and does not raise. With well-formed settings it returns a result whatever the broker, the factory, the notifier and the
  database do. When the result blocks entries, the safety gate refuses every BUY on the database it leaves, whatever the guard, the time and the
  submitter. When it reports \<open>reconciled\<close>, the review flag is clear and both sides agree in what the broker answered in this very pass: every active local
  order is known to the order list with the same identity, the list has no open order of its own, and every local open quantity is the one of the
  account snapshot.
\<close>

theorem supervisor_fail_closed:
  assumes "settings_ok a"
  shows "\<exists>res st' d' w'. one_iteration a refresh v t (st, d, w) = (Inr res, st', d', w')
    \<and> (su_block res \<longrightarrow> (\<forall>g cal now others (submit :: kis_request \<Rightarrow> 'v \<Rightarrow> 'r result \<times> 'v) req x. kr_side req = BUY \<longrightarrow>
         (\<exists>m d''. guarded_submit g cal now others submit req (d', x) = (Inl (OrderSafetyGateError m), d'', x))))
    \<and> (su_outcome res = ''reconciled'' \<longrightarrow> \<not> flag ''operator_review'' d' \<and> flag ''block_new_entries'' d' = su_block res
         \<and> (\<exists>bs account. broker_answers a refresh (st, d, w) bs account
            \<and> list_all (agrees bs) (local_rows d)
            \<and> (\<forall>b\<in>set bs. still_open b \<longrightarrow> sr_order_number b \<in> order_id_of ` set (local_rows d))
            \<and> (\<forall>s. open_qty s (live_positions d') = quantity_in (broker_position_quantities account) s)))"
    (is "\<exists>res st' d' w'. _ \<and> ?blocks res d' \<and> ?releases res d'")
proof -
  have refused: "\<exists>m d''. guarded_submit g cal now others submit req (d', x) = (Inl (OrderSafetyGateError m), d'', x)"
    if "fst (init_schema d') \<noteq> Inr () \<or> flags_are rv True d'" "kr_side req = BUY" for g cal now others submit req d' x rv
  proof (cases "fst (init_schema d') = Inr ()")
    case True
    with that show ?thesis by (intro blocked_buy) (auto simp: flags_are_def)
  next
    case False
    then show ?thesis by (intro guarded_submit_blocked) (simp add: may_submit_def)
  qed
  from assms obtain owner where owner: "expected_owner (sa_expected_owner a) (sa_owner a) (sa_service_owner a) = Inr owner"
    by (cases "expected_owner (sa_expected_owner a) (sa_owner a) (sa_service_owner a)") (auto simp: settings_ok_def)
  let ?now = "to_utc (case v of None \<Rightarrow> pt_now t | Some x \<Rightarrow> x)"
  let ?later = "to_utc (case v of None \<Rightarrow> pt_after_error t | Some x \<Rightarrow> x)"
  have it: "one_iteration a refresh v t (st, d, w) = trying (supervise a refresh t ?now owner) (report_failure a t ?later) op_ret (st, d, w)"
    using assms owner by (simp add: one_iteration_def op_guard_def settings_ok_def)
  obtain q st1 d1 w1 where sup: "supervise a refresh t ?now owner (st, d, w) = (q, st1, d1, w1)" by (rule prod_cases4)
  show ?thesis
  proof (cases q)
    case (Inr res)
    with it sup have run: "one_iteration a refresh v t (st, d, w) = (Inr res, st1, d1, w1)" by (simp add: trying_def op_ret_def)
    note sr = supervise_run [OF sup [unfolded Inr]]
    from sr refused [of d1 "su_review res"] have blk: "?blocks res d1" by auto
    from sr have rel: "?releases res d1" by (auto simp: flags_are_def both_agree_def)
    from run blk rel show ?thesis by blast
  next
    case (Inl e)
    obtain r st2 d2 w2 where rep: "report_failure a t ?later e (st1, d1, w1) = (r, st2, d2, w2)" by (rule prod_cases4)
    from failure_run(2) [OF this] obtain res where res: "r = Inr res" "su_outcome res = ''error''" by blast
    with it sup Inl rep have run: "one_iteration a refresh v t (st, d, w) = (Inr res, st2, d2, w2)" by (simp add: trying_def)
    from failure_run(1) [OF rep] refused [of d2 True] have "?blocks res d2" by auto
    moreover from res have "?releases res d2" by simp
    ultimately show ?thesis using run by blast
  qed
qed

text \<open>
  A supervisor pass keeps the books: whatever the broker answers, and also when it ends in the exception branch, the ledger invariant and the balance of
  positions and applied fills survive; leases, audits, decisions and the watch list are as before.
\<close>

theorem supervisor_keeps_books:
  assumes "ledger_ok d" "balanced d" "one_iteration a refresh v t (st, d, w) = (r, st', d', w')"
  shows "ledger_ok d' \<and> balanced d' \<and> read_only_of d' = read_only_of d"
  using preserves_run [OF watched_books.keeps_iteration _ assms(3)] preserves_run [OF read_only.keeps_iteration [of "read_only_of d"] _ assms(3)] assms(1,2)
  by (simp add: below_def in_db_def books_ok_def)

section \<open>The operator's request is served once\<close>

definition served :: "db \<Rightarrow> bool" where
  "served d = (metadata_value d CANCEL_REQUEST_KEY = Some ''false'')"

lemma served_metadata: "key \<noteq> CANCEL_REQUEST_KEY \<Longrightarrow> preserves served (set_runtime_metadata key v now)"
  by (rule preservesI, cases "strip key = []") (simp_all add: served_def metadata_value_set set_runtime_metadata_blank)

lemma served_orders: "preserves served (update_orders p f)"
  by (rule preservesI) (simp add: served_def metadata_value_def update_orders_def)

lemma served_status: "preserves served (update_broker_order_status c st ob oq av e clk cm)"
  unfolding update_broker_order_status_def Let_def by (intro preserves_rules served_orders)

lemma served_flags: "preserves served (raise_flags now)"
  unfolding raise_flags_def by (intro preserves_bind served_metadata) (simp_all add: CANCEL_REQUEST_KEY_def)

lemma served_lose: "preserves served (lose_order now r why e n)"
  unfolding lose_order_def mark_order_unknown_def by (intro preserves_rules served_orders served_flags)

lemma served_reports: "preserves served (operator_marker c now)" "preserves served (set_cancel_status st n now)"
  unfolding operator_marker_def set_cancel_status_def
  by (intro served_metadata; simp add: CANCEL_REQUEST_KEY_def CANCEL_STATUS_KEY_def pending_key_def)+

lemma served_row: "preserves (in_db served) (cancel_row cancel now bs r n)"
  unfolding cancel_row_def cancel_buy_def call_cancel_def by (intro cancel_keeps served_lose served_status served_reports)

lemma served_rows: "preserves (in_db served) (cancel_rows cancel now bs rs n)"
  by (induction rs arbitrary: n) (auto intro: preserves_ret preserves_bind served_row)

lemma served_serve: "preserves (in_db served) (serve_request k now rows bs)"
  unfolding serve_request_def by (intro cancel_keeps served_rows served_reports)

lemma served_refuse: "preserves served (refuse_request now e)"
  unfolding refuse_request_def Let_def by (intro preserves_bind preserves_ret served_flags served_reports)

lemma run_at_db: "m d = (Inr y, d') \<Longrightarrow> op_bind (at_db m) k (d, w) = k y (d', w)"
  by (simp add: op_bind_def at_db_def)

lemma request_read: "op_bind (at_db (get_runtime_metadata CANCEL_REQUEST_KEY)) k (d, w) = k (metadata_value d CANCEL_REQUEST_KEY) (d, w)"
  using report_keys by (simp add: op_bind_def at_db_def get_runtime_metadata_def require_nonempty_def)

lemma not_requested: "\<not> cancel_requested (metadata_value d CANCEL_REQUEST_KEY) \<Longrightarrow> cancel_requested_buys k now bo be (d, w) = (Inr no_cancel, d, w)"
  by (simp add: cancel_requested_buys_def request_read op_ret_def)

lemma requested_served:
  assumes "cancel_requested (metadata_value d CANCEL_REQUEST_KEY)" "cancel_requested_buys k now bo be (d, w) = (r, d', w')"
  shows "served d'"
proof -
  let ?rest = "reading (open_buys \<circ> fst) (\<lambda>rows.
       if rows = [] then serve_request k now [] []
       else case be of Some e \<Rightarrow> at_db (refuse_request now e)
         | None \<Rightarrow> (case bo of Some bs \<Rightarrow> serve_request k now rows bs
             | None \<Rightarrow> trying (at_world (kc_orders k)) (\<lambda>e. at_db (refuse_request now e)) (serve_request k now rows)))"
  obtain x d1 where set: "set_runtime_metadata CANCEL_REQUEST_KEY ''false'' now d = (Inr x, d1)"
    using answersD [OF answers_metadata [OF report_keys(6)]] by blast
  have start: "in_db served (d1, w)" using metadata_value_set [OF report_keys(6), of "''false''" now d] set by (simp add: in_db_def served_def)
  have keep: "preserves (in_db served) ?rest" by (intro cancel_keeps served_serve served_refuse)
  have run: "?rest (d1, w) = (r, d', w')"
    using assms(2) [unfolded cancel_requested_buys_def request_read] assms(1)
    by (simp add: run_at_db [where m = "set_runtime_metadata CANCEL_REQUEST_KEY ''false'' now", OF set])
  from preserves_run [OF keep start run] show ?thesis by (simp add: in_db_def)
qed

text \<open>
  (C17) The operator's request to cancel the open BUY orders is served at most once. Whatever the broker answers, and also when the pass raises half way, the
  request is withdrawn when the pass ends, so that every later pass with any broker data reports nothing and touches neither the database nor the
  broker. Without a request a pass does nothing either.
\<close>

theorem operator_cancel_once:
  assumes "cancel_requested_buys k now bo be (d, w) = (r, d', w')"
  shows "\<not> cancel_requested (metadata_value d' CANCEL_REQUEST_KEY)
    \<and> cancel_requested_buys k2 now2 bo2 be2 (d', v) = (Inr no_cancel, d', v)
    \<and> (if cancel_requested (metadata_value d CANCEL_REQUEST_KEY) then True else r = Inr no_cancel \<and> d' = d \<and> w' = w)"
proof -
  have no: "\<not> cancel_requested (Some ''false'')" by code_simp
  have "\<not> cancel_requested (metadata_value d' CANCEL_REQUEST_KEY)
    \<and> (cancel_requested (metadata_value d CANCEL_REQUEST_KEY) \<or> r = Inr no_cancel \<and> d' = d \<and> w' = w)"
  proof (cases "cancel_requested (metadata_value d CANCEL_REQUEST_KEY)")
    case True
    with requested_served [OF True assms] no show ?thesis by (simp add: served_def)
  next
    case False
    with not_requested [OF False, of k now bo be w] assms show ?thesis by simp
  qed
  with not_requested [of d' k2 now2 bo2 be2 v] show ?thesis by auto
qed

section \<open>Which orders are cancelled\<close>

text \<open>The cancel calls that an operator request permits: an open BUY order of the ledger that the broker still works on, with the rest of it.\<close>

definition cancellable :: "db \<Rightarrow> status_record list \<Rightarrow> string \<Rightarrow> int \<Rightarrow> bool" where
  "cancellable d bs i q = (\<exists>r\<in>set (broker_orders d). \<exists>b\<in>set bs. bo_side r = BUY \<and> bo_status r \<in> {ACKNOWLEDGED, PARTIALLY_FILLED}
     \<and> bo_broker_order_id r = Some i \<and> sr_order_number b = i \<and> sr_side b = Some BUY \<and> sr_status b \<in> {KS_UNFILLED, KS_PARTIALLY_FILLED}
     \<and> 0 < q \<and> q = sr_remaining_quantity b)"

lemma by_broker_id_Some: "by_broker_id bs i = Some b \<Longrightarrow> b \<in> set bs \<and> sr_order_number b = i \<and> i \<noteq> []"
  by (auto simp: by_broker_id_def dest!: map_of_SomeD)

lemma cancel_row_permitted:
  assumes "r \<in> set (open_buys d)" and agree: "\<And>i br q p x. cancellable d bs i q \<Longrightarrow> cancel' i br q p x = cancel i br q p x"
  shows "cancel_row cancel' now bs r n s = cancel_row cancel now bs r n s"
proof -
  have "cancel_buy cancel' now r b branch n s = cancel_buy cancel now r b branch n s"
    if b: "by_broker_id bs (order_id_of r) = Some b" "sr_side b = Some BUY" "sr_status b \<in> {KS_UNFILLED, KS_PARTIALLY_FILLED}"
      "\<not> sr_remaining_quantity b \<le> 0" for b branch
  proof -
    have "cancellable d bs (sr_order_number b) (sr_remaining_quantity b)"
      using assms(1) b by_broker_id_Some [OF b(1)]
      by (auto simp: cancellable_def open_buys_def select_where_def order_id_of_def split: option.splits)
    then have "call_cancel cancel' r b branch = call_cancel cancel r b branch"
      by (auto simp: call_cancel_def at_world_def agree fun_eq_iff split: sum.split)
    then show ?thesis by (simp add: cancel_buy_def)
  qed
  then show ?thesis by (auto simp: cancel_row_def split: option.split)
qed

lemma cancel_rows_permitted:
  assumes "set rs \<subseteq> set (open_buys d)" and agree: "\<And>i br q p x. cancellable d bs i q \<Longrightarrow> cancel' i br q p x = cancel i br q p x"
  shows "cancel_rows cancel' now bs rs n s = cancel_rows cancel now bs rs n s"
  using assms(1)
proof (induction rs arbitrary: n s)
  case (Cons r rs)
  then show ?case
    using cancel_row_permitted [of r d bs cancel' cancel now n s] agree by (auto simp: op_bind_def split: prod.split sum.split)
qed simp

text \<open>
  (C39) An operator request cancels nothing but open BUY orders. The cancel function of the broker client matters only on the numbers of BUY orders that
  the ledger holds as acknowledged or partially filled, that the broker lists under the same number as a BUY still working, and with
  exactly the remaining positive quantity: with another function that agrees there, the pass does the same on ledger and broker.
\<close>

theorem operator_cancels_open_buys_only:
  assumes "\<And>i branch q p x. cancellable d bs i q \<Longrightarrow> cancel' i branch q p x = kc_cancel k i branch q p x"
  shows "cancel_requested_buys (k\<lparr>kc_cancel := cancel'\<rparr>) now (Some bs) None (d, w) = cancel_requested_buys k now (Some bs) None (d, w)"
proof -
  obtain x d1 where set: "set_runtime_metadata CANCEL_REQUEST_KEY ''false'' now d = (Inr x, d1)"
    using answersD [OF answers_metadata [OF report_keys(6)]] by blast
  then have "broker_orders d1 = broker_orders d" using report_keys(6) by (auto simp: set_runtime_metadata_def require_nonempty_def)
  then have same: "open_buys d1 = open_buys d" by (simp add: open_buys_def)
  have "cancel_rows cancel' now bs (open_buys d) no_cancel = cancel_rows (kc_cancel k) now bs (open_buys d) no_cancel"
    by (intro ext cancel_rows_permitted) (use assms in auto)
  then have "serve_request (k\<lparr>kc_cancel := cancel'\<rparr>) now (open_buys d) bs = serve_request k now (open_buys d) bs"
    by (simp add: serve_request_def)
  moreover have "serve_request (k\<lparr>kc_cancel := cancel'\<rparr>) now [] [] = serve_request k now [] []" by (simp add: serve_request_def)
  ultimately show ?thesis
    unfolding cancel_requested_buys_def request_read
    by (simp add: run_at_db [where m = "set_runtime_metadata CANCEL_REQUEST_KEY ''false'' now", OF set] reading_def same)
qed

section \<open>The daemon ends\<close>

text \<open>\<open>f\<close> counts the pauses that are left before the stop event is seen; nothing but a pause changes the time left, and no operation adds to it.\<close>

definition calm :: "('w \<Rightarrow> nat) \<Rightarrow> ('w \<Rightarrow> 'x \<times> 'w) \<Rightarrow> bool" where
  "calm f m = (\<forall>w. f (snd (m w)) \<le> f w)"

definition calm_clients :: "('w \<Rightarrow> nat) \<Rightarrow> 'w kis_clients \<Rightarrow> bool" where
  "calm_clients f k = (calm f (kc_orders k) \<and> calm f (kc_snapshot k) \<and> (\<forall>i br q p. calm f (kc_cancel k i br q p)))"

definition calm_args :: "('w \<Rightarrow> nat) \<Rightarrow> 'w supervisor_args \<Rightarrow> bool" where
  "calm_args f a = ((\<forall>env b. calm f (sa_factory a env b) \<and> (\<forall>w k. fst (sa_factory a env b w) = Inr k \<longrightarrow> calm_clients f k))
     \<and> (\<forall>send m. sa_notifier a = Some send \<longrightarrow> calm f (send m)) \<and> (\<forall>x. calm f (sa_sleeper a x)))"

definition at_most :: "('w \<Rightarrow> nat) \<Rightarrow> nat \<Rightarrow> 'w \<Rightarrow> bool" where
  "at_most f n w = (f w \<le> n)"

definition tame :: "('w \<Rightarrow> nat) \<Rightarrow> nat \<Rightarrow> 'w supervisor_state \<times> db \<times> 'w \<Rightarrow> bool" where
  "tame f n s = (case s of (st, d, w) \<Rightarrow> f w \<le> n \<and> (\<forall>k. ss_clients st = Some k \<longrightarrow> calm_clients f k))"

lemma calm_keeps: "calm f m \<Longrightarrow> preserves (at_most f n) m"
  by (auto simp: calm_def preserves_def at_most_def intro: le_trans)

lemma world_at_db: "preserves (in_world P) (at_db m)"
  by (auto simp: preserves_def in_world_def at_db_def split: prod.split)

lemma world_at_world: "preserves P m \<Longrightarrow> preserves (in_world P) (at_world m)"
  by (auto simp: preserves_def in_world_def at_world_def split: prod.split)

definition om_world :: "('w \<Rightarrow> bool) \<Rightarrow> 'w om_state \<Rightarrow> bool" where
  "om_world P s = P (snd (snd s))"

lemma om_world_steps: "preserves (om_world P) (on_db m)" "preserves (om_world P) (on_locals g)" "preserves P c \<Longrightarrow> preserves (om_world P) (on_world c)"
  by (auto simp: preserves_def om_world_def on_db_def on_locals_def on_world_def split: prod.split)

lemmas om_world_keeps = om_world_steps preserves_sum keeps_with_locals keeps_catching preserves_ret preserves_fail preserves_bind preserves_if preserves_option

lemma world_active:
  assumes "\<And>i br q p. preserves P (cancel i br q p)"
  shows "preserves (om_world P) (manage_active cal cancel cfg bar now clk r b)"
proof -
  have give: "preserves (om_world P) (give_up r e why now clk)" for e why
    unfolding give_up_def by (intro om_world_keeps)
  have req: "preserves (om_world P) (request_cancel cancel r b bar why now)" for b why
    unfolding request_cancel_def by (intro om_world_keeps assms)
  show ?thesis unfolding manage_active_def
    by (intro preserves_if preserves_option preserves_ret give)
      (auto split: sum.split prod.split option.split intro!: om_world_keeps give req)
qed

lemma world_manage:
  assumes "\<And>i br q p. preserves P (cancel i br q p)" "preserves P today" "P w"
  shows "om_world P (snd (manage_stale_orders cal today cancel cfg bar now clk go ge (d, w)))"
proof -
  have row: "preserves (om_world P) (manage_row cal cancel cfg bar now clk bs r)" for bs r
    unfolding manage_row_def Let_def by (intro om_world_keeps world_active assms(1))
  have rows: "preserves (om_world P) (manage_rows cal cancel cfg bar now clk bs rs)" for bs rs
    by (induction rs) (auto intro: om_world_keeps row)
  obtain q w1 where q: "supplied go ge today w = (q, w1)" by fastforce
  then have "P w1" using assms(2,3) by (auto simp: supplied_def split: option.splits dest: preserves_run)
  then have start: "om_world P (om_start, d, w1)" by (simp add: om_world_def)
  have blk: "preserves (om_world P) (op_bind (on_db (block_new_entries why clk)) (\<lambda>_. op_ret unavailable_report))" for why
    by (intro om_world_keeps)
  have all: "preserves (om_world P) (op_bind (manage_rows cal cancel cfg bar now clk bs rs) (\<lambda>_. close_pass n clk))" for bs rs n
    unfolding close_pass_def by (intro om_world_keeps rows)
  show ?thesis using q preservesD [OF blk start] preservesD [OF all start] by (cases q) (simp_all add: manage_stale_orders_def)
qed

lemma supplied_run: "supplied v e m w = (r, w') \<Longrightarrow> preserves P m \<Longrightarrow> P w \<Longrightarrow> P w'"
  by (auto simp: supplied_def preserves_def split: option.splits)

lemma world_reconcile:
  assumes "preserves P orders" "preserves P snapshot"
  shows "preserves (in_world P) (reconcile_broker_state orders snapshot now clk bo be ac ae)"
  by (rule preservesI)
    (auto simp: in_world_def reconcile_broker_state_def split: prod.split sum.split
      dest: supplied_run [OF _ assms(1)] supplied_run [OF _ assms(2)])

lemma client_calls:
  assumes "calm_clients f k"
  shows "preserves (at_most f n) (kc_orders k)" "preserves (at_most f n) (kc_snapshot k)" "preserves (at_most f n) (kc_cancel k i br q p)"
  using assms by (simp_all add: calm_clients_def calm_keeps)

lemma calm_cancel_requested:
  assumes "calm_clients f k"
  shows "preserves (in_world (at_most f n)) (cancel_requested_buys k now bo be)"
proof -
  note calls = client_calls [OF assms]
  have row: "preserves (in_world (at_most f n)) (cancel_row (kc_cancel k) now bs r c)" for bs r c
    unfolding cancel_row_def cancel_buy_def call_cancel_def
    by (intro preserves_bind preserves_ret preserves_fail preserves_if preserves_option preserves_either preserves_trying world_at_db world_at_world calls)
  have rows: "preserves (in_world (at_most f n)) (cancel_rows (kc_cancel k) now bs rs c)" for bs rs c
    by (induction rs arbitrary: c) (auto intro: preserves_ret preserves_bind row)
  show ?thesis unfolding cancel_requested_buys_def serve_request_def
    by (intro preserves_bind preserves_ret preserves_if preserves_option preserves_reading preserves_trying rows world_at_db world_at_world calls)
qed

lemma calm_manage:
  assumes "calm_clients f k"
  shows "preserves (in_world (at_most f n)) (manage_orders a k t now v)"
proof (rule preservesI)
  fix s
  assume "in_world (at_most f n) s"
  then have "om_world (at_most f n) (snd (manage_stale_orders (sa_calendar a) (kc_orders k) (kc_cancel k) cfg None now (pt_database t)
      (br_orders v) (br_orders_error v) s))" for cfg
    using world_manage [where P = "at_most f n" and cancel = "kc_cancel k" and today = "kc_orders k" and d = "fst s" and w = "snd s"] client_calls [OF assms]
    by (simp add: in_world_def)
  with \<open>in_world (at_most f n) s\<close> show "in_world (at_most f n) (snd (manage_orders a k t now v s))"
    by (auto simp: manage_orders_def in_world_def om_world_def split: sum.split prod.split) (metis snd_conv)
qed

text \<open>\<open>yields I R m\<close>: \<open>m\<close> keeps \<open>I\<close>, and a value that it returns satisfies \<open>R\<close>.\<close>

definition yields :: "('s \<Rightarrow> bool) \<Rightarrow> ('a \<Rightarrow> bool) \<Rightarrow> ('s \<Rightarrow> 'a result \<times> 's) \<Rightarrow> bool" where
  "yields I R m = (\<forall>s. I s \<longrightarrow> I (snd (m s)) \<and> (\<forall>x. fst (m s) = Inr x \<longrightarrow> R x))"

lemma yields_bind: "yields I R m \<Longrightarrow> (\<And>x. R x \<Longrightarrow> preserves I (k x)) \<Longrightarrow> preserves I (op_bind m k)"
  by (fastforce simp: yields_def preserves_def op_bind_def split: prod.split sum.split)

lemma tame_state: "(\<And>st. ss_clients (g st) = ss_clients st) \<Longrightarrow> preserves (tame f n) (on_state g)"
  by (auto simp: preserves_def tame_def on_state_def split: prod.split)

lemma tame_step: "preserves (in_world (at_most f n)) m \<Longrightarrow> preserves (tame f n) (on_books_and_broker m)"
  by (auto simp: preserves_def tame_def in_world_def at_most_def on_books_and_broker_def split: prod.split) (metis snd_conv)+

lemma tame_db: "preserves (tame f n) (sup_db m)"
  by (intro tame_step world_at_db)

lemma tame_notify: "calm_args f a \<Longrightarrow> preserves (tame f n) (notify_throttled (sa_notifier a) x st m)"
  by (auto simp: preserves_def tame_def notify_throttled_def calm_args_def calm_def split: option.split prod.split) (meson le_trans)+

lemma tame_force: "preserves (tame f n) (force_refresh_if b)"
  unfolding force_refresh_if_def by (intro preserves_if preserves_ret tame_state) simp

lemma tame_announce: "calm_args f a \<Longrightarrow> preserves (tame f n) (announce a t status env paused reasons)"
  unfolding announce_def by (intro preserves_if preserves_bind preserves_reading tame_state tame_notify preserves_ret; simp)

lemma tame_publish: "calm_args f a \<Longrightarrow> preserves (tame f n) (publish a t now env paused review blocked reasons cr)"
  unfolding publish_def Let_def
  by (intro preserves_bind preserves_reading preserves_ret tame_state tame_db tame_announce) (simp_all add: count_streaks_def)

lemma tame_work:
  assumes "calm_args f a" "calm_clients f k"
  shows "preserves (tame f n) (work_with_broker a k t now env paused v)"
  unfolding work_with_broker_def
  by (intro preserves_bind tame_step tame_force tame_publish world_reconcile client_calls calm_cancel_requested calm_manage assms)

lemma read_broker_calm:
  assumes "calm_args f a" "calm_clients f k"
  shows "preserves (at_most f n) (read_broker a k)"
proof -
  have "preserves (at_most f n) (read_account k bs)" for bs
    using preservesD [OF client_calls(2) [OF assms(2)], of n]
    by (auto simp: preserves_def read_account_def split: prod.split sum.split) (metis snd_conv)+
  moreover have "preserves (at_most f n) (sa_sleeper a x)" for x using assms(1) by (simp add: calm_args_def calm_keeps)
  ultimately show ?thesis
    unfolding read_broker_def by (intro preserves_trying preserves_bind preserves_if preserves_ret client_calls assms)
qed

lemma ensure_yields:
  assumes "calm_args f a"
  shows "yields (tame f n) (calm_clients f) (ensure_clients a refresh env)"
proof -
  let ?build = "\<lambda>st. op_bind (sup_world (sa_factory a env (refresh \<or> ss_force_refresh st))) (\<lambda>k.
      op_bind (on_state (\<lambda>st. st\<lparr>ss_clients := Some k, ss_environment := Some env, ss_force_refresh := False\<rparr>)) (\<lambda>_. op_ret k))"
  have build: "tame f n (snd (?build st0 s)) \<and> (\<forall>x. fst (?build st0 s) = Inr x \<longrightarrow> calm_clients f x)" if s: "tame f n s" for s st0
  proof -
    obtain st d w where st: "s = (st, d, w)" by (rule prod_cases3)
    obtain q w' where q: "sa_factory a env (refresh \<or> ss_force_refresh st0) w = (q, w')" by (rule prod.exhaust)
    have "f (snd (sa_factory a env (refresh \<or> ss_force_refresh st0) w)) \<le> f w" using assms by (simp only: calm_args_def calm_def)
    with q s st have "f w' \<le> n" by (simp add: tame_def)
    moreover have "q = Inr k \<longrightarrow> calm_clients f k" for k
      using assms q by (metis calm_args_def fst_conv)
    ultimately show ?thesis
      using q s st by (cases q) (auto simp: op_bind_def on_books_and_broker_def at_world_def on_state_def op_ret_def tame_def)
  qed
  show ?thesis unfolding yields_def
  proof (intro allI impI)
    fix s assume s: "tame f n s"
    obtain st x where st: "s = (st, x)" by (rule prod.exhaust)
    have k: "calm_clients f k" if "ss_clients st = Some k" for k using s st that by (auto simp: tame_def)
    show "tame f n (snd (ensure_clients a refresh env s)) \<and> (\<forall>x. fst (ensure_clients a refresh env s) = Inr x \<longrightarrow> calm_clients f x)"
    proof (cases "ss_clients st")
      case None
      with build [OF s, of st] st show ?thesis by (simp add: ensure_clients_def reading_def Let_def)
    next
      case (Some c)
      with build [OF s, of st] st s k show ?thesis by (simp add: ensure_clients_def reading_def Let_def op_ret_def)
    qed
  qed
qed

lemma tame_iteration:
  assumes "calm_args f a"
  shows "preserves (tame f n) (one_iteration a refresh v t)"
proof -
  have refused: "preserves (tame f n) (lease_refused a t now)" for now
    unfolding lease_refused_def by (intro preserves_bind preserves_ret tame_state tame_db tame_notify assms; simp)
  have go: "preserves (tame f n) (op_bind (ensure_clients a refresh env) (\<lambda>k. op_bind (sup_world (read_broker a k)) (work_with_broker a k t now env p)))"
    for env now p
    by (rule yields_bind [OF ensure_yields [OF assms]])
      (intro preserves_bind tame_step world_at_world read_broker_calm tame_work assms)
  have sup: "preserves (tame f n) (supervise a refresh t now owner)" for now owner
    unfolding supervise_def by (intro preserves_bind preserves_if preserves_reading preserves_either preserves_fail tame_db refused go)
  have fail: "preserves (tame f n) (report_failure a t now e)" for now e
    unfolding report_failure_def supervision_failed_def
    by (intro preserves_bind preserves_trying preserves_reading preserves_ret tame_state tame_db tame_force tame_notify assms; simp)
  show ?thesis unfolding one_iteration_def
    by (intro preserves_guard preserves_either preserves_fail preserves_trying preserves_ret sup fail)
qed

lemma pause_calm:
  assumes "calm f (dm_monotonic dm)" "pause_after dm interval backoff started r w = (p, w')"
  shows "f w' \<le> f w"
  using assms by (auto simp: pause_after_def calm_def split: if_splits prod.splits) (metis snd_conv)

lemma daemon_steps:
  assumes "calm_args f a" "calm f (dm_stopped dm)" "calm f (dm_monotonic dm)" "calm f (dm_times dm)"
    and wait: "\<And>x w w'. dm_wait dm x w = (False, w') \<Longrightarrow> f w' < f w"
  shows "tame f n s \<Longrightarrow> n < fuel \<Longrightarrow> \<exists>y. daemon_loop fuel a dm interval refresh backoff previous s = Some y"
proof (induction fuel arbitrary: n s refresh backoff previous)
  case (Suc fuel)
  obtain st d w where s: "s = (st, d, w)" by (rule prod_cases3)
  obtain stop w1 where w1: "dm_stopped dm w = (stop, w1)" by (rule prod.exhaust)
  obtain started w2 where w2: "dm_monotonic dm w1 = (started, w2)" by (rule prod.exhaust)
  obtain t w3 where w3: "dm_times dm w2 = (t, w3)" by (rule prod.exhaust)
  obtain q st4 d4 w4 where it: "one_iteration a refresh None t (st, d, w3) = (q, st4, d4, w4)" by (rule prod_cases4)
  have "f w1 \<le> f w" "f w2 \<le> f w1" "f w3 \<le> f w2"
    using assms(2-4) w1 w2 w3 by (metis calm_def snd_conv)+
  with Suc.prems s have "tame f n (st, d, w3)" by (simp add: tame_def)
  from preserves_run [OF tame_iteration [OF assms(1)] this it] have t4: "tame f n (st4, d4, w4)" .
  show ?case
  proof (cases "stop \<or> isl q \<or> (\<exists>r. q = Inr r \<and> su_outcome r = ''lease_invalid'')")
    case True
    then show ?thesis using s w1 w2 w3 it by (cases q) auto
  next
    case False
    then obtain r where r: "q = Inr r" "su_outcome r \<noteq> ''lease_invalid''" "\<not> stop" by (cases q) auto
    let ?st = "if pass_failed r then retry_refresh r st4 else st4"
    obtain pause backoff' w5 where w5: "pause_after dm interval backoff started r w4 = ((pause, backoff'), w5)" by (metis prod.exhaust)
    obtain stop2 w6 where w6: "dm_wait dm pause w5 = (stop2, w6)" by (rule prod.exhaust)
    have run: "daemon_loop (Suc fuel) a dm interval refresh backoff previous s = (if stop2 then Some (Inr (Some r), ?st, d4, w6)
        else daemon_loop fuel a dm interval False backoff' (Some r) (?st, d4, w6))"
      using s w1 w2 w3 it r w5 w6 by (simp add: Let_def)
    show ?thesis
    proof (cases stop2)
      case True
      with run show ?thesis by simp
    next
      case go: False
      have "f w6 < n" using wait w6 go pause_calm [OF assms(3) w5] t4 by (fastforce simp: tame_def)
      then have "tame f (n - 1) (?st, d4, w6)" using t4 by (auto simp: tame_def retry_refresh_def)
      from Suc.IH [OF this] Suc.prems(2) \<open>f w6 < n\<close> go show ?thesis by (simp only: run) auto
    qed
  qed
qed simp

text \<open>
  (C40) The daemon ends. If the stop event is seen after finitely many pauses (\<open>f\<close> counts what is left: a pause without the event takes one off, and no
  call of the factory, the clients, the notifier or the clocks adds to it), the daemon returns after at most that many further passes,
  whatever the passes do, with every interval, settings and database.
\<close>

theorem daemon_terminates:
  assumes "calm_args f a" "calm f (dm_stopped dm)" "calm f (dm_monotonic dm)" "calm f (dm_times dm)"
    and "\<And>x w w'. dm_wait dm x w = (False, w') \<Longrightarrow> f w' < f w"
  shows "\<exists>y. run_order_supervisor (Suc (f w)) a dm interval refresh (d, w) = Some y"
proof -
  have "tame f (f w) (new_supervisor_state, d, w)" by (simp add: tame_def new_supervisor_state_def)
  then have "\<exists>y. daemon_loop (Suc (f w)) a dm interval refresh (Fin 5) None (new_supervisor_state, d, w) = Some y"
    by (rule daemon_steps [OF assms(1-4), rotated]) (simp_all add: assms(5))
  then show ?thesis by (auto simp: run_order_supervisor_def simp del: daemon_loop.simps)
qed

section \<open>Concrete passes\<close>

text \<open>A supervisor without credentials, with nothing to wait for; the world is a number.\<close>

definition idle_args :: "nat supervisor_args" where
  "idle_args = \<lparr>sa_buy_ttl = Fin 60, sa_sell_ttl = Fin 30, sa_throttle = Fin 0, sa_expected_owner = None, sa_owner = None, sa_service_owner = None,
     sa_calendar = None, sa_factory = (\<lambda>env refresh w. (Inl (ValueError ''credentials are unavailable''), w)), sa_notifier = None,
     sa_sleeper = (\<lambda>x w. (Inr (), w))\<rparr>"

definition sample_times :: pass_times where
  "sample_times = \<lparr>pt_now = sample_time, pt_database = sample_time, pt_after_error = sample_time, pt_monotonic = Fin 0\<rparr>"

definition watched_db :: db where
  "watched_db = empty_db\<lparr>service_leases := [\<lparr>sl_lease_name = ''trading-service'', sl_owner_id = ''o'', sl_acquired_at = ''2026-01-05T00:00:00+00:00'',
     sl_renewed_at = ''2026-01-05T00:00:00+00:00'', sl_expires_at = iso sample_deadline\<rparr>]\<rparr>"

lemma utc_us_to_utc: "in_range_us (utc_us v) \<Longrightarrow> utc_us (to_utc v) = utc_us v"
  by (simp add: to_utc_def utc_us_def [of "of_local_us _ _"] in_range_us_def local_us_of_local_us tz_us_def)

lemma watched_lease: "lease_is_valid None (to_utc sample_time) (watched_db\<lparr>control_row := c\<rparr>) = (Inr True, watched_db\<lparr>control_row := c\<rparr>)"
proof -
  have "utc_us sample_deadline = 63903256320000000" by (simp add: utc_us_def sample_deadline tz_us_def)
  then have times: "utc_us (to_utc (to_utc sample_time)) = 63903256200000000" "utc_us (to_utc sample_deadline) = 63903256320000000"
    by (simp_all add: utc_us_to_utc utc_us_sample_time in_range_us_def)
  have "fromisoformat (iso sample_deadline) = Some sample_deadline"
    using fromisoformat_isoformat_wf [OF sample_deadline(1)] by (simp add: iso_def)
  then have expiry: "lease_timestamp (iso sample_deadline) = Some (to_utc sample_deadline)" by (simp add: lease_timestamp_def)
  let ?d = "watched_db\<lparr>control_row := c\<rparr>"
  let ?row = "\<lparr>sl_lease_name = ''trading-service'', sl_owner_id = ''o'', sl_acquired_at = ''2026-01-05T00:00:00+00:00'',
     sl_renewed_at = ''2026-01-05T00:00:00+00:00'', sl_expires_at = iso sample_deadline\<rparr>"
  have "get_service_lease SERVICE_LEASE_NAME ?d = (Inr (Some ?row), ?d)"
    by (simp add: get_service_lease_def require_nonempty_def SERVICE_LEASE_NAME_def watched_db_def empty_db_def fetchone_def string_eval)
  then show ?thesis by (simp add: lease_is_valid_def op_bind_def op_ret_def expiry times)
qed

lemma watched_failure:
  "\<exists>e s'. supervise idle_args False sample_times (to_utc sample_time) None (new_supervisor_state, watched_db, 0) = (Inl e, s')"
proof -
  let ?d = "watched_db\<lparr>control_row := Some default_control\<rparr>"
  have opened: "init_schema watched_db = (Inr (), ?d)" by (simp add: init_schema_def init_control_def watched_db_def empty_db_def)
  have env: "parse_environment (rc_environment (get_runtime_control ?d)) = Inr ENV_DEMO"
    by (simp add: get_runtime_control_def default_control_def watched_db_def empty_db_def) code_simp
  show ?thesis
    unfolding supervise_def run_db [where m = init_schema, OF opened] run_db [where m = "lease_is_valid None (to_utc sample_time)", OF watched_lease]
    by (simp add: reading_def env ensure_clients_def Let_def new_supervisor_state_def op_bind_def on_books_and_broker_def at_world_def idle_args_def)
qed

theorem supervisor_fail_closed_witness:
  "\<exists>res st' d' w'. one_iteration idle_args False None sample_times (new_supervisor_state, watched_db, 0) = (Inr res, st', d', w')
     \<and> su_outcome res = ''error'' \<and> (\<forall>g cal now others submit req x. \<exists>m d''. guarded_submit g cal now others submit (req\<lparr>kr_side := BUY\<rparr>) (d', x :: nat)
          = (Inl (OrderSafetyGateError m) :: unit result, d'', x))"
proof -
  have ok: "settings_ok idle_args" by (simp add: settings_ok_def idle_args_def expected_owner_def str_or_def)
  from watched_failure obtain e st1 d1 w1 where
    sup: "supervise idle_args False sample_times (to_utc sample_time) None (new_supervisor_state, watched_db, 0) = (Inl e, st1, d1, w1)"
    by (metis prod_cases3)
  have it: "one_iteration idle_args False None sample_times (new_supervisor_state, watched_db, 0)
      = report_failure idle_args sample_times (to_utc sample_time) e (st1, d1, w1)"
    using sup by (simp add: one_iteration_def op_guard_def idle_args_def sample_times_def expected_owner_def str_or_def trying_def)
  obtain r st2 d2 w2 where rep: "report_failure idle_args sample_times (to_utc sample_time) e (st1, d1, w1) = (r, st2, d2, w2)" by (rule prod_cases4)
  from failure_run(2) [OF this] obtain res where res: "r = Inr res" "su_outcome res = ''error''" "su_block res" by blast
  from supervisor_fail_closed [where 'v = nat and 'r = unit, OF ok, of False None sample_times new_supervisor_state watched_db 0] it rep res
  have "kr_side req = BUY \<Longrightarrow> \<exists>m d''. guarded_submit g cal now others submit req (d2, x :: nat) = (Inl (OrderSafetyGateError m) :: unit result, d'', x)"
    for g cal now others submit req x by auto
  with it rep res show ?thesis by auto
qed

theorem supervisor_keeps_books_witness:
  "ledger_ok sample_ledger \<and> balanced sample_ledger
     \<and> ledger_ok (fst (snd (snd (one_iteration idle_args False None sample_times (new_supervisor_state, sample_ledger, 0)))))"
proof -
  have bal: "balanced sample_ledger"
    by (simp add: balanced_def applied_qty_def is_applied_def [abs_def] open_qty_def sample_ledger_simps exists_where_def)
  obtain r st' d' w' where run: "one_iteration idle_args False None sample_times (new_supervisor_state, sample_ledger, 0) = (r, st', d', w')"
    by (rule prod_cases4)
  from supervisor_keeps_books [OF sample_ledger_ok bal run] sample_ledger_ok bal run show ?thesis by simp
qed

text \<open>Clients that report nothing; the cancel call is acknowledged and counted.\<close>

definition quiet_clients :: "nat kis_clients" where
  "quiet_clients = \<lparr>kc_orders = (\<lambda>w. (Inr [], w)), kc_cancel = acked, kc_snapshot = (\<lambda>w. (Inr no_account, w))\<rparr>"

definition requested_db :: db where
  "requested_db = sample_ledger\<lparr>runtime_metadata := [\<lparr>md_key = CANCEL_REQUEST_KEY, md_value = '' True'', md_updated_at = []\<rparr>]\<rparr>"

lemma requested_there: "cancel_requested (metadata_value requested_db CANCEL_REQUEST_KEY)"
  by (simp add: requested_db_def metadata_value_def fetchone_def) code_simp

theorem operator_cancel_once_witness:
  "cancel_requested (metadata_value requested_db CANCEL_REQUEST_KEY)
     \<and> \<not> cancel_requested (metadata_value (fst (snd (cancel_requested_buys quiet_clients sample_time (Some [still_working]) None (requested_db, 0)))) CANCEL_REQUEST_KEY)"
proof -
  obtain r d' w' where run: "cancel_requested_buys quiet_clients sample_time (Some [still_working]) None (requested_db, 0) = (r, d', w')"
    by (rule prod_cases3)
  from operator_cancel_once [OF run, of quiet_clients sample_time None None 0] requested_there run show ?thesis by simp
qed

theorem operator_cancels_open_buys_only_witness:
  "cancellable requested_db [still_working] ''b1'' 6
     \<and> cancel_requested_buys (quiet_clients\<lparr>kc_cancel := (\<lambda>i br q p n. if i = ''b1'' then acked i br q p n else (Inl (RuntimeError []), n + 100))\<rparr>)
         sample_time (Some [still_working]) None (requested_db, 0)
       = cancel_requested_buys quiet_clients sample_time (Some [still_working]) None (requested_db, 0)"
    (is "_ \<and> ?left = ?right")
proof (intro conjI)
  have orders: "broker_orders requested_db = [sample_order]" by (simp add: requested_db_def sample_ledger_simps)
  show "cancellable requested_db [still_working] ''b1'' 6" by (simp add: cancellable_def orders) (simp add: sample_row_simps)
  show "?left = ?right"
  proof (rule operator_cancels_open_buys_only)
    show "(if i = ''b1'' then acked i br q p n else (Inl (RuntimeError []), n + 100)) = kc_cancel quiet_clients i br q p n"
      if "cancellable requested_db [still_working] i q" for i br q p n
    proof -
      from that have "i = ''b1''" by (simp add: cancellable_def orders) (simp add: sample_row_simps)
      then show ?thesis by (simp add: quiet_clients_def)
    qed
  qed
qed

text \<open>A stop event that is set after as many pauses as the world says.\<close>

definition counting :: "nat daemon" where
  "counting = \<lparr>dm_stopped = (\<lambda>w. (False, w)), dm_wait = (\<lambda>x w. (w = 0, w - 1)), dm_monotonic = (\<lambda>w. (Fin 0, w)), dm_times = (\<lambda>w. (sample_times, w))\<rparr>"

theorem daemon_terminates_witness:
  "\<exists>y. run_order_supervisor (Suc 3) idle_args counting (Fin 5) False (watched_db, 3) = Some y"
proof (rule daemon_terminates [where f = "\<lambda>w. w"])
  show "calm_args (\<lambda>w. w) idle_args" by (simp add: calm_args_def calm_def idle_args_def)
  show "calm (\<lambda>w. w) (dm_stopped counting)" "calm (\<lambda>w. w) (dm_monotonic counting)" "calm (\<lambda>w. w) (dm_times counting)"
    by (simp_all add: calm_def counting_def)
  show "w' < w" if "dm_wait counting x w = (False, w')" for x w w' using that by (auto simp: counting_def)
qed

end
