(* ===== verification/RiskSnapshot.thy ===== *)
theory RiskSnapshot
  imports RiskEngine AccountClient SafetyGate Features "HOL-Library.AList"
begin

text \<open>
  The figures that the entry gate works with (\<open>risk/portfolio_snapshot.py\<close>) and the net results behind them
  (\<open>ops/performance.py\<close>): FIFO matching of the broker's fills, the day's realized result and the streak of losses, and the view
  that the gate may use only when nothing in it is unknown. The environment variables with the cost rates are a parameter. Stored quantities are 64-bit
  integers, so their conversion to a float does not raise. Shown: FIFO matching accepts a history exactly when no sale exceeds what was bought
  before, and a view that lets entries pass has every figure from a trusted source.
\<close>

section \<open>Fills, lots and costs\<close>

text \<open>\<open>SELECT f.*, COALESCE(a.strategy, 'UNKNOWN') .. ORDER BY f.filled_at, f.fill_id\<close>\<close>

record fill_view =
  fv_fill :: broker_fill
  fv_strategy :: string

definition strategy_of :: "db \<Rightarrow> broker_order \<Rightarrow> string" where
  "strategy_of d r = (case fetchone (\<lambda>a. bo_signal_id r = Some (ad_decision_id a)) (ai_decision_audits d) of
      None \<Rightarrow> ''UNKNOWN'' | Some a \<Rightarrow> ad_strategy a)"

definition fill_view_of :: "db \<Rightarrow> broker_fill \<Rightarrow> fill_view list" where
  "fill_view_of d f = (case fetchone (\<lambda>r. bo_client_order_id r = bf_client_order_id f) (broker_orders d) of
      None \<Rightarrow> [] | Some r \<Rightarrow> [\<lparr>fv_fill = f, fv_strategy = strategy_of d r\<rparr>])"

definition fill_order :: "fill_view \<Rightarrow> string \<times> string" where
  "fill_order v = (bf_filled_at (fv_fill v), bf_fill_id (fv_fill v))"

definition fill_history :: "db \<Rightarrow> fill_view list" where
  "fill_history d = sort_key fill_order (concat (map (fill_view_of d) (broker_fills d)))"

definition env_bps :: "(string \<Rightarrow> string option) \<Rightarrow> string \<Rightarrow> pyfloat \<Rightarrow> pyfloat" where
  "env_bps getenv name fallback = (case getenv name of None \<Rightarrow> fallback
     | Some v \<Rightarrow> (case float_of_str v of None \<Rightarrow> fallback | Some x \<Rightarrow> x))"

definition cost_bps_from_env :: "(string \<Rightarrow> string option) \<Rightarrow> pyfloat \<times> pyfloat" where
  "cost_bps_from_env getenv = (env_bps getenv ''ESTIMATED_BUY_COST_BPS'' (Fin 15), env_bps getenv ''ESTIMATED_SELL_COST_BPS'' (Fin 15))"

record lot =
  lo_quantity :: int
  lo_price :: pyfloat
  lo_strategy :: string

text \<open>
  \<open>while remaining\<close>: the parts of the lots that a sale takes, first in first out, and the lots that are left; None when the lots
  run out.
\<close>

fun take_lots :: "int \<Rightarrow> lot list \<Rightarrow> ((lot \<times> int) list \<times> lot list) option" where
  "take_lots remaining [] = (if remaining = 0 then Some ([], []) else None)"
| "take_lots remaining (l # ls) = (if remaining = 0 then Some ([], l # ls)
     else let matched = min remaining (lo_quantity l) in
       if matched = lo_quantity l
       then map_option (\<lambda>(ms, rest). ((l, matched) # ms, rest)) (take_lots (remaining - matched) ls)
       else map_option (\<lambda>(ms, rest). ((l, matched) # ms, rest)) (take_lots (remaining - matched) (l\<lparr>lo_quantity := lo_quantity l - matched\<rparr> # ls)))"

type_synonym lot_inventory = "string \<Rightarrow> lot list"

definition valid_fill :: "broker_fill \<Rightarrow> bool" where
  "valid_fill f = (bf_symbol f \<noteq> [] \<and> 0 < bf_quantity f \<and> \<not> fle (bf_price f) (Fin 0))"

definition lot_of :: "fill_view \<Rightarrow> lot" where
  "lot_of v = \<lparr>lo_quantity = bf_quantity (fv_fill v), lo_price = bf_price (fv_fill v),
     lo_strategy = (if strip (fv_strategy v) = [] then ''UNKNOWN'' else strip (fv_strategy v))\<rparr>"

text \<open>One fill against the inventory: the matched parts of a sale (none for a purchase) and the inventory after it.\<close>

definition fifo_step :: "fill_view \<Rightarrow> lot_inventory \<Rightarrow> ((lot \<times> int) list \<times> lot_inventory) option" where
  "fifo_step v lots = (let f = fv_fill v; symbol = bf_symbol f in
     case bf_side f of
       BUY \<Rightarrow> Some ([], lots(symbol := lots symbol @ [lot_of v]))
     | SELL \<Rightarrow> map_option (\<lambda>(ms, rest). (ms, lots(symbol := rest))) (take_lots (bf_quantity f) (lots symbol)))"

section \<open>The performance report\<close>

record strategy_performance =
  st_strategy :: string
  st_closed_trades :: nat
  st_gross_realized_pnl :: pyfloat
  st_estimated_costs :: pyfloat
  st_net_realized_pnl :: pyfloat

record strategy_accumulator =
  sp_closed_trades :: nat
  sp_gross :: pyfloat
  sp_costs :: pyfloat
  sp_net :: pyfloat

definition no_trades :: strategy_accumulator where
  "no_trades = \<lparr>sp_closed_trades = 0, sp_gross = Fin 0, sp_costs = Fin 0, sp_net = Fin 0\<rparr>"

record performance_report =
  pr_closed_trades :: nat
  pr_gross :: pyfloat
  pr_costs :: pyfloat
  pr_net :: pyfloat
  pr_wins :: nat
  pr_losses :: nat
  pr_win_rate :: pyfloat
  pr_average_win :: pyfloat
  pr_average_loss :: pyfloat
  pr_profit_factor :: pyfloat
  pr_max_drawdown :: pyfloat
  pr_buy_cost_bps :: pyfloat
  pr_sell_cost_bps :: pyfloat
  pr_outcomes :: "pyfloat list"
  pr_by_strategy :: "(string \<times> strategy_performance) list"

text \<open>The locals of the loop.\<close>

record performance =
  pe_lots :: lot_inventory
  pe_outcomes :: "pyfloat list"
  pe_gross :: pyfloat
  pe_costs :: pyfloat
  pe_by_strategy :: "(string \<times> strategy_accumulator) list"

definition no_performance :: performance where
  "no_performance = \<lparr>pe_lots = (\<lambda>s. []), pe_outcomes = [], pe_gross = Fin 0, pe_costs = Fin 0, pe_by_strategy = []\<rparr>"

definition bps_of :: "pyfloat \<Rightarrow> pyfloat \<Rightarrow> pyfloat" where
  "bps_of amount bps = fquot (fmul amount bps) (Fin 10000)"

text \<open>\<open>defaultdict\<close>: a new strategy starts from zero, at the end of the dictionary.\<close>

definition account_trade :: "string \<Rightarrow> pyfloat \<Rightarrow> pyfloat \<Rightarrow> pyfloat \<Rightarrow> (string \<times> strategy_accumulator) list \<Rightarrow> (string \<times> strategy_accumulator) list" where
  "account_trade strategy gross costs net t =
     (let a = (case map_of t strategy of None \<Rightarrow> no_trades | Some a \<Rightarrow> a)
      in AList.update strategy \<lparr>sp_closed_trades = Suc (sp_closed_trades a), sp_gross = fadd (sp_gross a) gross, sp_costs = fadd (sp_costs a) costs,
           sp_net = fadd (sp_net a) net\<rparr> t)"

definition close_part :: "pyfloat \<Rightarrow> pyfloat \<Rightarrow> pyfloat \<Rightarrow> lot \<times> int \<Rightarrow> performance \<Rightarrow> performance" where
  "close_part buy_bps sell_bps price part p = (case part of (l, matched) \<Rightarrow>
     let buy_notional = fmul (lo_price l) (f_int matched); sell_notional = fmul price (f_int matched);
         gross = fsub sell_notional buy_notional; costs = fadd (bps_of buy_notional buy_bps) (bps_of sell_notional sell_bps); net = fsub gross costs
     in p\<lparr>pe_outcomes := pe_outcomes p @ [net], pe_gross := fadd (pe_gross p) gross, pe_costs := fadd (pe_costs p) costs,
          pe_by_strategy := account_trade (lo_strategy l) gross costs net (pe_by_strategy p)\<rparr>)"

definition report_fill :: "pyfloat \<Rightarrow> pyfloat \<Rightarrow> fill_view \<Rightarrow> performance \<Rightarrow> performance result" where
  "report_fill buy_bps sell_bps v p = guard_else (\<not> valid_fill (fv_fill v)) (ValueError ''invalid broker fill row'')
     (case fifo_step v (pe_lots p) of
        None \<Rightarrow> Inl (ValueError (''sell exceeds FIFO inventory for '' @ bf_symbol (fv_fill v)))
      | Some (parts, lots) \<Rightarrow> Inr ((fold (close_part buy_bps sell_bps (bf_price (fv_fill v))) parts p)\<lparr>pe_lots := lots\<rparr>))"

fun report_fills :: "pyfloat \<Rightarrow> pyfloat \<Rightarrow> fill_view list \<Rightarrow> performance \<Rightarrow> performance result" where
  "report_fills buy_bps sell_bps [] p = Inr p"
| "report_fills buy_bps sell_bps (v # vs) p = rbind (report_fill buy_bps sell_bps v p) (report_fills buy_bps sell_bps vs)"

text \<open>\<open>round(x, 10)\<close>: the exact value to ten decimals, halves to even, and the nearest float of that.\<close>

fun round10 :: "pyfloat \<Rightarrow> pyfloat" where
  "round10 (Fin x) = fl (of_int (round_even (x * 10000000000)) / 10000000000)"
| "round10 x = x"

definition ratio :: "nat \<Rightarrow> nat \<Rightarrow> pyfloat" where
  "ratio a b = (if b = 0 then Fin 0 else fl (of_nat a / of_nat b))"

definition average :: "pyfloat list \<Rightarrow> pyfloat" where
  "average xs = (if xs = [] then Fin 0 else round10 (fquot (fsum xs) (f_int (int (length xs)))))"

text \<open>Equity, its peak and the deepest fall below it.\<close>

definition drawdown_step :: "pyfloat \<Rightarrow> pyfloat \<times> pyfloat \<times> pyfloat \<Rightarrow> pyfloat \<times> pyfloat \<times> pyfloat" where
  "drawdown_step outcome s = (case s of (equity, peak, drawdown) \<Rightarrow>
     let equity' = fadd equity outcome; peak' = fmax peak equity' in (equity', peak', fmax drawdown (fsub peak' equity')))"

definition max_drawdown :: "pyfloat list \<Rightarrow> pyfloat" where
  "max_drawdown outcomes = snd (snd (fold drawdown_step outcomes (Fin 0, Fin 0, Fin 0)))"

definition profit_factor :: "pyfloat list \<Rightarrow> pyfloat list \<Rightarrow> pyfloat result" where
  "profit_factor wins losses = (if losses \<noteq> [] then fdiv (fsum wins) (fabs (fsum losses)) else Inr (if wins \<noteq> [] then PInf else Fin 0))"

definition strategy_report :: "string \<Rightarrow> strategy_accumulator \<Rightarrow> strategy_performance" where
  "strategy_report strategy a = \<lparr>st_strategy = strategy, st_closed_trades = sp_closed_trades a, st_gross_realized_pnl = round10 (sp_gross a),
     st_estimated_costs = round10 (sp_costs a), st_net_realized_pnl = round10 (sp_net a)\<rparr>"

definition summarize :: "pyfloat \<Rightarrow> pyfloat \<Rightarrow> performance \<Rightarrow> performance_report result" where
  "summarize buy_bps sell_bps p =
     (let outcomes = pe_outcomes p; wins = filter (flt (Fin 0)) outcomes; losses = filter (\<lambda>x. flt x (Fin 0)) outcomes in
      rbind (profit_factor wins losses) (\<lambda>factor. Inr \<lparr>pr_closed_trades = length outcomes, pr_gross = round10 (pe_gross p), pr_costs = round10 (pe_costs p),
        pr_net = round10 (fsub (pe_gross p) (pe_costs p)), pr_wins = length wins, pr_losses = length losses,
        pr_win_rate = ratio (length wins) (length wins + length losses), pr_average_win = average wins, pr_average_loss = average losses,
        pr_profit_factor = round10 factor, pr_max_drawdown = round10 (max_drawdown outcomes), pr_buy_cost_bps = buy_bps, pr_sell_cost_bps = sell_bps,
        pr_outcomes = map round10 outcomes, pr_by_strategy = map (\<lambda>(k, a). (k, strategy_report k a)) (pe_by_strategy p)\<rparr>))"

definition build_performance_report ::
  "(string \<Rightarrow> string option) \<Rightarrow> pyfloat option \<Rightarrow> pyfloat option \<Rightarrow> fill_view list \<Rightarrow> performance_report result" where
  "build_performance_report getenv buy_cost sell_cost fills =
     (let buy_bps = (case buy_cost of None \<Rightarrow> fst (cost_bps_from_env getenv) | Some x \<Rightarrow> x);
          sell_bps = (case sell_cost of None \<Rightarrow> snd (cost_bps_from_env getenv) | Some x \<Rightarrow> x)
      in guard_else (flt buy_bps (Fin 0) \<or> flt sell_bps (Fin 0)) (ValueError ''cost bps must be non-negative'')
         (rbind (report_fills buy_bps sell_bps (sort_key fill_order fills) no_performance) (summarize buy_bps sell_bps)))"

definition performance_report_from_database :: "(string \<Rightarrow> string option) \<Rightarrow> db \<Rightarrow> performance_report result" where
  "performance_report_from_database getenv d = build_performance_report getenv None None (fill_history d)"

section \<open>The day's result\<close>

definition as_aware_kst :: "datetime \<Rightarrow> datetime" where
  "as_aware_kst v = (if dt_tz v = None then v\<lparr>dt_tz := Some KST\<rparr> else astimezone_kst v)"

text \<open>When a review flag was last written as \<open>false\<close> by a reconciliation of the same day, not after \<open>now\<close>.\<close>

definition reconciled_at :: "db \<Rightarrow> datetime \<Rightarrow> string \<Rightarrow> datetime option" where
  "reconciled_at d now key = (case fetchone (\<lambda>r. md_key r = key) (runtime_metadata d) of None \<Rightarrow> None
     | Some r \<Rightarrow> if lower (md_value r) \<noteq> ''false'' then None
         else (case fromisoformat (md_updated_at r) of None \<Rightarrow> None
           | Some t \<Rightarrow> let at_kst = as_aware_kst t in
               if date_key at_kst \<noteq> date_key now \<or> utc_us now < utc_us at_kst then None else Some at_kst))"

definition reconciled_through :: "db \<Rightarrow> datetime \<Rightarrow> int option" where
  "reconciled_through d now = (case (reconciled_at d now ''operator_review'', reconciled_at d now ''block_new_entries'') of
      (Some a, Some b) \<Rightarrow> Some (min (utc_us a) (utc_us b)) | _ \<Rightarrow> None)"

definition part_pnl :: "pyfloat \<Rightarrow> pyfloat \<Rightarrow> pyfloat \<Rightarrow> lot \<times> int \<Rightarrow> pyfloat" where
  "part_pnl buy_bps sell_bps price part = (case part of (l, matched) \<Rightarrow>
     let buy_notional = fmul (lo_price l) (f_int matched); sell_notional = fmul price (f_int matched)
     in fsub (fsub (fsub sell_notional buy_notional) (bps_of buy_notional buy_bps)) (bps_of sell_notional sell_bps))"

definition fill_instant :: "datetime \<Rightarrow> int \<Rightarrow> broker_fill \<Rightarrow> datetime option" where
  "fill_instant now through f = (if \<not> valid_fill f then None
     else case fromisoformat (bf_filled_at f) of None \<Rightarrow> None
       | Some t \<Rightarrow> let filled = as_aware_kst t in
           if utc_us now < utc_us filled \<or> through < utc_us filled then None else Some filled)"

definition realize_fill :: "pyfloat \<Rightarrow> pyfloat \<Rightarrow> datetime \<Rightarrow> int \<Rightarrow> fill_view \<Rightarrow> lot_inventory \<times> pyfloat \<Rightarrow> (lot_inventory \<times> pyfloat) option" where
  "realize_fill buy_bps sell_bps now through v s = (case s of (lots, realized) \<Rightarrow>
     (case fill_instant now through (fv_fill v) of None \<Rightarrow> None
      | Some filled \<Rightarrow> map_option (\<lambda>(parts, lots'). (lots',
            if bf_side (fv_fill v) = SELL \<and> date_key filled = date_key now
            then fadd realized (fsum (map (part_pnl buy_bps sell_bps (bf_price (fv_fill v))) parts)) else realized)) (fifo_step v lots)))"

fun realize_fills :: "pyfloat \<Rightarrow> pyfloat \<Rightarrow> datetime \<Rightarrow> int \<Rightarrow> fill_view list \<Rightarrow> lot_inventory \<times> pyfloat \<Rightarrow> (lot_inventory \<times> pyfloat) option" where
  "realize_fills buy_bps sell_bps now through [] s = Some s"
| "realize_fills buy_bps sell_bps now through (v # vs) s =
     (case realize_fill buy_bps sell_bps now through v s of None \<Rightarrow> None | Some s' \<Rightarrow> realize_fills buy_bps sell_bps now through vs s')"

definition calculate_local_daily_realized_pnl :: "(string \<Rightarrow> string option) \<Rightarrow> db \<Rightarrow> datetime \<Rightarrow> pyfloat option" where
  "calculate_local_daily_realized_pnl getenv d now_value =
     (let now = as_aware_kst now_value; (buy_bps, sell_bps) = cost_bps_from_env getenv in
      case reconciled_through d now of None \<Rightarrow> None
      | Some through \<Rightarrow> map_option (\<lambda>(lots, realized). round10 realized)
          (realize_fills buy_bps sell_bps now through (fill_history d) (\<lambda>s. [], Fin 0)))"

section \<open>The risk view\<close>

record risk_snapshot =
  rs_portfolio :: portfolio_state
  rs_unknown_fields :: "string list"
  rs_broker_orders_today :: nat
  rs_broker_fills_today :: nat
  rs_orderable_cash :: "pyfloat option"

definition fail_closed :: "risk_snapshot \<Rightarrow> bool" where
  "fail_closed v = (rs_unknown_fields v \<noteq> [])"

definition can_enter :: "risk_snapshot \<Rightarrow> bool" where
  "can_enter v = (\<not> fail_closed v)"

definition on_day :: "nat \<times> nat \<times> nat \<Rightarrow> string \<Rightarrow> bool" where
  "on_day day text = (case fromisoformat text of None \<Rightarrow> False | Some t \<Rightarrow> date_key (as_aware_kst t) = day)"

definition orders_for_day :: "db \<Rightarrow> nat \<times> nat \<times> nat \<Rightarrow> broker_order list" where
  "orders_for_day d day = filter (\<lambda>r. on_day day (bo_created_at r)) (sort_key bo_created_at (broker_orders d))"

definition fills_for_day :: "db \<Rightarrow> nat \<times> nat \<times> nat \<Rightarrow> broker_fill list" where
  "fills_for_day d day = filter (\<lambda>f. on_day day (bf_filled_at f)) (sort_key bf_filled_at (broker_fills d))"

definition consecutive_losses :: "(string \<Rightarrow> string option) \<Rightarrow> db \<Rightarrow> nat option result" where
  "consecutive_losses getenv d = (case build_performance_report getenv None None (fill_history d) of
      Inl (ValueError m) \<Rightarrow> Inr None
    | Inl e \<Rightarrow> Inl e
    | Inr report \<Rightarrow> Inr (Some (length (takeWhile (\<lambda>x. flt x (Fin 0)) (rev (pr_outcomes report))))))"

type_synonym position_view = "pyfloat \<times> string list \<times> position_state list"

definition add_position :: "account_position \<Rightarrow> position_view \<Rightarrow> position_view result" where
  "add_position p s = (case s of (exposure, unknown, positions) \<Rightarrow>
     let u1 = (case kp_avg_price p of None \<Rightarrow> unknown @ [''position:'' @ kp_symbol p @ ''.average_price''] | Some x \<Rightarrow> unknown);
         avg = (case kp_avg_price p of None \<Rightarrow> Fin 0 | Some x \<Rightarrow> x);
         row = \<lparr>ps_symbol = kp_symbol p, ps_quantity = kp_qty p, ps_avg_price = avg, ps_stop_loss = None\<rparr>
     in (case kp_current_price p of
           None \<Rightarrow> Inr (exposure, u1 @ [''position:'' @ kp_symbol p @ ''.current_price''], positions @ [row])
         | Some price \<Rightarrow> rbind (float_operand (kp_qty p)) (\<lambda>q. Inr (fadd exposure (fmul q price), u1, positions @ [row]))))"

fun add_positions :: "account_position list \<Rightarrow> position_view \<Rightarrow> position_view result" where
  "add_positions [] s = Inr s"
| "add_positions (p # ps) s = rbind (add_position p s) (add_positions ps)"

text \<open>\<open>KisRealizedPnlSnapshot | float | None\<close>; the buying power snapshot is given by its cash.\<close>

datatype pnl_source = PNL_MISSING | PNL_SNAPSHOT "pyfloat option" | PNL_NUMBER pyfloat

fun given_pnl :: "pnl_source \<Rightarrow> pyfloat option" where
  "given_pnl PNL_MISSING = None"
| "given_pnl (PNL_SNAPSHOT x) = x"
| "given_pnl (PNL_NUMBER x) = Some x"

definition note_unknown :: "'a option \<Rightarrow> string \<Rightarrow> string list" where
  "note_unknown v name = (case v of None \<Rightarrow> [name] | Some _ \<Rightarrow> [])"

fun count_symbols :: "string list \<Rightarrow> (string \<times> int) list \<Rightarrow> (string \<times> int) list" where
  "count_symbols [] t = t"
| "count_symbols (s # ss) t = count_symbols ss (AList.update s ((case map_of t s of None \<Rightarrow> 0 | Some n \<Rightarrow> n) + 1) t)"

definition build_portfolio_risk_snapshot ::
  "(string \<Rightarrow> string option) \<Rightarrow> account_snapshot \<Rightarrow> db \<Rightarrow> datetime \<Rightarrow> pyfloat option option \<Rightarrow> pnl_source \<Rightarrow> risk_snapshot result" where
  "build_portfolio_risk_snapshot getenv account d timestamp buying_power realized_pnl =
     rbind (add_positions (an_positions account) (Fin 0, [], [])) (\<lambda>(exposure, unknown, positions).
     (let cash = (case buying_power of Some c \<Rightarrow> c | None \<Rightarrow> ks_orderable_cash (an_summary account));
          daily = (case given_pnl realized_pnl of Some x \<Rightarrow> Some x | None \<Rightarrow> calculate_local_daily_realized_pnl getenv d timestamp)
      in rbind (consecutive_losses getenv d) (\<lambda>losses.
         let day = date_key (as_aware_kst timestamp); orders = orders_for_day d day; fills = fills_for_day d day in
         Inr \<lparr>rs_portfolio = \<lparr>pf_current_exposure_krw = exposure, pf_open_positions = positions,
               pf_daily_pnl_krw = (case daily of None \<Rightarrow> Fin 0 | Some x \<Rightarrow> x),
               pf_consecutive_losses = (case losses of None \<Rightarrow> 0 | Some n \<Rightarrow> int n), pf_trades_today = int (length orders),
               pf_orders_by_symbol = count_symbols (map bo_symbol orders) []\<rparr>,
             rs_unknown_fields = unknown @ note_unknown cash ''orderable_cash'' @ note_unknown daily ''daily_pnl'' @ note_unknown losses ''consecutive_losses'',
             rs_broker_orders_today = length orders, rs_broker_fills_today = length fills, rs_orderable_cash = cash\<rparr>)))"

definition validate_entry_budget :: "pyfloat \<Rightarrow> int \<Rightarrow> pyfloat option \<Rightarrow> pyfloat \<Rightarrow> bool result" where
  "validate_entry_budget requested_price quantity orderable_cash allocated_cap = (case orderable_cash of None \<Rightarrow> Inr False
     | Some cash \<Rightarrow>
       if fle requested_price (Fin 0) \<or> quantity \<le> 0 \<or> fle allocated_cap (Fin 0) \<or> flt cash (Fin 0) then Inr False
       else rbind (float_operand quantity) (\<lambda>q. let amount = fmul requested_price q in Inr (fle amount cash \<and> fle amount allocated_cap)))"

section \<open>Matching covers every sale\<close>

definition lots_held :: "lot list \<Rightarrow> int" where
  "lots_held ls = sum_list (map lo_quantity ls)"

definition stocked :: "lot list \<Rightarrow> bool" where
  "stocked ls = list_all (\<lambda>l. 0 < lo_quantity l) ls"

lemma lots_held_nonneg: "stocked ls \<Longrightarrow> 0 \<le> lots_held ls"
  by (induction ls) (auto simp: lots_held_def stocked_def)

text \<open>A sale is filled exactly when the lots hold enough; it takes its whole quantity off them.\<close>

lemma take_lots_iff:
  "stocked ls \<Longrightarrow> 0 \<le> r \<Longrightarrow> (case take_lots r ls of None \<Rightarrow> lots_held ls < r
     | Some (ms, rest) \<Rightarrow> r \<le> lots_held ls \<and> stocked rest \<and> lots_held rest = lots_held ls - r \<and> sum_list (map snd ms) = r)"
proof (induction r ls rule: take_lots.induct)
  case (1 r)
  then show ?case by (simp add: lots_held_def stocked_def)
next
  case (2 r l ls)
  have l: "0 < lo_quantity l" "stocked ls" using 2(3) by (simp_all add: stocked_def)
  consider "r = 0" | "r \<noteq> 0" "lo_quantity l \<le> r" | "r \<noteq> 0" "r < lo_quantity l" by linarith
  then show ?case
  proof cases
    case 1
    then show ?thesis using 2(3) lots_held_nonneg [OF 2(3)] by simp
  next
    case c: 2
    then have m: "min r (lo_quantity l) = lo_quantity l" by simp
    have "case take_lots (r - lo_quantity l) ls of None \<Rightarrow> lots_held ls < r - lo_quantity l
     | Some (ms, rest) \<Rightarrow> r - lo_quantity l \<le> lots_held ls \<and> stocked rest \<and> lots_held rest = lots_held ls - (r - lo_quantity l) \<and> sum_list (map snd ms) = r - lo_quantity l"
      using 2(1) [OF c(1) refl m l(2), unfolded m] c by simp
    with c m show ?thesis by (auto simp: lots_held_def Let_def split: option.splits)
  next
    case c: 3
    then have "min r (lo_quantity l) = r" by simp
    with c l show ?thesis using 2(4) lots_held_nonneg [OF l(2)] by (simp add: Let_def lots_held_def stocked_def)
  qed
qed

definition signed_fill :: "string \<Rightarrow> fill_view \<Rightarrow> int" where
  "signed_fill symbol v = (if bf_symbol (fv_fill v) \<noteq> symbol then 0
     else case bf_side (fv_fill v) of BUY \<Rightarrow> bf_quantity (fv_fill v) | SELL \<Rightarrow> - bf_quantity (fv_fill v))"

definition net_bought :: "string \<Rightarrow> fill_view list \<Rightarrow> int" where
  "net_bought symbol vs = sum_list (map (signed_fill symbol) vs)"

text \<open>No sale goes beyond what was bought before it, counted from an inventory.\<close>

definition covered_from :: "lot_inventory \<Rightarrow> fill_view list \<Rightarrow> bool" where
  "covered_from lots vs = (\<forall>k symbol. 0 \<le> lots_held (lots symbol) + net_bought symbol (take k vs))"

definition all_stocked :: "lot_inventory \<Rightarrow> bool" where
  "all_stocked lots = (\<forall>symbol. stocked (lots symbol))"

lemma covered_from_Cons:
  assumes "all_stocked lots" "\<And>symbol. lots_held (lots' symbol) = lots_held (lots symbol) + signed_fill symbol v"
  shows "covered_from lots (v # vs) = covered_from lots' vs"
proof
  assume c: "covered_from lots (v # vs)"
  show "covered_from lots' vs" unfolding covered_from_def
  proof (intro allI)
    fix k symbol
    from c have "0 \<le> lots_held (lots symbol) + net_bought symbol (take (Suc k) (v # vs))" unfolding covered_from_def by blast
    then show "0 \<le> lots_held (lots' symbol) + net_bought symbol (take k vs)" using assms(2) by (simp add: net_bought_def)
  qed
next
  assume c: "covered_from lots' vs"
  show "covered_from lots (v # vs)" unfolding covered_from_def
  proof (intro allI)
    fix k symbol
    show "0 \<le> lots_held (lots symbol) + net_bought symbol (take k (v # vs))"
    proof (cases k)
      case 0
      then show ?thesis using assms(1) lots_held_nonneg by (simp add: all_stocked_def net_bought_def)
    next
      case (Suc j)
      from c have "0 \<le> lots_held (lots' symbol) + net_bought symbol (take j vs)" unfolding covered_from_def by blast
      with Suc assms(2) show ?thesis by (simp add: net_bought_def)
    qed
  qed
qed

lemma fifo_step_iff:
  assumes "all_stocked lots" "valid_fill (fv_fill v)"
  shows "case fifo_step v lots of None \<Rightarrow> \<not> covered_from lots [v]
    | Some (ms, lots') \<Rightarrow> all_stocked lots' \<and> (\<forall>symbol. lots_held (lots' symbol) = lots_held (lots symbol) + signed_fill symbol v)"
proof (cases "bf_side (fv_fill v)")
  case BUY
  have "0 < bf_quantity (fv_fill v)" using assms(2) by (simp add: valid_fill_def)
  with BUY assms(1) show ?thesis
    by (auto simp: fifo_step_def Let_def all_stocked_def stocked_def lot_of_def lots_held_def signed_fill_def)
next
  case SELL
  let ?s = "bf_symbol (fv_fill v)" and ?q = "bf_quantity (fv_fill v)"
  have q: "0 \<le> ?q" using assms(2) by (simp add: valid_fill_def)
  note t = take_lots_iff [of "lots ?s" ?q, OF _ q]
  show ?thesis
  proof (cases "take_lots ?q (lots ?s)")
    case None
    then have "lots_held (lots ?s) < ?q" using t assms(1) by (simp add: all_stocked_def)
    then have "\<not> 0 \<le> lots_held (lots ?s) + net_bought ?s (take 1 [v])" using SELL by (simp add: net_bought_def signed_fill_def)
    then have "\<not> covered_from lots [v]" unfolding covered_from_def by blast
    with None SELL show ?thesis by (simp add: fifo_step_def Let_def)
  next
    case (Some x)
    then show ?thesis using t assms(1) SELL
      by (cases x) (auto simp: fifo_step_def Let_def all_stocked_def signed_fill_def)
  qed
qed

lemma covered_head: "covered_from lots (v # vs) \<Longrightarrow> covered_from lots [v]"
  unfolding covered_from_def
proof (intro allI)
  fix k symbol
  assume c: "\<forall>k symbol. 0 \<le> lots_held (lots symbol) + net_bought symbol (take k (v # vs))"
  have "take k [v] = take (min k 1) (v # vs)" by (cases k) auto
  with c show "0 \<le> lots_held (lots symbol) + net_bought symbol (take k [v])" by metis
qed

lemma report_fills_iff:
  "all_stocked (pe_lots p) \<Longrightarrow> (case report_fills b s vs p of
     Inl e \<Rightarrow> \<not> (list_all (\<lambda>v. valid_fill (fv_fill v)) vs \<and> covered_from (pe_lots p) vs)
   | Inr p' \<Rightarrow> list_all (\<lambda>v. valid_fill (fv_fill v)) vs \<and> covered_from (pe_lots p) vs
       \<and> (\<forall>symbol. lots_held (pe_lots p' symbol) = lots_held (pe_lots p symbol) + net_bought symbol vs))"
proof (induction vs arbitrary: p)
  case Nil
  then show ?case using lots_held_nonneg by (simp add: covered_from_def net_bought_def all_stocked_def)
next
  case (Cons v vs)
  show ?case
  proof (cases "valid_fill (fv_fill v)")
    case False
    then show ?thesis by (simp add: report_fill_def)
  next
    case True
    note step = fifo_step_iff [OF Cons.prems True]
    show ?thesis
    proof (cases "fifo_step v (pe_lots p)")
      case None
      with step have "\<not> covered_from (pe_lots p) (v # vs)" using covered_head by auto
      with None True show ?thesis by (simp add: report_fill_def)
    next
      case (Some x)
      obtain ms lots' where x: "x = (ms, lots')" by (cases x)
      from step Some x have lots': "all_stocked lots'" and eq: "\<And>symbol. lots_held (lots' symbol) = lots_held (pe_lots p symbol) + signed_fill symbol v"
        by auto
      let ?p = "(fold (close_part b s (bf_price (fv_fill v))) ms p)\<lparr>pe_lots := lots'\<rparr>"
      have run: "report_fills b s (v # vs) p = report_fills b s vs ?p" using Some x True by (simp add: report_fill_def)
      from Cons.IH [of ?p] lots' covered_from_Cons [OF Cons.prems eq, of vs] eq True show ?thesis
        unfolding run by (auto simp: net_bought_def split: sum.splits)
    qed
  qed
qed

text \<open>
  (C25) FIFO matching accepts exactly the covered histories. The report runs through a list of fills without an error if and only if every row is valid and, at every
  point of the list, no symbol has been sold beyond what was bought before; and then the lots left over hold, for every symbol, what was
  bought less what was sold. Cost rates have no influence.
\<close>

theorem fifo_accepts_covered:
  "case report_fills buy_bps sell_bps vs no_performance of
     Inl e \<Rightarrow> \<not> (list_all (\<lambda>v. valid_fill (fv_fill v)) vs \<and> list_all (\<lambda>k. \<forall>symbol. 0 \<le> net_bought symbol (take k vs)) [0..<Suc (length vs)])
   | Inr p \<Rightarrow> list_all (\<lambda>v. valid_fill (fv_fill v)) vs \<and> list_all (\<lambda>k. \<forall>symbol. 0 \<le> net_bought symbol (take k vs)) [0..<Suc (length vs)]
       \<and> (\<forall>symbol. sum_list (map lo_quantity (pe_lots p symbol)) = net_bought symbol vs)"
proof -
  have "covered_from (\<lambda>s. []) vs = list_all (\<lambda>k. \<forall>symbol. 0 \<le> net_bought symbol (take k vs)) [0..<Suc (length vs)]"
    (is "?all = ?upto")
  proof
    assume ?all
    then show ?upto by (simp add: covered_from_def lots_held_def list_all_iff)
  next
    assume u: ?upto
    have "0 \<le> net_bought symbol (take k vs)" for k symbol
    proof -
      have "min k (length vs) \<in> set [0..<Suc (length vs)]" by auto
      with u have "0 \<le> net_bought symbol (take (min k (length vs)) vs)" unfolding list_all_iff by blast
      then show ?thesis by (cases "k \<le> length vs") simp_all
    qed
    then show ?all by (simp add: covered_from_def lots_held_def)
  qed
  moreover have "all_stocked (pe_lots no_performance)" by (simp add: all_stocked_def no_performance_def stocked_def)
  moreover have "lots_held (pe_lots no_performance s) = 0" "pe_lots no_performance = (\<lambda>s. [])" for s by (simp_all add: no_performance_def lots_held_def)
  ultimately show ?thesis using report_fills_iff [where p = no_performance and b = buy_bps and s = sell_bps and vs = vs] by (auto simp: lots_held_def split: sum.splits)
qed

section \<open>What an open view rests on\<close>

lemma strip_false:
  assumes "lower v = ''false''"
  shows "strip v = v"
proof -
  have "\<not> is_space_char c" if "c \<in> set v" for c
  proof
    assume sp: "is_space_char c"
    then have "\<not> is_upper_char c" by (auto simp: is_space_char_def is_upper_char_def Let_def)
    with that have "c \<in> set (lower v)" by (force simp: lower_def)
    with assms sp show False by (auto simp: is_space_char_def ch_code_def)
  qed
  then have "dropWhile is_space_char v = v" "dropWhile is_space_char (rev v) = rev v" by (auto simp: dropWhile_eq_self_iff hd_rev)
  then show ?thesis by (simp add: strip_def lstrip_def)
qed

lemma reconciled_flag:
  assumes "reconciled_at d now key = Some t"
  shows "\<not> flag key d \<and> date_key t = date_key now \<and> utc_us t \<le> utc_us now"
proof -
  from assms obtain r where r: "fetchone (\<lambda>r. md_key r = key) (runtime_metadata d) = Some r" "lower (md_value r) = ''false''"
    and t: "date_key t = date_key now" "\<not> utc_us now < utc_us t"
    by (auto simp: reconciled_at_def Let_def split: option.splits if_splits)
  from r strip_false [OF r(2)] have "\<not> flag key d" by (simp add: flag_def metadata_value_def is_true_def)
  with t show ?thesis by simp
qed

lemma realized_instants:
  "realize_fills b s now through vs x = Some y \<Longrightarrow> list_all (\<lambda>v. fill_instant now through (fv_fill v) \<noteq> None) vs"
  by (induction vs arbitrary: x) (auto simp: realize_fill_def split: option.splits prod.splits)

lemma instant_bound:
  assumes "fill_instant now through f \<noteq> None"
  shows "\<exists>t. fromisoformat (bf_filled_at f) = Some t \<and> utc_us (as_aware_kst t) \<le> utc_us now \<and> utc_us (as_aware_kst t) \<le> through"
  using assms by (auto simp: fill_instant_def Let_def split: if_splits option.splits)

text \<open>A day's result that was computed from the ledger: the flags it trusted and the fills it saw.\<close>

definition ledger_trusted :: "db \<Rightarrow> datetime \<Rightarrow> bool" where
  "ledger_trusted d now = (\<not> flag ''operator_review'' d \<and> \<not> flag ''block_new_entries'' d
     \<and> (case (reconciled_at d now ''operator_review'', reconciled_at d now ''block_new_entries'') of
          (Some a, Some b) \<Rightarrow> date_key a = date_key now \<and> date_key b = date_key now \<and> utc_us a \<le> utc_us now \<and> utc_us b \<le> utc_us now
            \<and> list_all (\<lambda>v. case fromisoformat (bf_filled_at (fv_fill v)) of None \<Rightarrow> False
                | Some t \<Rightarrow> utc_us (as_aware_kst t) \<le> utc_us a \<and> utc_us (as_aware_kst t) \<le> utc_us b) (fill_history d)
        | _ \<Rightarrow> False))"

lemma local_pnl_trusted:
  assumes "calculate_local_daily_realized_pnl getenv d now = Some x"
  shows "ledger_trusted d (as_aware_kst now)"
proof -
  let ?now = "as_aware_kst now"
  from assms obtain through y where th: "reconciled_through d ?now = Some through"
    and run: "realize_fills (fst (cost_bps_from_env getenv)) (snd (cost_bps_from_env getenv)) ?now through (fill_history d) (\<lambda>s. [], Fin 0) = Some y"
    by (auto simp: calculate_local_daily_realized_pnl_def Let_def case_prod_beta split: option.splits)
  from th obtain a b where ab: "reconciled_at d ?now ''operator_review'' = Some a" "reconciled_at d ?now ''block_new_entries'' = Some b"
    "through = min (utc_us a) (utc_us b)" by (auto simp: reconciled_through_def split: option.splits)
  have "case fromisoformat (bf_filled_at (fv_fill v)) of None \<Rightarrow> False
      | Some t \<Rightarrow> utc_us (as_aware_kst t) \<le> utc_us a \<and> utc_us (as_aware_kst t) \<le> utc_us b" if "v \<in> set (fill_history d)" for v
    using realized_instants [OF run] instant_bound [of ?now through "fv_fill v"] that ab(3) by (auto simp: list_all_iff)
  with ab reconciled_flag [OF ab(1)] reconciled_flag [OF ab(2)] show ?thesis by (simp add: ledger_trusted_def list_all_iff)
qed

lemma add_position_unknown:
  "add_positions ps (x, u, q) = Inr (x', u', q') \<Longrightarrow> u' = [] \<Longrightarrow>
     u = [] \<and> list_all (\<lambda>p. kp_avg_price p \<noteq> None \<and> kp_current_price p \<noteq> None) ps"
  by (induction ps arbitrary: x u q) (auto simp: add_position_def rbind_eq_Inr Let_def split: option.splits)

text \<open>
  (C23) A risk view that lets entries pass rests on known figures only. Every position has an average and a current price, the orderable cash is known, the
  day's result is the one the broker gave or one computed from the ledger, in the latter case under flags that a reconciliation of the same
  day cleared, with every fill of the ledger at or before both of them and readable, and the streak of losses comes from a report that succeeded.
\<close>

theorem open_view_is_known:
  assumes "build_portfolio_risk_snapshot getenv account d now buying pnl = Inr v" "can_enter v"
  shows "list_all (\<lambda>p. kp_avg_price p \<noteq> None \<and> kp_current_price p \<noteq> None) (an_positions account)
    \<and> rs_orderable_cash v \<noteq> None
    \<and> (case given_pnl pnl of Some x \<Rightarrow> pf_daily_pnl_krw (rs_portfolio v) = x
       | None \<Rightarrow> calculate_local_daily_realized_pnl getenv d now = Some (pf_daily_pnl_krw (rs_portfolio v)) \<and> ledger_trusted d (as_aware_kst now))
    \<and> consecutive_losses getenv d = Inr (Some (nat (pf_consecutive_losses (rs_portfolio v))))"
proof -
  from assms(1) obtain exposure unknown positions where pos: "add_positions (an_positions account) (Fin 0, [], []) = Inr (exposure, unknown, positions)"
    by (auto simp: build_portfolio_risk_snapshot_def rbind_eq_Inr)
  let ?cash = "case buying of Some c \<Rightarrow> c | None \<Rightarrow> ks_orderable_cash (an_summary account)"
  let ?daily = "case given_pnl pnl of Some x \<Rightarrow> Some x | None \<Rightarrow> calculate_local_daily_realized_pnl getenv d now"
  from assms(1) pos obtain losses where l: "consecutive_losses getenv d = Inr losses"
    and v: "rs_unknown_fields v = unknown @ note_unknown ?cash ''orderable_cash'' @ note_unknown ?daily ''daily_pnl'' @ note_unknown losses ''consecutive_losses''"
      "rs_orderable_cash v = ?cash" "pf_daily_pnl_krw (rs_portfolio v) = (case ?daily of None \<Rightarrow> Fin 0 | Some x \<Rightarrow> x)"
      "pf_consecutive_losses (rs_portfolio v) = (case losses of None \<Rightarrow> 0 | Some n \<Rightarrow> int n)"
    by (auto simp: build_portfolio_risk_snapshot_def Let_def rbind_eq_Inr)
  have known: "z \<noteq> None" if "note_unknown z name = []" for z :: "'z option" and name
    using that by (cases z) (simp_all add: note_unknown_def)
  from assms(2) v(1) have none: "unknown = []" "note_unknown ?cash ''orderable_cash'' = []" "note_unknown ?daily ''daily_pnl'' = []"
    "note_unknown losses ''consecutive_losses'' = []" by (simp_all add: can_enter_def fail_closed_def)
  from add_position_unknown [OF pos none(1)] have "list_all (\<lambda>p. kp_avg_price p \<noteq> None \<and> kp_current_price p \<noteq> None) (an_positions account)" by simp
  moreover have "rs_orderable_cash v \<noteq> None" using known [OF none(2)] v(2) by simp
  moreover have "case given_pnl pnl of Some x \<Rightarrow> pf_daily_pnl_krw (rs_portfolio v) = x
       | None \<Rightarrow> calculate_local_daily_realized_pnl getenv d now = Some (pf_daily_pnl_krw (rs_portfolio v)) \<and> ledger_trusted d (as_aware_kst now)"
    using known [OF none(3)] v(3) local_pnl_trusted [of getenv d now] by (auto split: option.splits)
  moreover have "consecutive_losses getenv d = Inr (Some (nat (pf_consecutive_losses (rs_portfolio v))))"
    using known [OF none(4)] v(4) l by auto
  ultimately show ?thesis by blast
qed

text \<open>An account without positions on an empty ledger, with a day's result from the broker.\<close>

theorem open_view_is_known_witness:
  "\<exists>v. build_portfolio_risk_snapshot (\<lambda>n. None) \<lparr>an_positions = [], an_summary = parse_account_summary []\<rparr> empty_db sample_time (Some (Some (Fin 1000)))
       (PNL_NUMBER (Fin 7)) = Inr v \<and> can_enter v \<and> pf_daily_pnl_krw (rs_portfolio v) = Fin 7"
proof -
  let ?a = "\<lparr>an_positions = [], an_summary = parse_account_summary []\<rparr>"
  have "fill_history empty_db = []" by (simp add: fill_history_def empty_db_def)
  then have "consecutive_losses (\<lambda>n. None) empty_db = Inr (Some 0)"
    by (simp add: consecutive_losses_def build_performance_report_def Let_def cost_bps_from_env_def env_bps_def summarize_def no_performance_def profit_factor_def)
  then obtain v where run: "build_portfolio_risk_snapshot (\<lambda>n. None) ?a empty_db sample_time (Some (Some (Fin 1000))) (PNL_NUMBER (Fin 7)) = Inr v"
    and open_view: "can_enter v"
    by (simp add: build_portfolio_risk_snapshot_def Let_def can_enter_def fail_closed_def note_unknown_def)
  from open_view_is_known [OF run open_view] have "pf_daily_pnl_krw (rs_portfolio v) = Fin 7" by simp
  with run open_view show ?thesis by blast
qed

end
