(* ===== verification/Spec2Isabelle.thy ===== *)
theory Spec2Isabelle
  imports SafetyGate ExitPolicy RiskEngine PositionManager OrderState SignalLedger PaperLedger PaperStore CompletedBars Features OrderManagement OrderClient AutoTrade FillNotices OrderSupervisor RiskSnapshot
begin

text \<open>
  A verification library for the trading core of \<open>kis_ai_scalper\<close>: a Python service that scalps Korean stocks through the KIS broker
  interface, with an AI that proposes entries, a deterministic risk and safety layer around it, and a SQLite ledger that survives restarts.

  \<^bold>\<open>The parts and how they interact.\<close> Ticks are stored and aggregated into one-minute bars (\<open>market/\<close>); features and candidate
  rules (\<open>indicators/\<close>, \<open>strategies/\<close>) feed the AI (\<open>ai/\<close>). A trading cycle (\<open>pipeline/auto_trade.py\<close>) first exits open positions, then executes
  approved entries or asks the AI for new ones, sizes them (\<open>risk/\<close>), and submits through the write-ahead ledger (\<open>storage/database.py\<close>) and
  the safety gate (\<open>execution/guarded_submitter.py\<close>) to the order client (\<open>broker/\<close>). Beside it a supervisor reconciles the ledger
  with the broker (\<open>pipeline/broker_reconciliation.py\<close>) and cancels stale orders (\<open>pipeline/order_management.py\<close>), a stream of fill notices
  updates it, and an operator approves, pauses and switches environments through Telegram. All of them meet in the database: the ledger tables,
  the metadata flags \<open>operator_review\<close> and \<open>block_new_entries\<close>, the pause switch, the service lease and the approval requests.

  \<^bold>\<open>The theories.\<close>
  \<^item> \<open>Prelude\<close>, \<open>PyFloat\<close>, \<open>PyDecimal\<close>, \<open>PyTime\<close>, \<open>Json\<close>, \<open>Sha256\<close>: the parts of Python and SQLite the program stands on: exceptions as
    values of \<open>exc\<close> in \<open>'a result\<close>, byte strings, binary64 and 28-digit decimal arithmetic, datetimes with their text form,
    \<open>json.loads\<close>/\<open>dumps\<close>, SHA-256, and the four statement shapes on tables.
  \<^item> \<open>Storage\<close>, \<open>OrderLedger\<close>, \<open>RuntimeStore\<close>, \<open>Approvals\<close>, \<open>MarketStore\<close>, \<open>PaperStore\<close>: \<open>storage/database.py\<close>. A table is a list of rows in rowid
    order, an operation a function from the database to a result and a database, a transaction that raises leaves it unchanged.
  \<^item> \<open>KisHttp\<close>, \<open>KisOrder\<close>, \<open>OrderStatus\<close>, \<open>AccountClient\<close>, \<open>OrderClient\<close>, \<open>MarketRules\<close>: the clients of \<open>broker/\<close>, on a session that is a parameter.
  \<^item> \<open>Schedule\<close>, \<open>MarketBars\<close>, \<open>CompletedBars\<close>, \<open>Features\<close>: \<open>market/\<close>, \<open>indicators/\<close> and \<open>strategies/candidate.py\<close>.
  \<^item> \<open>RiskEngine\<close>, \<open>SafetyGate\<close>, \<open>ExitPolicy\<close>, \<open>PositionManager\<close>, \<open>OrderState\<close>, \<open>SignalLedger\<close>, \<open>PaperLedger\<close>: \<open>risk/\<close>, \<open>execution/\<close>, \<open>paper/\<close>;
    \<open>RiskSnapshot\<close>: \<open>risk/portfolio_snapshot.py\<close> and the net results of \<open>ops/performance.py\<close>.
  \<^item> \<open>AiBudget\<close>, \<open>AiDecision\<close>: \<open>ai/reliable.py\<close> and \<open>ai/decision.py\<close>.
  \<^item> \<open>Submission\<close>, \<open>AutoTrade\<close>, \<open>Reconcile\<close>, \<open>OrderManagement\<close>, \<open>FillNotices\<close>: \<open>pipeline/\<close>, with the notice frames of
    \<open>broker/kis_fill_notice.py\<close>; \<open>OrderSupervisor\<close>: \<open>ops/order_supervisor.py\<close>, the daemon that runs reconciliation, the operator's cancel request and
    order management on one view of the broker. Here the state is the database together with an arbitrary
    world: whatever leaves the process (broker, AI, clock, messages) is a function on that world, and in the trading cycle also on the database, since
    other processes write meanwhile. Theorems hold for all such functions.

  \<^bold>\<open>What is shown.\<close> Per order: a client order id is claimed once, is in the ledger before the submitter is called, reaches the
  submitter once, whose answer settles its row unless the order number is blank, and one submission posts once; a cancel is acknowledged once. Per fill: it is counted once and never beyond the requested quantity, and
  positions equal the applied fills in every reachable ledger; a fill notice is counted once, and applying one never raises. Around the broker: the gate calls the submitter exactly when
  its specification allows it; reconciliation raises the flags exactly when it found a reason and keeps the books; a supervisor pass never raises and releases entries only when both
  the ledger and the broker's answers agree, serves an operator's cancel request once and on open BUY orders only, and its daemon ends once it is told to stop; paged reads are complete or raise;
  a risk view without unknown fields rests on known figures; no secret survives in an error text. Around the AI: a BUY carries a deterministic risk plan, requests are budgeted and end. Around the
  operator: leases are exclusive, approvals are consumed once and executed on the approved terms only. Around the cycle: every symbol is
  reported once and asked about at most once, and only permitted requests reach the submitter. Routines are shown equivalent to reference definitions (bar building, completed
  bars, risk gate, safety gate, FIFO matching of fills), prices are bounded (tick grid, exit plan, size), and encodings read back.

  \<^bold>\<open>Interfaces.\<close> Locales state what a client may rely on: \<open>rounding\<close> (laws of float rounding, interpreted on \<open>rnd64\<close>), \<open>exclusive_lease\<close>,
  \<open>progress\<close> (a rank no step lowers, for approvals), \<open>paged_read\<close> (order list and account snapshot), \<open>ledger_client\<close> (what is kept by every
  program that changes the database through ledger operations, interpreted for the books and for the control tables), \<open>marker_client\<close> (programs that
  only move orders and write metadata) and \<open>supervisor_client\<close>, which gives both. Frame and result properties of composed operations follow from rule collections along their structure: \<open>preserves_rules\<close>,
  \<open>returns_rules\<close>, \<open>mirror_rules\<close>, \<open>same_rules\<close>. Calls that leave the process are counted where they are received: the submitter and the AI
  client note every call in the world.

  \<^bold>\<open>Bounds and choices.\<close> Strings are lists of UTF-8 bytes with the ASCII part of Python's character classes. Floats are rationals rounded to binary64;
  the sign of zero is not kept. \<open>sum()\<close> adds from the left. SQLite compares timestamps as text, and lease times through \<open>julianday\<close> with
  millisecond resolution, exact where SQLite rounds in doubles. An operation of the database is one atomic step, also where the code reads before its first
  write opens the transaction (\<open>materialize_order_fills\<close>, \<open>set_runtime_environment\<close>); the REAL sum of an aggregate query is a parameter, since SQLite does not fix its order. Loops of the code are total functions: page
  loops recurse on the page limit, retries on the attempts left, the JSON reader on fuel equal to the length of the text, which it cannot exhaust. The supervisor's endless loop
  runs on fuel; one more pass than the pauses left before the stop event is enough. Time-outs
  and sleeping are effects on the world.

  \<^bold>\<open>What is not modelled.\<close> The command line (\<open>cli.py\<close>), the Telegram bot, WebSocket and HTTP transport, token caching, configuration files and
  health checks are I/O around the core; the rehearsal pipelines (dry run, shadow and paper sessions) repeat the modelled logic on
  recorded data. The wording of messages and prompts is not modelled. The components list of the manifest names each part with its reason.
\<close>

end
